(* ===== verification/Prelude.thy ===== *)
theory Prelude
  imports Main "HOL-Library.Word" "HOL-Library.Char_ord" "HOL-Library.List_Lexorder"
    "HOL-Library.Multiset"
begin

text \<open>
  What every component shares: the types that stand for the C++ scalars, the string
  helpers of the sources (\<open>trimText\<close>, \<open>shortNameOfRef\<close>, \<open>starts_with\<close> and their kin),
  decimal rendering (\<open>std::to_string\<close>) and the generic facts about lists the component
  proofs reuse. \<open>std::string\<close> is a list of bytes (\<open>char list\<close>); \<open>Char_ord\<close> and
  \<open>List_Lexorder\<close> give it the order of \<open>std::string::operator<\<close> (bytes compared as
  unsigned values, then by length).
\<close>

section \<open>Scalars\<close>

type_synonym uint32 = "32 word"
type_synonym int64 = "64 word"
type_synonym size_t = "64 word"

text \<open>
  \<open>static_cast<int>\<close> of an unsigned 32-bit value: two's complement reinterpretation, as
  every compiler the project supports does (and C++20 demands).
\<close>

definition int_of_u32 :: "uint32 \<Rightarrow> int" where
  "int_of_u32 w = sint w"

section \<open>Named collections of simplification rules\<close>

named_theorems str_simps \<open>facts about the string helpers\<close>
named_theorems err_simps \<open>facts about finding lists\<close>

section \<open>White space and trimming\<close>

text \<open>The four characters of \<open>find_first_not_of(" \t\r\n")\<close>.\<close>

definition is_blank :: "char \<Rightarrow> bool" where
  "is_blank c \<longleftrightarrow> c = CHR '' '' \<or> c = CHR 0x09 \<or> c = CHR 0x0D \<or> c = CHR 0x0A"

definition trimText :: "string \<Rightarrow> string" where
  "trimText s = rev (dropWhile is_blank (rev (dropWhile is_blank s)))"

lemma trimText_Nil [simp]: "trimText [] = []"
  by (simp add: trimText_def)

lemma dropWhile_eq_self: "(\<And>x. x \<in> set xs \<Longrightarrow> \<not> P x) \<Longrightarrow> dropWhile P xs = xs"
  by (cases xs) auto

lemma trimText_no_blank [str_simps]: "(\<forall>c \<in> set s. \<not> is_blank c) \<Longrightarrow> trimText s = s"
proof -
  assume "\<forall>c \<in> set s. \<not> is_blank c"
  then have "dropWhile is_blank s = s" and "dropWhile is_blank (rev s) = rev s"
    by (auto intro!: dropWhile_eq_self)
  then show ?thesis by (simp add: trimText_def)
qed

lemma hd_dropWhile_rev_tail:
  assumes "xs \<noteq> []" and "\<not> P (last xs)" and "\<not> P (hd xs)"
  shows "rev (dropWhile P (rev (dropWhile P xs))) = xs"
proof -
  have "dropWhile P xs = xs" using assms by (cases xs) auto
  moreover have "dropWhile P (rev xs) = rev xs" using assms by (cases xs rule: rev_cases) auto
  ultimately show ?thesis by simp
qed

text \<open>A name the trimmer leaves alone: empty, or with no blank at either end.\<close>

definition trimmed :: "string \<Rightarrow> bool" where
  "trimmed s \<longleftrightarrow> s = [] \<or> (\<not> is_blank (hd s) \<and> \<not> is_blank (last s))"

lemma trimText_trimmed [str_simps]: "trimmed s \<Longrightarrow> trimText s = s"
  by (cases "s = []") (auto simp: trimmed_def trimText_def hd_dropWhile_rev_tail)

lemma trimmed_trimText [simp]: "trimmed (trimText s)"
proof -
  let ?t = "dropWhile is_blank s"
  let ?u = "dropWhile is_blank (rev ?t)"
  show ?thesis
  proof (cases "?u = []")
    case True
    then show ?thesis by (simp add: trimmed_def trimText_def)
  next
    case False
    then have last_ok: "\<not> is_blank (hd ?u)" by (rule hd_dropWhile)
    obtain p where p: "rev ?t = p @ ?u"
      by (metis takeWhile_dropWhile_id)
    then have t: "?t = rev ?u @ rev p" by (metis rev_append rev_rev_ident)
    have ne: "?t \<noteq> []" using False by (metis dropWhile.simps(1) rev.simps(1))
    have "hd (rev ?u @ rev p) = hd (rev ?u)" using False by simp
    then have "hd (rev ?u) = hd ?t" using t by simp
    then have "\<not> is_blank (hd (rev ?u))" using hd_dropWhile [OF ne] by simp
    then show ?thesis
      using last_ok by (simp add: trimmed_def trimText_def last_rev)
  qed
qed

lemma trimText_idem [simp]: "trimText (trimText s) = trimText s"
  by (simp add: trimText_trimmed)

section \<open>References and suffixes\<close>

text \<open>\<open>text.substr(text.rfind('/') + 1)\<close>, or the whole text when there is no slash.\<close>

definition after_last :: "char \<Rightarrow> string \<Rightarrow> string" where
  "after_last c s = rev (takeWhile (\<lambda>x. x \<noteq> c) (rev s))"

definition shortNameOfRef :: "string \<Rightarrow> string" where
  "shortNameOfRef ref = after_last (CHR ''/'') (trimText ref)"

lemma after_last_no_sep: "c \<notin> set s \<Longrightarrow> after_last c s = s"
  unfolding after_last_def by (subst takeWhile_eq_all_conv [THEN iffD2]) auto

lemma after_last_append: "c \<notin> set n \<Longrightarrow> after_last c (p @ c # n) = n"
proof -
  assume "c \<notin> set n"
  then have "takeWhile (\<lambda>x. x \<noteq> c) (rev n @ c # rev p) = rev n"
    by (subst takeWhile_append2) auto
  then show ?thesis by (simp add: after_last_def)
qed

lemma after_last_no_sep_in: "c \<notin> set (after_last c s)"
  unfolding after_last_def by (auto dest: set_takeWhileD)

definition starts_with :: "string \<Rightarrow> string \<Rightarrow> bool" where
  "starts_with s p \<longleftrightarrow> take (length p) s = p"

text \<open>\<open>s.find(p)\<close> and \<open>s.find(p, pos)\<close>; \<open>None\<close> is \<open>npos\<close>.\<close>

fun find_sub :: "string \<Rightarrow> string \<Rightarrow> nat option" where
  "find_sub p [] = (if p = [] then Some 0 else None)"
| "find_sub p (c # s) = (if starts_with (c # s) p then Some 0 else map_option Suc (find_sub p s))"

definition find_from :: "string \<Rightarrow> string \<Rightarrow> nat \<Rightarrow> nat option" where
  "find_from s p pos =
    (if pos > length s then None else map_option (\<lambda>i. pos + i) (find_sub p (drop pos s)))"

lemma starts_with_append [simp]: "starts_with (p @ s) p"
  by (simp add: starts_with_def)

lemma starts_with_nth:
  assumes "starts_with (drop r s) p" and "i < length p"
  shows "r + i < length s \<and> s ! (r + i) = p ! i"
proof -
  have t: "take (length p) (drop r s) = p" using assms(1) by (simp add: starts_with_def)
  then have "length p \<le> length (drop r s)" by (metis length_take min.cobounded1)
  then have l: "r + i < length s" using assms(2) by simp
  have "p ! i = take (length p) (drop r s) ! i" using t by simp
  also have "\<dots> = s ! (r + i)" using assms(2) l by simp
  finally show ?thesis using l by simp
qed

lemma find_sub_Some:
  "find_sub p s = Some i \<Longrightarrow> starts_with (drop i s) p \<and> i + length p \<le> length s
    \<and> (\<forall>j < i. \<not> starts_with (drop j s) p)"
proof (induction s arbitrary: i)
  case Nil
  then show ?case by (simp add: starts_with_def split: if_splits)
next
  case (Cons c s)
  show ?case
  proof (cases "starts_with (c # s) p")
    case True
    then have "length p \<le> length (c # s)"
      by (metis length_take min.cobounded1 starts_with_def)
    then show ?thesis using Cons.prems True by simp
  next
    case False
    then obtain k where "find_sub p s = Some k" and i: "i = Suc k" using Cons.prems by auto
    then show ?thesis using Cons.IH [of k] False by (auto simp: less_Suc_eq_0_disj)
  qed
qed

lemma find_sub_None: "find_sub p s = None \<Longrightarrow> \<not> starts_with (drop i s) p"
proof (induction s arbitrary: i)
  case Nil
  then show ?case by (auto simp: starts_with_def split: if_splits)
next
  case (Cons c s)
  then show ?case by (cases i) (auto split: if_splits)
qed

lemma find_from_Some:
  assumes "find_from s p pos = Some i"
  shows "starts_with (drop i s) p" "pos \<le> i" "i + length p \<le> length s"
    "\<And>j. pos \<le> j \<Longrightarrow> j < i \<Longrightarrow> \<not> starts_with (drop j s) p"
proof -
  obtain k where k: "find_sub p (drop pos s) = Some k" and i: "i = pos + k" and le: "pos \<le> length s"
    using assms by (auto simp: find_from_def split: if_splits)
  from find_sub_Some [OF k]
  show "starts_with (drop i s) p" "pos \<le> i" "i + length p \<le> length s"
    using i le by (auto simp: add.commute)
  fix j
  assume j: "pos \<le> j" "j < i"
  then have "j - pos < k" using i by simp
  then have "\<not> starts_with (drop (j - pos) (drop pos s)) p" using find_sub_Some [OF k] by blast
  then show "\<not> starts_with (drop j s) p" using j by simp
qed

lemma find_from_None:
  assumes "find_from s p pos = None" and "pos \<le> j" and "j \<le> length s"
  shows "\<not> starts_with (drop j s) p"
proof -
  have "find_sub p (drop pos s) = None"
    using assms by (simp add: find_from_def split: if_splits)
  from find_sub_None [OF this, of "j - pos"] show ?thesis using assms(2) by simp
qed

definition ends_with :: "string \<Rightarrow> string \<Rightarrow> bool" where
  "ends_with s p \<longleftrightarrow> length p \<le> length s \<and> drop (length s - length p) s = p"

definition asciiUpperChar :: "char \<Rightarrow> char" where
  "asciiUpperChar c = (if CHR ''a'' \<le> c \<and> c \<le> CHR ''z''
     then char_of (of_char c - 32 :: nat) else c)"

definition asciiUpperCopy :: "string \<Rightarrow> string" where
  "asciiUpperCopy s = map asciiUpperChar s"

text \<open>A name between single quotes, as the messages of the sources write it.\<close>

definition quoted :: "string \<Rightarrow> string" where
  "quoted s = CHR 0x27 # s @ [CHR 0x27]"

section \<open>Decimal rendering\<close>

definition digit_char :: "nat \<Rightarrow> char" where
  "digit_char d = char_of (48 + d)"

fun nat_to_string :: "nat \<Rightarrow> string" where
  "nat_to_string n = (if n < 10 then [digit_char n]
     else nat_to_string (n div 10) @ [digit_char (n mod 10)])"

declare nat_to_string.simps [simp del]

definition int_to_string :: "int \<Rightarrow> string" where
  "int_to_string i = (if i < 0 then CHR ''-'' # nat_to_string (nat (- i)) else nat_to_string (nat i))"

text \<open>\<open>std::to_string\<close> at the three types the sources call it with.\<close>

definition u32_to_string :: "uint32 \<Rightarrow> string" where
  "u32_to_string w = nat_to_string (unat w)"

definition i64_to_string :: "int64 \<Rightarrow> string" where
  "i64_to_string w = int_to_string (sint w)"

section \<open>Association lists\<close>

lemma alist_as_map: "distinct (map fst xs) \<Longrightarrow> xs = map (\<lambda>k. (k, the (map_of xs k))) (map fst xs)"
  by (auto intro!: map_idI [symmetric])

lemma alist_eqI:
  assumes "distinct (map fst ys)" and "map fst xs = map fst ys" and "map_of xs = map_of ys"
  shows "xs = ys"
  using alist_as_map [of xs] alist_as_map [of ys] assms by metis

section \<open>Joining\<close>

text \<open>A separator before every item but the first, as the index-driven loops of the sources do.\<close>

fun join_with :: "string \<Rightarrow> string list \<Rightarrow> string" where
  "join_with sep [] = []"
| "join_with sep [x] = x"
| "join_with sep (x # y # zs) = x @ sep @ join_with sep (y # zs)"

section \<open>Writing and reading back\<close>

text \<open>The items of a list through a conversion that can fail: the first failure fails the list.\<close>

fun map_opt :: "('a \<Rightarrow> 'b option) \<Rightarrow> 'a list \<Rightarrow> 'b list option" where
  "map_opt f [] = Some []"
| "map_opt f (x # xs) =
    (case f x of None \<Rightarrow> None | Some y \<Rightarrow> (case map_opt f xs of None \<Rightarrow> None | Some ys \<Rightarrow> Some (y # ys)))"

text \<open>
  The contract between a writer and its reader: the valid values survive. The numbers printed into
  documents and the members of the JSON reports are instances.
\<close>

locale codec =
  fixes valid :: "'a \<Rightarrow> bool" and enc :: "'a \<Rightarrow> 'b" and dec :: "'b \<Rightarrow> 'a option"
  assumes dec_enc: "valid x \<Longrightarrow> dec (enc x) = Some x"
begin

lemma enc_inject: "valid x \<Longrightarrow> valid y \<Longrightarrow> enc x = enc y \<longleftrightarrow> x = y"
  by (metis dec_enc option.inject)

lemma dec_items: "list_all valid xs \<Longrightarrow> map_opt dec (map enc xs) = Some xs"
  by (induction xs) (simp_all add: dec_enc)

lemma enc_items_inject: "list_all valid xs \<Longrightarrow> list_all valid ys \<Longrightarrow> map enc xs = map enc ys \<longleftrightarrow> xs = ys"
  by (metis dec_items option.inject)

end

end
