(* ===== verification/StdMap.thy ===== *)
theory StdMap
  imports Prelude
begin

text \<open>
  The associative containers of the C++ library the sources use. \<open>std::map<std::string, V>\<close> is
  a list of pairs with strictly increasing keys, so that a range-based \<open>for\<close> over it is the
  recursion over that list; \<open>std::set<std::string>\<close> is a strictly increasing list.
  What the components rely on is stated once as the locales \<open>std_map\<close>, \<open>std_map_grouping\<close> and
  \<open>std_set\<close> and discharged on these lists; the components use only the facts of the
  interpretations \<open>smap\<close>, \<open>sgroup\<close> and \<open>sset\<close>.
\<close>

section \<open>The interface of an ordered map\<close>

locale std_map =
  fixes emp :: "'m"
    and find :: "'m \<Rightarrow> 'k::linorder \<Rightarrow> 'v option"
    and emplace :: "'k \<Rightarrow> 'v \<Rightarrow> 'm \<Rightarrow> 'm"
    and entries :: "'m \<Rightarrow> ('k \<times> 'v) list"
    and inv :: "'m \<Rightarrow> bool"
  assumes inv_emp: "inv emp"
    and inv_emplace: "inv m \<Longrightarrow> inv (emplace k v m)"
    and find_emp: "find emp k = None"
    and find_emplace: "inv m \<Longrightarrow> find (emplace k v m) k' =
        (if k' = k \<and> find m k = None then Some v else find m k')"
    and find_entries: "inv m \<Longrightarrow> map_of (entries m) k = find m k"
    and entries_increasing: "inv m \<Longrightarrow> sorted_wrt (<) (map fst (entries m))"
begin

lemma inv_emplace_all: "inv m \<Longrightarrow> inv (fold (\<lambda>(k, v). emplace k v) kvs m)"
  by (induction kvs arbitrary: m) (auto intro: inv_emplace)

text \<open>Inserting with \<open>try_emplace\<close> in a loop keeps the first value of every key.\<close>

lemma find_emplace_all:
  "inv m \<Longrightarrow> find (fold (\<lambda>(k, v). emplace k v) kvs m) k =
    (case find m k of Some v \<Rightarrow> Some v | None \<Rightarrow> map_of kvs k)"
  by (induction kvs arbitrary: m) (auto simp: find_emplace inv_emplace split: option.splits)

lemma first_wins: "find (fold (\<lambda>(k, v). emplace k v) kvs emp) k = map_of kvs k"
  by (simp add: find_emplace_all inv_emp find_emp)

lemma distinct_keys: "inv m \<Longrightarrow> distinct (map fst (entries m))"
  using entries_increasing strict_sorted_iff by blast

lemma mem_entries: "inv m \<Longrightarrow> (k, v) \<in> set (entries m) \<longleftrightarrow> find m k = Some v"
  by (metis distinct_keys find_entries map_of_eq_Some_iff)

lemma mem_keys: "inv m \<Longrightarrow> k \<in> set (map fst (entries m)) \<longleftrightarrow> find m k \<noteq> None"
  by (metis find_entries map_of_eq_None_iff set_map)

text \<open>Iteration order is determined by the contents alone.\<close>

lemma entries_unique:
  assumes "inv m" and "inv n" and same: "\<And>k. find m k = find n k"
  shows "entries m = entries n"
proof (rule alist_eqI)
  show "map fst (entries m) = map fst (entries n)"
  proof (rule strict_sorted_equal)
    show "sorted_wrt (<) (map fst (entries m))" "sorted_wrt (<) (map fst (entries n))"
      using assms(1,2) by (auto intro: entries_increasing)
    show "set (map fst (entries m)) = set (map fst (entries n))"
      using assms by (auto simp del: set_map simp: mem_keys)
  qed
  show "map_of (entries m) = map_of (entries n)"
    using assms by (auto simp: find_entries)
qed (simp add: distinct_keys assms)

end

text \<open>\<open>m[k]\<close> creates a default value for a missing key and hands out a reference to it.\<close>

locale std_map_grouping = std_map emp find emplace entries inv
  for emp :: "'m" and find :: "'m \<Rightarrow> 'k::linorder \<Rightarrow> 'v option"
    and emplace :: "'k \<Rightarrow> 'v \<Rightarrow> 'm \<Rightarrow> 'm" and entries :: "'m \<Rightarrow> ('k \<times> 'v) list"
    and inv :: "'m \<Rightarrow> bool" +
  fixes modify :: "'v \<Rightarrow> 'k \<Rightarrow> ('v \<Rightarrow> 'v) \<Rightarrow> 'm \<Rightarrow> 'm"
  assumes inv_modify: "inv m \<Longrightarrow> inv (modify d k f m)"
    and find_modify: "inv m \<Longrightarrow> find (modify d k f m) k' =
        (if k' = k then Some (f (case find m k of None \<Rightarrow> d | Some v \<Rightarrow> v)) else find m k')"
begin

lemma inv_modify_all: "inv m \<Longrightarrow> inv (fold (\<lambda>(k, f). modify d k f) kfs m)"
  by (induction kfs arbitrary: m) (auto intro: inv_modify)

text \<open>Grouping in a loop: a key's value is the default with the key's updates applied in order.\<close>

lemma find_modify_all:
  "inv m \<Longrightarrow> find (fold (\<lambda>(k, f). modify d k f) kfs m) k =
    (if k \<in> fst ` set kfs
     then Some (fold (\<lambda>f. f) (map snd (filter (\<lambda>kf. fst kf = k) kfs))
        (case find m k of None \<Rightarrow> d | Some v \<Rightarrow> v))
     else find m k)"
proof (induction kfs arbitrary: m)
  case Nil
  then show ?case by simp
next
  case (Cons kf kfs)
  obtain j f where kf: "kf = (j, f)" by (cases kf)
  have none: "k \<notin> fst ` set kfs \<Longrightarrow> filter (\<lambda>kf. fst kf = k) kfs = []"
    by (auto simp: filter_empty_conv)
  show ?case
    using Cons.IH [OF inv_modify [OF Cons.prems], of d j f] none
    by (auto simp: kf find_modify [OF Cons.prems] image_iff)
qed

lemma group_all:
  "find (fold (\<lambda>(k, f). modify d k f) kfs emp) k =
    (if k \<in> fst ` set kfs
     then Some (fold (\<lambda>f. f) (map snd (filter (\<lambda>kf. fst kf = k) kfs)) d) else None)"
  by (simp add: find_modify_all inv_emp find_emp)

end

section \<open>The interface of an ordered set\<close>

locale std_set =
  fixes emp :: "'s"
    and ins :: "'k::linorder \<Rightarrow> 's \<Rightarrow> 's"
    and contains :: "'s \<Rightarrow> 'k \<Rightarrow> bool"
    and elems :: "'s \<Rightarrow> 'k list"
    and inv :: "'s \<Rightarrow> bool"
  assumes inv_emp: "inv emp"
    and inv_ins: "inv s \<Longrightarrow> inv (ins k s)"
    and contains_emp: "\<not> contains emp k"
    and contains_ins: "inv s \<Longrightarrow> contains (ins k s) k' \<longleftrightarrow> k' = k \<or> contains s k'"
    and contains_elems: "inv s \<Longrightarrow> k \<in> set (elems s) \<longleftrightarrow> contains s k"
    and elems_increasing: "inv s \<Longrightarrow> sorted_wrt (<) (elems s)"
begin

lemma inv_ins_all: "inv s \<Longrightarrow> inv (fold ins ks s)"
  by (induction ks arbitrary: s) (auto intro: inv_ins)

lemma contains_ins_all: "inv s \<Longrightarrow> contains (fold ins ks s) k \<longleftrightarrow> k \<in> set ks \<or> contains s k"
  by (induction ks arbitrary: s) (auto simp: contains_ins inv_ins)

lemma elems_unique:
  assumes "inv s" "inv t" "\<And>k. contains s k = contains t k"
  shows "elems s = elems t"
  using assms by (intro strict_sorted_equal elems_increasing) (auto simp: contains_elems)

lemma elems_empty_iff: "inv s \<Longrightarrow> elems s = [] \<longleftrightarrow> (\<forall>k. \<not> contains s k)"
  using contains_elems by (metis last_in_set list.set_intros(1) neq_Nil_conv empty_iff empty_set)

end

section \<open>The containers as sorted lists\<close>

type_synonym ('k, 'v) omap = "('k \<times> 'v) list"

definition m_inv :: "('k::linorder, 'v) omap \<Rightarrow> bool" where
  "m_inv m \<longleftrightarrow> sorted_wrt (<) (map fst m)"

fun m_try_emplace :: "'k::linorder \<Rightarrow> 'v \<Rightarrow> ('k, 'v) omap \<Rightarrow> ('k, 'v) omap" where
  "m_try_emplace k v [] = [(k, v)]"
| "m_try_emplace k v ((a, b) # m) =
    (if k < a then (k, v) # (a, b) # m
     else if k = a then (a, b) # m
     else (a, b) # m_try_emplace k v m)"

fun m_modify :: "'v \<Rightarrow> 'k::linorder \<Rightarrow> ('v \<Rightarrow> 'v) \<Rightarrow> ('k, 'v) omap \<Rightarrow> ('k, 'v) omap" where
  "m_modify d k f [] = [(k, f d)]"
| "m_modify d k f ((a, b) # m) =
    (if k < a then (k, f d) # (a, b) # m
     else if k = a then (a, f b) # m
     else (a, b) # m_modify d k f m)"

abbreviation m_contains :: "('k, 'v) omap \<Rightarrow> 'k \<Rightarrow> bool" where
  "m_contains m k \<equiv> map_of m k \<noteq> None"

fun s_insert :: "'k::linorder \<Rightarrow> 'k list \<Rightarrow> 'k list" where
  "s_insert k [] = [k]"
| "s_insert k (a # s) = (if k < a then k # a # s else if k = a then a # s else a # s_insert k s)"

lemma keys_try_emplace: "fst ` set (m_try_emplace k v m) = insert k (fst ` set m)"
  by (induction k v m rule: m_try_emplace.induct) auto

lemma keys_modify: "fst ` set (m_modify d k f m) = insert k (fst ` set m)"
  by (induction d k f m rule: m_modify.induct) auto

lemma set_s_insert: "set (s_insert k s) = insert k (set s)"
  by (induction k s rule: s_insert.induct) auto

lemma m_inv_Nil: "m_inv []"
  by (simp add: m_inv_def)

lemma m_inv_Cons: "m_inv ((a, b) # m) \<longleftrightarrow> (\<forall>x \<in> fst ` set m. a < x) \<and> m_inv m"
  by (auto simp: m_inv_def)

lemma m_inv_try_emplace: "m_inv m \<Longrightarrow> m_inv (m_try_emplace k v m)"
  by (induction k v m rule: m_try_emplace.induct)
    (auto simp: m_inv_Nil m_inv_Cons keys_try_emplace dest: order.strict_trans)

lemma m_inv_modify: "m_inv m \<Longrightarrow> m_inv (m_modify d k f m)"
  by (induction d k f m rule: m_modify.induct)
    (auto simp: m_inv_Nil m_inv_Cons keys_modify dest: order.strict_trans)

lemma map_of_less_None:
  fixes m :: "('k::linorder, 'v) omap"
  shows "\<forall>x \<in> fst ` set m. a < x \<Longrightarrow> k \<le> a \<Longrightarrow> map_of m k = None"
  by (fastforce simp: map_of_eq_None_iff)

lemma map_of_try_emplace:
  "m_inv m \<Longrightarrow> map_of (m_try_emplace k v m) k' =
    (if k' = k \<and> map_of m k = None then Some v else map_of m k')"
  by (induction k v m rule: m_try_emplace.induct)
    (auto simp: m_inv_Cons map_of_less_None order.strict_implies_order)

lemma map_of_modify:
  "m_inv m \<Longrightarrow> map_of (m_modify d k f m) k' =
    (if k' = k then Some (f (case map_of m k of None \<Rightarrow> d | Some v \<Rightarrow> v)) else map_of m k')"
  by (induction d k f m rule: m_modify.induct)
    (auto simp: m_inv_Cons map_of_less_None order.strict_implies_order)

lemma s_insert_increasing: "sorted_wrt (<) s \<Longrightarrow> sorted_wrt (<) (s_insert k s)"
  by (induction k s rule: s_insert.induct) (auto simp: set_s_insert)

interpretation smap: std_map "[]" map_of m_try_emplace "\<lambda>m. m" m_inv
  by unfold_locales (auto simp: m_inv_try_emplace map_of_try_emplace, auto simp: m_inv_def)

interpretation sgroup: std_map_grouping "[]" map_of m_try_emplace "\<lambda>m. m" m_inv m_modify
  by unfold_locales (auto simp: m_inv_modify map_of_modify)

interpretation sset: std_set "[]" s_insert "\<lambda>s k. k \<in> set s" "\<lambda>s. s" "sorted_wrt (<)"
  by unfold_locales (auto simp: s_insert_increasing set_s_insert)

end
