(* ===== verification/CxxNum.thy ===== *)
theory CxxNum
  imports StdMap
begin

text \<open>
  The integer conversions of the C++ library the sources call: \<open>std::stoll\<close> and
  \<open>std::stoull\<close> (with C's \<open>strtoll\<close>/\<open>strtoull\<close> behind them) and \<open>std::to_string\<close>.
  Exceptions are values: \<open>Inl InvalidArgument\<close> when no digit is found, \<open>Inl OutOfRange\<close>
  when the value does not fit. A result carries the number of characters consumed
  (\<open>*pos\<close>).
\<close>

datatype num_exc = InvalidArgument | OutOfRange

text \<open>\<open>isspace\<close> in the C locale.\<close>

definition is_cspace :: "char \<Rightarrow> bool" where
  "is_cspace c \<longleftrightarrow> c \<in> {CHR '' '', CHR 0x09, CHR 0x0A, CHR 0x0B, CHR 0x0C, CHR 0x0D}"

definition is_digit :: "char \<Rightarrow> bool" where
  "is_digit c \<longleftrightarrow> CHR ''0'' \<le> c \<and> c \<le> CHR ''9''"

definition char_val :: "char \<Rightarrow> nat" where
  "char_val c =
    (if is_digit c then of_char c - 48
     else if CHR ''a'' \<le> c \<and> c \<le> CHR ''z'' then of_char c - 87
     else if CHR ''A'' \<le> c \<and> c \<le> CHR ''Z'' then of_char c - 55
     else 99)"

definition is_base_digit :: "nat \<Rightarrow> char \<Rightarrow> bool" where
  "is_base_digit b c \<longleftrightarrow> char_val c < b"

definition digits_value :: "nat \<Rightarrow> string \<Rightarrow> nat" where
  "digits_value b ds = foldl (\<lambda>a c. a * b + char_val c) 0 ds"

text \<open>An optional sign; the flag says whether it was a minus.\<close>

fun take_sign :: "string \<Rightarrow> bool \<times> string" where
  "take_sign (c # s) =
    (if c = CHR ''-'' then (True, s) else if c = CHR ''+'' then (False, s) else (False, c # s))"
| "take_sign [] = (False, [])"

text \<open>Base 16 skips an optional \<open>0x\<close> that is followed by a hex digit.\<close>

fun skip_0x :: "string \<Rightarrow> string" where
  "skip_0x (a # b # c # s) =
    (if a = CHR ''0'' \<and> (b = CHR ''x'' \<or> b = CHR ''X'') \<and> is_base_digit 16 c
     then c # s else a # b # c # s)"
| "skip_0x s = s"

text \<open>White space, sign, prefix, digits: \<open>(negative, magnitude, characters consumed)\<close>.\<close>

definition strto_scan :: "nat \<Rightarrow> string \<Rightarrow> (bool \<times> nat \<times> nat) option" where
  "strto_scan b s =
    (let s1 = dropWhile is_cspace s;
         (neg, s2) = take_sign s1;
         s3 = (if b = 16 then skip_0x s2 else s2);
         ds = takeWhile (is_base_digit b) s3;
         rest = dropWhile (is_base_digit b) s3
     in if ds = [] then None
        else Some (neg, digits_value b ds, length s - length rest))"

definition stoll :: "nat \<Rightarrow> string \<Rightarrow> num_exc + (int \<times> nat)" where
  "stoll b s =
    (case strto_scan b s of
       None \<Rightarrow> Inl InvalidArgument
     | Some (neg, mag, used) \<Rightarrow>
         (let v = (if neg then - int mag else int mag)
          in if v < - (2 ^ 63) \<or> v \<ge> 2 ^ 63 then Inl OutOfRange else Inr (v, used)))"

text \<open>\<open>strtoull\<close> accepts a sign and negates modulo \<open>2 ^ 64\<close>.\<close>

definition stoull :: "nat \<Rightarrow> string \<Rightarrow> num_exc + (64 word \<times> nat)" where
  "stoull b s =
    (case strto_scan b s of
       None \<Rightarrow> Inl InvalidArgument
     | Some (neg, mag, used) \<Rightarrow>
         (if mag \<ge> 2 ^ 64 then Inl OutOfRange
          else Inr (if neg then - of_nat mag else of_nat mag, used)))"

section \<open>Decimal rendering and parsing are inverse\<close>

lemma of_char_digit: "d < 10 \<Longrightarrow> of_char (digit_char d) = (48 + d :: nat)"
  by (simp add: digit_char_def)

lemma is_digit_nat: "is_digit c \<longleftrightarrow> 48 \<le> (of_char c :: nat) \<and> (of_char c :: nat) \<le> 57"
  by (simp add: is_digit_def less_eq_char_def)

lemma is_digit_digit_char [str_simps]: "d < 10 \<Longrightarrow> is_digit (digit_char d)"
  by (simp add: is_digit_nat of_char_digit)

lemma char_val_digit_char [str_simps]: "d < 10 \<Longrightarrow> char_val (digit_char d) = d"
  by (simp add: char_val_def is_digit_digit_char of_char_digit)

lemma char_val_is_digit: "is_digit c \<longleftrightarrow> char_val c < 10"
  by (auto simp: char_val_def is_digit_nat less_eq_char_def)

lemma is_base_digit_10: "is_base_digit 10 = is_digit"
  by (simp add: fun_eq_iff is_base_digit_def char_val_is_digit)

lemma nat_to_string_not_Nil [simp]: "nat_to_string n \<noteq> []"
  by (subst nat_to_string.simps) simp

lemma nat_to_string_digits: "c \<in> set (nat_to_string n) \<Longrightarrow> is_digit c"
proof (induction n rule: nat_to_string.induct)
  case (1 n)
  then show ?case
    by (subst (asm) nat_to_string.simps) (auto simp: is_digit_digit_char split: if_splits)
qed

lemma digits_value_snoc: "digits_value b (ds @ [c]) = digits_value b ds * b + char_val c"
  by (simp add: digits_value_def)

lemma digits_value_nat_to_string: "digits_value 10 (nat_to_string n) = n"
proof (induction n rule: nat_to_string.induct)
  case (1 n)
  show ?case
  proof (cases "n < 10")
    case True
    then show ?thesis
      by (subst nat_to_string.simps) (simp add: digits_value_def char_val_digit_char)
  next
    case False
    then have "digits_value 10 (nat_to_string (n div 10)) = n div 10" by (rule "1.IH")
    then show ?thesis using False
      by (subst nat_to_string.simps) (simp add: digits_value_snoc char_val_digit_char)
  qed
qed

lemma nat_to_string_inj: "nat_to_string m = nat_to_string n \<longleftrightarrow> m = n"
  by (metis digits_value_nat_to_string)

lemma digit_plain: "is_digit c \<Longrightarrow> \<not> is_blank c \<and> \<not> is_cspace c \<and> c \<noteq> CHR ''-'' \<and> c \<noteq> CHR ''+''
    \<and> c \<noteq> CHR ''/''"
  by (auto simp: is_digit_nat is_blank_def is_cspace_def)

lemma strto_scan_nat_to_string:
  "strto_scan 10 (nat_to_string n) = Some (False, n, length (nat_to_string n))"
proof -
  let ?s = "nat_to_string n"
  have dig: "\<And>c. c \<in> set ?s \<Longrightarrow> is_digit c" by (rule nat_to_string_digits)
  obtain c cs where s: "?s = c # cs" by (cases ?s) auto
  have c: "is_digit c" using dig s by simp
  have "dropWhile is_cspace ?s = ?s" and "take_sign ?s = (False, ?s)"
    using digit_plain [OF c] by (simp_all add: s)
  moreover have "takeWhile is_digit ?s = ?s" and "dropWhile is_digit ?s = []"
    using dig by (simp_all add: takeWhile_eq_all_conv)
  ultimately show ?thesis
    by (simp add: strto_scan_def is_base_digit_10 digits_value_nat_to_string Let_def
        del: dropWhile_eq_Nil_conv takeWhile_eq_all_conv)
qed

lemma stoll_nat_to_string:
  "n < 2 ^ 63 \<Longrightarrow> stoll 10 (nat_to_string n) = Inr (int n, length (nat_to_string n))"
  by (simp add: stoll_def strto_scan_nat_to_string Let_def)

lemma trimText_nat_to_string [str_simps]: "trimText (nat_to_string n) = nat_to_string n"
  using nat_to_string_digits digit_plain by (blast intro: trimText_no_blank)

end
