(* ===== verification/RawTree.thy ===== *)
theory RawTree
  imports CxxNum
begin

text \<open>
  The raw, position-aware tree the loader produces (\<open>raw_span.hpp\<close>, \<open>raw_node.hpp\<close>) and the
  searches every consumer runs on it. A node owns its children; the non-owning \<open>parent\<close> link of
  the C++ type is determined by the tree and read by nobody, so it has no field here; \<open>NodeHeap\<close> has it.
\<close>

record raw_span =
  startOffset :: size_t
  endOffset :: size_t
  lineNumber :: size_t

definition isValid :: "raw_span \<Rightarrow> bool" where
  "isValid s \<longleftrightarrow> startOffset s < endOffset s"

definition no_span :: raw_span where
  "no_span = \<lparr>startOffset = 0, endOffset = 0, lineNumber = 0\<rparr>"

datatype raw_node = RawNode
  (tagName: string)
  (attributes: "(string \<times> string) list")
  (nodeText: string)
  (nodeSpan: raw_span)
  (children: "raw_node list")

section \<open>Searches\<close>

definition findChild :: "raw_node \<Rightarrow> string \<Rightarrow> raw_node option" where
  "findChild node tag = List.find (\<lambda>c. tagName c = tag) (children node)"

text \<open>
  \<open>collectDescendants\<close>: a matching child first, then everything below it, in document order;
  written over the list of children so that the \<open>for\<close> loop is the recursion.
\<close>

fun collect_in :: "string \<Rightarrow> raw_node list \<Rightarrow> raw_node list" where
  "collect_in tag [] = []"
| "collect_in tag (RawNode t a x s ks # cs) =
    (if t = tag then [RawNode t a x s ks] else []) @ collect_in tag ks @ collect_in tag cs"

definition collectDescendants :: "raw_node \<Rightarrow> string \<Rightarrow> raw_node list" where
  "collectDescendants node tag = collect_in tag (children node)"

text \<open>The exporter's \<open>findDescendant\<close>, which stops at the first hit.\<close>

fun find_in :: "string \<Rightarrow> raw_node list \<Rightarrow> raw_node option" where
  "find_in tag [] = None"
| "find_in tag (RawNode t a x s ks # cs) =
    (if t = tag then Some (RawNode t a x s ks)
     else case find_in tag ks of Some n \<Rightarrow> Some n | None \<Rightarrow> find_in tag cs)"

definition findDescendant :: "raw_node \<Rightarrow> string \<Rightarrow> raw_node option" where
  "findDescendant node tag = find_in tag (children node)"

text \<open>The model builder's \<open>findDescendant\<close>: collect all, take the front.\<close>

definition findDescendantFront :: "raw_node \<Rightarrow> string \<Rightarrow> raw_node option" where
  "findDescendantFront node tag =
    (case collectDescendants node tag of [] \<Rightarrow> None | n # _ \<Rightarrow> Some n)"

text \<open>All nodes below a list of nodes, in document order.\<close>

fun nodes_in :: "raw_node list \<Rightarrow> raw_node list" where
  "nodes_in [] = []"
| "nodes_in (RawNode t a x s ks # cs) = RawNode t a x s ks # nodes_in ks @ nodes_in cs"

section \<open>Facts\<close>

lemma collect_in_filter: "collect_in tag ns = filter (\<lambda>n. tagName n = tag) (nodes_in ns)"
  by (induction tag ns rule: collect_in.induct) auto

lemma find_in_collect: "find_in tag ns = (case collect_in tag ns of [] \<Rightarrow> None | n # _ \<Rightarrow> Some n)"
  by (induction tag ns rule: find_in.induct) (auto split: list.splits option.splits)

lemma nodes_in_append: "nodes_in (xs @ ys) = nodes_in xs @ nodes_in ys"
  by (induction xs rule: nodes_in.induct) auto

lemma collect_in_append: "collect_in tag (xs @ ys) = collect_in tag xs @ collect_in tag ys"
  by (simp add: collect_in_filter nodes_in_append)

lemma collect_in_Cons:
  "collect_in tag (n # ns) = (if tagName n = tag then [n] else []) @ collect_in tag (children n)
     @ collect_in tag ns"
  by (cases n) simp

lemma find_in_Cons:
  "find_in tag (n # ns) = (if tagName n = tag then Some n
     else case find_in tag (children n) of Some m \<Rightarrow> Some m | None \<Rightarrow> find_in tag ns)"
  by (cases n) simp

lemma collect_in_tag: "n \<in> set (collect_in tag ns) \<Longrightarrow> tagName n = tag"
  by (simp add: collect_in_filter)

lemma findChild_Some: "findChild node tag = Some c \<Longrightarrow> c \<in> set (children node) \<and> tagName c = tag"
  by (auto simp: findChild_def find_Some_iff)

lemma findChild_None: "findChild node tag = None \<longleftrightarrow> (\<forall>c \<in> set (children node). tagName c \<noteq> tag)"
  by (auto simp: findChild_def find_None_iff)

end
