(* ===== verification/Binary64.thy ===== *)
theory Binary64
  imports CxxNum
begin

text \<open>
  The C++ type \<open>double\<close> (IEEE 754 binary64, round to nearest even) as far as the sources use
  it: conversions from integers, multiplication, addition, division, comparison, truncation to
  an integer, \<open>std::stod\<close>, and the stream output with precision 17. A finite value
  \<open>Fin neg m e\<close> is \<open>(-1)^neg * m * 2^e\<close>; \<open>round_ratio\<close> is the only place where a value is
  rounded, and it always yields the canonical significand (\<open>2^52 \<le> m < 2^53\<close>, or the least
  exponent \<open>-1074\<close>).
\<close>

datatype double = NaN | Inf bool | Fin bool nat int

section \<open>Rounding\<close>

fun bit_size :: "nat \<Rightarrow> nat" where
  "bit_size n = (if n = 0 then 0 else Suc (bit_size (n div 2)))"

declare bit_size.simps [simp del]

text \<open>The quotient rounded to the nearest integer, ties to even.\<close>

definition div_rne :: "nat \<Rightarrow> nat \<Rightarrow> nat" where
  "div_rne n d = (let q = n div d; r = n mod d
     in if 2 * r > d \<or> (2 * r = d \<and> odd q) then Suc q else q)"

text \<open>\<open>n / d = fst (scale2 n d e) / snd (scale2 n d e) * 2^e\<close>.\<close>

definition scale2 :: "nat \<Rightarrow> nat \<Rightarrow> int \<Rightarrow> nat \<times> nat" where
  "scale2 n d e = (if 0 \<le> e then (n, d * 2 ^ nat e) else (n * 2 ^ nat (- e), d))"

definition ratio_exponent :: "nat \<Rightarrow> nat \<Rightarrow> int" where
  "ratio_exponent n d =
    (let e = max (-1074) (int (bit_size n) - int (bit_size d) - 53);
         (n', d') = scale2 n d e
     in if n' div d' \<ge> 2 ^ 53 then e + 1 else e)"

definition round_ratio :: "bool \<Rightarrow> nat \<Rightarrow> nat \<Rightarrow> double" where
  "round_ratio neg n d =
    (if n = 0 then Fin neg 0 (-1074)
     else let e = ratio_exponent n d;
              (n', d') = scale2 n d e;
              q = div_rne n' d';
              (m, e') = (if q = 2 ^ 53 then (2 ^ 52, e + 1) else (q, e))
          in if e' > 971 then Inf neg else Fin neg m e')"

definition dbl_zero :: double where
  "dbl_zero = Fin False 0 (-1074)"

definition dbl_one :: double where
  "dbl_one = Fin False (2 ^ 52) (-52)"

definition dbl_of_nat :: "nat \<Rightarrow> double" where
  "dbl_of_nat n = round_ratio False n 1"

definition dbl_of_int :: "int \<Rightarrow> double" where
  "dbl_of_int i = (if i = 0 then dbl_zero else round_ratio (i < 0) (nat \<bar>i\<bar>) 1)"

section \<open>Comparison\<close>

text \<open>The signed integer \<open>value * 2^(-k)\<close> for an exponent \<open>k\<close> not above the value's own.\<close>

definition fin_at :: "int \<Rightarrow> bool \<Rightarrow> nat \<Rightarrow> int \<Rightarrow> int" where
  "fin_at k neg m e = (if neg then -1 else 1) * int m * 2 ^ nat (e - k)"

fun dbl_lt :: "double \<Rightarrow> double \<Rightarrow> bool" where
  "dbl_lt (Fin s m e) (Fin t n f) = (let k = min e f in fin_at k s m e < fin_at k t n f)"
| "dbl_lt (Inf s) (Inf t) = (s \<and> \<not> t)"
| "dbl_lt (Inf s) (Fin _ _ _) = s"
| "dbl_lt (Fin _ _ _) (Inf t) = (\<not> t)"
| "dbl_lt _ _ = False"

fun dbl_eq :: "double \<Rightarrow> double \<Rightarrow> bool" where
  "dbl_eq (Fin s m e) (Fin t n f) = (let k = min e f in fin_at k s m e = fin_at k t n f)"
| "dbl_eq (Inf s) (Inf t) = (s = t)"
| "dbl_eq _ _ = False"

definition dbl_le :: "double \<Rightarrow> double \<Rightarrow> bool" where
  "dbl_le a b \<longleftrightarrow> dbl_lt a b \<or> dbl_eq a b"

text \<open>The value rounded towards zero; C++ leaves the cast undefined outside the target's range.\<close>

fun dbl_trunc :: "double \<Rightarrow> int option" where
  "dbl_trunc (Fin s m e) =
    Some ((if s then -1 else 1) * (if 0 \<le> e then int m * 2 ^ nat e else int m div 2 ^ nat (- e)))"
| "dbl_trunc _ = None"

section \<open>Arithmetic\<close>

fun dbl_mul :: "double \<Rightarrow> double \<Rightarrow> double" where
  "dbl_mul (Fin s m e) (Fin t n f) =
    (let k = e + f in
     if 0 \<le> k then round_ratio (s \<noteq> t) (m * n * 2 ^ nat k) 1
     else round_ratio (s \<noteq> t) (m * n) (2 ^ nat (- k)))"
| "dbl_mul (Inf s) (Inf t) = Inf (s \<noteq> t)"
| "dbl_mul (Inf s) (Fin t n f) = (if n = 0 then NaN else Inf (s \<noteq> t))"
| "dbl_mul (Fin t n f) (Inf s) = (if n = 0 then NaN else Inf (s \<noteq> t))"
| "dbl_mul _ _ = NaN"

fun dbl_add :: "double \<Rightarrow> double \<Rightarrow> double" where
  "dbl_add (Fin s m e) (Fin t n f) =
    (let k = min e f; v = fin_at k s m e + fin_at k t n f in
     if v = 0 then Fin (s \<and> t \<and> m = 0 \<and> n = 0) 0 (-1074)
     else if 0 \<le> k then round_ratio (v < 0) (nat \<bar>v\<bar> * 2 ^ nat k) 1
     else round_ratio (v < 0) (nat \<bar>v\<bar>) (2 ^ nat (- k)))"
| "dbl_add (Inf s) (Inf t) = (if s = t then Inf s else NaN)"
| "dbl_add (Inf s) (Fin _ _ _) = Inf s"
| "dbl_add (Fin _ _ _) (Inf t) = Inf t"
| "dbl_add _ _ = NaN"

fun dbl_div :: "double \<Rightarrow> double \<Rightarrow> double" where
  "dbl_div (Fin s m e) (Fin t n f) =
    (if n = 0 then (if m = 0 then NaN else Inf (s \<noteq> t))
     else let k = e - f in
       if 0 \<le> k then round_ratio (s \<noteq> t) (m * 2 ^ nat k) n
       else round_ratio (s \<noteq> t) m (n * 2 ^ nat (- k)))"
| "dbl_div (Inf s) (Inf t) = NaN"
| "dbl_div (Inf s) (Fin t _ _) = Inf (s \<noteq> t)"
| "dbl_div (Fin s _ _) (Inf t) = Fin (s \<noteq> t) 0 (-1074)"
| "dbl_div _ _ = NaN"

section \<open>\<open>std::stod\<close>\<close>

text \<open>A parsed significand and exponent: the exact value \<open>m * base^e\<close>, rounded once.\<close>

definition round_power :: "bool \<Rightarrow> nat \<Rightarrow> nat \<Rightarrow> int \<Rightarrow> double" where
  "round_power neg m b e =
    (if 0 \<le> e then round_ratio neg (m * b ^ nat e) 1 else round_ratio neg m (b ^ nat (- e)))"

text \<open>
  glibc reports a range error when a finite literal overflows, and when its result is below the
  least normal number and inexact; libstdc++ turns that into \<open>std::out_of_range\<close>.
\<close>

fun is_exact :: "double \<Rightarrow> nat \<Rightarrow> nat \<Rightarrow> bool" where
  "is_exact (Fin s m e) n d =
    (if 0 \<le> e then m * 2 ^ nat e * d = n else m * d = n * 2 ^ nat (- e))"
| "is_exact _ n d = False"

fun range_error :: "double \<Rightarrow> nat \<Rightarrow> nat \<Rightarrow> bool" where
  "range_error (Inf _) n d = True"
| "range_error (Fin s m e) n d = (m < 2 ^ 52 \<and> \<not> is_exact (Fin s m e) n d)"
| "range_error NaN n d = False"

definition finish_literal :: "bool \<Rightarrow> nat \<Rightarrow> nat \<Rightarrow> int \<Rightarrow> string \<Rightarrow> num_exc + (double \<times> string)" where
  "finish_literal neg m b e rest =
    (let x = round_power neg m b e;
         (n, d) = (if 0 \<le> e then (m * b ^ nat e, 1) else (m, b ^ nat (- e)))
     in if range_error x n d then Inl OutOfRange else Inr (x, rest))"

text \<open>An exponent part: the marker, an optional sign and at least one digit, or nothing.\<close>

fun take_exponent :: "char \<Rightarrow> char \<Rightarrow> string \<Rightarrow> int \<times> string" where
  "take_exponent lo up (c # s) =
    (if c = lo \<or> c = up
     then (let (neg, s') = take_sign s; ds = takeWhile is_digit s'
           in if ds = [] then (0, c # s)
              else ((if neg then - int (digits_value 10 ds) else int (digits_value 10 ds)),
                    dropWhile is_digit s'))
     else (0, c # s))"
| "take_exponent lo up [] = (0, [])"

text \<open>Digits, an optional point and more digits: \<open>(all digits, number after the point, rest)\<close>.\<close>

definition take_mantissa :: "nat \<Rightarrow> string \<Rightarrow> (string \<times> nat \<times> string) option" where
  "take_mantissa b s =
    (let ip = takeWhile (is_base_digit b) s; r = dropWhile (is_base_digit b) s in
     case r of
       c # r' \<Rightarrow>
         if c = CHR ''.''
         then (let fp = takeWhile (is_base_digit b) r' in
               if ip = [] \<and> fp = [] then None
               else Some (ip @ fp, length fp, dropWhile (is_base_digit b) r'))
         else if ip = [] then None else Some (ip, 0, r)
     | [] \<Rightarrow> if ip = [] then None else Some (ip, 0, r))"

definition strip_word :: "string \<Rightarrow> string \<Rightarrow> string option" where
  "strip_word w s =
    (if asciiUpperCopy (take (length w) s) = w then Some (drop (length w) s) else None)"

text \<open>The optional \<open>(chars)\<close> after \<open>nan\<close>.\<close>

definition skip_nan_payload :: "string \<Rightarrow> string" where
  "skip_nan_payload s =
    (case s of
       c # s' \<Rightarrow>
         if c = CHR ''(''
         then (let r = dropWhile (\<lambda>x. is_digit x \<or> x = CHR ''_'' \<or> char_val x < 36) s' in
               case r of c' # r' \<Rightarrow> if c' = CHR '')'' then r' else s | [] \<Rightarrow> s)
         else s
     | [] \<Rightarrow> s)"

definition stod_unsigned :: "bool \<Rightarrow> string \<Rightarrow> num_exc + (double \<times> string)" where
  "stod_unsigned neg s =
    (case strip_word ''INFINITY'' s of
       Some r \<Rightarrow> Inr (Inf neg, r)
     | None \<Rightarrow>
    (case strip_word ''INF'' s of
       Some r \<Rightarrow> Inr (Inf neg, r)
     | None \<Rightarrow>
    (case strip_word ''NAN'' s of
       Some r \<Rightarrow> Inr (NaN, skip_nan_payload r)
     | None \<Rightarrow>
    (case (case strip_word ''0X'' s of None \<Rightarrow> None | Some r \<Rightarrow> take_mantissa 16 r) of
       Some (ds, frac, r) \<Rightarrow>
         (let (e, r') = take_exponent (CHR ''p'') (CHR ''P'') r
          in finish_literal neg (digits_value 16 ds) 2 (e - 4 * int frac) r')
     | None \<Rightarrow>
    (case take_mantissa 10 s of
       None \<Rightarrow> Inl InvalidArgument
     | Some (ds, frac, r) \<Rightarrow>
         (let (e, r') = take_exponent (CHR ''e'') (CHR ''E'') r
          in finish_literal neg (digits_value 10 ds) 10 (e - int frac) r'))))))"

definition stod :: "string \<Rightarrow> num_exc + (double \<times> nat)" where
  "stod s =
    (let (neg, s') = take_sign (dropWhile is_cspace s) in
     case stod_unsigned neg s' of
       Inl e \<Rightarrow> Inl e
     | Inr (x, rest) \<Rightarrow> Inr (x, length s - length rest))"

section \<open>Stream output with precision 17 (\<open>%.17g\<close>)\<close>

text \<open>The decimal exponent of a positive ratio: the \<open>X\<close> with \<open>10^X \<le> n/d < 10^(X+1)\<close>.\<close>

definition dec_exponent :: "nat \<Rightarrow> nat \<Rightarrow> int" where
  "dec_exponent n d =
    (let k = int (length (nat_to_string n)) - int (length (nat_to_string d));
         ge = (if 0 \<le> k then n \<ge> d * 10 ^ nat k else n * 10 ^ nat (- k) \<ge> d)
     in if ge then k else k - 1)"

text \<open>Seventeen significant digits, rounded half to even, with their exponent.\<close>

definition dec17 :: "nat \<Rightarrow> nat \<Rightarrow> nat \<times> int" where
  "dec17 n d =
    (let x = dec_exponent n d; k = x - 16;
         q = (if 0 \<le> k then div_rne n (d * 10 ^ nat k) else div_rne (n * 10 ^ nat (- k)) d)
     in if q = 10 ^ 17 then (10 ^ 16, x + 1) else (q, x))"

definition strip_zeros :: "string \<Rightarrow> string" where
  "strip_zeros ds = rev (dropWhile (\<lambda>c. c = CHR ''0'') (rev ds))"

definition with_fraction :: "string \<Rightarrow> string \<Rightarrow> string" where
  "with_fraction ip fp = (let f = strip_zeros fp in if f = [] then ip else ip @ CHR ''.'' # f)"

definition exponent_text :: "int \<Rightarrow> string" where
  "exponent_text x =
    (let ds = nat_to_string (nat \<bar>x\<bar>)
     in ''e'' @ (if x < 0 then ''-'' else ''+'') @ (if length ds < 2 then ''0'' @ ds else ds))"

definition fmt_g17_pos :: "nat \<Rightarrow> nat \<Rightarrow> string" where
  "fmt_g17_pos n d =
    (let (q, x) = dec17 n d; ds = nat_to_string q in
     if x < -4 \<or> 17 \<le> x then with_fraction (take 1 ds) (drop 1 ds) @ exponent_text x
     else if 0 \<le> x then with_fraction (take (nat x + 1) ds) (drop (nat x + 1) ds)
     else with_fraction ''0'' (replicate (nat (- x) - 1) (CHR ''0'') @ ds))"

fun fmt_g17 :: "double \<Rightarrow> string" where
  "fmt_g17 NaN = ''nan''"
| "fmt_g17 (Inf s) = (if s then ''-inf'' else ''inf'')"
| "fmt_g17 (Fin s m e) =
    (if s then ''-'' else []) @
    (if m = 0 then ''0''
     else if 0 \<le> e then fmt_g17_pos (m * 2 ^ nat e) 1 else fmt_g17_pos m (2 ^ nat (- e)))"

end
