(* ===== verification/FsPath.thy ===== *)
theory FsPath
  imports Prelude
begin

text \<open>
  \<open>std::filesystem::path\<close> on a POSIX system, as the list of elements its iteration yields: a
  leading \<open>"/"\<close> for the root directory, then the names, and an empty last element for a trailing
  separator. Between two absolute paths \<open>operator<\<close> compares these lists lexicographically, so
  \<open>std::set<path>\<close> is a strictly increasing list of them.
\<close>

type_synonym fpath = "string list"

definition is_absolute :: "fpath \<Rightarrow> bool" where
  "is_absolute p \<longleftrightarrow> p \<noteq> [] \<and> hd p = ''/''"

definition path_string :: "fpath \<Rightarrow> string" where
  "path_string p =
    (if is_absolute p then ''/'' @ join_with ''/'' (tl p) else join_with ''/'' p)"

definition parent_path :: "fpath \<Rightarrow> fpath" where
  "parent_path p = (if p = [''/''] then p else butlast p)"

definition path_extension :: "fpath \<Rightarrow> string" where
  "path_extension p =
    (if p = [] then []
     else let name = last p; stem = takeWhile (\<lambda>c. c \<noteq> CHR ''.'') (rev name) in
       if name = ''..'' \<or> length stem \<ge> length name - 1 then [] else CHR ''.'' # rev stem)"

text \<open>One element of \<open>lexically_normal\<close>: the names kept, and whether a separator would trail.\<close>

definition normal_step :: "bool \<Rightarrow> string \<Rightarrow> string list \<times> bool \<Rightarrow> string list \<times> bool" where
  "normal_step rooted e st =
    (let kept = fst st in
     if e = [] \<or> e = ''.'' then (kept, True)
     else if e = ''..''
     then (if kept \<noteq> [] \<and> last kept \<noteq> ''..'' then (butlast kept, True)
           else if rooted then (kept, True) else (kept @ [e], False))
     else (kept @ [e], False))"

definition lexically_normal :: "fpath \<Rightarrow> fpath" where
  "lexically_normal p =
    (if p = [] then []
     else let rooted = is_absolute p;
              (kept, trail) = fold (normal_step rooted) (if rooted then tl p else p) ([], False);
              slash = (if trail \<and> kept \<noteq> [] \<and> last kept \<noteq> ''..'' then [[]] else [])
          in if rooted then ''/'' # kept @ slash
             else if kept = [] then [''.''] else kept @ slash)"

text \<open>\<open>absolute\<close> of a non-empty path, against the current directory.\<close>

definition absolute_path :: "fpath \<Rightarrow> fpath \<Rightarrow> fpath" where
  "absolute_path cwd p = (if is_absolute p then p else cwd @ p)"

definition asciiLowerChar :: "char \<Rightarrow> char" where
  "asciiLowerChar c = (if CHR ''A'' \<le> c \<and> c \<le> CHR ''Z''
     then char_of (of_char c + 32 :: nat) else c)"

text \<open>Case-insensitive, in the C locale.\<close>

definition isArxmlFile :: "fpath \<Rightarrow> bool" where
  "isArxmlFile p \<longleftrightarrow> map asciiLowerChar (path_extension p) = ''.arxml''"

end
