(* ===== verification/DomainModel.thy ===== *)
theory DomainModel
  imports RawTree Binary64 FsPath
begin

text \<open>
  The common domain model (\<open>include/parsex/model/*.hpp\<close>), one record per struct. Field names
  carry the struct's prefix because Isabelle's record fields are global names; the order and the
  default values are the source's.
\<close>

record common_fields =
  shortName :: string
  category :: "string option"
  rawSpanRef :: raw_span

definition default_common :: common_fields where
  "default_common = \<lparr>shortName = [], category = None, rawSpanRef = no_span\<rparr>"

record cluster =
  cluster_common :: common_fields
  baudrate :: "uint32 option"
  physicalChannels :: "string list"

record ecu_instance =
  ecu_common :: common_fields
  connectedChannels :: "string list"
  controllers :: "string list"

record frame_pdu_mapping =
  pduShortNameRef :: string
  fpm_startPosition :: uint32

record frame =
  frame_common :: common_fields
  frame_length :: uint32
  transmitters :: "string list"
  frame_pdus :: "frame_pdu_mapping list"

datatype byte_order = MostSignificantByteFirst | LeastSignificantByteFirst

record pdu_signal_mapping =
  signalShortNameRef :: string
  psm_startPosition :: uint32
  psm_byteOrder :: byte_order

record pdu =
  pdu_common :: common_fields
  pdu_length :: uint32
  signalMappings :: "pdu_signal_mapping list"

record value_table_entry =
  vte_value :: int64
  vte_label :: string

record signal =
  signal_common :: common_fields
  startBit :: uint32
  bitLength :: uint32
  signal_byteOrder :: byte_order
  isSigned :: bool
  factor :: double
  offset :: double
  signal_min :: "double option"
  signal_max :: "double option"
  unit_name :: "string option"
  initValue :: "double option"
  receivers :: "string list"
  valueTable :: "value_table_entry list option"

definition default_signal :: signal where
  "default_signal = \<lparr>signal_common = default_common, startBit = 0, bitLength = 0,
     signal_byteOrder = MostSignificantByteFirst, isSigned = False, factor = dbl_one,
     offset = dbl_zero, signal_min = None, signal_max = None, unit_name = None, initValue = None,
     receivers = [], valueTable = None\<rparr>"

record signal_group =
  group_common :: common_fields
  members :: "string list"

record warning =
  warning_message :: string
  warning_location :: "raw_span option"

text \<open>
  \<open>rawDocument\<close> is a shared pointer to an immutable tree: its root node, or nothing.
\<close>

record parsed_file =
  autosarRelease :: string
  sourcePath :: fpath
  clusters :: "cluster list"
  ecuInstances :: "ecu_instance list"
  frames :: "frame list"
  pdus :: "pdu list"
  signals :: "signal list"
  signalGroups :: "signal_group list"
  file_warnings :: "warning list"
  rawDocument :: "raw_node option"

definition empty_file :: parsed_file where
  "empty_file = \<lparr>autosarRelease = [], sourcePath = [], clusters = [], ecuInstances = [],
     frames = [], pdus = [], signals = [], signalGroups = [], file_warnings = [],
     rawDocument = None\<rparr>"

text \<open>\<open>std::map<std::string, ResolvedReference>\<close>: site key to the referenced short name.\<close>

record parsed_project =
  files :: "parsed_file list"
  resolvedRefs :: "(string, string) omap"

end
