(* ===== verification/ReleaseDetector.thy ===== *)
theory ReleaseDetector
  imports DomainModel
begin

text \<open>
  Release detection (\<open>src/release_detector.cpp\<close>): the second white-space separated token of the
  root's \<open>xsi:schemaLocation\<close> is the schema filename, and a fixed table maps filenames to releases.
\<close>

definition isSchemaLocationSpace :: "char \<Rightarrow> bool" where
  "isSchemaLocationSpace c \<longleftrightarrow> c = CHR '' '' \<or> c = CHR 0x09 \<or> c = CHR 0x0D \<or> c = CHR 0x0A"

function skipSpaces :: "string \<Rightarrow> nat \<Rightarrow> nat" where
  "skipSpaces value pos =
    (if pos < length value \<and> isSchemaLocationSpace (value ! pos)
     then skipSpaces value (Suc pos) else pos)"
  by pat_completeness auto
termination by (relation "measure (\<lambda>(value, pos). length value - pos)") auto

function tokenEnd :: "string \<Rightarrow> nat \<Rightarrow> nat" where
  "tokenEnd value pos =
    (if pos < length value \<and> \<not> isSchemaLocationSpace (value ! pos)
     then tokenEnd value (Suc pos) else pos)"
  by pat_completeness auto
termination by (relation "measure (\<lambda>(value, pos). length value - pos)") auto

declare skipSpaces.simps [simp del] tokenEnd.simps [simp del]

definition detectSchemaFilename :: "raw_node \<Rightarrow> string option" where
  "detectSchemaFilename root =
    (case List.find (\<lambda>attr. fst attr = ''xsi:schemaLocation'') (attributes root) of
       None \<Rightarrow> None
     | Some (_, location) \<Rightarrow>
         (let firstEnd = tokenEnd location (skipSpaces location 0);
              secondStart = skipSpaces location firstEnd
          in if secondStart \<ge> length location then None
             else Some (take (tokenEnd location secondStart - secondStart) (drop secondStart location))))"

definition schemaFilenameTable :: "(string, string) omap" where
  "schemaFilenameTable =
    [(''AUTOSAR_00044.xsd'', ''4.3.1''), (''AUTOSAR_00046.xsd'', ''4.4.0''),
     (''AUTOSAR_00048.xsd'', ''R19-11''), (''AUTOSAR_00049.xsd'', ''R20-11''),
     (''AUTOSAR_00050.xsd'', ''R21-11''), (''AUTOSAR_4-2-2.xsd'', ''4.2.2''),
     (''AUTOSAR_4-3-0.xsd'', ''4.3.0'')]"

text \<open>\<open>Inl\<close> carries the filename of the \<open>UnsupportedReleaseError\<close>.\<close>

definition resolveRelease :: "string \<Rightarrow> string + string" where
  "resolveRelease schemaFilename =
    (case map_of schemaFilenameTable schemaFilename of
       None \<Rightarrow> Inl schemaFilename
     | Some release \<Rightarrow> Inr release)"

definition unsupportedReleaseMessage :: "string \<Rightarrow> string" where
  "unsupportedReleaseMessage schemaFilename =
    ''UnsupportedReleaseError: schema '' @ quoted schemaFilename
      @ '' is not a supported AUTOSAR release (supported: 4.2.2-R21-11)''"

section \<open>Scanning\<close>

lemma skipSpaces_takeWhile:
  "pos \<le> length v \<Longrightarrow> skipSpaces v pos = pos + length (takeWhile isSchemaLocationSpace (drop pos v))"
proof (induction v pos rule: skipSpaces.induct)
  case (1 v pos)
  then show ?case
    by (subst skipSpaces.simps) (cases "pos < length v", auto simp: Cons_nth_drop_Suc [symmetric])
qed

lemma tokenEnd_takeWhile:
  "pos \<le> length v \<Longrightarrow>
    tokenEnd v pos = pos + length (takeWhile (\<lambda>c. \<not> isSchemaLocationSpace c) (drop pos v))"
proof (induction v pos rule: tokenEnd.induct)
  case (1 v pos)
  then show ?case
    by (subst tokenEnd.simps) (cases "pos < length v", auto simp: Cons_nth_drop_Suc [symmetric])
qed

text \<open>What the detector reads off a location of two tokens, and of anything else.\<close>

definition plain_token :: "string \<Rightarrow> bool" where
  "plain_token t \<longleftrightarrow> t \<noteq> [] \<and> (\<forall>c \<in> set t. \<not> isSchemaLocationSpace c)"

definition secondToken :: "string \<Rightarrow> string option" where
  "secondToken v =
    (let rest = dropWhile isSchemaLocationSpace
                  (dropWhile (\<lambda>c. \<not> isSchemaLocationSpace c) (dropWhile isSchemaLocationSpace v));
         t = takeWhile (\<lambda>c. \<not> isSchemaLocationSpace c) rest
     in if rest = [] then None else Some t)"

lemma find_fst_map_of:
  "List.find (\<lambda>a. fst a = k) xs = map_option (Pair k) (map_of xs k)"
  by (induction xs) auto

lemma detectSchemaFilename_secondToken:
  "detectSchemaFilename root =
    Option.bind (map_of (attributes root) ''xsi:schemaLocation'') secondToken"
proof -
  have scan: "(let firstEnd = tokenEnd v (skipSpaces v 0);
              secondStart = skipSpaces v firstEnd
          in if secondStart \<ge> length v then None
             else Some (take (tokenEnd v secondStart - secondStart) (drop secondStart v))) = secondToken v"
    for v
  proof -
    let ?S = isSchemaLocationSpace
    define p1 where "p1 = length (takeWhile ?S v)"
    define r1 where "r1 = dropWhile ?S v"
    define p2 where "p2 = p1 + length (takeWhile (\<lambda>c. \<not> ?S c) r1)"
    define r2 where "r2 = dropWhile (\<lambda>c. \<not> ?S c) r1"
    define p3 where "p3 = p2 + length (takeWhile ?S r2)"
    define r3 where "r3 = dropWhile ?S r2"
    have d1: "drop p1 v = r1" "p1 \<le> length v"
      by (simp_all add: p1_def r1_def dropWhile_eq_drop length_takeWhile_le)
    have d2: "drop p2 v = r2"
      by (simp add: p2_def r2_def dropWhile_eq_drop d1(1) [symmetric] add.commute)
    have l2: "p2 \<le> length v"
      using length_takeWhile_le [of "\<lambda>c. \<not> ?S c" r1] d1 by (auto simp: p2_def)
    have d3: "drop p3 v = r3"
      by (simp add: p3_def r3_def dropWhile_eq_drop d2 [symmetric] add.commute)
    have l3: "p3 \<le> length v"
      using length_takeWhile_le [of ?S r2] d2 l2 by (auto simp: p3_def)
    have e1: "skipSpaces v 0 = p1" by (simp add: skipSpaces_takeWhile p1_def)
    have e2: "tokenEnd v p1 = p2" by (simp add: tokenEnd_takeWhile d1 p2_def)
    have e3: "skipSpaces v p2 = p3" by (simp add: skipSpaces_takeWhile d2 l2 p3_def)
    have e4: "take (tokenEnd v p3 - p3) (drop p3 v) = takeWhile (\<lambda>c. \<not> ?S c) r3"
      by (simp add: tokenEnd_takeWhile l3 d3 takeWhile_eq_take [symmetric])
    have e5: "p3 \<ge> length v \<longleftrightarrow> r3 = []" using d3 l3 by auto
    show ?thesis
      using e4 e5 by (simp add: secondToken_def Let_def e1 e2 e3 r1_def [symmetric]
          r2_def [symmetric] r3_def [symmetric])
  qed
  show ?thesis
    by (cases "map_of (attributes root) ''xsi:schemaLocation''")
      (auto simp: detectSchemaFilename_def find_fst_map_of scan)
qed

lemma secondToken_pair:
  assumes "plain_token a" and "plain_token b"
  shows "secondToken (a @ '' '' @ b) = Some b"
proof -
  let ?S = isSchemaLocationSpace
  have sp: "?S (CHR '' '')" by (simp add: isSchemaLocationSpace_def)
  have a: "dropWhile ?S (a @ CHR '' '' # b) = a @ CHR '' '' # b"
    using assms(1) by (cases a) (auto simp: plain_token_def)
  have b: "dropWhile (\<lambda>c. \<not> ?S c) (a @ CHR '' '' # b) = CHR '' '' # b"
    using assms(1) sp by (subst dropWhile_append2) (auto simp: plain_token_def)
  have c: "dropWhile ?S (CHR '' '' # b) = b"
    using assms(2) sp by (cases b) (auto simp: plain_token_def isSchemaLocationSpace_def)
  have d: "takeWhile (\<lambda>c. \<not> ?S c) b = b"
    using assms(2) by (auto simp: plain_token_def takeWhile_eq_all_conv)
  show ?thesis using assms(2) by (simp add: secondToken_def a b c d sp plain_token_def Let_def)
qed

end
