(* ===== verification/WriteContext.thy ===== *)
theory WriteContext
  imports ReleaseDetector
begin

text \<open>
  The root scaffold of the writer (\<open>src/write/write_context.cpp\<close>): the namespace URI, the schema
  filename and the \<open>xsi:schemaLocation\<close> of a release, and the tree the writer builds. libxml2
  builds and serialises that tree; its nodes are values of \<open>xml\<close> here: an element with its
  attributes and children in order, or a text node.
\<close>

datatype xml =
    Elem (xml_name: string) (xml_attrs: "(string \<times> string) list") (xml_children: "xml list")
  | Text (xml_content: string)

definition namespaceUriForRelease :: "string \<Rightarrow> string" where
  "namespaceUriForRelease release =
    (if release \<noteq> [] \<and> (hd release = CHR ''R'' \<or> hd release = CHR ''r'')
     then ''http://autosar.org/schema/r''
            @ map (\<lambda>c. if c = CHR ''-'' then CHR ''.'' else c) (drop 1 release)
     else if starts_with release ''4.'' then ''http://autosar.org/schema/r4.0''
     else let isDot = (\<lambda>c. c = CHR ''.'');
              beforeDot = takeWhile (\<lambda>c. \<not> isDot c) release;
              fromDot = dropWhile (\<lambda>c. \<not> isDot c) release
          in if fromDot \<noteq> []
             then ''http://autosar.org/schema/r'' @ beforeDot @ ''.''
                    @ takeWhile (\<lambda>c. \<not> isDot c) (drop 1 fromDot)
             else ''http://autosar.org/schema/r'' @ release)"

definition defaultSchemaFilename :: string where
  "defaultSchemaFilename = ''AUTOSAR_00046.xsd''"

definition schemaFilenameForRelease :: "string \<Rightarrow> string" where
  "schemaFilenameForRelease release =
    (if release = ''4.2.2'' then ''AUTOSAR_4-2-2.xsd''
     else if release = ''4.3.0'' then ''AUTOSAR_4-3-0.xsd''
     else if release = ''4.3.1'' then ''AUTOSAR_00044.xsd''
     else if release = ''4.4.0'' then ''AUTOSAR_00046.xsd''
     else if release = ''R19-11'' then ''AUTOSAR_00048.xsd''
     else if release = ''R20-11'' then ''AUTOSAR_00049.xsd''
     else if release = ''R21-11'' then ''AUTOSAR_00050.xsd''
     else defaultSchemaFilename)"

definition schemaLocationForRelease :: "string \<Rightarrow> string" where
  "schemaLocationForRelease release =
    namespaceUriForRelease release @ '' '' @ schemaFilenameForRelease release"

text \<open>
  The scaffold \<open>forRelease\<close> creates, with the packages to hang below \<open>AR-PACKAGES\<close>. Namespace
  declarations come before attributes, as libxml2 serialises them.
\<close>

definition scaffold :: "string \<Rightarrow> string \<Rightarrow> xml list \<Rightarrow> xml" where
  "scaffold namespaceUri schemaLocation packages =
    Elem ''AUTOSAR''
      [(''xmlns'', namespaceUri), (''xmlns:xsi'', ''http://www.w3.org/2001/XMLSchema-instance''),
       (''xsi:schemaLocation'', schemaLocation)]
      [Elem ''AR-PACKAGES'' [] packages]"

definition forRelease :: "string \<Rightarrow> xml list \<Rightarrow> xml" where
  "forRelease release packages =
    (let uri = namespaceUriForRelease release
     in scaffold uri (uri @ '' '' @ schemaFilenameForRelease release) packages)"

section \<open>Releases and filenames\<close>

lemma resolveRelease_cases:
  "resolveRelease f = Inr r \<longleftrightarrow> (f, r) \<in> set schemaFilenameTable"
  by (auto simp: resolveRelease_def schemaFilenameTable_def split: if_splits)

lemma schemaFilename_plain: "plain_token (schemaFilenameForRelease r)"
  by (simp add: schemaFilenameForRelease_def defaultSchemaFilename_def plain_token_def
      isSchemaLocationSpace_def)

lemma namespaceUri_plain:
  assumes "\<forall>c \<in> set r. \<not> isSchemaLocationSpace c"
  shows "plain_token (namespaceUriForRelease r)"
proof -
  have "set (drop 1 r) \<subseteq> set r" "set (takeWhile P r) \<subseteq> set r"
    "set (takeWhile P (drop 1 (dropWhile Q r))) \<subseteq> set r" for P Q
    by (auto dest!: set_takeWhileD in_set_dropD set_dropWhileD)
  then show ?thesis
    using assms
    by (auto simp: namespaceUriForRelease_def plain_token_def Let_def isSchemaLocationSpace_def
        split: if_splits dest!: set_takeWhileD in_set_dropD set_dropWhileD)
qed

end
