(* ===== verification/ModelBuilder.thy ===== *)
theory ModelBuilder
  imports DomainModel
begin

text \<open>
  The protocol model builder (\<open>src/model_builder.cpp\<close>): one function per domain type, each
  projecting a raw node into its object and appending warnings. The \<open>std::vector<Warning>&\<close>
  parameter is passed in and returned. Absent or unparseable text keeps the default.
\<close>

section \<open>Numbers and references\<close>

definition isHexPrefixed :: "string \<Rightarrow> bool" where
  "isHexPrefixed txt =
    (let rest = snd (take_sign txt) in take 2 rest = ''0x'' \<or> take 2 rest = ''0X'')"

text \<open>
  Arithmetic on \<open>std::int64_t\<close> is arithmetic modulo \<open>2^64\<close>: the negation of a magnitude above
  \<open>2^63\<close> (undefined in C++, wrapping on the supported compilers) is the word negation.
\<close>

definition parseInteger :: "string \<Rightarrow> int64 option" where
  "parseInteger raw =
    (let txt = trimText raw in
     if txt = [] then None
     else
       let (negative, rest) = take_sign txt in
       if isHexPrefixed txt
       then (case stoull 16 (drop 2 rest) of
               Inl _ \<Rightarrow> None
             | Inr (magnitude, _) \<Rightarrow>
                 if negative then Some (- magnitude)
                 else if magnitude > 0x7FFFFFFFFFFFFFFF then None
                 else Some magnitude)
       else (case stoll 10 rest of
               Inl _ \<Rightarrow> None
             | Inr (signedValue, _) \<Rightarrow>
                 if negative then Some (- word_of_int signedValue)
                 else (let magnitude = word_of_int signedValue :: 64 word in
                       if magnitude > 0x7FFFFFFFFFFFFFFF then None else Some magnitude)))"

definition parseUint32 :: "string \<Rightarrow> uint32 option" where
  "parseUint32 raw =
    (case parseInteger raw of
       None \<Rightarrow> None
     | Some value \<Rightarrow> if sint value < 0 \<or> sint value > 0xFFFFFFFF then None else Some (ucast value))"

definition parseDouble :: "string \<Rightarrow> double option" where
  "parseDouble raw =
    (let txt = trimText raw in
     if txt = [] then None
     else if isHexPrefixed txt
     then (case parseInteger txt of None \<Rightarrow> None | Some i \<Rightarrow> Some (dbl_of_int (sint i)))
     else (case stod txt of
             Inl _ \<Rightarrow> None
           | Inr (value, used) \<Rightarrow> if used \<noteq> length txt then None else Some value))"

definition parseByteOrder :: "string \<Rightarrow> byte_order" where
  "parseByteOrder raw =
    (if asciiUpperCopy (trimText raw) = ''LEAST-SIGNIFICANT-BYTE-FIRST''
     then LeastSignificantByteFirst else MostSignificantByteFirst)"

definition isSignedBaseType :: "string \<Rightarrow> bool" where
  "isSignedBaseType baseTypeRef =
    (let name = asciiUpperCopy (shortNameOfRef baseTypeRef) in
     if starts_with name ''SINT'' then True
     else (case name of
             a # b # _ \<Rightarrow> a = CHR ''S'' \<and> is_digit b
           | _ \<Rightarrow> False))"

section \<open>Fields of a node\<close>

definition childText :: "raw_node \<Rightarrow> string \<Rightarrow> string option" where
  "childText node tag = map_option (\<lambda>c. trimText (nodeText c)) (findChild node tag)"

definition extractShortName :: "raw_node \<Rightarrow> string" where
  "extractShortName node = (case childText node ''SHORT-NAME'' of Some s \<Rightarrow> s | None \<Rightarrow> [])"

definition warnMissing :: "warning list \<Rightarrow> string \<Rightarrow> raw_span \<Rightarrow> warning list" where
  "warnMissing warnings msg sp =
    warnings @ [\<lparr>warning_message = msg, warning_location = Some sp\<rparr>]"

definition populateCommonFields :: "raw_node \<Rightarrow> warning list \<Rightarrow> common_fields \<times> warning list" where
  "populateCommonFields node warnings =
    (let name = extractShortName node in
     (\<lparr>shortName = name, category = childText node ''CATEGORY'', rawSpanRef = nodeSpan node\<rparr>,
      if name = []
      then warnMissing warnings (''<'' @ tagName node @ ''> element has no SHORT-NAME'') (nodeSpan node)
      else warnings))"

definition refShortNames :: "raw_node \<Rightarrow> string \<Rightarrow> string list" where
  "refShortNames node refTag =
    filter (\<lambda>n. n \<noteq> []) (map (\<lambda>r. shortNameOfRef (nodeText r)) (collectDescendants node refTag))"

text \<open>The loop of \<open>channelShortNames\<close> and \<open>controllerShortNames\<close> over the found elements.\<close>

definition namedShortNames :: "raw_node list \<Rightarrow> string list" where
  "namedShortNames elems =
    concat (map (\<lambda>e. case childText e ''SHORT-NAME'' of
                        Some n \<Rightarrow> if n \<noteq> [] then [n] else [] | None \<Rightarrow> []) elems)"

definition channelShortNames :: "raw_node \<Rightarrow> string list" where
  "channelShortNames node =
    namedShortNames (collectDescendants node ''PHYSICAL-CHANNEL''
      @ collectDescendants node ''CAN-PHYSICAL-CHANNEL'')"

definition controllerShortNames :: "raw_node \<Rightarrow> string list" where
  "controllerShortNames node =
    namedShortNames (collectDescendants node ''CAN-CONTROLLER''
      @ collectDescendants node ''CAN-COMMUNICATION-CONTROLLER'')"

definition childUint32 :: "raw_node \<Rightarrow> string \<Rightarrow> uint32 \<Rightarrow> uint32" where
  "childUint32 node tag fallback =
    (case childText node tag of
       None \<Rightarrow> fallback
     | Some t \<Rightarrow> (case parseUint32 t of Some v \<Rightarrow> v | None \<Rightarrow> fallback))"

section \<open>The six builders\<close>

definition buildCluster :: "raw_node \<Rightarrow> warning list \<Rightarrow> cluster \<times> warning list" where
  "buildCluster node warnings =
    (let (common, ws) = populateCommonFields node warnings;
         baud = (case childText node ''BAUDRATE'' of
                   Some t \<Rightarrow> Some t
                 | None \<Rightarrow> map_option (\<lambda>n. trimText (nodeText n)) (findDescendantFront node ''BAUDRATE''));
         ws' = (if baud = None
                then warnMissing ws (''Cluster '' @ quoted (shortName common) @ '' has no baudrate'')
                       (nodeSpan node)
                else ws)
     in (\<lparr>cluster_common = common,
          baudrate = (case baud of None \<Rightarrow> None | Some t \<Rightarrow> parseUint32 t),
          physicalChannels = channelShortNames node\<rparr>, ws'))"

definition buildEcuInstance :: "raw_node \<Rightarrow> warning list \<Rightarrow> ecu_instance \<times> warning list" where
  "buildEcuInstance node warnings =
    (let (common, ws) = populateCommonFields node warnings;
         chans = refShortNames node ''CHANNEL-REF'';
         ctrls = controllerShortNames node;
         ws' = (if ctrls = [] \<and> chans = []
                then warnMissing ws (''EcuInstance '' @ quoted (shortName common)
                       @ '' has no controllers and no connected channels'') (nodeSpan node)
                else ws)
     in (\<lparr>ecu_common = common, connectedChannels = chans, controllers = ctrls\<rparr>, ws'))"

text \<open>The bodies of the two mapping loops.\<close>

definition framePduOf :: "raw_node \<Rightarrow> frame_pdu_mapping" where
  "framePduOf mapping =
    \<lparr>pduShortNameRef = (case childText mapping ''PDU-REF'' of Some r \<Rightarrow> shortNameOfRef r | None \<Rightarrow> []),
     fpm_startPosition = childUint32 mapping ''START-POSITION'' 0\<rparr>"

definition buildFrame :: "raw_node \<Rightarrow> warning list \<Rightarrow> frame \<times> warning list" where
  "buildFrame node warnings =
    (let (common, ws) = populateCommonFields node warnings;
         hasLength = (findChild node ''LENGTH'' \<noteq> None \<or> findChild node ''FRAME-LENGTH'' \<noteq> None);
         ws1 = (if \<not> hasLength
                then warnMissing ws (''Frame '' @ quoted (shortName common) @ '' has no length'')
                       (nodeSpan node)
                else ws);
         mappings = map framePduOf (collectDescendants node ''FRAME-PDU''
                      @ collectDescendants node ''PDU-TO-FRAME-MAPPING'');
         ws2 = (if mappings = []
                then warnMissing ws1 (''Frame '' @ quoted (shortName common) @ '' has no PDU mappings'')
                       (nodeSpan node)
                else ws1)
     in (\<lparr>frame_common = common,
          frame_length = childUint32 node ''LENGTH'' (childUint32 node ''FRAME-LENGTH'' 0),
          transmitters = refShortNames node ''TRANSMITTER-REF'',
          frame_pdus = mappings\<rparr>, ws2))"

definition pduSignalOf :: "raw_node \<Rightarrow> pdu_signal_mapping" where
  "pduSignalOf mapping =
    (let signalRef = (case childText mapping ''SIGNAL-REF'' of
                        Some r \<Rightarrow> Some r | None \<Rightarrow> childText mapping ''I-SIGNAL-REF'');
         order = (case childText mapping ''BYTE-ORDER'' of
                    Some b \<Rightarrow> Some b | None \<Rightarrow> childText mapping ''PACKING-BYTE-ORDER'')
     in \<lparr>signalShortNameRef = (case signalRef of Some r \<Rightarrow> shortNameOfRef r | None \<Rightarrow> []),
         psm_startPosition = childUint32 mapping ''START-POSITION'' 0,
         psm_byteOrder = (case order of Some b \<Rightarrow> parseByteOrder b
                                      | None \<Rightarrow> MostSignificantByteFirst)\<rparr>)"

definition buildPdu :: "raw_node \<Rightarrow> warning list \<Rightarrow> pdu \<times> warning list" where
  "buildPdu node warnings =
    (let (common, ws) = populateCommonFields node warnings;
         ws1 = (if findChild node ''LENGTH'' = None
                then warnMissing ws (''Pdu '' @ quoted (shortName common) @ '' has no length'')
                       (nodeSpan node)
                else ws);
         mappings = map pduSignalOf (collectDescendants node ''PDU-SIGNAL-MAPPING''
                      @ collectDescendants node ''I-SIGNAL-TO-I-PDU-MAPPING'');
         ws2 = (if mappings = []
                then warnMissing ws1 (''Pdu '' @ quoted (shortName common) @ '' maps no signals'')
                       (nodeSpan node)
                else ws1)
     in (\<lparr>pdu_common = common, pdu_length = childUint32 node ''LENGTH'' 0,
          signalMappings = mappings\<rparr>, ws2))"

definition valueTableEntryOf :: "raw_node \<Rightarrow> value_table_entry" where
  "valueTableEntryOf child =
    \<lparr>vte_value = (case childText child ''VALUE'' of
                    Some t \<Rightarrow> (case parseInteger t of Some v \<Rightarrow> v | None \<Rightarrow> 0)
                  | None \<Rightarrow> 0),
     vte_label = (case childText child ''LABEL'' of Some l \<Rightarrow> l | None \<Rightarrow> [])\<rparr>"

definition buildSignal :: "raw_node \<Rightarrow> warning list \<Rightarrow> signal \<times> warning list" where
  "buildSignal node warnings =
    (let (common, ws) = populateCommonFields node warnings;
         ws1 = (if tagName node = ''I-SIGNAL'' \<and> findChild node ''LENGTH'' = None
                then warnMissing ws (''Signal '' @ quoted (shortName common) @ '' has no bit length'')
                       (nodeSpan node)
                else ws)
     in (default_signal\<lparr>
           signal_common := common,
           startBit := childUint32 node ''START-BIT'' 0,
           bitLength := childUint32 node ''BIT-LENGTH'' (childUint32 node ''LENGTH'' 0),
           signal_byteOrder := (case childText node ''BYTE-ORDER'' of
               Some b \<Rightarrow> parseByteOrder b | None \<Rightarrow> MostSignificantByteFirst),
           isSigned := (case findDescendantFront node ''BASE-TYPE-REF'' of
               Some r \<Rightarrow> isSignedBaseType (nodeText r) | None \<Rightarrow> False),
           initValue := (case findChild node ''INIT-VALUE'' of
               None \<Rightarrow> None
             | Some iv \<Rightarrow> (case findDescendantFront iv ''VALUE'' of
                             None \<Rightarrow> None | Some v \<Rightarrow> parseDouble (nodeText v))),
           receivers := refShortNames node ''RECEIVER-REF'',
           valueTable := map_option (\<lambda>vt. map valueTableEntryOf
               (filter (\<lambda>c. tagName c = ''VALUE-TABLE-ENTRY'') (children vt)))
             (findChild node ''VALUE-TABLE'')\<rparr>, ws1))"

definition buildSignalGroup :: "raw_node \<Rightarrow> warning list \<Rightarrow> signal_group \<times> warning list" where
  "buildSignalGroup node warnings =
    (let (common, ws) = populateCommonFields node warnings;
         mems = refShortNames node ''I-SIGNAL-REF'' @ refShortNames node ''SYSTEM-SIGNAL-REF'';
         ws1 = (if mems = []
                then warnMissing ws (''SignalGroup '' @ quoted (shortName common) @ '' has no members'')
                       (nodeSpan node)
                else ws)
     in (\<lparr>group_common = common, members = mems\<rparr>, ws1))"

section \<open>Facts\<close>

text \<open>Every builder only appends to the warnings it is given.\<close>

lemma populateCommonFields_appends:
  "populateCommonFields node ws = (fst (populateCommonFields node []), ws @ snd (populateCommonFields node []))"
  by (simp add: populateCommonFields_def warnMissing_def Let_def)

lemma buildCluster_appends: "buildCluster node ws = (fst (buildCluster node []), ws @ snd (buildCluster node []))"
  by (subst (1 2 3) buildCluster_def, subst populateCommonFields_appends)
    (simp add: warnMissing_def Let_def case_prod_unfold)

lemma buildEcuInstance_appends:
  "buildEcuInstance node ws = (fst (buildEcuInstance node []), ws @ snd (buildEcuInstance node []))"
  by (subst (1 2 3) buildEcuInstance_def, subst populateCommonFields_appends)
    (simp add: warnMissing_def Let_def case_prod_unfold)

lemma buildFrame_appends: "buildFrame node ws = (fst (buildFrame node []), ws @ snd (buildFrame node []))"
  by (subst (1 2 3) buildFrame_def, subst populateCommonFields_appends)
    (simp add: warnMissing_def Let_def case_prod_unfold)

lemma buildPdu_appends: "buildPdu node ws = (fst (buildPdu node []), ws @ snd (buildPdu node []))"
  by (subst (1 2 3) buildPdu_def, subst populateCommonFields_appends)
    (simp add: warnMissing_def Let_def case_prod_unfold)

lemma buildSignal_appends: "buildSignal node ws = (fst (buildSignal node []), ws @ snd (buildSignal node []))"
  by (subst (1 2 3) buildSignal_def, subst populateCommonFields_appends)
    (simp add: warnMissing_def Let_def case_prod_unfold)

lemma buildSignalGroup_appends:
  "buildSignalGroup node ws = (fst (buildSignalGroup node []), ws @ snd (buildSignalGroup node []))"
  by (subst (1 2 3) buildSignalGroup_def, subst populateCommonFields_appends)
    (simp add: warnMissing_def Let_def case_prod_unfold)

text \<open>Names are always trimmed, references carry no slash.\<close>

lemma extractShortName_trimmed: "trimmed (extractShortName node)"
  by (auto simp: extractShortName_def childText_def trimmed_def [of "[]"] split: option.splits)

lemma slash_free_shortNameOfRef: "CHR ''/'' \<notin> set (shortNameOfRef r)"
  by (simp add: shortNameOfRef_def after_last_no_sep_in)

lemma refShortNames_sound: "n \<in> set (refShortNames node tag) \<Longrightarrow> n \<noteq> [] \<and> CHR ''/'' \<notin> set n"
  by (auto simp: refShortNames_def slash_free_shortNameOfRef)

text \<open>The integer parser on what the writer prints.\<close>

lemma digit_head: "nat_to_string n = c # cs \<Longrightarrow> is_digit c"
  using nat_to_string_digits [of c n] by simp

lemma take_sign_digits: "take_sign (nat_to_string n) = (False, nat_to_string n)"
  using digit_head [of n] digit_plain by (cases "nat_to_string n") auto

lemma not_hex_digits: "\<not> isHexPrefixed (nat_to_string n)"
proof -
  have dig: "c \<in> set (take 2 (nat_to_string n)) \<Longrightarrow> is_digit c" for c
    using nat_to_string_digits in_set_takeD by fast
  have "take 2 (nat_to_string n) \<noteq> ''0x''"
  proof
    assume "take 2 (nat_to_string n) = ''0x''"
    then show False using dig [of "CHR ''x''"] by (simp add: is_digit_nat)
  qed
  moreover have "take 2 (nat_to_string n) \<noteq> ''0X''"
  proof
    assume "take 2 (nat_to_string n) = ''0X''"
    then show False using dig [of "CHR ''X''"] by (simp add: is_digit_nat)
  qed
  ultimately show ?thesis by (simp add: isHexPrefixed_def take_sign_digits)
qed

lemma word_of_int_below: "n < 2 ^ 63 \<Longrightarrow> \<not> (word_of_int (int n) :: 64 word) > 0x7FFFFFFFFFFFFFFF"
  by (simp add: word_less_alt uint_word_of_int take_bit_eq_mod unsigned_of_nat take_bit_nat_def)

lemma parseInteger_nat: "n < 2 ^ 63 \<Longrightarrow> parseInteger (nat_to_string n) = Some (word_of_int (int n))"
  using word_of_int_below [of n]
  by (simp add: parseInteger_def trimText_nat_to_string take_sign_digits not_hex_digits
      stoll_nat_to_string Let_def del: of_int_of_nat_eq)

lemma trimText_minus: "trimText (CHR ''-'' # nat_to_string n) = CHR ''-'' # nat_to_string n"
  using nat_to_string_digits digit_plain
  by (intro trimText_no_blank) (auto simp: is_blank_def)

lemma parseInteger_minus:
  assumes "n < 2 ^ 63"
  shows "parseInteger (CHR ''-'' # nat_to_string n) = Some (- word_of_int (int n))"
proof -
  have "\<not> isHexPrefixed (CHR ''-'' # nat_to_string n)"
    using not_hex_digits [of n] by (simp add: isHexPrefixed_def take_sign_digits)
  then show ?thesis
    using assms by (simp add: parseInteger_def trimText_minus stoll_nat_to_string Let_def)
qed

lemma stoll_too_big: "n \<ge> 2 ^ 63 \<Longrightarrow> stoll 10 (nat_to_string n) = Inl OutOfRange"
  by (simp add: stoll_def strto_scan_nat_to_string Let_def)

text \<open>What \<open>std::to_string\<close> prints is read back, except for the least 64-bit integer.\<close>

lemma parseInteger_i64_to_string:
  "parseInteger (i64_to_string w) = (if sint w = - (2 ^ 63) then None else Some w)"
proof (cases "sint w < 0")
  case False
  then have "nat (sint w) < 2 ^ 63"
    using sint_less [of w] by (simp add: nat_less_iff)
  then show ?thesis
    using False parseInteger_nat [of "nat (sint w)"] by (simp add: i64_to_string_def int_to_string_def)
next
  case True
  let ?n = "nat (- sint w)"
  have ge: "- (2 ^ 63) \<le> sint w" using sint_ge [of w] by simp
  show ?thesis
  proof (cases "sint w = - (2 ^ 63)")
    case eq: True
    have "stoll 10 (nat_to_string ?n) = Inl OutOfRange"
      using eq by (intro stoll_too_big) simp
    moreover have "\<not> isHexPrefixed (CHR ''-'' # nat_to_string ?n)"
      using not_hex_digits [of ?n] by (simp add: isHexPrefixed_def take_sign_digits)
    ultimately show ?thesis
      using eq by (simp add: i64_to_string_def int_to_string_def parseInteger_def trimText_minus)
  next
    case ne: False
    then have "?n < 2 ^ 63" using ge by simp
    then have "parseInteger (CHR ''-'' # nat_to_string ?n) = Some (- word_of_int (int ?n))"
      by (rule parseInteger_minus)
    moreover have "- word_of_int (int ?n) = w" using True by simp
    ultimately show ?thesis using True ne by (simp add: i64_to_string_def int_to_string_def)
  qed
qed

lemma sint_small_nat: "n < 2 ^ 32 \<Longrightarrow> sint (word_of_int (int n) :: 64 word) = int n"
  by (simp add: signed_of_int signed_take_bit_int_eq_self del: of_int_of_nat_eq)

lemma parseUint32_u32_to_string: "parseUint32 (u32_to_string w) = Some w"
proof -
  have lt: "unat w < 2 ^ 32" using unsigned_less [of w, where ?'a = nat] by simp
  then have p: "parseInteger (u32_to_string w) = Some (word_of_int (int (unat w)))"
    unfolding u32_to_string_def by (intro parseInteger_nat) simp
  have s: "sint (word_of_int (int (unat w)) :: 64 word) = int (unat w)"
    using lt by (intro sint_small_nat)
  have c: "ucast (word_of_int (int (unat w)) :: 64 word) = w"
    by (simp add: ucast_down_ucast_id is_down)
  have "uint w < 2 ^ 32" using unsigned_less [of w, where ?'a = int] by simp
  then show ?thesis using lt s c by (simp add: parseUint32_def p)
qed

text \<open>
  Every unsigned 32-bit value printed by \<open>std::to_string\<close>, the way the writer prints lengths and start
  positions, is read back by \<open>parseUint32\<close>; signed 64-bit values but the least one by \<open>parseInteger\<close>.
\<close>

interpretation u32_text: codec "\<lambda>_. True" u32_to_string parseUint32
  by unfold_locales (rule parseUint32_u32_to_string)

interpretation i64_text: codec "\<lambda>w. sint w \<noteq> - (2 ^ 63)" i64_to_string parseInteger
  by unfold_locales (simp add: parseInteger_i64_to_string)

section \<open>Properties\<close>

text \<open>C39: a signed 64-bit value printed by \<open>std::to_string\<close> is read back by \<open>parseInteger\<close>
  unchanged, except the least one, which is rejected because its magnitude is parsed before the
  sign is applied.\<close>

theorem parseInteger_roundtrip:
  "parseInteger (i64_to_string w) = (if sint w = - (2 ^ 63) then None else Some w)"
  by (rule parseInteger_i64_to_string)

text \<open>Each builder only appends to the warnings, and what it builds does not depend on the
  warnings collected before.\<close>

theorem builders_append_warnings:
  "buildCluster node ws = (fst (buildCluster node []), ws @ snd (buildCluster node [])) \<and>
   buildEcuInstance node ws = (fst (buildEcuInstance node []), ws @ snd (buildEcuInstance node [])) \<and>
   buildFrame node ws = (fst (buildFrame node []), ws @ snd (buildFrame node [])) \<and>
   buildPdu node ws = (fst (buildPdu node []), ws @ snd (buildPdu node [])) \<and>
   buildSignal node ws = (fst (buildSignal node []), ws @ snd (buildSignal node [])) \<and>
   buildSignalGroup node ws = (fst (buildSignalGroup node []), ws @ snd (buildSignalGroup node []))"
  using buildCluster_appends buildEcuInstance_appends buildFrame_appends buildPdu_appends
    buildSignal_appends buildSignalGroup_appends by blast

lemmas integer_scan_defs =
  parseInteger_def trimText_def is_blank_def isHexPrefixed_def stoll_def stoull_def strto_scan_def
  is_cspace_def digits_value_def char_val_def is_base_digit_def is_digit_def less_eq_char_def

text \<open>The integer parser ignores what follows the digits.\<close>

lemma parseInteger_ignores_tail:
  "parseInteger ''12abc'' = Some 12 \<and> parseInteger ''0b11'' = Some 0"
  by (simp add: integer_scan_defs)

text \<open>A negative hexadecimal magnitude has no range check, and a second sign is accepted.\<close>

lemma parseInteger_negative_hex_wraps:
  "parseInteger ''-0xFFFFFFFFFFFFFFFF'' = Some 1 \<and> parseInteger ''0xFFFFFFFFFFFFFFFF'' = None
    \<and> parseInteger ''--5'' = Some 5"
  by (simp add: integer_scan_defs)

end
