(* ===== verification/WriteElements.thy ===== *)
theory WriteElements
  imports WriteContext DomainModel ModelBuilder
begin

text \<open>
  The element builders of the writer (\<open>src/write/write_elements.cpp\<close>), its ordering passes
  (\<open>src/write/write_ordering.cpp\<close>) and the white-space guard (\<open>src/write/write_format.cpp\<close>).
  \<open>xmlNodeSetContent\<close> reads its argument as XML content; the nodes it makes of a text are the
  parameter \<open>sc\<close>, of which the theorems use only \<open>plain_content\<close>: a text without an ampersand
  becomes one text node, and the empty text none.
\<close>

definition plain_content :: "(string \<Rightarrow> xml list) \<Rightarrow> bool" where
  "plain_content sc \<longleftrightarrow> (\<forall>t. CHR ''&'' \<notin> set t \<longrightarrow> sc t = (if t = [] then [] else [Text t]))"

section \<open>Ordering\<close>

definition sortedAttributes :: "(string \<times> string) list \<Rightarrow> (string \<times> string) list" where
  "sortedAttributes attrs = sort_key fst attrs"

definition sortedStrings :: "string list \<Rightarrow> string list" where
  "sortedStrings names = sort names"

definition sortedFramePduMappings :: "frame_pdu_mapping list \<Rightarrow> frame_pdu_mapping list" where
  "sortedFramePduMappings ms = sort_key pduShortNameRef ms"

definition sortedPduSignalMappings :: "pdu_signal_mapping list \<Rightarrow> pdu_signal_mapping list" where
  "sortedPduSignalMappings ms = sort_key signalShortNameRef ms"

definition sortedValueTableEntries :: "value_table_entry list \<Rightarrow> value_table_entry list" where
  "sortedValueTableEntries es = sort_key (\<lambda>e. sint (vte_value e)) es"

section \<open>Small builders\<close>

definition textChild :: "(string \<Rightarrow> xml list) \<Rightarrow> string \<Rightarrow> string \<Rightarrow> xml" where
  "textChild sc tag txt = Elem tag [] (sc txt)"

definition optionalTextChild :: "(string \<Rightarrow> xml list) \<Rightarrow> string \<Rightarrow> string option \<Rightarrow> xml list" where
  "optionalTextChild sc tag v = (case v of Some t \<Rightarrow> [textChild sc tag t] | None \<Rightarrow> [])"

definition refChild :: "(string \<Rightarrow> xml list) \<Rightarrow> string \<Rightarrow> string \<Rightarrow> string \<Rightarrow> xml" where
  "refChild sc tag dest txt = Elem tag (sortedAttributes [(''DEST'', dest)]) (sc txt)"

definition byteOrderToString :: "byte_order \<Rightarrow> string" where
  "byteOrderToString order =
    (if order = LeastSignificantByteFirst then ''LEAST-SIGNIFICANT-BYTE-FIRST''
     else ''MOST-SIGNIFICANT-BYTE-FIRST'')"

definition doubleToString :: "double \<Rightarrow> string" where
  "doubleToString v = fmt_g17 v"

section \<open>The six builders\<close>

definition channelEntry :: "(string \<Rightarrow> xml list) \<Rightarrow> string \<Rightarrow> xml" where
  "channelEntry sc channel = Elem ''CAN-PHYSICAL-CHANNEL'' [] [textChild sc ''SHORT-NAME'' channel]"

definition buildClusterElement :: "(string \<Rightarrow> xml list) \<Rightarrow> cluster \<Rightarrow> xml" where
  "buildClusterElement sc c =
    Elem ''CAN-CLUSTER'' []
      (textChild sc ''SHORT-NAME'' (shortName (cluster_common c))
       # optionalTextChild sc ''CATEGORY'' (category (cluster_common c))
       @ (if baudrate c \<noteq> None \<or> physicalChannels c \<noteq> []
          then [Elem ''CAN-CLUSTER-VARIANTS'' [] [Elem ''CAN-CLUSTER-CONDITIONAL'' []
            ((case baudrate c of Some b \<Rightarrow> [textChild sc ''BAUDRATE'' (u32_to_string b)] | None \<Rightarrow> [])
             @ (if physicalChannels c \<noteq> []
                then [Elem ''PHYSICAL-CHANNELS'' []
                        (map (channelEntry sc) (sortedStrings (physicalChannels c)))]
                else []))]]
          else []))"

definition controllerEntry :: "(string \<Rightarrow> xml list) \<Rightarrow> string \<Rightarrow> xml" where
  "controllerEntry sc controller =
    Elem ''CAN-COMMUNICATION-CONTROLLER'' [] [textChild sc ''SHORT-NAME'' controller]"

definition buildEcuInstanceElement :: "(string \<Rightarrow> xml list) \<Rightarrow> ecu_instance \<Rightarrow> xml" where
  "buildEcuInstanceElement sc e =
    Elem ''ECU-INSTANCE'' []
      (textChild sc ''SHORT-NAME'' (shortName (ecu_common e))
       # optionalTextChild sc ''CATEGORY'' (category (ecu_common e))
       @ (if controllers e \<noteq> []
          then [Elem ''COMM-CONTROLLERS'' [] (map (controllerEntry sc) (sortedStrings (controllers e)))]
          else []))"

definition mappingName :: "string \<Rightarrow> string \<Rightarrow> nat \<Rightarrow> string" where
  "mappingName owner ref idx =
    (if ref = [] then owner @ ''_mapping_'' @ nat_to_string idx else owner @ ''_'' @ ref)"

definition framePduEntry :: "(string \<Rightarrow> xml list) \<Rightarrow> string \<Rightarrow> nat \<times> frame_pdu_mapping \<Rightarrow> xml" where
  "framePduEntry sc owner im =
    (case im of (idx, m) \<Rightarrow>
      Elem ''PDU-TO-FRAME-MAPPING'' []
        (textChild sc ''SHORT-NAME'' (mappingName owner (pduShortNameRef m) idx)
         # (if pduShortNameRef m \<noteq> []
            then [refChild sc ''PDU-REF'' ''I-SIGNAL-I-PDU'' (''/Sys/'' @ pduShortNameRef m)] else [])
         @ [textChild sc ''START-POSITION'' (u32_to_string (fpm_startPosition m))]))"

definition buildFrameElement :: "(string \<Rightarrow> xml list) \<Rightarrow> frame \<Rightarrow> xml" where
  "buildFrameElement sc f =
    Elem ''CAN-FRAME'' []
      (textChild sc ''SHORT-NAME'' (shortName (frame_common f))
       # textChild sc ''FRAME-LENGTH'' (u32_to_string (frame_length f))
       # (if frame_pdus f \<noteq> []
          then [Elem ''PDU-TO-FRAME-MAPPINGS'' []
                 (map (framePduEntry sc (shortName (frame_common f)))
                   (enumerate 0 (sortedFramePduMappings (frame_pdus f))))]
          else []))"

definition pduSignalEntry :: "(string \<Rightarrow> xml list) \<Rightarrow> string \<Rightarrow> nat \<times> pdu_signal_mapping \<Rightarrow> xml" where
  "pduSignalEntry sc owner im =
    (case im of (idx, m) \<Rightarrow>
      Elem ''I-SIGNAL-TO-I-PDU-MAPPING'' []
        (textChild sc ''SHORT-NAME'' (mappingName owner (signalShortNameRef m) idx)
         # (if signalShortNameRef m \<noteq> []
            then [refChild sc ''I-SIGNAL-REF'' ''I-SIGNAL'' (''/Sys/'' @ signalShortNameRef m)] else [])
         @ [textChild sc ''START-POSITION'' (u32_to_string (psm_startPosition m))]))"

definition buildPduElement :: "(string \<Rightarrow> xml list) \<Rightarrow> pdu \<Rightarrow> xml" where
  "buildPduElement sc p =
    Elem ''I-SIGNAL-I-PDU'' []
      (textChild sc ''SHORT-NAME'' (shortName (pdu_common p))
       # textChild sc ''LENGTH'' (u32_to_string (pdu_length p))
       # (if signalMappings p \<noteq> []
          then [Elem ''I-SIGNAL-TO-PDU-MAPPINGS'' []
                 (map (pduSignalEntry sc (shortName (pdu_common p)))
                   (enumerate 0 (sortedPduSignalMappings (signalMappings p))))]
          else []))"

definition buildSignalElement :: "(string \<Rightarrow> xml list) \<Rightarrow> signal \<Rightarrow> xml" where
  "buildSignalElement sc s =
    Elem ''I-SIGNAL'' []
      (textChild sc ''SHORT-NAME'' (shortName (signal_common s))
       # (case initValue s of
            Some v \<Rightarrow> [Elem ''INIT-VALUE'' [] [Elem ''NUMERICAL-VALUE-SPECIFICATION'' []
                        [textChild sc ''VALUE'' (doubleToString v)]]]
          | None \<Rightarrow> [])
       @ textChild sc ''LENGTH'' (u32_to_string (bitLength s))
       # (if isSigned s
          then [Elem ''NETWORK-REPRESENTATION-PROPS'' [] [Elem ''SW-DATA-DEF-PROPS-VARIANTS'' []
                 [Elem ''SW-DATA-DEF-PROPS-CONDITIONAL'' []
                   [refChild sc ''BASE-TYPE-REF'' ''SW-BASE-TYPE'' ''/SwBaseType/SINT8'']]]]
          else []))"

definition memberRef :: "(string \<Rightarrow> xml list) \<Rightarrow> string \<Rightarrow> xml" where
  "memberRef sc member = refChild sc ''I-SIGNAL-REF'' ''I-SIGNAL'' (''/Sys/'' @ member)"

definition buildSignalGroupElement :: "(string \<Rightarrow> xml list) \<Rightarrow> signal_group \<Rightarrow> xml" where
  "buildSignalGroupElement sc g =
    Elem ''I-SIGNAL-GROUP'' []
      (textChild sc ''SHORT-NAME'' (shortName (group_common g))
       # (if members g \<noteq> []
          then [Elem ''I-SIGNAL-REFS'' [] (map (memberRef sc) (sortedStrings (members g)))] else []))"

section \<open>The white-space guard\<close>

definition isWhitespaceOnly :: "string \<Rightarrow> bool" where
  "isWhitespaceOnly content \<longleftrightarrow> list_all is_blank content"

text \<open>True when \<open>checkNode\<close> throws somewhere in the list of siblings.\<close>

fun whitespace_in :: "xml list \<Rightarrow> bool" where
  "whitespace_in [] = False"
| "whitespace_in (Text t # ns) = (isWhitespaceOnly t \<or> whitespace_in ns)"
| "whitespace_in (Elem n as cs # ns) = (whitespace_in cs \<or> whitespace_in ns)"

section \<open>Facts\<close>

lemma whitespace_in_append: "whitespace_in (xs @ ys) \<longleftrightarrow> whitespace_in xs \<or> whitespace_in ys"
  by (induction xs rule: whitespace_in.induct) auto

lemma whitespace_in_map: "(\<And>x. x \<in> set xs \<Longrightarrow> \<not> whitespace_in [f x]) \<Longrightarrow> \<not> whitespace_in (map f xs)"
proof (induction xs)
  case (Cons x xs)
  then show ?case using whitespace_in_append [of "[f x]" "map f xs"] by simp
qed simp

text \<open>A text the guard accepts once it is content: none at all, or one with a non-blank character.\<close>

definition solid :: "string \<Rightarrow> bool" where
  "solid t \<longleftrightarrow> CHR ''&'' \<notin> set t \<and> (t = [] \<or> \<not> list_all is_blank t)"

lemma solid_content: "plain_content sc \<Longrightarrow> solid t \<Longrightarrow> \<not> whitespace_in (sc t)"
  by (auto simp: plain_content_def solid_def isWhitespaceOnly_def)

lemma trimmed_solid: "trimmed t \<Longrightarrow> CHR ''&'' \<notin> set t \<Longrightarrow> solid t"
  by (cases t) (auto simp: trimmed_def solid_def)

lemma solid_prefix: "\<not> is_blank c \<Longrightarrow> c \<noteq> CHR ''&'' \<Longrightarrow> CHR ''&'' \<notin> set t \<Longrightarrow> solid (c # t)"
  by (simp add: solid_def)

lemma solid_digits: "solid (nat_to_string n)"
proof -
  have "c \<noteq> CHR ''&'' \<and> \<not> is_blank c" if "c \<in> set (nat_to_string n)" for c
    using nat_to_string_digits [OF that] digit_plain by (auto simp: is_digit_nat)
  then show ?thesis unfolding solid_def by (cases "nat_to_string n") auto
qed

end
