(* ===== verification/ParseErrors.thy ===== *)
theory ParseErrors
  imports FsPath
begin

text \<open>
  What the loader throws (\<open>parser/parse_error.hpp\<close>): \<open>ParseError\<close> with its reason, path and detail, or a
  plain \<open>std::runtime_error\<close>, with the text of \<open>what()\<close>.
\<close>

datatype parse_reason = Io | Syntax

datatype load_error = RuntimeError string | ParseError parse_reason fpath string

definition reasonName :: "parse_reason \<Rightarrow> string" where
  "reasonName reason = (if reason = Io then ''Io'' else ''Syntax'')"

text \<open>\<open>what()\<close> of the exception: \<open>ParseError::buildMessage\<close>, or the runtime error's own text.\<close>

definition loadMessage :: "load_error \<Rightarrow> string" where
  "loadMessage err =
    (case err of
       RuntimeError msg \<Rightarrow> msg
     | ParseError reason path detail \<Rightarrow>
         ''ParseError['' @ reasonName reason @ ''] '' @ quoted (path_string path) @ '': '' @ detail)"

end
