(* ===== verification/ProjectParser.thy ===== *)
theory ProjectParser
  imports ModelBuilder ReleaseDetector ParseErrors
begin

text \<open>
  The parser facade (\<open>src/parser.cpp\<close>): one file (load, detect the release, build the model), the
  cross-file resolution of references, and the three ways a project is discovered. The file
  system, the current directory and the loader (libxml2's SAX parser behind \<open>loader.cpp\<close>) are the
  fields of an environment; telemetry spans have no effect on the result.
\<close>

section \<open>Building the model from a tree\<close>

definition dispatchNode :: "raw_node \<Rightarrow> parsed_file \<Rightarrow> parsed_file" where
  "dispatchNode node file =
    (let tag = tagName node; ws = file_warnings file in
     if tag = ''CLUSTER'' \<or> tag = ''CAN-CLUSTER'' then
       (let (x, ws') = buildCluster node ws
        in file\<lparr>clusters := clusters file @ [x], file_warnings := ws'\<rparr>)
     else if tag = ''ECU-INSTANCE'' then
       (let (x, ws') = buildEcuInstance node ws
        in file\<lparr>ecuInstances := ecuInstances file @ [x], file_warnings := ws'\<rparr>)
     else if tag = ''FRAME'' \<or> tag = ''CAN-FRAME'' then
       (let (x, ws') = buildFrame node ws
        in file\<lparr>frames := frames file @ [x], file_warnings := ws'\<rparr>)
     else if tag = ''PDU'' \<or> tag = ''I-SIGNAL-I-PDU'' then
       (let (x, ws') = buildPdu node ws
        in file\<lparr>pdus := pdus file @ [x], file_warnings := ws'\<rparr>)
     else if tag = ''SYSTEM-SIGNAL'' \<or> tag = ''I-SIGNAL'' then
       (let (x, ws') = buildSignal node ws
        in file\<lparr>signals := signals file @ [x], file_warnings := ws'\<rparr>)
     else if tag = ''SIGNAL-GROUP'' \<or> tag = ''I-SIGNAL-GROUP'' then
       (let (x, ws') = buildSignalGroup node ws
        in file\<lparr>signalGroups := signalGroups file @ [x], file_warnings := ws'\<rparr>)
     else file)"

fun build_in :: "raw_node list \<Rightarrow> parsed_file \<Rightarrow> parsed_file" where
  "build_in [] file = file"
| "build_in (RawNode t a x s ks # ns) file =
    build_in ns (build_in ks (dispatchNode (RawNode t a x s ks) file))"

definition buildSubtree :: "raw_node \<Rightarrow> parsed_file \<Rightarrow> parsed_file" where
  "buildSubtree node file = build_in [node] file"

section \<open>Wanted and known names\<close>

record name_sets =
  ns_pdus :: "string list"
  ns_signals :: "string list"
  ns_ecus :: "string list"

definition no_names :: name_sets where
  "no_names = \<lparr>ns_pdus = [], ns_signals = [], ns_ecus = []\<rparr>"

definition wantedEmpty :: "name_sets \<Rightarrow> bool" where
  "wantedEmpty w \<longleftrightarrow> ns_pdus w = [] \<and> ns_signals w = [] \<and> ns_ecus w = []"

definition wantName :: "string list \<Rightarrow> string \<Rightarrow> string list \<Rightarrow> string list" where
  "wantName known name wanted =
    (if name \<noteq> [] \<and> name \<notin> set known then s_insert name wanted else wanted)"

definition knownOfFile :: "parsed_file \<Rightarrow> name_sets \<Rightarrow> name_sets" where
  "knownOfFile file k =
    \<lparr>ns_pdus = fold (\<lambda>p. s_insert (shortName (pdu_common p))) (pdus file) (ns_pdus k),
     ns_signals = fold (\<lambda>s. s_insert (shortName (signal_common s))) (signals file) (ns_signals k),
     ns_ecus = fold (\<lambda>e. s_insert (shortName (ecu_common e))) (ecuInstances file) (ns_ecus k)\<rparr>"

definition collectKnownRefs :: "parsed_project \<Rightarrow> name_sets" where
  "collectKnownRefs project = fold knownOfFile (files project) no_names"

definition wantFrameRefs :: "name_sets \<Rightarrow> frame \<Rightarrow> name_sets \<Rightarrow> name_sets" where
  "wantFrameRefs known f wanted =
    wanted\<lparr>ns_ecus := fold (wantName (ns_ecus known)) (transmitters f) (ns_ecus wanted),
           ns_pdus := fold (\<lambda>m. wantName (ns_pdus known) (pduShortNameRef m)) (frame_pdus f)
                        (ns_pdus wanted)\<rparr>"

definition wantFileRefs :: "name_sets \<Rightarrow> parsed_file \<Rightarrow> name_sets \<Rightarrow> name_sets" where
  "wantFileRefs known file wanted =
    (let w1 = fold (wantFrameRefs known) (frames file) wanted;
         w2 = fold (\<lambda>p w. w\<lparr>ns_signals :=
                fold (\<lambda>m. wantName (ns_signals known) (signalShortNameRef m)) (signalMappings p)
                  (ns_signals w)\<rparr>) (pdus file) w1;
         w3 = fold (\<lambda>s w. w\<lparr>ns_ecus :=
                fold (wantName (ns_ecus known)) (receivers s) (ns_ecus w)\<rparr>) (signals file) w2
     in fold (\<lambda>g w. w\<lparr>ns_signals :=
                fold (wantName (ns_signals known)) (members g) (ns_signals w)\<rparr>) (signalGroups file) w3)"

definition collectWantedRefs :: "parsed_project \<Rightarrow> name_sets" where
  "collectWantedRefs project =
    fold (wantFileRefs (collectKnownRefs project)) (files project) no_names"

section \<open>The raw pre-filter\<close>

definition skipSpaceBytes :: "string \<Rightarrow> nat \<Rightarrow> nat" where
  "skipSpaceBytes bytes pos = pos + length (takeWhile is_blank (drop pos bytes))"

definition short_name_opener :: string where
  "short_name_opener = ''SHORT-NAME>''"

lemma find_opener_progress:
  "find_from bytes short_name_opener pos = Some p \<Longrightarrow> pos \<le> p \<and> p < length bytes"
  using find_from_Some(2,3) [of bytes short_name_opener pos p]
  by (simp add: short_name_opener_def)

function definesLoop :: "string \<Rightarrow> string \<Rightarrow> nat \<Rightarrow> bool" where
  "definesLoop bytes name pos =
    (case find_from bytes short_name_opener pos of
       None \<Rightarrow> False
     | Some p \<Rightarrow>
         if p = 0 \<or> (bytes ! (p - 1) \<noteq> CHR ''<'' \<and> bytes ! (p - 1) \<noteq> CHR '':'')
         then definesLoop bytes name (Suc p)
         else let namePos = skipSpaceBytes bytes (p + length short_name_opener) in
           if take (length name) (drop namePos bytes) \<noteq> name
           then definesLoop bytes name namePos
           else let after = skipSpaceBytes bytes (namePos + length name) in
             if after < length bytes \<and> bytes ! after = CHR ''<'' then True
             else definesLoop bytes name after)"
  by pat_completeness auto
termination
  by (relation "measure (\<lambda>(bytes, name, pos). length bytes - pos)")
    (auto simp: skipSpaceBytes_def short_name_opener_def [THEN arg_cong, of length]
      dest!: find_opener_progress split: if_splits)

declare definesLoop.simps [simp del]

text \<open>UTF-16 files (by their byte-order mark) always go to the parse.\<close>

definition rawDefinesShortName :: "string \<Rightarrow> string \<Rightarrow> bool" where
  "rawDefinesShortName bytes name =
    (if length bytes \<ge> 2 \<and>
        ((bytes ! 0 = CHR 0xFF \<and> bytes ! 1 = CHR 0xFE) \<or> (bytes ! 0 = CHR 0xFE \<and> bytes ! 1 = CHR 0xFF))
     then True else definesLoop bytes name 0)"

definition flattenWanted :: "name_sets \<Rightarrow> string list" where
  "flattenWanted w = ns_pdus w @ ns_signals w @ ns_ecus w"

definition definesWantedName :: "parsed_file \<Rightarrow> name_sets \<Rightarrow> bool" where
  "definesWantedName file w \<longleftrightarrow>
    list_ex (\<lambda>p. shortName (pdu_common p) \<in> set (ns_pdus w)) (pdus file) \<or>
    list_ex (\<lambda>s. shortName (signal_common s) \<in> set (ns_signals w)) (signals file) \<or>
    list_ex (\<lambda>e. shortName (ecu_common e) \<in> set (ns_ecus w)) (ecuInstances file)"

section \<open>Cross-file resolution\<close>

datatype parse_exn =
    LoadFailure load_error
  | NoSchemaLocation fpath
  | UnsupportedReleaseError string
  | DanglingFileReferenceError "string list" "fpath list" string
  | FilesystemError string

record unresolved_site =
  site_key :: string
  site_wanted :: string

text \<open>One call of the \<open>resolve\<close> closure: the site key, the name it wants, the names it may match.\<close>

definition resolveSite ::
  "string \<times> string \<times> string list \<Rightarrow> (string, string) omap \<times> unresolved_site list
    \<Rightarrow> (string, string) omap \<times> unresolved_site list" where
  "resolveSite site st =
    (case site of (key, wanted, knownNames) \<Rightarrow>
     (case st of (resolved, unresolved) \<Rightarrow>
       if wanted = [] then (resolved, unresolved)
       else if wanted \<in> set knownNames then (m_try_emplace key wanted resolved, unresolved)
       else (resolved, unresolved @ [\<lparr>site_key = key, site_wanted = wanted\<rparr>])))"

definition siteKey :: "common_fields \<Rightarrow> string \<Rightarrow> nat \<Rightarrow> string" where
  "siteKey owner field idx = shortName owner @ ''.'' @ field @ ''['' @ nat_to_string idx @ '']''"

definition indexed_sites ::
  "common_fields \<Rightarrow> string \<Rightarrow> string list \<Rightarrow> string list \<Rightarrow> (string \<times> string \<times> string list) list" where
  "indexed_sites owner field wanteds known =
    map (\<lambda>(idx, w). (siteKey owner field idx, w, known)) (enumerate 0 wanteds)"

text \<open>The calls the four loops of \<open>resolveFileRefs\<close> make, in their order.\<close>

definition fileSites :: "name_sets \<Rightarrow> parsed_file \<Rightarrow> (string \<times> string \<times> string list) list" where
  "fileSites known file =
    concat (map (\<lambda>f. indexed_sites (frame_common f) ''transmitters'' (transmitters f) (ns_ecus known)
        @ indexed_sites (frame_common f) ''pdus'' (map pduShortNameRef (frame_pdus f)) (ns_pdus known))
      (frames file))
    @ concat (map (\<lambda>p. indexed_sites (pdu_common p) ''signalMappings''
        (map signalShortNameRef (signalMappings p)) (ns_signals known)) (pdus file))
    @ concat (map (\<lambda>s. indexed_sites (signal_common s) ''receivers'' (receivers s) (ns_ecus known))
      (signals file))
    @ concat (map (\<lambda>g. indexed_sites (group_common g) ''members'' (members g) (ns_signals known))
      (signalGroups file))"

definition resolveFileRefs ::
  "name_sets \<Rightarrow> parsed_file \<Rightarrow> (string, string) omap \<times> unresolved_site list
    \<Rightarrow> (string, string) omap \<times> unresolved_site list" where
  "resolveFileRefs known file st = fold resolveSite (fileSites known file) st"

definition siteText :: "unresolved_site \<Rightarrow> string \<Rightarrow> string" where
  "siteText site acc =
    (if acc \<noteq> [] then acc @ ''; '' else acc) @ site_key site @ '' -> '' @ site_wanted site"

definition searchedDirOf :: "parsed_file \<Rightarrow> fpath list \<Rightarrow> fpath list" where
  "searchedDirOf file dirs =
    (let parent = parent_path (sourcePath file);
         directory = (if parent = [] then [''.''] else parent)
     in if directory \<in> set dirs then dirs else dirs @ [directory])"

definition resolveCrossFileReferences :: "parsed_project \<Rightarrow> parse_exn + parsed_project" where
  "resolveCrossFileReferences project =
    (let known = collectKnownRefs project;
         (resolved, unresolved) = fold (resolveFileRefs known) (files project) ([], [])
     in if unresolved \<noteq> []
        then Inl (DanglingFileReferenceError
               (fold (\<lambda>s. s_insert (site_wanted s)) unresolved [])
               (fold searchedDirOf (files project) [])
               (fold siteText unresolved []))
        else Inr (project\<lparr>resolvedRefs := resolved\<rparr>))"

section \<open>The walk in document order\<close>

lemma build_in_fold: "build_in ns f = fold dispatchNode (nodes_in ns) f"
  by (induction ns f rule: build_in.induct) auto

definition nodeWarnings :: "raw_node \<Rightarrow> warning list" where
  "nodeWarnings node = file_warnings (dispatchNode node empty_file)"

definition tagged :: "string list \<Rightarrow> raw_node \<Rightarrow> raw_node list" where
  "tagged tags root = filter (\<lambda>n. tagName n \<in> set tags) (nodes_in [root])"

lemmas build_appends =
  buildCluster_appends buildEcuInstance_appends buildFrame_appends buildPdu_appends
  buildSignal_appends buildSignalGroup_appends

definition built_list :: "string list \<Rightarrow> (raw_node \<Rightarrow> warning list \<Rightarrow> 'a \<times> warning list)
    \<Rightarrow> raw_node \<Rightarrow> 'a list" where
  "built_list tags build n = (if tagName n \<in> set tags then [fst (build n [])] else [])"

lemma concat_built_list:
  "concat (map (built_list tags build) ns)
    = map (\<lambda>n. fst (build n [])) (filter (\<lambda>n. tagName n \<in> set tags) ns)"
  by (induction ns) (auto simp: built_list_def)

lemma dispatch_clusters:
  "clusters (dispatchNode n f) = clusters f @ built_list [''CLUSTER'', ''CAN-CLUSTER''] buildCluster n"
  by (simp add: dispatchNode_def built_list_def Let_def case_prod_unfold)
    (metis buildCluster_appends fst_conv)

lemma dispatch_ecus:
  "ecuInstances (dispatchNode n f) = ecuInstances f @ built_list [''ECU-INSTANCE''] buildEcuInstance n"
  by (simp add: dispatchNode_def built_list_def Let_def case_prod_unfold)
    (metis buildEcuInstance_appends fst_conv)

lemma dispatch_frames:
  "frames (dispatchNode n f) = frames f @ built_list [''FRAME'', ''CAN-FRAME''] buildFrame n"
  by (simp add: dispatchNode_def built_list_def Let_def case_prod_unfold)
    (metis buildFrame_appends fst_conv)

lemma dispatch_pdus:
  "pdus (dispatchNode n f) = pdus f @ built_list [''PDU'', ''I-SIGNAL-I-PDU''] buildPdu n"
  by (simp add: dispatchNode_def built_list_def Let_def case_prod_unfold)
    (metis buildPdu_appends fst_conv)

lemma dispatch_signals:
  "signals (dispatchNode n f) = signals f @ built_list [''SYSTEM-SIGNAL'', ''I-SIGNAL''] buildSignal n"
  by (simp add: dispatchNode_def built_list_def Let_def case_prod_unfold)
    (metis buildSignal_appends fst_conv)

lemma dispatch_groups:
  "signalGroups (dispatchNode n f)
    = signalGroups f @ built_list [''SIGNAL-GROUP'', ''I-SIGNAL-GROUP''] buildSignalGroup n"
  by (simp add: dispatchNode_def built_list_def Let_def case_prod_unfold)
    (metis buildSignalGroup_appends fst_conv)

lemma dispatch_warnings: "file_warnings (dispatchNode n f) = file_warnings f @ nodeWarnings n"
  by (simp add: nodeWarnings_def dispatchNode_def empty_file_def Let_def case_prod_unfold)
    (metis build_appends snd_conv)

lemma dispatch_meta:
  "autosarRelease (dispatchNode n f) = autosarRelease f"
  "sourcePath (dispatchNode n f) = sourcePath f"
  "rawDocument (dispatchNode n f) = rawDocument f"
  by (simp_all add: dispatchNode_def Let_def case_prod_unfold)

lemma fold_appends:
  "(\<And>n f. g (step n f) = g f @ h n) \<Longrightarrow> g (fold step ns f) = g f @ concat (map h ns)"
  by (induction ns arbitrary: f) auto

lemma buildSubtree_lists:
  "clusters (buildSubtree root f)
    = clusters f @ map (\<lambda>n. fst (buildCluster n [])) (tagged [''CLUSTER'', ''CAN-CLUSTER''] root)"
  "ecuInstances (buildSubtree root f)
    = ecuInstances f @ map (\<lambda>n. fst (buildEcuInstance n [])) (tagged [''ECU-INSTANCE''] root)"
  "frames (buildSubtree root f)
    = frames f @ map (\<lambda>n. fst (buildFrame n [])) (tagged [''FRAME'', ''CAN-FRAME''] root)"
  "pdus (buildSubtree root f)
    = pdus f @ map (\<lambda>n. fst (buildPdu n [])) (tagged [''PDU'', ''I-SIGNAL-I-PDU''] root)"
  "signals (buildSubtree root f)
    = signals f @ map (\<lambda>n. fst (buildSignal n [])) (tagged [''SYSTEM-SIGNAL'', ''I-SIGNAL''] root)"
  "signalGroups (buildSubtree root f)
    = signalGroups f @ map (\<lambda>n. fst (buildSignalGroup n []))
        (tagged [''SIGNAL-GROUP'', ''I-SIGNAL-GROUP''] root)"
  "file_warnings (buildSubtree root f) = file_warnings f @ concat (map nodeWarnings (nodes_in [root]))"
  unfolding buildSubtree_def build_in_fold tagged_def concat_built_list [symmetric]
  by (rule fold_appends, rule dispatch_clusters dispatch_ecus dispatch_frames dispatch_pdus
      dispatch_signals dispatch_groups dispatch_warnings)+

section \<open>Known and wanted names as sets of sites\<close>

lemma set_fold_insert: "set (fold (\<lambda>x. s_insert (key x)) xs s) = set s \<union> key ` set xs"
  by (induction xs arbitrary: s) (auto simp: set_s_insert)

lemma known_sets:
  "set (ns_pdus (collectKnownRefs p)) = {shortName (pdu_common x) | x f. f \<in> set (files p) \<and> x \<in> set (pdus f)}"
  "set (ns_signals (collectKnownRefs p))
    = {shortName (signal_common x) | x f. f \<in> set (files p) \<and> x \<in> set (signals f)}"
  "set (ns_ecus (collectKnownRefs p))
    = {shortName (ecu_common x) | x f. f \<in> set (files p) \<and> x \<in> set (ecuInstances f)}"
proof -
  have "set (ns_pdus (fold knownOfFile fs k)) = set (ns_pdus k)
        \<union> {shortName (pdu_common x) | x f. f \<in> set fs \<and> x \<in> set (pdus f)} \<and>
      set (ns_signals (fold knownOfFile fs k)) = set (ns_signals k)
        \<union> {shortName (signal_common x) | x f. f \<in> set fs \<and> x \<in> set (signals f)} \<and>
      set (ns_ecus (fold knownOfFile fs k)) = set (ns_ecus k)
        \<union> {shortName (ecu_common x) | x f. f \<in> set fs \<and> x \<in> set (ecuInstances f)}" for fs k
    by (induction fs arbitrary: k) (auto simp: knownOfFile_def set_fold_insert)
  then show
    "set (ns_pdus (collectKnownRefs p)) = {shortName (pdu_common x) | x f. f \<in> set (files p) \<and> x \<in> set (pdus f)}"
    "set (ns_signals (collectKnownRefs p))
      = {shortName (signal_common x) | x f. f \<in> set (files p) \<and> x \<in> set (signals f)}"
    "set (ns_ecus (collectKnownRefs p))
      = {shortName (ecu_common x) | x f. f \<in> set (files p) \<and> x \<in> set (ecuInstances f)}"
    by (simp_all add: collectKnownRefs_def no_names_def)
qed

text \<open>The names each kind of site wants, and those among them that are missing.\<close>

definition wants_ecu :: "parsed_file \<Rightarrow> string set" where
  "wants_ecu f = (\<Union>x \<in> set (frames f). set (transmitters x)) \<union> (\<Union>s \<in> set (signals f). set (receivers s))"

definition wants_pdu :: "parsed_file \<Rightarrow> string set" where
  "wants_pdu f = (\<Union>x \<in> set (frames f). pduShortNameRef ` set (frame_pdus x))"

definition wants_signal :: "parsed_file \<Rightarrow> string set" where
  "wants_signal f = (\<Union>x \<in> set (pdus f). signalShortNameRef ` set (signalMappings x))
     \<union> (\<Union>g \<in> set (signalGroups f). set (members g))"

definition missing_of :: "string list \<Rightarrow> string set \<Rightarrow> string set" where
  "missing_of known names = {n \<in> names. n \<noteq> [] \<and> n \<notin> set known}"

lemma missing_of_empty [simp]: "missing_of k {} = {}"
  by (simp add: missing_of_def)

lemma missing_of_Un: "missing_of k (A \<union> B) = missing_of k A \<union> missing_of k B"
  by (auto simp: missing_of_def)

lemma missing_of_UN: "missing_of k (\<Union>x \<in> S. A x) = (\<Union>x \<in> S. missing_of k (A x))"
  by (auto simp: missing_of_def)

lemma set_fold_wantName: "set (fold (\<lambda>x. wantName known (key x)) xs w) = set w \<union> missing_of known (key ` set xs)"
  by (induction xs arbitrary: w) (auto simp: wantName_def missing_of_def set_s_insert)

lemma set_fold_wantName_id: "set (fold (wantName known) xs w) = set w \<union> missing_of known (set xs)"
  using set_fold_wantName [of known "\<lambda>x. x" xs w] by simp

lemma wantFileRefs_sets:
  "set (ns_pdus (wantFileRefs k f w)) = set (ns_pdus w) \<union> missing_of (ns_pdus k) (wants_pdu f)"
  "set (ns_signals (wantFileRefs k f w)) = set (ns_signals w) \<union> missing_of (ns_signals k) (wants_signal f)"
  "set (ns_ecus (wantFileRefs k f w)) = set (ns_ecus w) \<union> missing_of (ns_ecus k) (wants_ecu f)"
proof -
  have a: "set (ns_pdus (fold (wantFrameRefs k) fs w)) = set (ns_pdus w)
        \<union> missing_of (ns_pdus k) (\<Union>x \<in> set fs. pduShortNameRef ` set (frame_pdus x)) \<and>
      ns_signals (fold (wantFrameRefs k) fs w) = ns_signals w \<and>
      set (ns_ecus (fold (wantFrameRefs k) fs w)) = set (ns_ecus w)
        \<union> missing_of (ns_ecus k) (\<Union>x \<in> set fs. set (transmitters x))" for fs w
    by (induction fs arbitrary: w)
      (auto simp: wantFrameRefs_def set_fold_wantName set_fold_wantName_id missing_of_Un missing_of_UN)
  have b: "set (ns_signals (fold (\<lambda>p w. w\<lparr>ns_signals :=
          fold (\<lambda>m. wantName (ns_signals k) (signalShortNameRef m)) (signalMappings p) (ns_signals w)\<rparr>) ps w))
        = set (ns_signals w) \<union> missing_of (ns_signals k) (\<Union>x \<in> set ps. signalShortNameRef ` set (signalMappings x)) \<and>
      ns_pdus (fold (\<lambda>p w. w\<lparr>ns_signals :=
          fold (\<lambda>m. wantName (ns_signals k) (signalShortNameRef m)) (signalMappings p) (ns_signals w)\<rparr>) ps w)
        = ns_pdus w \<and>
      ns_ecus (fold (\<lambda>p w. w\<lparr>ns_signals :=
          fold (\<lambda>m. wantName (ns_signals k) (signalShortNameRef m)) (signalMappings p) (ns_signals w)\<rparr>) ps w)
        = ns_ecus w" for ps w
    by (induction ps arbitrary: w) (auto simp: set_fold_wantName missing_of_Un missing_of_UN)
  have c: "set (ns_ecus (fold (\<lambda>s w. w\<lparr>ns_ecus := fold (wantName (ns_ecus k)) (receivers s) (ns_ecus w)\<rparr>) ss w))
        = set (ns_ecus w) \<union> missing_of (ns_ecus k) (\<Union>s \<in> set ss. set (receivers s)) \<and>
      ns_pdus (fold (\<lambda>s w. w\<lparr>ns_ecus := fold (wantName (ns_ecus k)) (receivers s) (ns_ecus w)\<rparr>) ss w) = ns_pdus w \<and>
      ns_signals (fold (\<lambda>s w. w\<lparr>ns_ecus := fold (wantName (ns_ecus k)) (receivers s) (ns_ecus w)\<rparr>) ss w)
        = ns_signals w" for ss w
    by (induction ss arbitrary: w) (auto simp: set_fold_wantName_id missing_of_Un missing_of_UN)
  have d: "set (ns_signals (fold (\<lambda>g w. w\<lparr>ns_signals := fold (wantName (ns_signals k)) (members g) (ns_signals w)\<rparr>) gs w))
        = set (ns_signals w) \<union> missing_of (ns_signals k) (\<Union>g \<in> set gs. set (members g)) \<and>
      ns_pdus (fold (\<lambda>g w. w\<lparr>ns_signals := fold (wantName (ns_signals k)) (members g) (ns_signals w)\<rparr>) gs w) = ns_pdus w \<and>
      ns_ecus (fold (\<lambda>g w. w\<lparr>ns_signals := fold (wantName (ns_signals k)) (members g) (ns_signals w)\<rparr>) gs w) = ns_ecus w"
    for gs w
    by (induction gs arbitrary: w) (auto simp: set_fold_wantName_id missing_of_Un missing_of_UN)
  show
    "set (ns_pdus (wantFileRefs k f w)) = set (ns_pdus w) \<union> missing_of (ns_pdus k) (wants_pdu f)"
    "set (ns_signals (wantFileRefs k f w)) = set (ns_signals w) \<union> missing_of (ns_signals k) (wants_signal f)"
    "set (ns_ecus (wantFileRefs k f w)) = set (ns_ecus w) \<union> missing_of (ns_ecus k) (wants_ecu f)"
    by (simp_all add: wantFileRefs_def a b c d Let_def wants_pdu_def wants_signal_def wants_ecu_def
        missing_of_Un Un_assoc)
qed

lemma wanted_sets:
  fixes p :: parsed_project
  defines "k \<equiv> collectKnownRefs p"
  shows "set (ns_pdus (collectWantedRefs p)) = (\<Union>f \<in> set (files p). missing_of (ns_pdus k) (wants_pdu f))"
    "set (ns_signals (collectWantedRefs p)) = (\<Union>f \<in> set (files p). missing_of (ns_signals k) (wants_signal f))"
    "set (ns_ecus (collectWantedRefs p)) = (\<Union>f \<in> set (files p). missing_of (ns_ecus k) (wants_ecu f))"
proof -
  have "set (ns_pdus (fold (wantFileRefs k) fs w))
        = set (ns_pdus w) \<union> (\<Union>f \<in> set fs. missing_of (ns_pdus k) (wants_pdu f)) \<and>
      set (ns_signals (fold (wantFileRefs k) fs w))
        = set (ns_signals w) \<union> (\<Union>f \<in> set fs. missing_of (ns_signals k) (wants_signal f)) \<and>
      set (ns_ecus (fold (wantFileRefs k) fs w))
        = set (ns_ecus w) \<union> (\<Union>f \<in> set fs. missing_of (ns_ecus k) (wants_ecu f))" for fs w
    by (induction fs arbitrary: w) (auto simp: wantFileRefs_sets)
  then show
    "set (ns_pdus (collectWantedRefs p)) = (\<Union>f \<in> set (files p). missing_of (ns_pdus k) (wants_pdu f))"
    "set (ns_signals (collectWantedRefs p)) = (\<Union>f \<in> set (files p). missing_of (ns_signals k) (wants_signal f))"
    "set (ns_ecus (collectWantedRefs p)) = (\<Union>f \<in> set (files p). missing_of (ns_ecus k) (wants_ecu f))"
    by (simp_all add: collectWantedRefs_def no_names_def k_def)
qed

section \<open>Resolution\<close>

definition projectSites :: "parsed_project \<Rightarrow> (string \<times> string \<times> string list) list" where
  "projectSites p = concat (map (fileSites (collectKnownRefs p)) (files p))"

definition site_missing :: "string \<times> string \<times> string list \<Rightarrow> bool" where
  "site_missing site = (case site of (key, wanted, known) \<Rightarrow> wanted \<noteq> [] \<and> wanted \<notin> set known)"

definition site_found :: "string \<times> string \<times> string list \<Rightarrow> bool" where
  "site_found site = (case site of (key, wanted, known) \<Rightarrow> wanted \<noteq> [] \<and> wanted \<in> set known)"

lemma resolveSites:
  "fold resolveSite ss (r, u) =
    (fold (\<lambda>(k, v). m_try_emplace k v) (map (\<lambda>(k, w, _). (k, w)) (filter site_found ss)) r,
     u @ map (\<lambda>(k, w, _). \<lparr>site_key = k, site_wanted = w\<rparr>) (filter site_missing ss))"
  by (induction ss arbitrary: r u)
    (auto simp: resolveSite_def site_found_def site_missing_def split: if_splits)

lemma fold_resolveFileRefs:
  "fold (resolveFileRefs k) fs st = fold resolveSite (concat (map (fileSites k) fs)) st"
  by (induction fs arbitrary: st) (auto simp: resolveFileRefs_def)

lemma resolve_cases:
  "resolveCrossFileReferences p =
    (let missing = filter site_missing (projectSites p);
         unresolved = map (\<lambda>(k, w, _). \<lparr>site_key = k, site_wanted = w\<rparr>) missing in
     if missing \<noteq> []
     then Inl (DanglingFileReferenceError (fold (\<lambda>s. s_insert (site_wanted s)) unresolved [])
            (fold searchedDirOf (files p) []) (fold siteText unresolved []))
     else Inr (p\<lparr>resolvedRefs := fold (\<lambda>(k, v). m_try_emplace k v)
                  (map (\<lambda>(k, w, _). (k, w)) (filter site_found (projectSites p))) []\<rparr>))"
  by (simp add: resolveCrossFileReferences_def fold_resolveFileRefs resolveSites projectSites_def Let_def)

lemma indexed_sites_wanted:
  "(\<exists>key. (key, w, ks) \<in> set (indexed_sites c fld ws known)) \<longleftrightarrow> w \<in> set ws \<and> ks = known"
proof
  assume "w \<in> set ws \<and> ks = known"
  then obtain i where "i < length ws" "w = ws ! i" "ks = known" by (auto simp: in_set_conv_nth)
  then have "(i, w) \<in> set (enumerate 0 ws)" by (simp add: in_set_enumerate_eq)
  then show "\<exists>key. (key, w, ks) \<in> set (indexed_sites c fld ws known)"
    using \<open>ks = known\<close> by (force simp: indexed_sites_def)
qed (auto simp: indexed_sites_def in_set_enumerate_eq dest!: in_set_enumerate_eq [THEN iffD1])

lemma fileSites_wanted:
  "(\<exists>key. (key, w, ks) \<in> set (fileSites k f)) \<longleftrightarrow>
    (w \<in> wants_ecu f \<and> ks = ns_ecus k) \<or> (w \<in> wants_pdu f \<and> ks = ns_pdus k)
    \<or> (w \<in> wants_signal f \<and> ks = ns_signals k)"
proof -
  have "(\<exists>key. (key, w, ks) \<in> set (fileSites k f)) \<longleftrightarrow>
    (\<exists>x \<in> set (frames f). (\<exists>key. (key, w, ks) \<in> set (indexed_sites (frame_common x) ''transmitters'' (transmitters x) (ns_ecus k)))
       \<or> (\<exists>key. (key, w, ks) \<in> set (indexed_sites (frame_common x) ''pdus'' (map pduShortNameRef (frame_pdus x)) (ns_pdus k))))
    \<or> (\<exists>p \<in> set (pdus f). \<exists>key. (key, w, ks) \<in> set (indexed_sites (pdu_common p) ''signalMappings''
        (map signalShortNameRef (signalMappings p)) (ns_signals k)))
    \<or> (\<exists>s \<in> set (signals f). \<exists>key. (key, w, ks) \<in> set (indexed_sites (signal_common s) ''receivers'' (receivers s) (ns_ecus k)))
    \<or> (\<exists>g \<in> set (signalGroups f). \<exists>key. (key, w, ks) \<in> set (indexed_sites (group_common g) ''members'' (members g) (ns_signals k)))"
    by (simp add: fileSites_def) blast
  then show ?thesis
    by (auto simp: indexed_sites_wanted wants_ecu_def wants_pdu_def wants_signal_def)
qed

lemma no_missing_iff_none_wanted:
  "filter site_missing (projectSites p) = [] \<longleftrightarrow> wantedEmpty (collectWantedRefs p)"
proof -
  let ?k = "collectKnownRefs p"
  have "filter site_missing (projectSites p) = [] \<longleftrightarrow>
      (\<forall>f \<in> set (files p). \<forall>w ks. (\<exists>key. (key, w, ks) \<in> set (fileSites ?k f)) \<longrightarrow> \<not> (w \<noteq> [] \<and> w \<notin> set ks))"
    by (fastforce simp: projectSites_def filter_empty_conv site_missing_def)
  also have "\<dots> \<longleftrightarrow> (\<forall>f \<in> set (files p). missing_of (ns_pdus ?k) (wants_pdu f) = {}
      \<and> missing_of (ns_signals ?k) (wants_signal f) = {} \<and> missing_of (ns_ecus ?k) (wants_ecu f) = {})"
    by (auto simp: fileSites_wanted missing_of_def)
  also have "\<dots> \<longleftrightarrow> set (ns_pdus (collectWantedRefs p)) = {} \<and> set (ns_signals (collectWantedRefs p)) = {}
      \<and> set (ns_ecus (collectWantedRefs p)) = {}"
    unfolding wanted_sets by blast
  finally show ?thesis by (simp add: wantedEmpty_def)
qed

lemma resolve_success_iff:
  "(\<exists>q. resolveCrossFileReferences p = Inr q) \<longleftrightarrow> filter site_missing (projectSites p) = []"
  by (simp add: resolve_cases Let_def)

section \<open>Properties\<close>

text \<open>Building a file from a tree yields, for each of the six families, exactly the objects
  built from the nodes with the family's tags, in document order, and the warnings of all nodes in
  the same order; no other node contributes anything.\<close>

theorem buildSubtree_document_order:
  "clusters (buildSubtree root empty_file)
     = map (\<lambda>n. fst (buildCluster n [])) (tagged [''CLUSTER'', ''CAN-CLUSTER''] root) \<and>
   ecuInstances (buildSubtree root empty_file)
     = map (\<lambda>n. fst (buildEcuInstance n [])) (tagged [''ECU-INSTANCE''] root) \<and>
   frames (buildSubtree root empty_file)
     = map (\<lambda>n. fst (buildFrame n [])) (tagged [''FRAME'', ''CAN-FRAME''] root) \<and>
   pdus (buildSubtree root empty_file)
     = map (\<lambda>n. fst (buildPdu n [])) (tagged [''PDU'', ''I-SIGNAL-I-PDU''] root) \<and>
   signals (buildSubtree root empty_file)
     = map (\<lambda>n. fst (buildSignal n [])) (tagged [''SYSTEM-SIGNAL'', ''I-SIGNAL''] root) \<and>
   signalGroups (buildSubtree root empty_file)
     = map (\<lambda>n. fst (buildSignalGroup n [])) (tagged [''SIGNAL-GROUP'', ''I-SIGNAL-GROUP''] root) \<and>
   file_warnings (buildSubtree root empty_file) = concat (map nodeWarnings (nodes_in [root]))"
  by (simp add: buildSubtree_lists empty_file_def)

text \<open>C9: the final resolution succeeds exactly when the lazy discovery has nothing left to want:
  the two traversals of the reference sites agree on what is missing.\<close>

theorem resolve_iff_nothing_wanted:
  "(\<exists>q. resolveCrossFileReferences p = Inr q) \<longleftrightarrow> wantedEmpty (collectWantedRefs p)"
  by (simp add: resolve_success_iff no_missing_iff_none_wanted)

text \<open>C37: after a successful resolution the files are untouched and every site key is mapped to the
  name of the first site with that key whose reference is not empty; keys of no such site are
  absent, and the map is in key order.\<close>

theorem resolve_first_site_wins:
  assumes "resolveCrossFileReferences p = Inr q"
  shows "files q = files p \<and> m_inv (resolvedRefs q) \<and>
    map_of (resolvedRefs q) key
      = map_of [(k, w). (k, w, _) \<leftarrow> projectSites p, w \<noteq> []] key"
proof -
  let ?kvs = "map (\<lambda>(k, w, _). (k, w)) (filter site_found (projectSites p))"
  have none: "filter site_missing (projectSites p) = []"
    using assms resolve_success_iff by blast
  then have q: "q = p\<lparr>resolvedRefs := fold (\<lambda>(k, v). m_try_emplace k v) ?kvs []\<rparr>"
    using assms by (simp add: resolve_cases Let_def)
  have "\<forall>s \<in> set ss. \<not> site_missing s \<Longrightarrow>
      map (\<lambda>(k, w, _). (k, w)) (filter site_found ss) = [(k, w). (k, w, _) \<leftarrow> ss, w \<noteq> []]" for ss
    by (induction ss) (auto simp: site_found_def site_missing_def)
  then have kvs: "?kvs = [(k, w). (k, w, _) \<leftarrow> projectSites p, w \<noteq> []]"
    using none by (simp add: filter_empty_conv)
  show ?thesis
    using smap.first_wins [of ?kvs key] smap.inv_emplace_all [OF smap.inv_emp, of ?kvs]
    by (simp add: q kvs)
qed

definition sample_frame :: frame where
  "sample_frame = \<lparr>frame_common = default_common\<lparr>shortName := ''F''\<rparr>, frame_length = 8,
     transmitters = [''E''], frame_pdus = []\<rparr>"

definition sample_ecu :: ecu_instance where
  "sample_ecu = \<lparr>ecu_common = default_common\<lparr>shortName := ''E''\<rparr>, connectedChannels = [],
     controllers = []\<rparr>"

definition sample_project :: "ecu_instance list \<Rightarrow> parsed_project" where
  "sample_project ecus =
    \<lparr>files = [empty_file\<lparr>frames := [sample_frame], ecuInstances := ecus\<rparr>], resolvedRefs = []\<rparr>"

theorem resolve_first_site_wins_witness:
  "\<exists>q. resolveCrossFileReferences (sample_project [sample_ecu]) = Inr q \<and>
    map_of (resolvedRefs q) ''F.transmitters[0]'' = Some ''E''"
proof -
  have none: "wantedEmpty (collectWantedRefs (sample_project [sample_ecu]))" by code_simp
  then obtain q where q: "resolveCrossFileReferences (sample_project [sample_ecu]) = Inr q"
    using resolve_success_iff no_missing_iff_none_wanted by blast
  moreover have "map_of [(k, w). (k, w, _) \<leftarrow> projectSites (sample_project [sample_ecu]), w \<noteq> []]
      ''F.transmitters[0]'' = Some ''E''" by code_simp
  ultimately show ?thesis
    using resolve_first_site_wins [OF q, of "''F.transmitters[0]''"] by simp
qed

text \<open>C31: a failed resolution reports the missing names sorted and without repetition, and they
  are exactly the names the lazy discovery would go on looking for.\<close>

theorem dangling_names_exact:
  assumes "resolveCrossFileReferences p = Inl x"
  shows "\<exists>names dirs ctx. x = DanglingFileReferenceError names dirs ctx \<and>
    sorted_wrt (<) names \<and> names \<noteq> [] \<and> set names = set (flattenWanted (collectWantedRefs p))"
proof -
  let ?k = "collectKnownRefs p"
  let ?missing = "filter site_missing (projectSites p)"
  let ?u = "map (\<lambda>(k, w, _). \<lparr>site_key = k, site_wanted = w\<rparr>) ?missing"
  let ?names = "fold (\<lambda>s. s_insert (site_wanted s)) ?u []"
  have ne: "?missing \<noteq> []" and x: "x = DanglingFileReferenceError ?names
      (fold searchedDirOf (files p) []) (fold siteText ?u [])"
    using assms by (auto simp: resolve_cases Let_def split: if_splits)
  have "sorted_wrt (<) (fold s_insert (map site_wanted ?u) [])"
    using sset.inv_ins_all [of "[]"] by simp
  then have sorted: "sorted_wrt (<) ?names" by (simp add: fold_map comp_def)
  have names: "set ?names = {w. \<exists>key ks. (key, w, ks) \<in> set (projectSites p) \<and> w \<noteq> [] \<and> w \<notin> set ks}"
    by (force simp: set_fold_insert site_missing_def)
  also have "\<dots> = {w. \<exists>f \<in> set (files p). \<exists>ks. (\<exists>key. (key, w, ks) \<in> set (fileSites ?k f)) \<and> w \<noteq> [] \<and> w \<notin> set ks}"
    by (auto simp: projectSites_def)
  also have "\<dots> = set (flattenWanted (collectWantedRefs p))"
    unfolding flattenWanted_def set_append wanted_sets fileSites_wanted missing_of_def by blast
  finally have "set ?names = set (flattenWanted (collectWantedRefs p))" .
  moreover have "?names \<noteq> []"
  proof -
    obtain key w ks where "(key, w, ks) \<in> set ?missing"
      using ne by (metis list.set_sel(1) prod_cases3)
    then have "w \<in> set ?names" unfolding names by (auto simp: site_missing_def)
    then show ?thesis by auto
  qed
  ultimately show ?thesis using x sorted by blast
qed


theorem dangling_names_exact_witness:
  "\<exists>names dirs ctx. resolveCrossFileReferences (sample_project []) = Inl (DanglingFileReferenceError names dirs ctx)
    \<and> sorted_wrt (<) names \<and> names \<noteq> [] \<and> set names = set (flattenWanted (collectWantedRefs (sample_project [])))"
proof -
  have "\<not> wantedEmpty (collectWantedRefs (sample_project []))" by code_simp
  then obtain x where x: "resolveCrossFileReferences (sample_project []) = Inl x"
    using resolve_success_iff no_missing_iff_none_wanted by (metis sum.exhaust)
  show ?thesis unfolding x using dangling_names_exact [OF x] by simp
qed

end
