(* ===== verification/ValidationResult.thy ===== *)
theory ValidationResult
  imports ProjectParser
begin

text \<open>
  The result type every check shares (\<open>validator/validation_result.hpp\<close>, \<open>.cpp\<close>) and the verdict
  of the facade. \<open>ValidationResult\<close> has the one field \<open>errors\<close>: it is the list of findings.
\<close>

datatype severity = Error | Warning

record validation_error =
  ve_severity :: severity
  ve_code :: string
  ve_message :: string
  ve_location :: "raw_span option"
  ve_path :: "string option"
  ve_expectedType :: "string option"
  ve_actualType :: "string option"

type_synonym validation_result = "validation_error list"

definition new_error :: "severity \<Rightarrow> string \<Rightarrow> string \<Rightarrow> validation_error" where
  "new_error sev code msg =
    \<lparr>ve_severity = sev, ve_code = code, ve_message = msg, ve_location = None, ve_path = None,
     ve_expectedType = None, ve_actualType = None\<rparr>"

definition hasErrors :: "validation_result \<Rightarrow> bool" where
  "hasErrors r \<longleftrightarrow> list_ex (\<lambda>e. ve_severity e = Error) r"

definition hasWarnings :: "validation_result \<Rightarrow> bool" where
  "hasWarnings r \<longleftrightarrow> list_ex (\<lambda>e. ve_severity e = Warning) r"

definition merge :: "validation_result \<Rightarrow> validation_result \<Rightarrow> validation_result" where
  "merge r other = r @ other"

datatype strict_mode = Lenient | Strict

definition overallPassed :: "validation_result \<Rightarrow> strict_mode \<Rightarrow> bool" where
  "overallPassed r mode =
    (if hasErrors r then False else if mode = Strict \<and> hasWarnings r then False else True)"

lemma hasErrors_append [err_simps]: "hasErrors (xs @ ys) \<longleftrightarrow> hasErrors xs \<or> hasErrors ys"
  by (simp add: hasErrors_def)

lemma hasWarnings_append [err_simps]: "hasWarnings (xs @ ys) \<longleftrightarrow> hasWarnings xs \<or> hasWarnings ys"
  by (simp add: hasWarnings_def)

lemma overallPassed_append [err_simps]:
  "overallPassed (xs @ ys) mode \<longleftrightarrow> overallPassed xs mode \<and> overallPassed ys mode"
  by (auto simp: overallPassed_def err_simps)

lemma overallPassed_Strict: "overallPassed r Strict \<longleftrightarrow> r = []"
proof (cases r)
  case (Cons e es)
  then show ?thesis
    by (cases "ve_severity e") (auto simp: overallPassed_def hasErrors_def hasWarnings_def)
qed (simp add: overallPassed_def hasErrors_def hasWarnings_def)

end
