(* ===== verification/WriteEngine.thy ===== *)
theory WriteEngine
  imports WriteElements ValidationResult
begin

text \<open>
  The write engine (\<open>src/write/write_engine.cpp\<close>): the required-field check, the output tree of a
  project, and the replacement of the output file through a temporary one.
\<close>

section \<open>Validation before writing\<close>

definition missingName :: "string \<Rightarrow> nat \<Rightarrow> nat \<Rightarrow> validation_error" where
  "missingName ty fileIndex idx =
    (new_error Error ''write.missing_field''
      (ty @ ''['' @ nat_to_string idx @ ''] in file['' @ nat_to_string fileIndex
        @ ''] is missing required SHORT-NAME''))
      \<lparr>ve_path := Some (ty @ ''['' @ nat_to_string idx @ '']'')\<rparr>"

definition checkShortNames :: "string \<Rightarrow> string list \<Rightarrow> nat \<Rightarrow> validation_result \<Rightarrow> validation_result" where
  "checkShortNames ty names fileIndex out =
    out @ concat (map (\<lambda>(idx, n). if n \<noteq> [] then [] else [missingName ty fileIndex idx]) (enumerate 0 names))"

definition validateFile :: "nat \<times> parsed_file \<Rightarrow> validation_result \<Rightarrow> validation_result" where
  "validateFile ifile result =
    (case ifile of (fileIdx, file) \<Rightarrow>
      let r1 = checkShortNames ''Cluster'' (map (\<lambda>x. shortName (cluster_common x)) (clusters file)) fileIdx result;
          r2 = checkShortNames ''EcuInstance'' (map (\<lambda>x. shortName (ecu_common x)) (ecuInstances file)) fileIdx r1;
          r3 = checkShortNames ''Frame'' (map (\<lambda>x. shortName (frame_common x)) (frames file)) fileIdx r2;
          r4 = checkShortNames ''Pdu'' (map (\<lambda>x. shortName (pdu_common x)) (pdus file)) fileIdx r3;
          r5 = checkShortNames ''Signal'' (map (\<lambda>x. shortName (signal_common x)) (signals file)) fileIdx r4
      in checkShortNames ''SignalGroup'' (map (\<lambda>x. shortName (group_common x)) (signalGroups file)) fileIdx r5)"

definition validate :: "parsed_project \<Rightarrow> validation_result" where
  "validate project = fold validateFile (enumerate 0 (files project)) []"

definition writeErrorMessage :: "validation_result \<Rightarrow> string" where
  "writeErrorMessage errs =
    ''parsex: cannot write project:'' @ concat (map (\<lambda>e. '' ['' @ ve_code e @ ''] '' @ ve_message e) errs)"

section \<open>The output tree\<close>

definition sortedCopy :: "('a \<Rightarrow> common_fields) \<Rightarrow> 'a list \<Rightarrow> 'a list" where
  "sortedCopy common items = sort_key (\<lambda>x. shortName (common x)) items"

definition gather :: "(parsed_file \<Rightarrow> 'a list) \<Rightarrow> parsed_project \<Rightarrow> 'a list" where
  "gather member project = concat (map member (files project))"

definition writeRelease :: "parsed_project \<Rightarrow> string" where
  "writeRelease project =
    (case files project of
       [] \<Rightarrow> ''4.4.0''
     | f # _ \<Rightarrow> if autosarRelease f \<noteq> [] then autosarRelease f else ''4.4.0'')"

definition elementNodes :: "(string \<Rightarrow> xml list) \<Rightarrow> parsed_project \<Rightarrow> xml list" where
  "elementNodes sc project =
    map (buildClusterElement sc) (sortedCopy cluster_common (gather clusters project))
    @ map (buildEcuInstanceElement sc) (sortedCopy ecu_common (gather ecuInstances project))
    @ map (buildFrameElement sc) (sortedCopy frame_common (gather frames project))
    @ map (buildPduElement sc) (sortedCopy pdu_common (gather pdus project))
    @ map (buildSignalElement sc) (sortedCopy signal_common (gather signals project))
    @ map (buildSignalGroupElement sc) (sortedCopy group_common (gather signalGroups project))"

definition outputTree :: "(string \<Rightarrow> xml list) \<Rightarrow> parsed_project \<Rightarrow> xml" where
  "outputTree sc project =
    forRelease (writeRelease project)
      [Elem ''AR-PACKAGE'' []
        [textChild sc ''SHORT-NAME'' ''Sys'', Elem ''ELEMENTS'' [] (elementNodes sc project)]]"

section \<open>Replacing the output file\<close>

datatype write_exn = WriteError validation_result | WhitespaceNode | WriteFailed string

text \<open>
  The file system during a write: which calls fail, what a failed save leaves behind, and the
  content of each file as the tree saved to it.
\<close>

record write_env =
  save_fails :: bool
  partial_save :: "xml option"
  rename_error :: "string option"
  remove_fails :: bool

type_synonym tree_files = "string \<Rightarrow> xml option"

definition writeXmlToFile :: "write_env \<Rightarrow> xml \<Rightarrow> string \<Rightarrow> tree_files \<Rightarrow> write_exn option \<times> tree_files" where
  "writeXmlToFile e tree path fs =
    (if save_fails e
     then (Some (WriteFailed (''parsex: failed to write XML file '' @ quoted path
             @ '' (unwritable path or I/O error)'')), fs(path := partial_save e))
     else (None, fs(path := Some tree)))"

definition dropTemp :: "write_env \<Rightarrow> string \<Rightarrow> tree_files \<Rightarrow> tree_files" where
  "dropTemp e tempPath fs = (if remove_fails e then fs else fs(tempPath := None))"

definition replaceFile :: "write_env \<Rightarrow> xml \<Rightarrow> string \<Rightarrow> tree_files \<Rightarrow> write_exn option \<times> tree_files" where
  "replaceFile e tree outputPath fs =
    (let tempPath = outputPath @ ''.parsex-tmp'' in
     case writeXmlToFile e tree tempPath fs of
       (Some x, fs1) \<Rightarrow> (Some x, dropTemp e tempPath fs1)
     | (None, fs1) \<Rightarrow>
         (case rename_error e of
            Some msg \<Rightarrow> (Some (WriteFailed (''parsex: failed to move written file into place ''
                            @ quoted outputPath @ '': '' @ msg)), dropTemp e tempPath fs1)
          | None \<Rightarrow> (None, (fs1(outputPath := fs1 tempPath))(tempPath := None))))"

definition writeProject :: "write_env \<Rightarrow> (string \<Rightarrow> xml list) \<Rightarrow> parsed_project \<Rightarrow> string \<Rightarrow> tree_files
    \<Rightarrow> write_exn option \<times> tree_files" where
  "writeProject e sc project outputPath fs =
    (let problems = validate project in
     if hasErrors problems then (Some (WriteError problems), fs)
     else let tree = outputTree sc project in
       if whitespace_in [tree] then (Some WhitespaceNode, fs)
       else replaceFile e tree outputPath fs)"

section \<open>Facts\<close>

definition all_names :: "parsed_file \<Rightarrow> string list" where
  "all_names f = map (\<lambda>x. shortName (cluster_common x)) (clusters f)
     @ map (\<lambda>x. shortName (ecu_common x)) (ecuInstances f)
     @ map (\<lambda>x. shortName (frame_common x)) (frames f)
     @ map (\<lambda>x. shortName (pdu_common x)) (pdus f)
     @ map (\<lambda>x. shortName (signal_common x)) (signals f)
     @ map (\<lambda>x. shortName (group_common x)) (signalGroups f)"

definition only_errors :: "validation_result \<Rightarrow> bool" where
  "only_errors r \<longleftrightarrow> (\<forall>e \<in> set r. ve_severity e = Error)"

lemma checkShortNames_findings:
  "\<exists>es. checkShortNames ty names i out = out @ es \<and> (es = [] \<longleftrightarrow> [] \<notin> set names) \<and> only_errors es"
proof -
  let ?es = "concat (map (\<lambda>(idx, n). if n \<noteq> [] then [] else [missingName ty i idx]) (enumerate 0 names))"
  have "?es = [] \<longleftrightarrow> (\<forall>(idx, n) \<in> set (enumerate 0 names). n \<noteq> [])" by auto
  also have "\<dots> \<longleftrightarrow> [] \<notin> snd ` set (enumerate 0 names)" by force
  also have "snd ` set (enumerate 0 names) = set names" by (metis map_snd_enumerate set_map)
  finally have "?es = [] \<longleftrightarrow> [] \<notin> set names" .
  moreover have "only_errors ?es" by (auto simp: only_errors_def missingName_def new_error_def split: if_splits)
  ultimately show ?thesis unfolding checkShortNames_def by blast
qed

lemma validateFile_findings:
  "\<exists>es. validateFile (i, f) out = out @ es \<and> (es = [] \<longleftrightarrow> [] \<notin> set (all_names f)) \<and> only_errors es"
proof -
  note step = checkShortNames_findings
  obtain e1 where e1: "checkShortNames ''Cluster'' (map (\<lambda>x. shortName (cluster_common x)) (clusters f)) i out = out @ e1"
    "e1 = [] \<longleftrightarrow> [] \<notin> set (map (\<lambda>x. shortName (cluster_common x)) (clusters f))" "only_errors e1" using step by blast
  obtain e2 where e2: "checkShortNames ''EcuInstance'' (map (\<lambda>x. shortName (ecu_common x)) (ecuInstances f)) i (out @ e1) = (out @ e1) @ e2"
    "e2 = [] \<longleftrightarrow> [] \<notin> set (map (\<lambda>x. shortName (ecu_common x)) (ecuInstances f))" "only_errors e2" using step by blast
  obtain e3 where e3: "checkShortNames ''Frame'' (map (\<lambda>x. shortName (frame_common x)) (frames f)) i ((out @ e1) @ e2) = ((out @ e1) @ e2) @ e3"
    "e3 = [] \<longleftrightarrow> [] \<notin> set (map (\<lambda>x. shortName (frame_common x)) (frames f))" "only_errors e3" using step by blast
  obtain e4 where e4: "checkShortNames ''Pdu'' (map (\<lambda>x. shortName (pdu_common x)) (pdus f)) i (((out @ e1) @ e2) @ e3) = (((out @ e1) @ e2) @ e3) @ e4"
    "e4 = [] \<longleftrightarrow> [] \<notin> set (map (\<lambda>x. shortName (pdu_common x)) (pdus f))" "only_errors e4" using step by blast
  obtain e5 where e5: "checkShortNames ''Signal'' (map (\<lambda>x. shortName (signal_common x)) (signals f)) i ((((out @ e1) @ e2) @ e3) @ e4) = ((((out @ e1) @ e2) @ e3) @ e4) @ e5"
    "e5 = [] \<longleftrightarrow> [] \<notin> set (map (\<lambda>x. shortName (signal_common x)) (signals f))" "only_errors e5" using step by blast
  obtain e6 where e6: "checkShortNames ''SignalGroup'' (map (\<lambda>x. shortName (group_common x)) (signalGroups f)) i (((((out @ e1) @ e2) @ e3) @ e4) @ e5) = (((((out @ e1) @ e2) @ e3) @ e4) @ e5) @ e6"
    "e6 = [] \<longleftrightarrow> [] \<notin> set (map (\<lambda>x. shortName (group_common x)) (signalGroups f))" "only_errors e6" using step by blast
  let ?es = "e1 @ e2 @ e3 @ e4 @ e5 @ e6"
  have "validateFile (i, f) out = out @ ?es"
    by (simp add: validateFile_def Let_def e1(1) e2(1) [simplified] e3(1) [simplified] e4(1) [simplified]
        e5(1) [simplified] e6(1) [simplified])
  moreover have "?es = [] \<longleftrightarrow> [] \<notin> set (all_names f)"
    unfolding append_is_Nil_conv e1(2) e2(2) e3(2) e4(2) e5(2) e6(2) all_names_def set_append by blast
  moreover have "only_errors ?es"
    using e1(3) e2(3) e3(3) e4(3) e5(3) e6(3) by (auto simp: only_errors_def)
  ultimately show ?thesis by blast
qed

lemma validate_findings:
  "(validate p = [] \<longleftrightarrow> (\<forall>f \<in> set (files p). [] \<notin> set (all_names f))) \<and> only_errors (validate p)"
proof -
  have "\<exists>es. fold validateFile (enumerate n fs) out = out @ es
      \<and> (es = [] \<longleftrightarrow> (\<forall>f \<in> set fs. [] \<notin> set (all_names f))) \<and> only_errors es" for n fs out
  proof (induction fs arbitrary: n out)
    case Nil
    then show ?case by (simp add: only_errors_def)
  next
    case (Cons f fs)
    obtain e1 where e1: "validateFile (n, f) out = out @ e1" "e1 = [] \<longleftrightarrow> [] \<notin> set (all_names f)" "only_errors e1"
      using validateFile_findings by blast
    obtain e2 where e2: "fold validateFile (enumerate (Suc n) fs) (out @ e1) = (out @ e1) @ e2"
      "e2 = [] \<longleftrightarrow> (\<forall>f \<in> set fs. [] \<notin> set (all_names f))" "only_errors e2"
      using Cons.IH by blast
    show ?case
      using e1 e2 by (intro exI [of _ "e1 @ e2"]) (auto simp: only_errors_def)
  qed
  from this [of 0 "files p" "[]"] show ?thesis by (auto simp: validate_def)
qed

lemma only_errors_hasErrors: "only_errors r \<Longrightarrow> hasErrors r \<longleftrightarrow> r \<noteq> []"
  by (cases r) (auto simp: only_errors_def hasErrors_def)

section \<open>Properties\<close>

text \<open>C40: the writer refuses a project with \<open>WriteError\<close> exactly when some object of some file has an empty
  short name, and then leaves every file as it was. (The white-space guard refuses with another exception.)\<close>

theorem write_refuses_missing_names:
  "(\<exists>r. writeProject e sc p path fs = (Some (WriteError r), fs)) \<longleftrightarrow>
    \<not> list_all (\<lambda>f. [] \<notin> set (all_names f)) (files p)"
proof -
  have ref: "hasErrors (validate p) \<longleftrightarrow> \<not> list_all (\<lambda>f. [] \<notin> set (all_names f)) (files p)"
    using validate_findings [of p] only_errors_hasErrors by (auto simp: list_all_iff)
  have "fst (replaceFile e t path fs) \<noteq> Some (WriteError r)" for t r
    by (auto simp: replaceFile_def writeXmlToFile_def Let_def split: option.splits)
  then have other: "(\<exists>r. writeProject e sc p path fs = (Some (WriteError r), fs)) \<Longrightarrow> hasErrors (validate p)"
    by (auto simp: writeProject_def Let_def split: if_splits) (metis fst_conv)
  show ?thesis
  proof
    assume "\<exists>r. writeProject e sc p path fs = (Some (WriteError r), fs)"
    then show "\<not> list_all (\<lambda>f. [] \<notin> set (all_names f)) (files p)" using other ref by blast
  next
    assume "\<not> list_all (\<lambda>f. [] \<notin> set (all_names f)) (files p)"
    then show "\<exists>r. writeProject e sc p path fs = (Some (WriteError r), fs)" using ref by (simp add: writeProject_def)
  qed
qed

text \<open>C18: a write that fails, for whatever reason, leaves the output path and every file other than
  the temporary one untouched; one that succeeds puts the whole tree at the output path and leaves
  no temporary file.\<close>

theorem write_all_or_nothing:
  "case writeProject e sc p path fs of
     (Some _, fs') \<Rightarrow> fs' path = fs path \<and> fs'(path @ ''.parsex-tmp'' := None) = fs(path @ ''.parsex-tmp'' := None)
   | (None, fs') \<Rightarrow> fs' = (fs(path := Some (outputTree sc p)))(path @ ''.parsex-tmp'' := None)"
  by (auto simp: writeProject_def replaceFile_def writeXmlToFile_def dropTemp_def Let_def fun_eq_iff
      split: option.splits prod.splits if_splits)

end
