(* ===== verification/ProjectDiscovery.thy ===== *)
theory ProjectDiscovery
  imports ProjectParser
begin

text \<open>
  The public operations of the parser (\<open>src/parser.cpp\<close>): \<open>parseFile\<close>, \<open>parseBytes\<close> and
  \<open>parseProject\<close> in its three discovery modes, over an environment that stands for the file
  system and for the loader. Exceptions are \<open>Inl\<close>; the lazy mode's \<open>catch\<close> is a branch on it.
\<close>

section \<open>The environment\<close>

text \<open>
  \<open>list_dir\<close> and \<open>list_tree\<close> are \<open>directory_iterator\<close> and \<open>recursive_directory_iterator\<close>: the
  entries with their \<open>is_regular_file\<close>, or the exception the iterator throws. \<open>open_bytes\<close> is the
  content of a file that can be opened; \<open>load\<close> and \<open>load_memory\<close> are the loader.
\<close>

record env =
  cwd :: fpath
  list_dir :: "fpath \<Rightarrow> parse_exn + (fpath \<times> bool) list"
  list_tree :: "fpath \<Rightarrow> parse_exn + (fpath \<times> bool) list"
  open_bytes :: "fpath \<Rightarrow> string option"
  load :: "fpath \<Rightarrow> parse_exn + raw_node"
  load_memory :: "string \<Rightarrow> parse_exn + raw_node"

definition normalizePath :: "env \<Rightarrow> fpath \<Rightarrow> parse_exn + fpath" where
  "normalizePath e p =
    (if p = [] then Inl (FilesystemError ''cannot make absolute path'')
     else Inr (lexically_normal (absolute_path (cwd e) p)))"

section \<open>One file\<close>

definition buildFile :: "fpath \<Rightarrow> raw_node \<Rightarrow> parse_exn + parsed_file" where
  "buildFile path root =
    (case detectSchemaFilename root of
       None \<Rightarrow> Inl (NoSchemaLocation path)
     | Some schemaFilename \<Rightarrow>
         (case resolveRelease schemaFilename of
            Inl name \<Rightarrow> Inl (UnsupportedReleaseError name)
          | Inr release \<Rightarrow>
              Inr ((buildSubtree root (empty_file\<lparr>autosarRelease := release, sourcePath := path\<rparr>))
                     \<lparr>rawDocument := Some root\<rparr>)))"

definition parseFile :: "env \<Rightarrow> fpath \<Rightarrow> parse_exn + parsed_file" where
  "parseFile e path = (case load e path of Inl x \<Rightarrow> Inl x | Inr root \<Rightarrow> buildFile path root)"

definition parseBytes :: "env \<Rightarrow> string \<Rightarrow> parse_exn + parsed_file" where
  "parseBytes e bytes =
    (case load_memory e bytes of Inl x \<Rightarrow> Inl x | Inr root \<Rightarrow> buildFile [''<buffer>''] root)"

section \<open>Whole projects\<close>

datatype discovery_mode = ExplicitList | DirectoryScan | LazyOnReference

text \<open>\<open>push_back(parseFile(p))\<close> in a loop, left at the first exception.\<close>

fun parseAll :: "env \<Rightarrow> fpath list \<Rightarrow> parse_exn + parsed_file list" where
  "parseAll e [] = Inr []"
| "parseAll e (p # ps) =
    (case parseFile e p of
       Inl x \<Rightarrow> Inl x
     | Inr f \<Rightarrow> (case parseAll e ps of Inl x \<Rightarrow> Inl x | Inr fs \<Rightarrow> Inr (f # fs)))"

definition resolveFiles :: "parsed_file list \<Rightarrow> parse_exn + parsed_project" where
  "resolveFiles fs = resolveCrossFileReferences \<lparr>files = fs, resolvedRefs = []\<rparr>"

fun insertArxml :: "env \<Rightarrow> (fpath \<times> bool) list \<Rightarrow> fpath list \<Rightarrow> parse_exn + fpath list" where
  "insertArxml e [] found = Inr found"
| "insertArxml e ((p, regular) # es) found =
    (if regular \<and> isArxmlFile p
     then (case normalizePath e p of Inl x \<Rightarrow> Inl x | Inr q \<Rightarrow> insertArxml e es (s_insert q found))
     else insertArxml e es found)"

fun scanEntries :: "env \<Rightarrow> fpath list \<Rightarrow> fpath list \<Rightarrow> parse_exn + fpath list" where
  "scanEntries e [] found = Inr found"
| "scanEntries e (entry # es) found =
    (case normalizePath e entry of
       Inl x \<Rightarrow> Inl x
     | Inr q \<Rightarrow>
         (let directory = (if parent_path entry = [] then cwd e else parent_path entry) in
          case list_dir e directory of
            Inl x \<Rightarrow> Inl x
          | Inr listing \<Rightarrow>
              (case insertArxml e listing (s_insert q found) of
                 Inl x \<Rightarrow> Inl x
               | Inr found' \<Rightarrow> scanEntries e es found')))"

section \<open>Lazy discovery\<close>

fun searchDirsOf :: "env \<Rightarrow> fpath list \<Rightarrow> fpath list \<Rightarrow> parse_exn + fpath list" where
  "searchDirsOf e [] dirs = Inr dirs"
| "searchDirsOf e (entry # es) dirs =
    (let directory = parent_path entry in
     case (if directory = [] then Inr (cwd e) else normalizePath e directory) of
       Inl x \<Rightarrow> Inl x
     | Inr d \<Rightarrow> searchDirsOf e es (s_insert d dirs))"

fun addCandidates ::
  "env \<Rightarrow> fpath list \<Rightarrow> (fpath \<times> bool) list \<Rightarrow> fpath list \<Rightarrow> parse_exn + fpath list" where
  "addCandidates e parsed [] out = Inr out"
| "addCandidates e parsed ((p, regular) # es) out =
    (if regular \<and> isArxmlFile p
     then (case normalizePath e p of
             Inl x \<Rightarrow> Inl x
           | Inr q \<Rightarrow> addCandidates e parsed es (if q \<in> set parsed then out else out @ [q]))
     else addCandidates e parsed es out)"

fun candidatesIn :: "env \<Rightarrow> fpath list \<Rightarrow> fpath list \<Rightarrow> fpath list \<Rightarrow> parse_exn + fpath list" where
  "candidatesIn e parsed [] out = Inr out"
| "candidatesIn e parsed (d # ds) out =
    (case list_tree e d of
       Inl x \<Rightarrow> Inl x
     | Inr listing \<Rightarrow>
         (case addCandidates e parsed listing out of
            Inl x \<Rightarrow> Inl x
          | Inr out' \<Rightarrow> candidatesIn e parsed ds out'))"

text \<open>Equal paths are indistinguishable, so the unstable \<open>ranges::sort\<close> has one result: \<open>sort\<close>.\<close>

definition enumerateCandidates :: "env \<Rightarrow> fpath list \<Rightarrow> fpath list \<Rightarrow> parse_exn + fpath list" where
  "enumerateCandidates e entryPoints parsed =
    (case searchDirsOf e entryPoints [] of
       Inl x \<Rightarrow> Inl x
     | Inr dirs \<Rightarrow>
         (case candidatesIn e parsed dirs [] of Inl x \<Rightarrow> Inl x | Inr cs \<Rightarrow> Inr (sort cs)))"

definition readFileBytesOrEmpty :: "env \<Rightarrow> fpath \<Rightarrow> string" where
  "readFileBytesOrEmpty e path = (case open_bytes e path of None \<Rightarrow> [] | Some b \<Rightarrow> b)"

definition candidateDefinesAny :: "env \<Rightarrow> fpath \<Rightarrow> name_sets \<Rightarrow> bool" where
  "candidateDefinesAny e path w =
    (let bytes = readFileBytesOrEmpty e path in
     if bytes = [] then True else list_ex (rawDefinesShortName bytes) (flattenWanted w))"

datatype expansion_step = Complete | Advanced | Stuck

text \<open>The body of the loop over the candidates: \<open>(project files, parsed paths, added)\<close>.\<close>

definition tryCandidate ::
  "env \<Rightarrow> name_sets \<Rightarrow> fpath \<Rightarrow> parsed_file list \<times> fpath list \<times> bool
    \<Rightarrow> parsed_file list \<times> fpath list \<times> bool" where
  "tryCandidate e w candidate st =
    (case st of (fs, parsed, added) \<Rightarrow>
      if candidate \<in> set parsed then st
      else if \<not> candidateDefinesAny e candidate w then st
      else (case parseFile e candidate of
              Inl _ \<Rightarrow> st
            | Inr f \<Rightarrow> if \<not> definesWantedName f w then st
                       else (fs @ [f], s_insert candidate parsed, True)))"

definition expandProjectOnce ::
  "env \<Rightarrow> fpath list \<Rightarrow> parsed_file list \<times> fpath list
    \<Rightarrow> expansion_step \<times> parsed_file list \<times> fpath list" where
  "expandProjectOnce e candidates st =
    (case st of (fs, parsed) \<Rightarrow>
      (let w = collectWantedRefs \<lparr>files = fs, resolvedRefs = []\<rparr> in
       if wantedEmpty w then (Complete, fs, parsed)
       else let (fs', parsed', added) = fold (tryCandidate e w) candidates (fs, parsed, False)
            in (if added then Advanced else Stuck, fs', parsed')))"

definition kMaxLazyIterations :: nat where
  "kMaxLazyIterations = 50"

text \<open>The first argument is the number of iterations left.\<close>

fun lazyLoop ::
  "nat \<Rightarrow> env \<Rightarrow> fpath list \<Rightarrow> parsed_file list \<times> fpath list \<Rightarrow> parsed_file list \<times> fpath list" where
  "lazyLoop 0 e candidates st = st"
| "lazyLoop (Suc n) e candidates st =
    (case expandProjectOnce e candidates st of
       (step, st') \<Rightarrow> if step \<noteq> Advanced then st' else lazyLoop n e candidates st')"

fun parseEntries ::
  "env \<Rightarrow> fpath list \<Rightarrow> parsed_file list \<times> fpath list \<Rightarrow> parse_exn + parsed_file list \<times> fpath list" where
  "parseEntries e [] st = Inr st"
| "parseEntries e (entry # es) st =
    (case parseFile e entry of
       Inl x \<Rightarrow> Inl x
     | Inr f \<Rightarrow>
         (case normalizePath e entry of
            Inl x \<Rightarrow> Inl x
          | Inr q \<Rightarrow> parseEntries e es (fst st @ [f], s_insert q (snd st))))"

definition parseProjectLazy :: "env \<Rightarrow> fpath list \<Rightarrow> parse_exn + parsed_project" where
  "parseProjectLazy e entryPoints =
    (case parseEntries e entryPoints ([], []) of
       Inl x \<Rightarrow> Inl x
     | Inr (fs, parsed) \<Rightarrow>
         (case enumerateCandidates e entryPoints parsed of
            Inl x \<Rightarrow> Inl x
          | Inr candidates \<Rightarrow>
              resolveFiles (fst (lazyLoop kMaxLazyIterations e candidates (fs, parsed)))))"

definition parseProject :: "env \<Rightarrow> fpath list \<Rightarrow> discovery_mode \<Rightarrow> parse_exn + parsed_project" where
  "parseProject e entryPoints mode =
    (case mode of
       LazyOnReference \<Rightarrow> parseProjectLazy e entryPoints
     | ExplicitList \<Rightarrow>
         (case parseAll e entryPoints of Inl x \<Rightarrow> Inl x | Inr fs \<Rightarrow> resolveFiles fs)
     | DirectoryScan \<Rightarrow>
         (case scanEntries e entryPoints [] of
            Inl x \<Rightarrow> Inl x
          | Inr discovered \<Rightarrow>
              (case parseAll e discovered of Inl x \<Rightarrow> Inl x | Inr fs \<Rightarrow> resolveFiles fs)))"

section \<open>Exception texts\<close>

definition em_dash :: string where
  "em_dash = [CHR 0xE2, CHR 0x80, CHR 0x94]"

definition danglingMessage :: "string list \<Rightarrow> fpath list \<Rightarrow> string \<Rightarrow> string" where
  "danglingMessage names dirs ctx =
    ''parsex: dangling file reference(s): '' @ join_with '', '' (map quoted names)
      @ '' '' @ em_dash @ '' no parsed or discovered ARXML file defines them (searched:''
      @ concat (map (\<lambda>d. '' '' @ path_string d) dirs) @ '')''
      @ (if ctx \<noteq> [] then '' [unresolved sites: '' @ ctx @ '']'' else [])"

fun exn_message :: "parse_exn \<Rightarrow> string" where
  "exn_message (LoadFailure err) = loadMessage err"
| "exn_message (NoSchemaLocation p) =
    ''parsex: cannot determine AUTOSAR release for '' @ quoted (path_string p)
      @ '': root element has no xsi:schemaLocation''"
| "exn_message (UnsupportedReleaseError f) = unsupportedReleaseMessage f"
| "exn_message (DanglingFileReferenceError names dirs ctx) = danglingMessage names dirs ctx"
| "exn_message (FilesystemError m) = m"

section \<open>The pre-filter misses no plain definition\<close>

text \<open>
  \<open>defines_at bytes name p\<close>: at \<open>p\<close> stands \<open>SHORT-NAME>\<close> right after \<open><\<close> or \<open>:\<close>, followed by
  the name between optional blanks and the next \<open><\<close>.
\<close>

definition defines_at :: "string \<Rightarrow> string \<Rightarrow> nat \<Rightarrow> bool" where
  "defines_at bytes name p \<longleftrightarrow>
    starts_with (drop p bytes) short_name_opener \<and> 0 < p \<and>
    (bytes ! (p - 1) = CHR ''<'' \<or> bytes ! (p - 1) = CHR '':'') \<and>
    (let n = skipSpaceBytes bytes (p + length short_name_opener);
         a = skipSpaceBytes bytes (n + length name)
     in take (length name) (drop n bytes) = name \<and> a < length bytes \<and> bytes ! a = CHR ''<'')"

lemma skipSpaceBytes_blank:
  "pos \<le> i \<Longrightarrow> i < skipSpaceBytes bytes pos \<Longrightarrow> i < length bytes \<and> is_blank (bytes ! i)"
proof -
  assume i: "pos \<le> i" "i < skipSpaceBytes bytes pos"
  then have k: "i - pos < length (takeWhile is_blank (drop pos bytes))"
    by (simp add: skipSpaceBytes_def)
  then have "is_blank (takeWhile is_blank (drop pos bytes) ! (i - pos))"
    by (metis nth_mem set_takeWhileD)
  moreover have "takeWhile is_blank (drop pos bytes) ! (i - pos) = drop pos bytes ! (i - pos)"
    using k by (rule takeWhile_nth)
  moreover have "i - pos < length (drop pos bytes)"
    using k length_takeWhile_le order.strict_trans2 by blast
  ultimately show "i < length bytes \<and> is_blank (bytes ! i)" using i(1) by (simp add: less_diff_conv)
qed

lemma skipSpaceBytes_run:
  assumes "drop pos bytes = b @ rest" and "\<forall>c \<in> set b. is_blank c"
    and "rest \<noteq> []" and "\<not> is_blank (hd rest)"
  shows "skipSpaceBytes bytes pos = pos + length b"
  using assms by (cases rest) (auto simp: skipSpaceBytes_def takeWhile_append2)

lemma opener_not_blank:
  "starts_with (drop p bytes) short_name_opener \<Longrightarrow> p < length bytes \<and> \<not> is_blank (bytes ! p)"
proof -
  assume a: "starts_with (drop p bytes) short_name_opener"
  from starts_with_nth [OF this, of 0] show ?thesis
    by (simp add: short_name_opener_def is_blank_def)
qed

text \<open>Two occurrences of the opener do not overlap.\<close>

lemma opener_apart:
  assumes "starts_with (drop p bytes) short_name_opener" "starts_with (drop q bytes) short_name_opener"
    and "p < q"
  shows "p + length short_name_opener \<le> q"
proof (rule ccontr)
  assume "\<not> ?thesis"
  then have lt: "q - p < 11" using assms(3) by (simp add: short_name_opener_def)
  have "bytes ! (p + (q - p)) = short_name_opener ! (q - p)" 
    using starts_with_nth [OF assms(1), of "q - p"] lt by (simp add: short_name_opener_def)
  moreover have "bytes ! (q + 0) = short_name_opener ! 0" 
    using starts_with_nth [OF assms(2), of 0] by (simp add: short_name_opener_def)
  ultimately have "short_name_opener ! (q - p) = CHR ''S''"
    using assms(3) by (simp add: short_name_opener_def)
  moreover have "q - p = 1 \<or> q - p = 2 \<or> q - p = 3 \<or> q - p = 4 \<or> q - p = 5 \<or> q - p = 6
      \<or> q - p = 7 \<or> q - p = 8 \<or> q - p = 9 \<or> q - p = 10" using lt assms(3) by presburger
  ultimately show False by (auto simp: short_name_opener_def)
qed

lemma opener_le_length:
  "starts_with (drop p bytes) short_name_opener \<Longrightarrow> p + length short_name_opener \<le> length bytes"
  using starts_with_nth [of p bytes short_name_opener 10] by (simp add: short_name_opener_def)

text \<open>Skipping blanks never runs past a later occurrence of the opener.\<close>

lemma skip_before_opener:
  assumes "starts_with (drop q bytes) short_name_opener" and "pos \<le> q"
  shows "skipSpaceBytes bytes pos \<le> q"
  using skipSpaceBytes_blank [OF assms(2)] opener_not_blank [OF assms(1)] by (meson not_le)

text \<open>A name without \<open><\<close> and \<open>:\<close> cannot cover the character before a definition.\<close>

lemma name_before_opener:
  assumes "defines_at bytes name q" and "take (length name) (drop n bytes) = name"
    and "CHR ''<'' \<notin> set name" and "CHR '':'' \<notin> set name" and "n < q"
  shows "n + length name \<le> q"
proof (rule ccontr)
  assume "\<not> ?thesis"
  then have lt: "q - 1 - n < length name" using assms(5) by linarith
  have "bytes ! (n + (q - 1 - n)) = name ! (q - 1 - n)"
    using starts_with_nth [of n bytes name "q - 1 - n"] assms(2) lt by (simp add: starts_with_def)
  moreover have "n + (q - 1 - n) = q - 1" using assms(5) by simp
  ultimately have "bytes ! (q - 1) \<in> set name" using lt by (metis nth_mem)
  then show False using assms(1,3,4) by (auto simp: defines_at_def)
qed

lemma definesLoop_complete:
  "\<lbrakk>pos \<le> q; defines_at bytes name q; CHR ''<'' \<notin> set name; CHR '':'' \<notin> set name\<rbrakk>
    \<Longrightarrow> definesLoop bytes name pos"
proof (induction bytes name pos rule: definesLoop.induct)
  case (1 bytes name pos)
  note q = "1.prems"(2)
  have opq: "starts_with (drop q bytes) short_name_opener" using q by (simp add: defines_at_def)
  have q_le: "q \<le> length bytes" using opener_not_blank [OF opq] by simp
  obtain p where p: "find_from bytes short_name_opener pos = Some p"
    using find_from_None [OF _ "1.prems"(1) q_le] opq by fastforce
  have opp: "starts_with (drop p bytes) short_name_opener" by (rule find_from_Some(1) [OF p])
  have "p \<le> q" using find_from_Some(4) [OF p "1.prems"(1)] opq by (meson not_le)
  let ?n = "skipSpaceBytes bytes (p + length short_name_opener)"
  let ?a = "skipSpaceBytes bytes (?n + length name)"
  show ?case
  proof (cases "p = q")
    case True
    then show ?thesis
      using q p by (subst definesLoop.simps) (auto simp: defines_at_def Let_def)
  next
    case False
    then have "p < q" using \<open>p \<le> q\<close> by simp
    have n: "?n \<le> q"
      using skip_before_opener [OF opq opener_apart [OF opp opq \<open>p < q\<close>]] .
    show ?thesis
    proof (cases "p = 0 \<or> (bytes ! (p - 1) \<noteq> CHR ''<'' \<and> bytes ! (p - 1) \<noteq> CHR '':'')")
      case True
      then have "definesLoop bytes name (Suc p)"
        using "1.IH"(1) [OF p True] \<open>p < q\<close> "1.prems" by simp
      then show ?thesis using p True by (subst definesLoop.simps) simp
    next
      case after_mark: False
      show ?thesis
      proof (cases "take (length name) (drop ?n bytes) = name")
        case False
        then have "definesLoop bytes name ?n"
          using "1.IH"(2) [OF p after_mark refl] n "1.prems" by simp
        then show ?thesis using p after_mark False by (subst definesLoop.simps) (auto simp: Let_def)
      next
        case matches: True
        have "?n < q"
        proof (rule ccontr)
          assume "\<not> ?n < q"
          then have eq: "?n = q" using n by simp
          have "p + length short_name_opener \<le> q" by (rule opener_apart [OF opp opq \<open>p < q\<close>])
          show False
          proof (cases "p + length short_name_opener = q")
            case True
            then have "q - 1 = p + 10" by (simp add: short_name_opener_def)
            then have "bytes ! (q - 1) = CHR ''>''"
              using starts_with_nth [OF opp, of 10] by (simp add: short_name_opener_def)
            then show False using q by (auto simp: defines_at_def)
          next
            case False
            then have "is_blank (bytes ! (q - 1))"
              using skipSpaceBytes_blank [of "p + length short_name_opener" "q - 1" bytes] eq
                \<open>p + length short_name_opener \<le> q\<close> by linarith
            then show False using q by (auto simp: defines_at_def is_blank_def)
          qed
        qed
        then have "?a \<le> q"
          using skip_before_opener [OF opq name_before_opener [OF q matches "1.prems"(3,4)]] by simp
        then have "definesLoop bytes name ?a" if "\<not> (?a < length bytes \<and> bytes ! ?a = CHR ''<'')"
          using "1.IH"(3) [OF p after_mark refl _ refl that] matches "1.prems" by simp
        then show ?thesis
          using p after_mark matches by (subst definesLoop.simps) (auto simp: Let_def)
      qed
    qed
  qed
qed

section \<open>The lazy expansion\<close>

lemma parsed_grows:
  "fold (tryCandidate e w) cs (fs, parsed, added) = (fs', parsed', added') \<Longrightarrow>
    set parsed \<subseteq> set parsed' \<and> (added \<longrightarrow> added') \<and>
    (added' \<longrightarrow> added \<or> (\<exists>c \<in> set cs. c \<notin> set parsed \<and> c \<in> set parsed')) \<and>
    (\<not> added' \<longrightarrow> fs' = fs \<and> parsed' = parsed)"
proof (induction cs arbitrary: fs parsed added)
  case Nil
  then show ?case by simp
next
  case (Cons c cs)
  obtain fs1 parsed1 added1 where st: "tryCandidate e w c (fs, parsed, added) = (fs1, parsed1, added1)"
    by (cases "tryCandidate e w c (fs, parsed, added)") auto
  then have step: "(fs1, parsed1, added1) = (fs, parsed, added) \<or>
      (added1 \<and> c \<notin> set parsed \<and> parsed1 = s_insert c parsed)"
    by (auto simp: tryCandidate_def split: if_splits sum.splits)
  have "fold (tryCandidate e w) cs (fs1, parsed1, added1) = (fs', parsed', added')"
    using Cons.prems st by simp
  from Cons.IH [OF this] step show ?case by (auto simp: set_s_insert)
qed

text \<open>The number of candidates still unparsed: the measure of the loop.\<close>

definition unparsed :: "fpath list \<Rightarrow> fpath list \<Rightarrow> nat" where
  "unparsed candidates parsed = card (set candidates - set parsed)"

lemma advanced_decreases:
  assumes "expandProjectOnce e candidates (fs, parsed) = (Advanced, fs', parsed')"
  shows "unparsed candidates parsed' < unparsed candidates parsed"
proof -
  let ?w = "collectWantedRefs \<lparr>files = fs, resolvedRefs = []\<rparr>"
  obtain added where f: "fold (tryCandidate e ?w) candidates (fs, parsed, False) = (fs', parsed', added)" and added
    using assms by (auto simp: expandProjectOnce_def Let_def split: if_splits prod.splits)
  from parsed_grows [OF f] \<open>added\<close>
  have "set candidates - set parsed' \<subset> set candidates - set parsed" by auto
  then show ?thesis unfolding unparsed_def by (intro psubset_card_mono) auto
qed

lemma complete_or_stuck_keeps:
  assumes "expandProjectOnce e candidates (fs, parsed) = (step, fs', parsed')" and "step \<noteq> Advanced"
  shows "fs' = fs \<and> parsed' = parsed"
proof (cases "wantedEmpty (collectWantedRefs \<lparr>files = fs, resolvedRefs = []\<rparr>)")
  case True
  then show ?thesis using assms by (auto simp: expandProjectOnce_def Let_def)
next
  case False
  then obtain added where
    f: "fold (tryCandidate e (collectWantedRefs \<lparr>files = fs, resolvedRefs = []\<rparr>)) candidates (fs, parsed, False)
        = (fs', parsed', added)" and "\<not> added"
    using assms by (auto simp: expandProjectOnce_def Let_def split: if_splits prod.splits)
  then show ?thesis using parsed_grows [OF f] by simp
qed

lemma lazyLoop_stops:
  "unparsed candidates (snd st) < n \<Longrightarrow>
    fst (expandProjectOnce e candidates (lazyLoop n e candidates st)) \<noteq> Advanced"
proof (induction n arbitrary: st)
  case 0
  then show ?case by simp
next
  case (Suc n)
  obtain fs parsed where st: "st = (fs, parsed)" by (cases st)
  obtain step fs' parsed' where ex: "expandProjectOnce e candidates (fs, parsed) = (step, fs', parsed')"
    by (cases "expandProjectOnce e candidates (fs, parsed)") auto
  show ?case
  proof (cases "step = Advanced")
    case True
    have "unparsed candidates parsed' < n"
      using advanced_decreases [OF ex [unfolded True]] Suc.prems st by simp
    then show ?thesis using Suc.IH [of "(fs', parsed')"] st ex True by simp
  next
    case False
    then show ?thesis using complete_or_stuck_keeps [OF ex False] st ex by simp
  qed
qed

lemma lazyLoop_fixpoint:
  "fst (expandProjectOnce e candidates st) \<noteq> Advanced \<Longrightarrow> lazyLoop n e candidates st = st"
proof (cases n)
  case (Suc m)
  assume "fst (expandProjectOnce e candidates st) \<noteq> Advanced"
  then show ?thesis
    using complete_or_stuck_keeps [of e candidates "fst st" "snd st"] Suc
    by (cases "expandProjectOnce e candidates st") auto
qed simp

lemma lazyLoop_add: "lazyLoop (m + n) e candidates st = lazyLoop n e candidates (lazyLoop m e candidates st)"
proof (induction m arbitrary: st)
  case 0
  then show ?case by simp
next
  case (Suc m)
  obtain step st' where ex: "expandProjectOnce e candidates st = (step, st')"
    by (cases "expandProjectOnce e candidates st") auto
  show ?case
  proof (cases "step = Advanced")
    case True
    then show ?thesis using ex Suc.IH by simp
  next
    case False
    have keep: "st' = st"
      using complete_or_stuck_keeps [of e candidates "fst st" "snd st" step] ex False
      by (cases st', cases st) simp
    then have "lazyLoop n e candidates st = st"
      using ex False by (intro lazyLoop_fixpoint) simp
    then show ?thesis using ex False keep by simp
  qed
qed

text \<open>A candidate that stayed out could not have supplied a missing name.\<close>

lemma tryCandidate_refused:
  assumes "fold (tryCandidate e w) cs (fs, parsed, False) = (fs', parsed', False)"
    and "c \<in> set cs" and "c \<notin> set parsed"
  shows "\<not> candidateDefinesAny e c w \<or> (\<exists>x. parseFile e c = Inl x)
    \<or> (\<exists>f. parseFile e c = Inr f \<and> \<not> definesWantedName f w)"
  using assms
proof (induction cs arbitrary: fs parsed)
  case (Cons d cs)
  obtain fs1 parsed1 added1 where st: "tryCandidate e w d (fs, parsed, False) = (fs1, parsed1, added1)"
    by (cases "tryCandidate e w d (fs, parsed, False)") auto
  then have rest: "fold (tryCandidate e w) cs (fs1, parsed1, added1) = (fs', parsed', False)"
    using Cons.prems by simp
  then have na: "\<not> added1" using parsed_grows by blast
  have same: "fs1 = fs \<and> parsed1 = parsed" and refused: "d \<notin> set parsed \<Longrightarrow> ?case" if "d = c"
    using st na that by (auto simp: tryCandidate_def split: if_splits sum.splits)
  have same': "fs1 = fs \<and> parsed1 = parsed"
    using st na by (auto simp: tryCandidate_def split: if_splits sum.splits)
  show ?case
  proof (cases "d = c")
    case True
    then show ?thesis using refused Cons.prems by blast
  next
    case False
    then show ?thesis using Cons.IH [of fs parsed] rest na same' Cons.prems by simp
  qed
qed simp

section \<open>Properties\<close>

text \<open>C38: the raw pre-filter has no false negative on a definition written as an element
  \<open>SHORT-NAME\<close> without attributes (with or without a namespace prefix) whose text is the name
  between optional blanks.\<close>

theorem rawDefinesShortName_complete:
  assumes "mark = CHR ''<'' \<or> mark = CHR '':''"
    and "\<forall>c \<in> set b1. is_blank c" and "\<forall>c \<in> set b2. is_blank c"
    and "name \<noteq> []" and "\<not> is_blank (hd name)" and "CHR ''<'' \<notin> set name" and "CHR '':'' \<notin> set name"
  shows "rawDefinesShortName (pre @ [mark] @ ''SHORT-NAME>'' @ b1 @ name @ b2 @ ''<'' @ post) name"
proof -
  let ?bytes = "pre @ [mark] @ short_name_opener @ b1 @ name @ b2 @ ''<'' @ post"
  let ?q = "Suc (length pre)"
  have lt: "\<not> is_blank (CHR ''<'')" by (simp add: is_blank_def)
  let ?n = "?q + length short_name_opener + length b1"
  have s1: "skipSpaceBytes ?bytes (?q + length short_name_opener) = ?n"
    using assms(2,4,5) by (intro skipSpaceBytes_run [where rest = "name @ b2 @ ''<'' @ post"]) simp_all
  have s2: "skipSpaceBytes ?bytes (?n + length name) = ?n + length name + length b2"
    using assms(3) lt by (intro skipSpaceBytes_run [where rest = "''<'' @ post"]) simp_all
  have "starts_with (drop ?q ?bytes) short_name_opener" by (simp add: starts_with_def)
  moreover have "?bytes ! (?q - 1) = mark" by (simp add: nth_append)
  moreover have "take (length name) (drop ?n ?bytes) = name" by simp
  moreover have "?n + length name + length b2 < length ?bytes
      \<and> ?bytes ! (?n + length name + length b2) = CHR ''<''"
    by (simp add: nth_append)
  ultimately have "defines_at ?bytes name ?q"
    using assms(1) unfolding defines_at_def Let_def s1 s2 by auto
  then have "definesLoop ?bytes name 0"
    using assms(6,7) by (intro definesLoop_complete [of 0 ?q]) auto
  then show ?thesis by (simp add: rawDefinesShortName_def short_name_opener_def)
qed

theorem rawDefinesShortName_complete_witness:
  "rawDefinesShortName (''<AR>'' @ [CHR ''<''] @ ''SHORT-NAME>'' @ '' '' @ ''Frame_1'' @ [] @ ''<'' @ ''/SHORT-NAME>'')
    ''Frame_1''"
  by (rule rawDefinesShortName_complete) (simp_all add: is_blank_def)

text \<open>An attribute or a blank inside the tag, both well-formed XML, are missed.\<close>

lemma rawDefinesShortName_misses_attributes:
  "\<not> rawDefinesShortName ''<SHORT-NAME >A</SHORT-NAME>'' ''A''
    \<and> \<not> rawDefinesShortName ''<SHORT-NAME UUID='1'>A</SHORT-NAME>'' ''A''"
  by code_simp

text \<open>C30: with fewer than fifty candidate files the iteration cap of the lazy discovery is never what
  stops it: any larger number of iterations gives the same project.\<close>

theorem lazy_cap_not_binding:
  assumes "length candidates < kMaxLazyIterations"
  shows "lazyLoop (kMaxLazyIterations + k) e candidates st = lazyLoop kMaxLazyIterations e candidates st"
proof -
  have "unparsed candidates (snd st) \<le> length candidates"
    unfolding unparsed_def by (meson card_length card_mono Diff_subset List.finite_set order_trans)
  then have "fst (expandProjectOnce e candidates (lazyLoop kMaxLazyIterations e candidates st)) \<noteq> Advanced"
    using assms by (intro lazyLoop_stops) simp
  then show ?thesis by (simp add: lazyLoop_add lazyLoop_fixpoint)
qed

text \<open>A file system with one good file \<open>/a.arxml\<close> and one that does not parse.\<close>

definition sample_root :: raw_node where
  "sample_root = RawNode ''AUTOSAR'' [(''xsi:schemaLocation'', ''ns AUTOSAR_00046.xsd'')] [] no_span
     [RawNode ''ECU-INSTANCE'' [] [] no_span [RawNode ''SHORT-NAME'' [] ''E'' no_span []],
      RawNode ''FRAME'' [] [] no_span
        [RawNode ''SHORT-NAME'' [] ''F'' no_span [], RawNode ''TRANSMITTER-REF'' [] ''/P/E'' no_span []]]"

definition sample_env :: env where
  "sample_env =
    \<lparr>cwd = [''/''], list_dir = (\<lambda>_. Inr []),
     list_tree = (\<lambda>_. Inr [([''/'', ''a.arxml''], True), ([''/'', ''b.arxml''], True)]),
     open_bytes = (\<lambda>p. Some ''<SHORT-NAME>E</SHORT-NAME>''),
     load = (\<lambda>p. if p = [''/'', ''a.arxml''] then Inr sample_root else Inl (LoadFailure (RuntimeError ''broken''))),
     load_memory = (\<lambda>_. Inl (LoadFailure (RuntimeError ''broken'')))\<rparr>"

theorem lazy_cap_not_binding_witness:
  "lazyLoop (kMaxLazyIterations + 7) sample_env [[''/'', ''b.arxml'']] ([], [])
    = lazyLoop kMaxLazyIterations sample_env [[''/'', ''b.arxml'']] ([], [])"
  by (rule lazy_cap_not_binding) (simp add: kMaxLazyIterations_def)

text \<open>Why a candidate is not added: the pre-filter rejects it, it does not parse, or it defines nothing
  wanted.\<close>

definition candidate_refused :: "env \<Rightarrow> fpath \<Rightarrow> name_sets \<Rightarrow> bool" where
  "candidate_refused e c w \<longleftrightarrow> \<not> candidateDefinesAny e c w \<or> (\<exists>x. parseFile e c = Inl x)
     \<or> (\<exists>f. parseFile e c = Inr f \<and> \<not> definesWantedName f w)"

text \<open>C29: with fewer than fifty candidate files, so that the iteration cap does not stop the search: when the lazy
  discovery ends with names still missing, every candidate file left out was rejected by the pre-filter,
  failed to parse, or defines none of the missing names.\<close>

theorem lazy_search_exhaustive:
  assumes "length candidates < kMaxLazyIterations"
    and "lazyLoop kMaxLazyIterations e candidates st = (fs, parsed)"
    and "w = collectWantedRefs \<lparr>files = fs, resolvedRefs = []\<rparr>" and "\<not> wantedEmpty w"
    and "c \<in> set candidates" and "c \<notin> set parsed"
  shows "candidate_refused e c w"
proof -
  have "unparsed candidates (snd st) \<le> length candidates"
    unfolding unparsed_def by (meson card_length card_mono Diff_subset List.finite_set order_trans)
  then have "fst (expandProjectOnce e candidates (fs, parsed)) \<noteq> Advanced"
    using lazyLoop_stops [of candidates st kMaxLazyIterations e] assms(1,2) by simp
  then obtain fs' parsed' where "fold (tryCandidate e w) candidates (fs, parsed, False) = (fs', parsed', False)"
    using assms(3,4) by (auto simp: expandProjectOnce_def Let_def split: if_splits prod.splits)
  then show ?thesis unfolding candidate_refused_def using tryCandidate_refused assms(5,6) by blast
qed

theorem lazy_search_exhaustive_witness:
  "candidate_refused sample_env [''/'', ''b.arxml''] (collectWantedRefs (sample_project []))"
proof (rule lazy_search_exhaustive)
  let ?st = "(files (sample_project []), [] :: fpath list)"
  have p: "\<lparr>files = files (sample_project []), resolvedRefs = []\<rparr> = sample_project []"
    by (simp add: sample_project_def)
  have "parseFile sample_env [''/'', ''b.arxml''] = Inl (LoadFailure (RuntimeError ''broken''))"
    by (simp add: parseFile_def sample_env_def)
  then have "expandProjectOnce sample_env [[''/'', ''b.arxml'']] ?st = (Stuck, ?st)"
    if "\<not> wantedEmpty (collectWantedRefs (sample_project []))"
    using that by (simp add: expandProjectOnce_def p tryCandidate_def Let_def)
  moreover show wanted: "\<not> wantedEmpty (collectWantedRefs (sample_project []))" by code_simp
  ultimately show "lazyLoop kMaxLazyIterations sample_env [[''/'', ''b.arxml'']] ?st = ?st"
    by (intro lazyLoop_fixpoint) simp
  show "collectWantedRefs (sample_project [])
      = collectWantedRefs \<lparr>files = files (sample_project []), resolvedRefs = []\<rparr>" by (simp only: p)
qed (simp_all add: kMaxLazyIterations_def)

text \<open>C32: whatever the discovery mode, a project that is returned has no reference left to resolve.\<close>

theorem parseProject_no_dangling:
  assumes "parseProject e entryPoints mode = Inr p"
  shows "wantedEmpty (collectWantedRefs p)"
proof -
  obtain fs where r: "resolveCrossFileReferences \<lparr>files = fs, resolvedRefs = []\<rparr> = Inr p"
    using assms by (auto simp: parseProject_def parseProjectLazy_def resolveFiles_def
        split: discovery_mode.splits sum.splits prod.splits)
  then have "wantedEmpty (collectWantedRefs \<lparr>files = fs, resolvedRefs = []\<rparr>)"
    using no_missing_iff_none_wanted resolve_success_iff by blast
  moreover have "files p = fs" using r by (auto simp: resolve_cases Let_def split: if_splits)
  ultimately show ?thesis by (simp add: collectWantedRefs_def collectKnownRefs_def)
qed


theorem parseProject_no_dangling_witness:
  "\<exists>p. parseProject sample_env [[''/'', ''a.arxml'']] ExplicitList = Inr p \<and> wantedEmpty (collectWantedRefs p)"
proof -
  have "(case parseProject sample_env [[''/'', ''a.arxml'']] ExplicitList of Inl _ \<Rightarrow> False | Inr _ \<Rightarrow> True)"
    by code_simp
  then obtain p where p: "parseProject sample_env [[''/'', ''a.arxml'']] ExplicitList = Inr p"
    by (auto split: sum.splits)
  then show ?thesis using parseProject_no_dangling [OF p] by blast
qed

end
