(* ===== verification/WriteReading.thy ===== *)
theory WriteReading
  imports WriteEngine ProjectDiscovery "HOL-Library.Multiset"
begin

text \<open>
  What is written is what is read: the model builder applied to the node the loader makes of a
  written element. \<open>reads_as x n\<close> is what saving a tree and loading it again gives: the elements with
  their tags and attributes (in any order: the loader moves namespace declarations last), the text of an element that has text, and only blanks
  (indentation) in an element that has none; the spans are arbitrary.
\<close>

section \<open>Reading a written tree\<close>

definition texts_of :: "xml list \<Rightarrow> string list" where
  "texts_of cs = concat (map (\<lambda>c. case c of Text t \<Rightarrow> [t] | _ \<Rightarrow> []) cs)"

definition reads_text :: "xml list \<Rightarrow> string \<Rightarrow> bool" where
  "reads_text cs x \<longleftrightarrow>
    (if texts_of cs = [] then list_all is_blank x else x = concat (texts_of cs))"

fun reads_as :: "xml \<Rightarrow> raw_node \<Rightarrow> bool" and reads_kids :: "xml list \<Rightarrow> raw_node list \<Rightarrow> bool" where
  "reads_as (Elem n as cs) (RawNode t a x s ks) =
    (t = n \<and> mset a = mset as \<and> reads_text cs x \<and> reads_kids cs ks)"
| "reads_as (Text t) k = False"
| "reads_kids [] ks = (ks = [])"
| "reads_kids (Text t # cs) ks = reads_kids cs ks"
| "reads_kids (Elem n as cs # ds) ks =
    (case ks of [] \<Rightarrow> False | k # ks' \<Rightarrow> reads_as (Elem n as cs) k \<and> reads_kids ds ks')"

fun is_elem :: "xml \<Rightarrow> bool" where
  "is_elem (Elem _ _ _) = True"
| "is_elem (Text _) = False"

lemma reads_kids_elem:
  "is_elem e \<Longrightarrow> reads_kids (e # ds) ks \<longleftrightarrow> (\<exists>k ks'. ks = k # ks' \<and> reads_as e k \<and> reads_kids ds ks')"
  by (cases e; cases ks) auto

declare reads_kids.simps(3) [simp del]

lemma reads_kids_append:
  "reads_kids (cs @ ds) ks \<longleftrightarrow> (\<exists>k1 k2. ks = k1 @ k2 \<and> reads_kids cs k1 \<and> reads_kids ds k2)"
proof (induction cs arbitrary: ks)
  case Nil
  then show ?case by simp
next
  case (Cons c cs)
  show ?case
  proof (cases c)
    case (Elem n as xs)
    have "reads_kids ((c # cs) @ ds) ks \<longleftrightarrow> (\<exists>k ks'. ks = k # ks' \<and> reads_as c k \<and> reads_kids (cs @ ds) ks')"
      using Elem by (simp add: reads_kids_elem)
    also have "\<dots> \<longleftrightarrow> (\<exists>k k1 k2. ks = k # k1 @ k2 \<and> reads_as c k \<and> reads_kids cs k1 \<and> reads_kids ds k2)"
      using Cons.IH by blast
    also have "\<dots> \<longleftrightarrow> (\<exists>k1 k2. ks = k1 @ k2 \<and> reads_kids (c # cs) k1 \<and> reads_kids ds k2)"
      using Elem by (auto simp: reads_kids_elem) (metis append_Cons)+
    finally show ?thesis .
  next
    case (Text t)
    then show ?thesis using Cons.IH by simp
  qed
qed

lemma reads_kids_map:
  "(\<And>x. is_elem (f x)) \<Longrightarrow> reads_kids (map f xs) ks \<longleftrightarrow> list_all2 (\<lambda>x k. reads_as (f x) k) xs ks"
proof (induction xs arbitrary: ks)
  case (Cons x xs)
  then show ?case by (cases ks) (auto simp: reads_kids_elem)
qed simp

lemma reads_as_Elem:
  "reads_as (Elem n as cs) k \<longleftrightarrow> tagName k = n \<and> mset (attributes k) = mset as \<and> reads_text cs (nodeText k)
     \<and> reads_kids cs (children k)"
  by (cases k) auto

lemma texts_of_simps [simp]:
  "texts_of [] = []" "texts_of (Text t # cs) = t # texts_of cs" "texts_of (Elem n as xs # cs) = texts_of cs"
  "texts_of (cs @ ds) = texts_of cs @ texts_of ds"
  by (simp_all add: texts_of_def)

section \<open>Text leaves\<close>

text \<open>A text that survives: no ampersand, and no blank at its ends.\<close>

definition safe_text :: "string \<Rightarrow> bool" where
  "safe_text t \<longleftrightarrow> trimmed t \<and> CHR ''&'' \<notin> set t"

lemma trimText_blank: "list_all is_blank x \<Longrightarrow> trimText x = []"
proof -
  assume "list_all is_blank x"
  then have "dropWhile is_blank x = []" by (simp add: list_all_iff)
  then show ?thesis by (simp only: trimText_def rev.simps dropWhile.simps)
qed

text \<open>A node read from an element that holds just a text.\<close>

definition leaf_of :: "string \<Rightarrow> string \<Rightarrow> raw_node \<Rightarrow> bool" where
  "leaf_of tag t k \<longleftrightarrow> tagName k = tag \<and> trimText (nodeText k) = t \<and> children k = []"

lemma reads_leaf:
  assumes "plain_content sc" and "safe_text t" and "reads_as (Elem tag as (sc t)) k"
  shows "leaf_of tag t k"
  using assms trimText_blank [of "nodeText k"] trimText_trimmed [of t]
  by (cases "t = []") (auto simp: leaf_of_def reads_as_Elem reads_text_def plain_content_def safe_text_def)

lemma reads_textChild:
  "plain_content sc \<Longrightarrow> safe_text t \<Longrightarrow> reads_as (textChild sc tag t) k \<Longrightarrow> leaf_of tag t k"
  by (auto simp: textChild_def intro: reads_leaf)

lemma reads_refChild:
  "plain_content sc \<Longrightarrow> safe_text t \<Longrightarrow> reads_as (refChild sc tag dest t) k \<Longrightarrow> leaf_of tag t k"
  by (auto simp: refChild_def intro: reads_leaf)

lemma is_elem_small [simp]:
  "is_elem (textChild sc tag t)" "is_elem (refChild sc tag dest t)" "is_elem (channelEntry sc t)"
  "is_elem (controllerEntry sc t)" "is_elem (memberRef sc t)"
  "is_elem (framePduEntry sc ow im)" "is_elem (pduSignalEntry sc ow jm)"
  by (simp_all add: textChild_def refChild_def channelEntry_def controllerEntry_def memberRef_def
      framePduEntry_def pduSignalEntry_def split: prod.splits)

lemma leaf_collect: "leaf_of tag t k \<Longrightarrow> collect_in other (children k) = []"
  by (simp add: leaf_of_def)

lemma leaf_tag: "leaf_of tag t k \<Longrightarrow> tagName k = tag"
  by (simp add: leaf_of_def)

lemma leaf_text: "leaf_of tag t k \<Longrightarrow> trimText (nodeText k) = t"
  by (simp add: leaf_of_def)

lemma trimmedI: "s \<noteq> [] \<Longrightarrow> \<not> is_blank (hd s) \<Longrightarrow> \<not> is_blank (last s) \<Longrightarrow> trimmed s"
  by (simp add: trimmed_def)

lemma safe_digits: "safe_text (nat_to_string n)"
proof -
  have no: "\<not> is_blank c \<and> c \<noteq> CHR ''&''" if "c \<in> set (nat_to_string n)" for c
    using nat_to_string_digits [OF that] digit_plain [OF nat_to_string_digits [OF that]]
    by (auto simp: is_digit_nat)
  then have "CHR ''&'' \<notin> set (nat_to_string n)" by blast
  moreover have "trimmed (nat_to_string n)"
    using no [OF hd_in_set] no [OF last_in_set] by (intro trimmedI) simp_all
  ultimately show ?thesis by (simp add: safe_text_def)
qed

lemma safe_u32: "safe_text (u32_to_string w)"
  by (simp add: u32_to_string_def safe_digits)

text \<open>A path to a name without blanks at its end reduces to the name.\<close>

definition safe_name :: "string \<Rightarrow> bool" where
  "safe_name n \<longleftrightarrow> safe_text n \<and> n \<noteq> [] \<and> CHR ''/'' \<notin> set n"

lemma safe_sys_path: "safe_name n \<Longrightarrow> safe_text (''/Sys/'' @ n)"
proof -
  assume n: "safe_name n"
  then have ne: "n \<noteq> []" and amp: "CHR ''&'' \<notin> set n" and tr: "trimmed n"
    by (simp_all add: safe_name_def safe_text_def)
  have "trimmed (''/Sys/'' @ n)"
    using ne tr by (intro trimmedI) (simp_all add: trimmed_def is_blank_def)
  then show ?thesis using amp by (simp add: safe_text_def)
qed

lemma shortName_sys_path:
  assumes "safe_name n" and "leaf_of tag (''/Sys/'' @ n) k"
  shows "shortNameOfRef (nodeText k) = n"
proof -
  have "after_last (CHR ''/'') (''/Sys'' @ CHR ''/'' # n) = n"
    by (rule after_last_append) (use assms(1) in \<open>simp add: safe_name_def\<close>)
  then show ?thesis using assms(2) by (simp add: shortNameOfRef_def leaf_of_def)
qed

lemma childText_leaf: "findChild k tag = Some c \<Longrightarrow> leaf_of tag t c \<Longrightarrow> childText k tag = Some t"
  by (simp add: childText_def leaf_of_def)

lemma find_skip: "tagName k \<noteq> tag \<Longrightarrow> List.find (\<lambda>c. tagName c = tag) (k # ks) = List.find (\<lambda>c. tagName c = tag) ks"
  by simp

lemma find_hit: "tagName k = tag \<Longrightarrow> List.find (\<lambda>c. tagName c = tag) (k # ks) = Some k"
  by simp

section \<open>The common head of an element\<close>

text \<open>
  A node read from an element that starts with its name and, possibly, its category: \<open>ks\<close> are the
  children after these.
\<close>

definition head_of :: "string \<Rightarrow> string option \<Rightarrow> raw_node \<Rightarrow> raw_node list \<Rightarrow> bool" where
  "head_of n cat k ks \<longleftrightarrow>
    (\<exists>c cs. children k = c # cs @ ks \<and> leaf_of ''SHORT-NAME'' n c \<and>
      (case cat of None \<Rightarrow> cs = [] | Some t \<Rightarrow> \<exists>c'. cs = [c'] \<and> leaf_of ''CATEGORY'' t c'))"

lemma reads_head:
  assumes "plain_content sc" and "safe_text n" and "\<forall>t. cat = Some t \<longrightarrow> safe_text t"
    and "reads_kids (textChild sc ''SHORT-NAME'' n # optionalTextChild sc ''CATEGORY'' cat @ rest) (children k)"
  shows "\<exists>ks. head_of n cat k ks \<and> reads_kids rest ks"
proof -
  obtain c ks0 where c: "children k = c # ks0" "reads_as (textChild sc ''SHORT-NAME'' n) c"
      "reads_kids (optionalTextChild sc ''CATEGORY'' cat @ rest) ks0"
    using assms(4) by (auto simp: reads_kids_elem)
  note leaf = reads_textChild [OF assms(1,2) c(2)]
  show ?thesis
  proof (cases cat)
    case None
    then show ?thesis using c leaf by (auto simp: head_of_def optionalTextChild_def)
  next
    case (Some t)
    then obtain c' ks where "ks0 = c' # ks" "reads_as (textChild sc ''CATEGORY'' t) c'" "reads_kids rest ks"
      using c(3) by (auto simp: optionalTextChild_def reads_kids_elem)
    have "leaf_of ''CATEGORY'' t c'" if "reads_as (textChild sc ''CATEGORY'' t) c'" for c'
      using reads_textChild [OF assms(1) _ that] assms(3) Some by blast
    then have "head_of n cat k ks" if "ks0 = c' # ks" "reads_as (textChild sc ''CATEGORY'' t) c'" for c' ks
      using that c(1) leaf Some by (fastforce simp: head_of_def)
    then show ?thesis using \<open>ks0 = c' # ks\<close> \<open>reads_as (textChild sc ''CATEGORY'' t) c'\<close> \<open>reads_kids rest ks\<close> by blast
  qed
qed

lemma reads_head_None:
  assumes "plain_content sc" and "safe_text n"
    and "reads_kids (textChild sc ''SHORT-NAME'' n # rest) (children k)"
  shows "\<exists>ks. head_of n None k ks \<and> reads_kids rest ks"
  using reads_head [OF assms(1,2), of None rest k] assms(3) by (simp add: optionalTextChild_def)

lemma head_collect:
  assumes "head_of n cat k ks" and "tag \<noteq> ''SHORT-NAME''" and "tag \<noteq> ''CATEGORY''"
  shows "collectDescendants k tag = collect_in tag ks"
proof -
  obtain c cs where c: "children k = c # cs @ ks" "leaf_of ''SHORT-NAME'' n c"
      "case cat of None \<Rightarrow> cs = [] | Some t \<Rightarrow> \<exists>c'. cs = [c'] \<and> leaf_of ''CATEGORY'' t c'"
    using assms(1) by (auto simp: head_of_def)
  have "collect_in tag cs = []"
    using c(3) assms(3) leaf_tag leaf_collect by (cases cat) (fastforce simp: collect_in_Cons)+
  then show ?thesis
    using c(1) assms(2) leaf_tag [OF c(2)] leaf_collect [OF c(2)]
    by (simp add: collectDescendants_def collect_in_Cons collect_in_append)
qed

lemma head_findChild:
  assumes "head_of n cat k ks" and "tag \<noteq> ''SHORT-NAME''" and "tag \<noteq> ''CATEGORY''"
  shows "findChild k tag = List.find (\<lambda>c. tagName c = tag) ks"
proof -
  obtain c cs where c: "children k = c # cs @ ks" "leaf_of ''SHORT-NAME'' n c"
      "case cat of None \<Rightarrow> cs = [] | Some t \<Rightarrow> \<exists>c'. cs = [c'] \<and> leaf_of ''CATEGORY'' t c'"
    using assms(1) by (auto simp: head_of_def)
  show ?thesis
  proof (cases cat)
    case None
    then show ?thesis using c assms(2) leaf_tag [OF c(2)] by (simp add: findChild_def)
  next
    case (Some t)
    then obtain c' where "cs = [c']" "leaf_of ''CATEGORY'' t c'" using c(3) by auto
    then show ?thesis using c(1) assms(2,3) leaf_tag [OF c(2)] leaf_tag by (auto simp: findChild_def)
  qed
qed

lemma head_populate:
  assumes "head_of n cat k ks" and "n \<noteq> []" and "\<forall>c \<in> set ks. tagName c \<noteq> ''CATEGORY''"
  shows "populateCommonFields k ws = (\<lparr>shortName = n, category = cat, rawSpanRef = nodeSpan k\<rparr>, ws)"
proof -
  obtain c cs where c: "children k = c # cs @ ks" "leaf_of ''SHORT-NAME'' n c"
      "case cat of None \<Rightarrow> cs = [] | Some t \<Rightarrow> \<exists>c'. cs = [c'] \<and> leaf_of ''CATEGORY'' t c'"
    using assms(1) by (auto simp: head_of_def)
  have name: "childText k ''SHORT-NAME'' = Some n"
    using c(1,2) by (intro childText_leaf [where c = c]) (auto simp: findChild_def dest: leaf_tag)
  have "childText k ''CATEGORY'' = cat"
  proof (cases cat)
    case None
    have "List.find (\<lambda>c. tagName c = ''CATEGORY'') ks = None" using assms(3) by (simp add: find_None_iff)
    then show ?thesis
      using None c(1,3) leaf_tag [OF c(2)] by (simp add: childText_def findChild_def)
  next
    case (Some t)
    then obtain c' where c': "cs = [c']" "leaf_of ''CATEGORY'' t c'" using c(3) by auto
    have "findChild k ''CATEGORY'' = Some c'"
      using c(1) c'(1) leaf_tag [OF c(2)] leaf_tag [OF c'(2)] by (simp add: findChild_def)
    then show ?thesis using childText_leaf [OF _ c'(2)] Some by blast
  qed
  then show ?thesis using name assms(2) by (simp add: populateCommonFields_def extractShortName_def)
qed

section \<open>Lists of entries\<close>

lemma collect_entries:
  "\<forall>k \<in> set ks. tagName k = tag \<and> collect_in T (children k) = [] \<Longrightarrow>
    collect_in T ks = (if T = tag then ks else [])"
  by (induction ks) (auto simp: collect_in_Cons)

lemma list_all2_set2: "list_all2 P xs ks \<Longrightarrow> k \<in> set ks \<Longrightarrow> \<exists>x \<in> set xs. P x k"
  by (induction xs ks rule: list_all2_induct) auto

lemma list_all2_refine:
  "list_all2 P xs ks \<Longrightarrow> (\<And>x k. x \<in> set xs \<Longrightarrow> P x k \<Longrightarrow> Q x k) \<Longrightarrow> list_all2 Q xs ks"
  by (induction xs ks rule: list_all2_induct) auto

lemma collect_leaves:
  "list_all2 (\<lambda>x k. leaf_of tag (f x) k) xs ks \<Longrightarrow> collect_in T ks = (if T = tag then ks else [])"
  by (rule collect_entries) (auto dest: list_all2_set2 leaf_tag leaf_collect)

lemma leaf_short_names:
  assumes "list_all2 (\<lambda>x k. leaf_of tag (''/Sys/'' @ x) k) ms ks" and "\<forall>m \<in> set ms. safe_name m"
  shows "map (\<lambda>r. shortNameOfRef (nodeText r)) ks = ms"
  using assms
proof (induction ms ks rule: list_all2_induct)
  case (Cons m ms k ks)
  then show ?case by (simp add: shortName_sys_path)
qed simp

lemma filter_nonempty: "\<forall>m \<in> set ms. safe_name m \<Longrightarrow> filter (\<lambda>n. n \<noteq> []) ms = ms"
  by (auto simp: safe_name_def intro: filter_True)

text \<open>An entry that consists of a name.\<close>

definition named_entry :: "string \<Rightarrow> string \<Rightarrow> raw_node \<Rightarrow> bool" where
  "named_entry tag n k \<longleftrightarrow> tagName k = tag \<and> (\<exists>c. children k = [c] \<and> leaf_of ''SHORT-NAME'' n c)"

lemma reads_named:
  assumes "plain_content sc" and "safe_text n"
    and "reads_as (Elem tag [] [textChild sc ''SHORT-NAME'' n]) k"
  shows "named_entry tag n k"
  using assms(3) reads_textChild [OF assms(1,2)] by (auto simp: named_entry_def reads_as_Elem reads_kids_elem)

lemma named_entries:
  assumes "list_all2 (named_entry tag) ns ks" and "\<forall>n \<in> set ns. safe_name n"
  shows "namedShortNames ks = ns \<and>
    (T \<noteq> ''SHORT-NAME'' \<longrightarrow> collect_in T ks = (if T = tag then ks else []))"
proof
  show "namedShortNames ks = ns"
    using assms
  proof (induction ns ks rule: list_all2_induct)
    case (Cons n ns k ks)
    then obtain c where c: "children k = [c]" "leaf_of ''SHORT-NAME'' n c" by (auto simp: named_entry_def)
    then have "childText k ''SHORT-NAME'' = Some n"
      by (intro childText_leaf [where c = c]) (auto simp: findChild_def dest: leaf_tag)
    then show ?case using Cons by (simp add: namedShortNames_def safe_name_def)
  qed (simp add: namedShortNames_def)
  show "T \<noteq> ''SHORT-NAME'' \<longrightarrow> collect_in T ks = (if T = tag then ks else [])"
  proof
    assume T: "T \<noteq> ''SHORT-NAME''"
    have "collect_in T (children k) = []" if "named_entry tag n k" for n k
      using that T by (auto simp: named_entry_def collect_in_Cons dest: leaf_tag leaf_collect)
    then have "tagName k = tag \<and> collect_in T (children k) = []" if "k \<in> set ks" for k
      using list_all2_set2 [OF assms(1) that] by (auto simp only: named_entry_def)
    then show "collect_in T ks = (if T = tag then ks else [])" by (intro collect_entries) blast
  qed
qed

section \<open>Element by element\<close>

lemma signalGroup_roundtrip:
  assumes sc: "plain_content sc" and name: "safe_name (shortName (group_common g))"
    and mem: "\<forall>m \<in> set (members g). safe_name m"
    and r: "reads_as (buildSignalGroupElement sc g) k"
  shows "fst (buildSignalGroup k ws) =
    \<lparr>group_common = \<lparr>shortName = shortName (group_common g), category = None, rawSpanRef = nodeSpan k\<rparr>,
     members = sort (members g)\<rparr>"
proof -
  let ?n = "shortName (group_common g)"
  have n: "safe_text ?n" "?n \<noteq> []" using name by (simp_all add: safe_name_def)
  obtain ks where head: "head_of ?n None k ks" and rest: "reads_kids (if members g \<noteq> []
      then [Elem ''I-SIGNAL-REFS'' [] (map (memberRef sc) (sortedStrings (members g)))] else []) ks"
    using r reads_head_None [OF sc n(1)] unfolding buildSignalGroupElement_def reads_as_Elem by blast
  have mem': "\<forall>m \<in> set (sort (members g)). safe_name m" using mem by simp
  have refs: "map (\<lambda>r. shortNameOfRef (nodeText r)) (collect_in ''I-SIGNAL-REF'' ks) = sort (members g)
      \<and> collect_in ''SYSTEM-SIGNAL-REF'' ks = [] \<and> (\<forall>c \<in> set ks. tagName c \<noteq> ''CATEGORY'')"
  proof (cases "members g = []")
    case True
    then show ?thesis using rest by simp
  next
    case False
    then obtain q where q: "ks = [q]" "tagName q = ''I-SIGNAL-REFS''"
        "reads_kids (map (memberRef sc) (sort (members g))) (children q)"
      using rest by (auto simp: reads_kids_elem reads_as_Elem sortedStrings_def)
    have l: "list_all2 (\<lambda>x k. leaf_of ''I-SIGNAL-REF'' (''/Sys/'' @ x) k) (sort (members g)) (children q)"
      using q(3) mem reads_refChild [OF sc safe_sys_path]
      by (auto simp: reads_kids_map memberRef_def elim!: list_all2_refine)
    show ?thesis
      using leaf_short_names [OF l mem'] q(2)
      by (simp add: q(1) collect_in_Cons collect_leaves [OF l])
  qed
  have pop: "populateCommonFields k ws = (\<lparr>shortName = ?n, category = None, rawSpanRef = nodeSpan k\<rparr>, ws)"
    using refs by (intro head_populate [OF head n(2)]) simp
  have m1: "refShortNames k ''I-SIGNAL-REF'' = sort (members g)"
    using refs filter_nonempty [OF mem'] by (simp add: refShortNames_def head_collect [OF head])
  have m2: "refShortNames k ''SYSTEM-SIGNAL-REF'' = []"
    using refs by (simp add: refShortNames_def head_collect [OF head])
  show ?thesis by (simp add: buildSignalGroup_def pop m1 m2 Let_def)
qed

lemma ecuInstance_roundtrip:
  assumes sc: "plain_content sc" and name: "safe_name (shortName (ecu_common x))"
    and cat: "\<forall>t. category (ecu_common x) = Some t \<longrightarrow> safe_text t"
    and ctl: "\<forall>m \<in> set (controllers x). safe_name m"
    and r: "reads_as (buildEcuInstanceElement sc x) k"
  shows "fst (buildEcuInstance k ws) =
    \<lparr>ecu_common = (ecu_common x)\<lparr>rawSpanRef := nodeSpan k\<rparr>, connectedChannels = [],
     controllers = sort (controllers x)\<rparr>"
proof -
  let ?n = "shortName (ecu_common x)"
  have n: "safe_text ?n" "?n \<noteq> []" using name by (simp_all add: safe_name_def)
  obtain ks where head: "head_of ?n (category (ecu_common x)) k ks" and rest: "reads_kids (if controllers x \<noteq> []
      then [Elem ''COMM-CONTROLLERS'' [] (map (controllerEntry sc) (sortedStrings (controllers x)))] else []) ks"
    using r reads_head [OF sc n(1) cat] unfolding buildEcuInstanceElement_def reads_as_Elem by blast
  have ctl': "\<forall>m \<in> set (sort (controllers x)). safe_name m" using ctl by simp
  have found: "namedShortNames (collect_in ''CAN-CONTROLLER'' ks @ collect_in ''CAN-COMMUNICATION-CONTROLLER'' ks)
        = sort (controllers x)
      \<and> collect_in ''CHANNEL-REF'' ks = [] \<and> (\<forall>c \<in> set ks. tagName c \<noteq> ''CATEGORY'')"
  proof (cases "controllers x = []")
    case True
    then show ?thesis using rest by (simp add: namedShortNames_def)
  next
    case False
    then obtain q where q: "ks = [q]" "tagName q = ''COMM-CONTROLLERS''"
        "reads_kids (map (controllerEntry sc) (sort (controllers x))) (children q)"
      using rest by (auto simp: reads_kids_elem reads_as_Elem sortedStrings_def)
    have l: "list_all2 (named_entry ''CAN-COMMUNICATION-CONTROLLER'') (sort (controllers x)) (children q)"
      using q(3) ctl reads_named [OF sc]
      by (auto simp: reads_kids_map controllerEntry_def safe_name_def elim!: list_all2_refine)
    show ?thesis
      using named_entries [OF l ctl'] q(2) by (simp add: q(1) collect_in_Cons)
  qed
  have "populateCommonFields k ws
      = (\<lparr>shortName = ?n, category = category (ecu_common x), rawSpanRef = nodeSpan k\<rparr>, ws)"
    using found by (intro head_populate [OF head n(2)]) simp
  then show ?thesis
    using found by (simp add: buildEcuInstance_def controllerShortNames_def refShortNames_def
        head_collect [OF head] Let_def)
qed

lemma find_none_tag: "(\<And>c. c \<in> set ks \<Longrightarrow> tagName c \<noteq> tag) \<Longrightarrow> List.find (\<lambda>c. tagName c = tag) ks = None"
  by (simp add: find_None_iff)

lemma cluster_roundtrip:
  assumes sc: "plain_content sc" and name: "safe_name (shortName (cluster_common c))"
    and cat: "\<forall>t. category (cluster_common c) = Some t \<longrightarrow> safe_text t"
    and chan: "\<forall>m \<in> set (physicalChannels c). safe_name m"
    and r: "reads_as (buildClusterElement sc c) k"
  shows "fst (buildCluster k ws) =
    \<lparr>cluster_common = (cluster_common c)\<lparr>rawSpanRef := nodeSpan k\<rparr>, baudrate = baudrate c,
     physicalChannels = sort (physicalChannels c)\<rparr>"
proof -
  let ?n = "shortName (cluster_common c)"
  have n: "safe_text ?n" "?n \<noteq> []" using name by (simp_all add: safe_name_def)
  define bs where "bs = (case baudrate c of Some b \<Rightarrow> [textChild sc ''BAUDRATE'' (u32_to_string b)] | None \<Rightarrow> [])"
  define cs where "cs = (if physicalChannels c \<noteq> [] then [Elem ''PHYSICAL-CHANNELS'' []
      (map (channelEntry sc) (sortedStrings (physicalChannels c)))] else [])"
  obtain ks where head: "head_of ?n (category (cluster_common c)) k ks"
      and rest: "reads_kids (if baudrate c \<noteq> None \<or> physicalChannels c \<noteq> [] then [Elem ''CAN-CLUSTER-VARIANTS'' []
        [Elem ''CAN-CLUSTER-CONDITIONAL'' [] (bs @ cs)]] else []) ks"
    using r reads_head [OF sc n(1) cat] unfolding buildClusterElement_def reads_as_Elem bs_def cs_def by blast
  have chan': "\<forall>m \<in> set (sort (physicalChannels c)). safe_name m" using chan by simp
  define target where "target B C = (B = (case baudrate c of None \<Rightarrow> [] | Some b \<Rightarrow> [u32_to_string b])
      \<and> namedShortNames C = sort (physicalChannels c))" for B C
  have inner: "target (map (\<lambda>n. trimText (nodeText n)) (collect_in ''BAUDRATE'' is))
        (collect_in ''PHYSICAL-CHANNEL'' is @ collect_in ''CAN-PHYSICAL-CHANNEL'' is)"
    if "reads_kids (bs @ cs) is" for "is"
  proof -
    from reads_kids_append [THEN iffD1, OF that]
    obtain k1 k2 where k: "is = k1 @ k2" "reads_kids bs k1" "reads_kids cs k2" by (elim exE conjE)
    have 1: "map (\<lambda>n. trimText (nodeText n)) (collect_in ''BAUDRATE'' k1)
          = (case baudrate c of None \<Rightarrow> [] | Some b \<Rightarrow> [u32_to_string b])
        \<and> collect_in ''PHYSICAL-CHANNEL'' k1 = [] \<and> collect_in ''CAN-PHYSICAL-CHANNEL'' k1 = []"
    proof (cases "baudrate c")
      case None
      then show ?thesis using k(2) by (simp add: bs_def)
    next
      case (Some b)
      then obtain x where "k1 = [x]" "reads_as (textChild sc ''BAUDRATE'' (u32_to_string b)) x"
        using k(2) by (auto simp: bs_def reads_kids_elem)
      moreover from reads_textChild [OF sc safe_u32 this(2)]
      have "leaf_of ''BAUDRATE'' (u32_to_string b) x" .
      ultimately show ?thesis
        using Some by (auto simp: collect_in_Cons leaf_of_def)
    qed
    have 2: "namedShortNames (collect_in ''CAN-PHYSICAL-CHANNEL'' k2) = sort (physicalChannels c)
        \<and> collect_in ''PHYSICAL-CHANNEL'' k2 = [] \<and> collect_in ''BAUDRATE'' k2 = []"
    proof (cases "physicalChannels c = []")
      case True
      then show ?thesis using k(3) by (simp add: cs_def namedShortNames_def)
    next
      case False
      then obtain q where q: "k2 = [q]" "tagName q = ''PHYSICAL-CHANNELS''"
          "reads_kids (map (channelEntry sc) (sort (physicalChannels c))) (children q)"
        using k(3) by (auto simp: cs_def reads_kids_elem reads_as_Elem sortedStrings_def)
      have l: "list_all2 (named_entry ''CAN-PHYSICAL-CHANNEL'') (sort (physicalChannels c)) (children q)"
        using q(3) chan reads_named [OF sc]
        by (auto simp: reads_kids_map channelEntry_def safe_name_def elim!: list_all2_refine)
      show ?thesis using named_entries [OF l chan'] q(2) by (simp add: q(1) collect_in_Cons)
    qed
    show ?thesis using 1 2 by (simp add: target_def k(1) collect_in_append)
  qed
  have outer: "target (map (\<lambda>n. trimText (nodeText n)) (collect_in ''BAUDRATE'' ks))
        (collect_in ''PHYSICAL-CHANNEL'' ks @ collect_in ''CAN-PHYSICAL-CHANNEL'' ks)
      \<and> (\<forall>c \<in> set ks. tagName c \<noteq> ''CATEGORY'' \<and> tagName c \<noteq> ''BAUDRATE'')"
  proof (cases "baudrate c \<noteq> None \<or> physicalChannels c \<noteq> []")
    case False
    then show ?thesis using rest by (simp add: target_def namedShortNames_def)
  next
    case True
    then obtain v w where "ks = [v]" "tagName v = ''CAN-CLUSTER-VARIANTS''" "children v = [w]"
        "tagName w = ''CAN-CLUSTER-CONDITIONAL''" "reads_kids (bs @ cs) (children w)"
      using rest by (auto simp: reads_kids_elem reads_as_Elem)
    then show ?thesis using inner [of "children w"] by (simp add: collect_in_Cons)
  qed
  have pop: "populateCommonFields k ws
      = (\<lparr>shortName = ?n, category = category (cluster_common c), rawSpanRef = nodeSpan k\<rparr>, ws)"
    using outer by (intro head_populate [OF head n(2)]) simp
  have direct: "childText k ''BAUDRATE'' = None"
    using outer find_none_tag [of ks "''BAUDRATE''"] by (simp add: childText_def head_findChild [OF head])
  have deep: "map_option (\<lambda>n. trimText (nodeText n)) (findDescendantFront k ''BAUDRATE'')
      = (case baudrate c of None \<Rightarrow> None | Some b \<Rightarrow> Some (u32_to_string b))"
    using outer by (auto simp: findDescendantFront_def head_collect [OF head] target_def split: option.splits list.splits)
  have names: "channelShortNames k = sort (physicalChannels c)"
    using outer by (simp add: channelShortNames_def head_collect [OF head] target_def)
  show ?thesis
    by (simp add: buildCluster_def pop direct deep names Let_def parseUint32_u32_to_string
        split: option.splits)
qed

section \<open>Mapping entries\<close>

text \<open>A reference of the model: empty, or a name.\<close>

definition safe_ref :: "string \<Rightarrow> bool" where
  "safe_ref r \<longleftrightarrow> r = [] \<or> safe_name r"

lemma safe_text_append:
  assumes "safe_text a" and "safe_text b" and "a \<noteq> []" and "b \<noteq> []" and "CHR ''&'' \<notin> set m"
  shows "safe_text (a @ m @ b)"
  using assms by (auto simp: safe_text_def intro!: trimmedI) (auto simp: trimmed_def)

lemma safe_mappingName:
  assumes "safe_name owner" and "safe_ref ref"
  shows "safe_text (mappingName owner ref i)"
proof (cases "ref = []")
  case True
  have "safe_text (owner @ ''_mapping_'' @ nat_to_string i)"
    using assms(1) safe_digits by (intro safe_text_append) (auto simp: safe_name_def)
  then show ?thesis using True by (simp add: mappingName_def)
next
  case False
  then have "safe_text (owner @ ''_'' @ ref)"
    using assms by (intro safe_text_append) (auto simp: safe_name_def safe_ref_def)
  then show ?thesis using False by (simp add: mappingName_def)
qed

text \<open>
  A node read from a mapping entry: a name, possibly a reference, and the start position.
\<close>

definition mapping_entry :: "string \<Rightarrow> string \<Rightarrow> string \<Rightarrow> uint32 \<Rightarrow> raw_node \<Rightarrow> bool" where
  "mapping_entry tag reftag ref pos k \<longleftrightarrow>
    (\<exists>a rs b n. tagName k = tag \<and> children k = a # rs @ [b] \<and> leaf_of ''SHORT-NAME'' n a
      \<and> (if ref = [] then rs = [] else \<exists>r. rs = [r] \<and> leaf_of reftag (''/Sys/'' @ ref) r)
      \<and> leaf_of ''START-POSITION'' (u32_to_string pos) b)"

lemma reads_mapping:
  assumes sc: "plain_content sc" and n: "safe_text n" and ref: "safe_ref ref"
    and r: "reads_as (Elem tag [] (textChild sc ''SHORT-NAME'' n
        # (if ref \<noteq> [] then [refChild sc reftag dest (''/Sys/'' @ ref)] else [])
        @ [textChild sc ''START-POSITION'' (u32_to_string pos)])) k"
  shows "mapping_entry tag reftag ref pos k"
proof -
  from r obtain a ks where a: "tagName k = tag" "children k = a # ks" "reads_as (textChild sc ''SHORT-NAME'' n) a"
      and ks: "reads_kids ((if ref \<noteq> [] then [refChild sc reftag dest (''/Sys/'' @ ref)] else [])
        @ [textChild sc ''START-POSITION'' (u32_to_string pos)]) ks"
    by (auto simp: reads_as_Elem reads_kids_elem)
  from reads_kids_append [THEN iffD1, OF ks] obtain rs bs where
      rs: "ks = rs @ bs" "reads_kids (if ref \<noteq> [] then [refChild sc reftag dest (''/Sys/'' @ ref)] else []) rs"
      "reads_kids [textChild sc ''START-POSITION'' (u32_to_string pos)] bs"
    by (elim exE conjE)
  from rs(3) obtain b where b: "bs = [b]" "reads_as (textChild sc ''START-POSITION'' (u32_to_string pos)) b"
    by (auto simp: reads_kids_elem)
  have "if ref = [] then rs = [] else \<exists>r. rs = [r] \<and> leaf_of reftag (''/Sys/'' @ ref) r"
  proof (cases "ref = []")
    case True
    then show ?thesis using rs(2) by simp
  next
    case False
    then obtain r where "rs = [r]" "reads_as (refChild sc reftag dest (''/Sys/'' @ ref)) r"
      using rs(2) by (auto simp: reads_kids_elem)
    then show ?thesis
      using False ref reads_refChild [OF sc safe_sys_path] by (auto simp: safe_ref_def)
  qed
  then show ?thesis
    using a rs(1) b(1) reads_textChild [OF sc n a(3)] reads_textChild [OF sc safe_u32 b(2)]
    unfolding mapping_entry_def by auto
qed

lemma mapping_entry_texts:
  assumes e: "mapping_entry tag reftag ref pos k" and ref: "safe_ref ref"
    and ne: "reftag \<notin> {''SHORT-NAME'', ''START-POSITION''}"
  shows "(case childText k reftag of Some r \<Rightarrow> shortNameOfRef r | None \<Rightarrow> []) = ref"
    and "childUint32 k ''START-POSITION'' d = pos"
    and "other \<notin> {''SHORT-NAME'', ''START-POSITION'', reftag} \<Longrightarrow> childText k other = None"
    and "other \<notin> {''SHORT-NAME'', ''START-POSITION'', reftag} \<Longrightarrow> collect_in other (children k) = []"
proof -
  obtain a rs b n where k: "children k = a # rs @ [b]" "leaf_of ''SHORT-NAME'' n a"
      "if ref = [] then rs = [] else \<exists>r. rs = [r] \<and> leaf_of reftag (''/Sys/'' @ ref) r"
      "leaf_of ''START-POSITION'' (u32_to_string pos) b"
    using e by (auto simp: mapping_entry_def)
  note tags = leaf_tag [OF k(2)] leaf_tag [OF k(4)] leaf_collect [OF k(2)] leaf_collect [OF k(4)]
  have all: "(case childText k reftag of Some r \<Rightarrow> shortNameOfRef r | None \<Rightarrow> []) = ref
      \<and> childUint32 k ''START-POSITION'' d = pos
      \<and> (other \<notin> {''SHORT-NAME'', ''START-POSITION'', reftag} \<longrightarrow> childText k other = None
          \<and> collect_in other (children k) = [])"
  proof (cases "ref = []")
    case True
    then have rs: "rs = []" using k(3) by simp
    have "childText k ''START-POSITION'' = Some (u32_to_string pos)"
      by (rule childText_leaf [OF _ k(4)]) (simp add: findChild_def k(1) rs tags)
    then show ?thesis
      using True ne by (simp add: childUint32_def parseUint32_u32_to_string)
        (auto simp: childText_def findChild_def k(1) rs tags collect_in_Cons)
  next
    case False
    then obtain r where r: "rs = [r]" "leaf_of reftag (''/Sys/'' @ ref) r" using k(3) by auto
    have ne': "''SHORT-NAME'' \<noteq> reftag" "''START-POSITION'' \<noteq> reftag" using ne by auto
    note rtags = leaf_tag [OF r(2)] leaf_collect [OF r(2)]
    have "childText k ''START-POSITION'' = Some (u32_to_string pos)"
      by (rule childText_leaf [OF _ k(4)]) (use ne in \<open>simp add: findChild_def k(1) r(1) tags rtags\<close>)
    moreover have "childText k reftag = Some (''/Sys/'' @ ref)"
      by (rule childText_leaf [OF _ r(2)]) (use ne' in \<open>simp add: findChild_def k(1) r(1) tags rtags\<close>)
    moreover have "shortNameOfRef (''/Sys/'' @ ref) = ref"
      using False ref safe_sys_path [of ref] shortName_sys_path [of ref t "RawNode t [] (''/Sys/'' @ ref) s []" for t s]
      by (simp add: safe_ref_def leaf_of_def safe_text_def trimText_trimmed)
    ultimately show ?thesis
      using ne' by (simp add: childUint32_def parseUint32_u32_to_string)
        (auto simp: childText_def findChild_def k(1) r(1) tags rtags collect_in_Cons)
  qed
  show "(case childText k reftag of Some r \<Rightarrow> shortNameOfRef r | None \<Rightarrow> []) = ref"
    and "childUint32 k ''START-POSITION'' d = pos"
    and "other \<notin> {''SHORT-NAME'', ''START-POSITION'', reftag} \<Longrightarrow> childText k other = None"
    and "other \<notin> {''SHORT-NAME'', ''START-POSITION'', reftag} \<Longrightarrow> collect_in other (children k) = []"
    using all by simp_all
qed

lemma framePdu_reads:
  assumes sc: "plain_content sc" and n: "safe_name owner" and ref: "safe_ref (pduShortNameRef m)"
    and r: "reads_as (framePduEntry sc owner (i, m)) k"
  shows "framePduOf k = m \<and> tagName k = ''PDU-TO-FRAME-MAPPING''
    \<and> (\<forall>T \<in> {''FRAME-PDU'', ''PDU-TO-FRAME-MAPPING'', ''TRANSMITTER-REF''}. collect_in T (children k) = [])"
proof -
  have e: "mapping_entry ''PDU-TO-FRAME-MAPPING'' ''PDU-REF'' (pduShortNameRef m) (fpm_startPosition m) k"
    by (rule reads_mapping [OF sc safe_mappingName [OF n ref] ref]) (use r in \<open>simp add: framePduEntry_def\<close>)
  note t = mapping_entry_texts [OF e ref]
  have "framePduOf k = m" by (simp add: framePduOf_def t(1,2))
  moreover have "tagName k = ''PDU-TO-FRAME-MAPPING''" using e by (auto simp: mapping_entry_def)
  ultimately show ?thesis using t(4) by auto
qed

lemma pduSignal_reads:
  assumes sc: "plain_content sc" and n: "safe_name owner" and ref: "safe_ref (signalShortNameRef m)"
    and r: "reads_as (pduSignalEntry sc owner (i, m)) k"
  shows "pduSignalOf k = m\<lparr>psm_byteOrder := MostSignificantByteFirst\<rparr>
    \<and> tagName k = ''I-SIGNAL-TO-I-PDU-MAPPING''
    \<and> (\<forall>T \<in> {''PDU-SIGNAL-MAPPING'', ''I-SIGNAL-TO-I-PDU-MAPPING''}. collect_in T (children k) = [])"
proof -
  have e: "mapping_entry ''I-SIGNAL-TO-I-PDU-MAPPING'' ''I-SIGNAL-REF'' (signalShortNameRef m) (psm_startPosition m) k"
    by (rule reads_mapping [OF sc safe_mappingName [OF n ref] ref]) (use r in \<open>simp add: pduSignalEntry_def\<close>)
  note t = mapping_entry_texts [OF e ref]
  have "childText k ''SIGNAL-REF'' = None" "childText k ''BYTE-ORDER'' = None" "childText k ''PACKING-BYTE-ORDER'' = None"
    using t(3) by auto
  then have "pduSignalOf k = m\<lparr>psm_byteOrder := MostSignificantByteFirst\<rparr>"
    using t(1,2) by (simp add: pduSignalOf_def Let_def)
  moreover have "tagName k = ''I-SIGNAL-TO-I-PDU-MAPPING''" using e by (auto simp: mapping_entry_def)
  ultimately show ?thesis using t(4) by auto
qed

lemma reads_enumerated:
  assumes "reads_kids (map g (enumerate 0 xs)) ks" and "\<And>x. is_elem (g x)"
    and "\<And>i x k. x \<in> set xs \<Longrightarrow> reads_as (g (i, x)) k \<Longrightarrow> P x k"
  shows "list_all2 P xs ks"
proof -
  have "list_all2 (\<lambda>ix k. P (snd ix) k) (enumerate 0 xs) ks"
    using assms by (auto simp: reads_kids_map in_set_enumerate_eq elim!: list_all2_refine)
  then show ?thesis using list_all2_map1 [of P snd "enumerate 0 xs" ks] by simp
qed

lemma list_all2_map_eq: "list_all2 (\<lambda>x k. g k = h x) xs ks \<Longrightarrow> map g ks = map h xs"
  by (induction xs ks rule: list_all2_induct) auto

lemma frame_roundtrip:
  assumes sc: "plain_content sc" and name: "safe_name (shortName (frame_common f))"
    and ref: "\<forall>m \<in> set (frame_pdus f). safe_ref (pduShortNameRef m)"
    and r: "reads_as (buildFrameElement sc f) k"
  shows "fst (buildFrame k ws) =
    \<lparr>frame_common = \<lparr>shortName = shortName (frame_common f), category = None, rawSpanRef = nodeSpan k\<rparr>,
     frame_length = frame_length f, transmitters = [],
     frame_pdus = sort_key pduShortNameRef (frame_pdus f)\<rparr>"
proof -
  let ?n = "shortName (frame_common f)"
  let ?tags = "{''FRAME-PDU'', ''PDU-TO-FRAME-MAPPING'', ''TRANSMITTER-REF''}"
  define ms where "ms = sort_key pduShortNameRef (frame_pdus f)"
  have n: "safe_text ?n" "?n \<noteq> []" using name by (simp_all add: safe_name_def)
  obtain ks0 where head: "head_of ?n None k ks0" and rest0: "reads_kids (textChild sc ''FRAME-LENGTH'' (u32_to_string (frame_length f))
      # (if frame_pdus f \<noteq> [] then [Elem ''PDU-TO-FRAME-MAPPINGS'' [] (map (framePduEntry sc ?n) (enumerate 0 ms))] else [])) ks0"
    using r reads_head_None [OF sc n(1)] unfolding buildFrameElement_def reads_as_Elem ms_def sortedFramePduMappings_def
    by blast
  obtain l ks where l: "ks0 = l # ks" "reads_as (textChild sc ''FRAME-LENGTH'' (u32_to_string (frame_length f))) l"
      and rest: "reads_kids (if frame_pdus f \<noteq> [] then [Elem ''PDU-TO-FRAME-MAPPINGS'' [] (map (framePduEntry sc ?n) (enumerate 0 ms))] else []) ks"
    using rest0 by (auto simp: reads_kids_elem)
  note leaf = reads_textChild [OF sc safe_u32 l(2)]
  have inner: "map framePduOf (collect_in ''FRAME-PDU'' ks @ collect_in ''PDU-TO-FRAME-MAPPING'' ks) = ms
      \<and> collect_in ''TRANSMITTER-REF'' ks = [] \<and> (\<forall>c \<in> set ks. tagName c \<notin> {''CATEGORY'', ''LENGTH'', ''FRAME-LENGTH''})"
  proof (cases "frame_pdus f = []")
    case True
    then show ?thesis using rest by (simp add: ms_def)
  next
    case False
    then obtain q where q: "ks = [q]" "tagName q = ''PDU-TO-FRAME-MAPPINGS''"
        "reads_kids (map (framePduEntry sc ?n) (enumerate 0 ms)) (children q)"
      using rest by (auto simp: reads_kids_elem reads_as_Elem)
    have all: "list_all2 (\<lambda>m k. framePduOf k = m \<and> tagName k = ''PDU-TO-FRAME-MAPPING''
        \<and> (\<forall>T \<in> ?tags. collect_in T (children k) = [])) ms (children q)"
    proof (rule reads_enumerated [OF q(3)])
      show "framePduOf k = m \<and> tagName k = ''PDU-TO-FRAME-MAPPING'' \<and> (\<forall>T \<in> ?tags. collect_in T (children k) = [])"
        if "m \<in> set ms" "reads_as (framePduEntry sc ?n (i, m)) k" for i m k
        using framePdu_reads [OF sc name _ that(2)] ref that(1) by (simp add: ms_def)
    qed simp
    have "list_all2 (\<lambda>m k. framePduOf k = m) ms (children q)"
      using all by (rule list_all2_refine) simp
    from list_all2_map_eq [of framePduOf "\<lambda>m. m", OF this]
    have "map framePduOf (children q) = ms" by simp
    moreover have "collect_in T (children q) = (if T = ''PDU-TO-FRAME-MAPPING'' then children q else [])" if "T \<in> ?tags" for T
      using that by (intro collect_entries) (auto dest!: list_all2_set2 [OF all])
    ultimately show ?thesis using q(2) by (simp add: q(1) collect_in_Cons)
  qed
  have pop: "populateCommonFields k ws = (\<lparr>shortName = ?n, category = None, rawSpanRef = nodeSpan k\<rparr>, ws)"
    using inner leaf_tag [OF leaf] by (intro head_populate [OF head n(2)]) (simp add: l(1))
  have len: "childUint32 k ''LENGTH'' (childUint32 k ''FRAME-LENGTH'' 0) = frame_length f"
  proof -
    have "findChild k ''FRAME-LENGTH'' = Some l" "findChild k ''LENGTH'' = None"
      using inner leaf_tag [OF leaf] find_none_tag [of ks "''LENGTH''"]
      by (auto simp: head_findChild [OF head] l(1))
    then have "childText k ''FRAME-LENGTH'' = Some (u32_to_string (frame_length f))" "childText k ''LENGTH'' = None"
      using childText_leaf [OF _ leaf] by (auto simp: childText_def)
    then show ?thesis by (simp add: childUint32_def parseUint32_u32_to_string)
  qed
  have cols: "collectDescendants k T = collect_in T ks" if "T \<in> ?tags" for T
    using that leaf_tag [OF leaf] leaf_collect [OF leaf]
    by (auto simp: head_collect [OF head] l(1) collect_in_Cons)
  show ?thesis
    using inner by (simp add: buildFrame_def pop len cols refShortNames_def ms_def Let_def)
qed

lemma pdu_roundtrip:
  assumes sc: "plain_content sc" and name: "safe_name (shortName (pdu_common p))"
    and ref: "\<forall>m \<in> set (signalMappings p). safe_ref (signalShortNameRef m)"
    and r: "reads_as (buildPduElement sc p) k"
  shows "fst (buildPdu k ws) =
    \<lparr>pdu_common = \<lparr>shortName = shortName (pdu_common p), category = None, rawSpanRef = nodeSpan k\<rparr>,
     pdu_length = pdu_length p,
     signalMappings = map (\<lambda>m. m\<lparr>psm_byteOrder := MostSignificantByteFirst\<rparr>)
       (sort_key signalShortNameRef (signalMappings p))\<rparr>"
proof -
  let ?n = "shortName (pdu_common p)"
  let ?tags = "{''PDU-SIGNAL-MAPPING'', ''I-SIGNAL-TO-I-PDU-MAPPING''}"
  let ?norm = "\<lambda>m. m\<lparr>psm_byteOrder := MostSignificantByteFirst\<rparr>"
  define ms where "ms = sort_key signalShortNameRef (signalMappings p)"
  have n: "safe_text ?n" "?n \<noteq> []" using name by (simp_all add: safe_name_def)
  obtain ks0 where head: "head_of ?n None k ks0" and rest0: "reads_kids (textChild sc ''LENGTH'' (u32_to_string (pdu_length p))
      # (if signalMappings p \<noteq> [] then [Elem ''I-SIGNAL-TO-PDU-MAPPINGS'' [] (map (pduSignalEntry sc ?n) (enumerate 0 ms))] else [])) ks0"
    using r reads_head_None [OF sc n(1)] unfolding buildPduElement_def reads_as_Elem ms_def sortedPduSignalMappings_def
    by blast
  obtain l ks where l: "ks0 = l # ks" "reads_as (textChild sc ''LENGTH'' (u32_to_string (pdu_length p))) l"
      and rest: "reads_kids (if signalMappings p \<noteq> [] then [Elem ''I-SIGNAL-TO-PDU-MAPPINGS'' [] (map (pduSignalEntry sc ?n) (enumerate 0 ms))] else []) ks"
    using rest0 by (auto simp: reads_kids_elem)
  note leaf = reads_textChild [OF sc safe_u32 l(2)]
  have inner: "map pduSignalOf (collect_in ''PDU-SIGNAL-MAPPING'' ks @ collect_in ''I-SIGNAL-TO-I-PDU-MAPPING'' ks) = map ?norm ms
      \<and> (\<forall>c \<in> set ks. tagName c \<noteq> ''CATEGORY'')"
  proof (cases "signalMappings p = []")
    case True
    then show ?thesis using rest by (simp add: ms_def)
  next
    case False
    then obtain q where q: "ks = [q]" "tagName q = ''I-SIGNAL-TO-PDU-MAPPINGS''"
        "reads_kids (map (pduSignalEntry sc ?n) (enumerate 0 ms)) (children q)"
      using rest by (auto simp: reads_kids_elem reads_as_Elem)
    have all: "list_all2 (\<lambda>m k. pduSignalOf k = ?norm m \<and> tagName k = ''I-SIGNAL-TO-I-PDU-MAPPING''
        \<and> (\<forall>T \<in> ?tags. collect_in T (children k) = [])) ms (children q)"
    proof (rule reads_enumerated [OF q(3)])
      show "pduSignalOf k = ?norm m \<and> tagName k = ''I-SIGNAL-TO-I-PDU-MAPPING'' \<and> (\<forall>T \<in> ?tags. collect_in T (children k) = [])"
        if "m \<in> set ms" "reads_as (pduSignalEntry sc ?n (i, m)) k" for i m k
        using pduSignal_reads [OF sc name _ that(2)] ref that(1) by (simp add: ms_def)
    qed simp
    have "list_all2 (\<lambda>m k. pduSignalOf k = ?norm m) ms (children q)"
      using all by (rule list_all2_refine) simp
    then have "map pduSignalOf (children q) = map ?norm ms" by (rule list_all2_map_eq)
    moreover have "collect_in T (children q) = (if T = ''I-SIGNAL-TO-I-PDU-MAPPING'' then children q else [])" if "T \<in> ?tags" for T
      using that by (intro collect_entries) (auto dest!: list_all2_set2 [OF all])
    ultimately show ?thesis using q(2) by (simp add: q(1) collect_in_Cons)
  qed
  have pop: "populateCommonFields k ws = (\<lparr>shortName = ?n, category = None, rawSpanRef = nodeSpan k\<rparr>, ws)"
    using inner leaf_tag [OF leaf] by (intro head_populate [OF head n(2)]) (simp add: l(1))
  have "findChild k ''LENGTH'' = Some l"
    using leaf_tag [OF leaf] by (simp add: head_findChild [OF head] l(1))
  then have len: "childUint32 k ''LENGTH'' 0 = pdu_length p"
    using childText_leaf [OF _ leaf] by (simp add: childUint32_def parseUint32_u32_to_string)
  have cols: "collectDescendants k T = collect_in T ks" if "T \<in> ?tags" for T
    using that leaf_tag [OF leaf] leaf_collect [OF leaf]
    by (auto simp: head_collect [OF head] l(1) collect_in_Cons)
  show ?thesis
    using inner by (simp add: buildPdu_def pop len cols ms_def Let_def)
qed

section \<open>Signals\<close>

definition token_char :: "char \<Rightarrow> bool" where
  "token_char c \<longleftrightarrow> \<not> is_blank c \<and> c \<noteq> CHR ''&''"

lemma token_text: "s \<noteq> [] \<Longrightarrow> list_all token_char s \<Longrightarrow> safe_text s"
  unfolding safe_text_def list_all_iff token_char_def
  by (metis hd_in_set last_in_set trimmedI)

lemma token_digit: "is_digit c \<Longrightarrow> token_char c"
  using digit_plain [of c] by (auto simp: token_char_def is_digit_nat)

lemma token_digits: "list_all token_char (nat_to_string n)"
  using nat_to_string_digits [of _ n] token_digit by (auto simp: list_all_iff)

lemma find_append:
  "List.find P (xs @ ys) = (case List.find P xs of Some x \<Rightarrow> Some x | None \<Rightarrow> List.find P ys)"
  by (induction xs) auto

lemma token_sub: "list_all token_char s \<Longrightarrow> set t \<subseteq> set s \<Longrightarrow> list_all token_char t"
  by (auto simp: list_all_iff)

lemma token_strip_zeros: "list_all token_char s \<Longrightarrow> list_all token_char (strip_zeros s)"
  by (rule token_sub) (auto simp: strip_zeros_def dest!: set_dropWhileD)

lemma token_with_fraction:
  "list_all token_char a \<Longrightarrow> list_all token_char b \<Longrightarrow> list_all token_char (with_fraction a b)"
  using token_strip_zeros [of b] by (simp add: with_fraction_def Let_def token_char_def is_blank_def)

lemma token_fmt_pos: "list_all token_char (fmt_g17_pos n d) \<and> fmt_g17_pos n d \<noteq> []"
proof -
  obtain q x where qx: "dec17 n d = (q, x)" by fastforce
  let ?ds = "nat_to_string q"
  have part: "list_all token_char (take k ?ds)" "list_all token_char (drop k ?ds)" for k
    using token_sub [OF token_digits set_take_subset] token_sub [OF token_digits set_drop_subset] by blast+
  have ex: "list_all token_char (exponent_text x)"
    using token_digits by (simp add: exponent_text_def Let_def) (simp add: token_char_def is_blank_def)
  have zeros: "list_all token_char (''0'')" "list_all token_char (replicate k (CHR ''0''))" for k
    by (auto simp: list_all_iff token_char_def is_blank_def)
  have "exponent_text x \<noteq> []" by (simp add: exponent_text_def Let_def)
  moreover have "with_fraction ip fp \<noteq> []" if "ip \<noteq> []" for ip fp using that by (simp add: with_fraction_def Let_def)
  ultimately show ?thesis
    using part ex zeros token_digits token_with_fraction
    by (simp add: fmt_g17_pos_def qx Let_def)
qed

lemma safe_fmt_g17: "safe_text (fmt_g17 v)"
proof (cases v)
  case (Fin s m e)
  have "list_all token_char ''-''" "list_all token_char ''0''" by (simp_all add: token_char_def is_blank_def)
  then show ?thesis
    using token_fmt_pos by (intro token_text) (auto simp: Fin)
qed (auto intro!: token_text simp: token_char_def is_blank_def)

lemma parseDouble_trim: "parseDouble (trimText x) = parseDouble x"
  by (simp add: parseDouble_def)

lemma signal_roundtrip:
  assumes sc: "plain_content sc" and name: "safe_name (shortName (signal_common s))"
    and r: "reads_as (buildSignalElement sc s) k"
  shows "fst (buildSignal k ws) = default_signal
    \<lparr>signal_common := \<lparr>shortName = shortName (signal_common s), category = None, rawSpanRef = nodeSpan k\<rparr>,
     bitLength := bitLength s, isSigned := isSigned s,
     initValue := (case initValue s of None \<Rightarrow> None | Some v \<Rightarrow> parseDouble (fmt_g17 v))\<rparr>"
proof -
  let ?n = "shortName (signal_common s)"
  have n: "safe_text ?n" "?n \<noteq> []" using name by (simp_all add: safe_name_def)
  define iv where "iv = (case initValue s of Some v \<Rightarrow> [Elem ''INIT-VALUE'' []
      [Elem ''NUMERICAL-VALUE-SPECIFICATION'' [] [textChild sc ''VALUE'' (doubleToString v)]]] | None \<Rightarrow> [])"
  define nr where "nr = (if isSigned s then [Elem ''NETWORK-REPRESENTATION-PROPS'' [] [Elem ''SW-DATA-DEF-PROPS-VARIANTS'' []
      [Elem ''SW-DATA-DEF-PROPS-CONDITIONAL'' [] [refChild sc ''BASE-TYPE-REF'' ''SW-BASE-TYPE'' ''/SwBaseType/SINT8'']]]] else [])"
  obtain ks where head: "head_of ?n None k ks"
      and rest: "reads_kids (iv @ textChild sc ''LENGTH'' (u32_to_string (bitLength s)) # nr) ks"
    using r reads_head_None [OF sc n(1)] unfolding buildSignalElement_def reads_as_Elem iv_def nr_def by blast
  from reads_kids_append [THEN iffD1, OF rest] obtain k1 k23 where k1: "ks = k1 @ k23" "reads_kids iv k1"
      and k23: "reads_kids (textChild sc ''LENGTH'' (u32_to_string (bitLength s)) # nr) k23" by (elim exE conjE)
  from k23 obtain l k3 where l: "k23 = l # k3" "reads_as (textChild sc ''LENGTH'' (u32_to_string (bitLength s))) l"
      and k3: "reads_kids nr k3" by (auto simp: reads_kids_elem)
  note leaf = reads_textChild [OF sc safe_u32 l(2)]
  note ltags = leaf_tag [OF leaf] leaf_collect [OF leaf]
  define ivl where "ivl = (case initValue s of None \<Rightarrow> None | Some v \<Rightarrow> parseDouble (fmt_g17 v))"
  have first: "(\<forall>c \<in> set k1. tagName c = ''INIT-VALUE'') \<and> (\<forall>T \<in> {''BASE-TYPE-REF'', ''RECEIVER-REF''}. collect_in T k1 = [])
      \<and> (case List.find (\<lambda>c. tagName c = ''INIT-VALUE'') k1 of None \<Rightarrow> None
         | Some x \<Rightarrow> (case findDescendantFront x ''VALUE'' of None \<Rightarrow> None | Some v \<Rightarrow> parseDouble (nodeText v))) = ivl"
  proof (cases "initValue s")
    case None
    then show ?thesis using k1(2) by (simp add: iv_def ivl_def)
  next
    case (Some v)
    then obtain x y z where x: "k1 = [x]" "tagName x = ''INIT-VALUE''" "children x = [y]"
        "tagName y = ''NUMERICAL-VALUE-SPECIFICATION''" "children y = [z]" "reads_as (textChild sc ''VALUE'' (fmt_g17 v)) z"
      using k1(2) by (auto simp: iv_def reads_kids_elem reads_as_Elem doubleToString_def)
    note z = reads_textChild [OF sc safe_fmt_g17 x(6)]
    have "parseDouble (nodeText z) = parseDouble (fmt_g17 v)"
      using parseDouble_trim [of "nodeText z"] leaf_text [OF z] by simp
    then show ?thesis
      using Some leaf_tag [OF z] leaf_collect [OF z]
      by (simp add: x(1-5) ivl_def findDescendantFront_def collectDescendants_def collect_in_Cons)
  qed
  have safe_base: "safe_text ''/SwBaseType/SINT8''"
    by (simp add: safe_text_def trimmed_def is_blank_def)
  have last: "(\<forall>c \<in> set k3. tagName c = ''NETWORK-REPRESENTATION-PROPS'') \<and> collect_in ''RECEIVER-REF'' k3 = []
      \<and> (case collect_in ''BASE-TYPE-REF'' k3 of [] \<Rightarrow> False | r # _ \<Rightarrow> isSignedBaseType (nodeText r)) = isSigned s"
  proof (cases "isSigned s")
    case False
    then show ?thesis using k3 by (simp add: nr_def)
  next
    case True
    then obtain x y z b where x: "k3 = [x]" "tagName x = ''NETWORK-REPRESENTATION-PROPS''" "children x = [y]"
        "tagName y = ''SW-DATA-DEF-PROPS-VARIANTS''" "children y = [z]" "tagName z = ''SW-DATA-DEF-PROPS-CONDITIONAL''"
        "children z = [b]" "reads_as (refChild sc ''BASE-TYPE-REF'' ''SW-BASE-TYPE'' ''/SwBaseType/SINT8'') b"
      using k3 by (auto simp: nr_def reads_kids_elem reads_as_Elem)
    note b = reads_refChild [OF sc safe_base x(8)]
    have "after_last (CHR ''/'') (''/SwBaseType'' @ CHR ''/'' # ''SINT8'') = ''SINT8''" by (rule after_last_append) simp
    then have "shortNameOfRef (nodeText b) = ''SINT8''" using leaf_text [OF b] by (simp add: shortNameOfRef_def)
    then have "isSignedBaseType (nodeText b)"
      by (simp add: isSignedBaseType_def asciiUpperCopy_def starts_with_def asciiUpperChar_def)
    then show ?thesis using True leaf_tag [OF b] leaf_collect [OF b] by (simp add: x(1-7) collect_in_Cons)
  qed
  have tags: "\<forall>c \<in> set ks. tagName c \<in> {''INIT-VALUE'', ''LENGTH'', ''NETWORK-REPRESENTATION-PROPS''}"
    using first last ltags by (auto simp: k1(1) l(1))
  have pop: "populateCommonFields k ws = (\<lparr>shortName = ?n, category = None, rawSpanRef = nodeSpan k\<rparr>, ws)"
    using tags by (intro head_populate [OF head n(2)]) auto
  have absent: "childText k T = None" "findChild k T = None"
    if "T \<notin> {''SHORT-NAME'', ''CATEGORY'', ''INIT-VALUE'', ''LENGTH'', ''NETWORK-REPRESENTATION-PROPS''}" for T
    using that tags find_none_tag [of ks T] by (auto simp: childText_def head_findChild [OF head])
  have "List.find (\<lambda>c. tagName c = ''LENGTH'') k1 = None"
    using first by (intro find_none_tag) auto
  then have "findChild k ''LENGTH'' = Some l"
    using ltags by (simp add: head_findChild [OF head] k1(1) l(1) find_append)
  then have len: "childUint32 k ''LENGTH'' 0 = bitLength s"
    using childText_leaf [OF _ leaf] by (simp add: childUint32_def parseUint32_u32_to_string)
  have "List.find (\<lambda>c. tagName c = ''INIT-VALUE'') (l # k3) = None"
    using last ltags by (intro find_none_tag) auto
  then have "findChild k ''INIT-VALUE'' = List.find (\<lambda>c. tagName c = ''INIT-VALUE'') k1"
    by (simp add: head_findChild [OF head] k1(1) l(1) find_append split: option.split)
  then have init: "(case findChild k ''INIT-VALUE'' of None \<Rightarrow> None
      | Some x \<Rightarrow> (case findDescendantFront x ''VALUE'' of None \<Rightarrow> None | Some v \<Rightarrow> parseDouble (nodeText v))) = ivl"
    using first by simp
  have "collectDescendants k ''BASE-TYPE-REF'' = collect_in ''BASE-TYPE-REF'' k3"
    and receivers: "refShortNames k ''RECEIVER-REF'' = []"
    using first last ltags by (simp_all add: refShortNames_def head_collect [OF head] k1(1) l(1) collect_in_append collect_in_Cons)
  then have signed: "(case findDescendantFront k ''BASE-TYPE-REF'' of Some r \<Rightarrow> isSignedBaseType (nodeText r) | None \<Rightarrow> False) = isSigned s"
    using last by (simp add: findDescendantFront_def split: list.splits)
  have "childUint32 k ''START-BIT'' 0 = 0" "childUint32 k ''BIT-LENGTH'' d = d" "childText k ''BYTE-ORDER'' = None"
    "findChild k ''VALUE-TABLE'' = None" for d
    using absent by (simp_all add: childUint32_def)
  then show ?thesis
    by (simp add: buildSignal_def pop len init signed receivers Let_def ivl_def default_signal_def)
qed

end
