(* ===== verification/Rounding.thy ===== *)
theory Rounding
  imports Complex_Main Binary64
begin

text \<open>
  Why seventeen decimal digits are enough: the rounding of \<open>Binary64\<close> on exact ratios, seen as real
  numbers. A number within \<open>m / (2 * 10^16)\<close> units in the last place of a canonical double rounds to it,
  and seventeen digits are that close.
\<close>

section \<open>Rounding a quotient\<close>

lemma div_rne_near: "0 < d \<Longrightarrow> \<bar>real n / real d - real (div_rne n d)\<bar> \<le> 1 / 2"
proof -
  assume d: "0 < d"
  define q r where "q = n div d" and "r = n mod d"
  have r: "r < d" using d by (simp add: r_def)
  have "n = q * d + r" by (simp add: q_def r_def)
  then have "real n = real q * real d + real r" by (metis of_nat_add of_nat_mult)
  then have x: "real n / real d = real q + real r / real d" using d by (simp add: field_simps)
  have up: "real r / real d \<ge> 1 / 2" if "2 * r \<ge> d"
  proof -
    have "real d \<le> real (2 * r)" using that by (simp only: of_nat_le_iff)
    then show ?thesis using d by (simp add: field_simps)
  qed
  have down: "real r / real d \<le> 1 / 2" if "2 * r \<le> d"
  proof -
    have "real (2 * r) \<le> real d" using that by (simp only: of_nat_le_iff)
    then show ?thesis using d by (simp add: field_simps)
  qed
  have "real r / real d \<ge> 0" "real r / real d < 1" using r d by (simp_all add: field_simps)
  then show ?thesis unfolding x div_rne_def q_def [symmetric] r_def [symmetric] Let_def
    using up down by (auto simp: abs_le_iff not_less)
qed

lemma div_rne_unique: "0 < d \<Longrightarrow> \<bar>real n / real d - real q\<bar> < 1 / 2 \<Longrightarrow> div_rne n d = q"
  using div_rne_near [of d n] by linarith

lemma scale2_real:
  "0 < d \<Longrightarrow> scale2 n d e = (n', d') \<Longrightarrow> 0 < d' \<and> real n' / real d' = real n / real d / 2 powi e"
  by (auto simp: scale2_def power_int_def field_simps split: if_splits)

lemma bit_size_bounds: "0 < n \<Longrightarrow> 0 < bit_size n \<and> 2 ^ (bit_size n - 1) \<le> n \<and> n < 2 ^ bit_size n"
proof (induction n rule: bit_size.induct)
  case (1 n)
  show ?case
  proof (cases "n div 2 = 0")
    case True
    then have "n = 1" using 1(2) by auto
    then show ?thesis by (simp add: bit_size.simps)
  next
    case False
    have IH: "0 < bit_size (n div 2) \<and> 2 ^ (bit_size (n div 2) - 1) \<le> n div 2 \<and> n div 2 < 2 ^ bit_size (n div 2)"
      using 1 False by simp
    obtain b where b: "bit_size (n div 2) = Suc b" using IH by (cases "bit_size (n div 2)") auto
    have "2 * 2 ^ b \<le> n" "n < 2 * 2 ^ Suc b" using IH b by auto
    then show ?thesis using b 1(2) by (subst (1 2 3) bit_size.simps) simp
  qed
qed

lemma powi_nat: "2 powi (int k) = (2::real) ^ k"
  by (simp add: power_int_def)

lemma bit_size_ratio:
  assumes "0 < n" "0 < d"
  shows "2 powi (int (bit_size n) - int (bit_size d) - 1) < real n / real d"
    and "real n / real d < 2 powi (int (bit_size n) - int (bit_size d) + 1)"
proof -
  define a b where "a = bit_size n" and "b = bit_size d"
  note bn = bit_size_bounds [OF assms(1), folded a_def] and bd = bit_size_bounds [OF assms(2), folded b_def]
  have "2 ^ (a - 1) \<le> real n" "real n < 2 ^ a" "2 ^ (b - 1) \<le> real d" "real d < 2 ^ b"
    using bn bd
    by (simp_all add: numeral_power_le_of_nat_cancel_iff of_nat_less_numeral_power_cancel_iff)
  then have n: "2 powi (int a - 1) \<le> real n" "real n < 2 powi (int a)"
    and d: "2 powi (int b - 1) \<le> real d" "real d < 2 powi (int b)"
    using bn bd powi_nat [of "a - 1"] powi_nat [of "b - 1"] by (simp_all add: powi_nat of_nat_diff Suc_leI)
  have split: "2 powi (x - y) = (2 powi x / 2 powi y :: real)" for x y by (simp add: power_int_diff)
  have pos: "0 < real d" "0 < real n" using assms by simp_all
  have "2 powi (int a - int b - 1) = 2 powi (int a - 1) / (2 powi (int b) :: real)"
    by (simp only: split [symmetric]) (simp add: algebra_simps)
  also have "\<dots> < real n / real d"
    using n(1) d(2) pos by (intro frac_less2) auto
  finally show "2 powi (int (bit_size n) - int (bit_size d) - 1) < real n / real d" by (simp add: a_def b_def)
  have "real n / real d < 2 powi (int a) / 2 powi (int b - 1)"
    using n(2) d(1) pos by (intro frac_less) auto
  also have "\<dots> = 2 powi (int a - int b + 1)" by (simp only: split [symmetric]) (simp add: algebra_simps)
  finally show "real n / real d < 2 powi (int (bit_size n) - int (bit_size d) + 1)" by (simp add: a_def b_def)
qed

section \<open>The exponent of a rounded ratio\<close>

text \<open>The scaled value lies in the range of a significand; below \<open>2^52\<close> only at the least exponent.\<close>

definition in_binade :: "real \<Rightarrow> int \<Rightarrow> bool" where
  "in_binade x e \<longleftrightarrow> -1074 \<le> e \<and> x / 2 powi e < 2 ^ 53 \<and> (-1074 < e \<longrightarrow> 2 ^ 52 \<le> x / 2 powi e)"

lemma powi_step: "2 powi (e + 1) = (2 * 2 powi e :: real)"
  by (simp add: power_int_add)

lemma floor_at_least: "0 < d \<Longrightarrow> k \<le> n div d \<longleftrightarrow> real k \<le> real n / real d"
proof -
  assume d: "0 < d"
  have "k \<le> n div d \<longleftrightarrow> k * d \<le> n" using d by (simp add: less_eq_div_iff_mult_less_eq)
  also have "\<dots> \<longleftrightarrow> real k * real d \<le> real n" by (simp only: of_nat_mult [symmetric] of_nat_le_iff)
  finally show ?thesis using d by (simp add: field_simps)
qed

lemma ratio_exponent_binade:
  assumes n: "0 < n" and d: "0 < d"
  shows "in_binade (real n / real d) (ratio_exponent n d)"
proof -
  define b where "b = int (bit_size n) - int (bit_size d) - 53"
  define e0 where "e0 = max (-1074) b"
  define x where "x = real n / real d"
  obtain n' d' where s: "scale2 n d e0 = (n', d')" by fastforce
  note sc = scale2_real [OF d s]
  have lo: "2 powi b * 2 ^ 52 < x" and hi: "x < 2 powi b * 2 ^ 54"
  proof -
    have "(2::real) powi b * 2 ^ 52 = 2 powi (b + 52)" "(2::real) powi b * 2 ^ 54 = 2 powi (b + 54)"
      by (simp_all add: power_int_add)
    moreover have "int (bit_size n) - int (bit_size d) - 1 = b + 52" "int (bit_size n) - int (bit_size d) + 1 = b + 54"
      by (simp_all add: b_def)
    ultimately show "2 powi b * 2 ^ 52 < x" "x < 2 powi b * 2 ^ 54"
      using bit_size_ratio [OF n d] unfolding x_def by (simp_all only:)
  qed
  have mono: "2 powi b \<le> (2 powi e0 :: real)" by (rule power_int_increasing) (simp_all add: e0_def)
  have p: "0 < (2 powi e0 :: real)" by simp
  have hi0: "x / 2 powi e0 < 2 ^ 54"
  proof -
    have "x < 2 powi e0 * 2 ^ 54" using hi mono by (simp add: less_le_trans)
    then show ?thesis using p by (simp add: field_simps)
  qed
  have e: "ratio_exponent n d = (if 2 ^ 53 \<le> n' div d' then e0 + 1 else e0)"
    by (simp add: ratio_exponent_def Let_def s flip: b_def e0_def)
  have fl: "2 ^ 53 \<le> n' div d' \<longleftrightarrow> 2 ^ 53 \<le> x / 2 powi e0"
    using floor_at_least [of d' "2 ^ 53" n'] sc by (simp add: x_def)
  have half: "x / 2 powi (e0 + 1) = x / 2 powi e0 / 2" by (simp add: powi_step)
  have base: "-1074 \<le> e0" by (simp add: e0_def)
  show ?thesis
  proof (cases "2 ^ 53 \<le> x / 2 powi e0")
    case True
    then have "x / 2 powi (e0 + 1) < 2 ^ 53" "2 ^ 52 \<le> x / 2 powi (e0 + 1)"
      unfolding half using hi0 by simp_all
    then show ?thesis unfolding in_binade_def e fl x_def [symmetric] using True base by simp
  next
    case False
    have "2 ^ 52 \<le> x / 2 powi e0" if "-1074 < e0"
    proof -
      have "e0 = b" using that by (simp add: e0_def max_def split: if_splits)
      then show ?thesis using lo p by (simp add: field_simps)
    qed
    then show ?thesis unfolding in_binade_def e fl x_def [symmetric] using False base by simp
  qed
qed

lemma in_binade_unique:
  assumes "in_binade x e" "in_binade x f"
  shows "e = f"
proof -
  have no: "\<not> e < f" if "in_binade x e" "in_binade x f" for e f
  proof
    assume "e < f"
    then have "2 ^ 52 \<le> x / 2 powi f" using that by (simp add: in_binade_def)
    then have "2 ^ 52 * 2 powi f \<le> x" by (simp add: field_simps)
    moreover have "2 powi (e + 1) \<le> (2 powi f :: real)" using \<open>e < f\<close> by (intro power_int_increasing) simp_all
    ultimately have "2 ^ 53 * 2 powi e \<le> x" by (simp add: powi_step)
    then have "2 ^ 53 \<le> x / 2 powi e" by (simp add: field_simps)
    then show False using that by (simp add: in_binade_def)
  qed
  show ?thesis using no [OF assms] no [OF assms(2,1)] by linarith
qed

section \<open>A close number rounds to the double\<close>

definition canonical :: "nat \<Rightarrow> int \<Rightarrow> bool" where
  "canonical m e \<longleftrightarrow> m < 2 ^ 53 \<and> -1074 \<le> e \<and> e \<le> 971 \<and> (m < 2 ^ 52 \<longrightarrow> e = -1074)"

lemma round_ratio_at:
  assumes "0 < n" "0 < d" "in_binade (real n / real d) e"
    and "\<bar>real n / real d / 2 powi e - real q\<bar> < 1 / 2"
  shows "round_ratio neg n d =
    (let (m, e') = (if q = 2 ^ 53 then (2 ^ 52, e + 1) else (q, e)) in if e' > 971 then Inf neg else Fin neg m e')"
proof -
  have e: "ratio_exponent n d = e"
    using in_binade_unique [OF ratio_exponent_binade [OF assms(1,2)] assms(3)] .
  obtain n' d' where s: "scale2 n d e = (n', d')" by fastforce
  note sc = scale2_real [OF assms(2) s]
  have "div_rne n' d' = q" using sc assms(4) by (intro div_rne_unique) simp_all
  then show ?thesis using assms(1) by (simp add: round_ratio_def e s Let_def)
qed

lemma round_near:
  assumes "canonical m e" "0 < m" "0 < n" "0 < d"
    and near: "\<bar>real n / real d / 2 powi e - real m\<bar> \<le> real m / (2 * 10 ^ 16)"
  shows "round_ratio neg n d = Fin neg m e"
proof -
  define y where "y = real n / real d / 2 powi e"
  have m: "real m \<le> 2 ^ 53 - 1" "e \<le> 971" "-1074 \<le> e"
    using assms(1) by (simp_all add: canonical_def)
  have err: "\<bar>y - real m\<bar> < 1 / 2" using near m(1) unfolding y_def [symmetric] by simp
  show ?thesis
  proof (cases "e = -1074 \<or> 2 ^ 52 \<le> y")
    case True
    have "y < 2 ^ 53" using err m(1) by linarith
    then have "in_binade (real n / real d) e" using True m(3) by (auto simp: in_binade_def y_def)
    then show ?thesis
      using round_ratio_at [OF assms(3,4), of e m neg] err m assms(1) by (auto simp: y_def canonical_def)
  next
    case False
    have m52: "real m \<ge> 2 ^ 52" using assms(1) False by (simp add: canonical_def not_less)
    have "real m < 2 ^ 52 + 1" using err False by linarith
    then have me: "m = 2 ^ 52" using m52 by simp
    have y: "y < 2 ^ 52" "2 ^ 52 - 1 / 4 < y"
      using False near unfolding y_def [symmetric] me by (simp_all add: abs_le_iff)
    have twice: "real n / real d / 2 powi (e - 1) = 2 * y"
      using powi_step [of "e - 1"] by (simp add: y_def)
    have "in_binade (real n / real d) (e - 1)"
      unfolding in_binade_def twice using y False m(3) by simp
    moreover have "\<bar>2 * y - real (2 ^ 53)\<bar> < 1 / 2" using y by (simp add: abs_less_iff)
    ultimately show ?thesis
      using round_ratio_at [OF assms(3,4), of "e - 1" "2 ^ 53" neg] twice m me by simp
  qed
qed

section \<open>What rounding returns\<close>

text \<open>The values of the type \<open>double\<close>, and those below the least normal one.\<close>

fun is_double :: "double \<Rightarrow> bool" where
  "is_double (Fin s m e) = canonical m e"
| "is_double _ = True"

fun subnormal :: "double \<Rightarrow> bool" where
  "subnormal (Fin s m e) = (0 < m \<and> m < 2 ^ 52)"
| "subnormal _ = False"

lemma round_ratio_cases:
  assumes "0 < n" "scale2 n d (ratio_exponent n d) = (n', d')"
  shows "round_ratio neg n d =
    (let e = ratio_exponent n d in
     if div_rne n' d' = 2 ^ 53 then (if e + 1 > 971 then Inf neg else Fin neg (2 ^ 52) (e + 1))
     else if e > 971 then Inf neg else Fin neg (div_rne n' d') e)"
  using assms by (simp add: round_ratio_def Let_def)

lemma round_ratio_sign:
  assumes "round_ratio False n d = Fin False m e"
  shows "round_ratio neg n d = Fin neg m e"
proof (cases "n = 0")
  case False
  obtain n' d' where "scale2 n d (ratio_exponent n d) = (n', d')" by fastforce
  note r = round_ratio_cases [OF _ this]
  show ?thesis using assms False r [of False] r [of neg] by (auto simp: Let_def split: if_splits)
qed (use assms in \<open>simp add: round_ratio_def\<close>)

lemma round_ratio_is_double:
  assumes d: "0 < d"
  shows "is_double (round_ratio neg n d)"
proof (cases "n = 0")
  case True
  then show ?thesis by (simp add: round_ratio_def canonical_def)
next
  case False
  define e where "e = ratio_exponent n d"
  define y where "y = real n / real d / 2 powi e"
  have b: "-1074 \<le> e" "y < 2 ^ 53" "-1074 < e \<longrightarrow> 2 ^ 52 \<le> y"
    using ratio_exponent_binade [OF _ d, of n] False by (simp_all add: in_binade_def e_def y_def)
  obtain n' d' where s: "scale2 n d e = (n', d')" by fastforce
  define q where "q = div_rne n' d'"
  have q: "\<bar>y - real q\<bar> \<le> 1 / 2" using scale2_real [OF d s] div_rne_near [of d' n'] by (simp add: q_def y_def)
  have "real q < 2 ^ 53 + 1" using q b(2) by linarith
  then have up: "q \<le> 2 ^ 53" by simp
  have low: "e = -1074 \<or> 2 ^ 52 \<le> q"
  proof (cases "e = -1074")
    case False
    then have "2 ^ 52 < real q + 1" using q b(1,3) by linarith
    then show ?thesis by simp
  qed simp
  show ?thesis
    using round_ratio_cases [OF _ s [unfolded e_def], of neg] False up low b(1)
    by (auto simp: canonical_def not_less Let_def simp flip: e_def q_def)
qed

lemma ratio_eq:
  fixes n d n' d' :: nat
  assumes "0 < d" "0 < d'" "real n / real d = real n' / real d'"
  shows "n div d = n' div d'" "real (n mod d) / real d = real (n' mod d') / real d'"
proof -
  show q: "n div d = n' div d'"
    using floor_divide_of_nat_eq [of n d, where 'a = real] floor_divide_of_nat_eq [of n' d', where 'a = real] assms(3)
    by simp
  have "real (a mod b) / real b = real a / real b - real (a div b)" if "0 < b" for a b
  proof -
    have "real a = real (a div b) * real b + real (a mod b)" by (metis div_mult_mod_eq of_nat_add of_nat_mult)
    then show ?thesis using that by (simp add: field_simps)
  qed
  then show "real (n mod d) / real d = real (n' mod d') / real d'" using assms q by simp
qed

lemma div_rne_cong:
  assumes "0 < d" "0 < d'" "real n / real d = real n' / real d'"
  shows "div_rne n d = div_rne n' d'"
proof -
  note eq = ratio_eq [OF assms]
  have half: "(2 * r > b \<longleftrightarrow> 2 * (real r / real b) > 1) \<and> (2 * r = b \<longleftrightarrow> 2 * (real r / real b) = 1)"
    if "0 < b" for r b :: nat
  proof -
    have "2 * r > b \<longleftrightarrow> real b < 2 * real r" "2 * r = b \<longleftrightarrow> 2 * real r = real b" by linarith+
    moreover have "2 * (real r / real b) > 1 \<longleftrightarrow> real b < 2 * real r" using that by (simp add: field_simps)
    moreover have "2 * (real r / real b) = 1 \<longleftrightarrow> 2 * real r = real b"
      using that nonzero_divide_eq_eq [of "real b" "2 * real r" 1] by simp
    ultimately show ?thesis by blast
  qed
  show ?thesis
    using half [OF assms(1), of "n mod d"] half [OF assms(2), of "n' mod d'"] eq by (simp add: div_rne_def Let_def)
qed

text \<open>Rounding depends on the value only.\<close>

lemma round_ratio_cong:
  assumes d: "0 < d" "0 < d'" and eq: "real n / real d = real n' / real d'"
  shows "round_ratio neg n d = round_ratio neg n' d'"
proof (cases "n = 0")
  case True
  then show ?thesis using eq d by (auto simp: round_ratio_def)
next
  case False
  then have "real n' / real d' \<noteq> 0" using eq d by (simp flip: eq)
  then have n: "0 < n" "0 < n'" using False by auto
  have e: "ratio_exponent n d = ratio_exponent n' d'"
    using in_binade_unique [OF ratio_exponent_binade [OF n(1) d(1)]] ratio_exponent_binade [OF n(2) d(2)] eq by simp
  obtain a b a' b' where s: "scale2 n d (ratio_exponent n' d') = (a, b)" "scale2 n' d' (ratio_exponent n' d') = (a', b')"
    by fastforce
  have "div_rne a b = div_rne a' b'"
    using scale2_real [OF d(1) s(1)] scale2_real [OF d(2) s(2)] eq by (intro div_rne_cong) auto
  then show ?thesis using n by (simp add: round_ratio_def e s Let_def)
qed

end
