(* ===== verification/ShortestDouble.thy ===== *)
theory ShortestDouble
  imports Binary64
begin

text \<open>
  \<open>std::to_chars\<close> for a \<open>double\<close>: the fewest decimal digits that read back as the same value (the
  nearest such number, ties to even), in fixed or scientific notation, whichever is shorter, fixed on
  a tie. A whole number in fixed notation is written with its exact digits, as \<open>%.0f\<close> does.
\<close>

text \<open>The value of a positive finite double as a ratio.\<close>

definition ratio_of :: "nat \<Rightarrow> int \<Rightarrow> nat \<times> nat" where
  "ratio_of m e = (if 0 \<le> e then (m * 2 ^ nat e, 1) else (m, 2 ^ nat (- e)))"

definition scale10 :: "nat \<Rightarrow> nat \<Rightarrow> int \<Rightarrow> nat \<times> nat" where
  "scale10 n d s = (if 0 \<le> s then (n, d * 10 ^ nat s) else (n * 10 ^ nat (- s), d))"

definition reads_back :: "nat \<Rightarrow> int \<Rightarrow> nat \<Rightarrow> int \<Rightarrow> bool" where
  "reads_back m e k s \<longleftrightarrow> round_power False k 10 s = Fin False m e"

text \<open>The candidate with \<open>p\<close> digits: the nearest multiple of \<open>10^s\<close>, else its other neighbour.\<close>

definition candidate :: "nat \<Rightarrow> int \<Rightarrow> nat \<Rightarrow> (nat \<times> int) option" where
  "candidate m e p =
    (let (n, d) = ratio_of m e; s = dec_exponent n d - int p + 1; (n', d') = scale10 n d s;
         near = div_rne n' d'; other = (if near = n' div d' then Suc near else n' div d')
     in if reads_back m e near s then Some (near, s)
        else if reads_back m e other s then Some (other, s) else None)"

definition nearest17 :: "nat \<Rightarrow> int \<Rightarrow> nat \<times> int" where
  "nearest17 m e =
    (let (n, d) = ratio_of m e; s = dec_exponent n d - 16; (n', d') = scale10 n d s in (div_rne n' d', s))"

fun first_candidate :: "nat \<Rightarrow> int \<Rightarrow> nat list \<Rightarrow> nat \<times> int" where
  "first_candidate m e [] = nearest17 m e"
| "first_candidate m e (p # ps) =
    (case candidate m e p of Some c \<Rightarrow> c | None \<Rightarrow> first_candidate m e ps)"

definition shortest_decimal :: "nat \<Rightarrow> int \<Rightarrow> nat \<times> int" where
  "shortest_decimal m e = first_candidate m e [1..<18]"

text \<open>Digits without trailing zeros, and the decimal exponent of the last of them.\<close>

definition trimmed_digits :: "nat \<Rightarrow> int \<Rightarrow> string \<times> int" where
  "trimmed_digits k s =
    (let ds = nat_to_string k; ds' = strip_zeros ds in (ds', s + int (length ds) - int (length ds')))"

definition scientific_text :: "string \<Rightarrow> int \<Rightarrow> string" where
  "scientific_text ds s =
    take 1 ds @ (if drop 1 ds = [] then [] else CHR ''.'' # drop 1 ds) @ exponent_text (s + int (length ds) - 1)"

definition fixed_text :: "nat \<Rightarrow> int \<Rightarrow> string \<Rightarrow> int \<Rightarrow> string" where
  "fixed_text m e ds s =
    (if 0 \<le> s then (case ratio_of m e of (n, d) \<Rightarrow> nat_to_string (n div d))
     else let after = nat (- s) in
       if after < length ds then take (length ds - after) ds @ CHR ''.'' # drop (length ds - after) ds
       else ''0.'' @ replicate (after - length ds) (CHR ''0'') @ ds)"

fun to_chars :: "double \<Rightarrow> string" where
  "to_chars NaN = ''nan''"
| "to_chars (Inf s) = (if s then ''-inf'' else ''inf'')"
| "to_chars (Fin neg m e) =
    (if neg then ''-'' else []) @
    (if m = 0 then ''0''
     else let (k, s) = shortest_decimal m e; (ds, s') = trimmed_digits k s;
              fx = fixed_text m e ds s'; sci = scientific_text ds s'
          in if length fx \<le> length sci then fx else sci)"

text \<open>The characters a number is written with.\<close>

definition number_char :: "char \<Rightarrow> bool" where
  "number_char c \<longleftrightarrow> is_digit c \<or> c \<in> set ''.+-einfa''"

lemma number_digits: "list_all number_char (nat_to_string n)"
  using nat_to_string_digits by (auto simp: list_all_iff number_char_def)

lemma number_sub: "list_all number_char s \<Longrightarrow> set t \<subseteq> set s \<Longrightarrow> list_all number_char t"
  by (auto simp: list_all_iff)

lemma number_parts:
  assumes "list_all number_char s"
  shows "list_all number_char (take k s)" "list_all number_char (drop k s)" "list_all number_char (strip_zeros s)"
  using assms by (auto simp: list_all_iff strip_zeros_def dest: in_set_takeD in_set_dropD set_dropWhileD)

lemma number_signs: "number_char (CHR ''0'')" "number_char (CHR ''.'')" "number_char (CHR ''-'')" "number_char (CHR ''e'')"
  "number_char (CHR ''+'')" "number_char (CHR ''i'')" "number_char (CHR ''n'')" "number_char (CHR ''f'')" "number_char (CHR ''a'')"
  by (simp_all add: number_char_def is_digit_def less_eq_char_def)

lemma to_chars_chars: "list_all number_char (to_chars v)"
proof (cases v)
  case (Fin neg m e)
  obtain k s where ks: "shortest_decimal m e = (k, s)" by fastforce
  obtain ds s' where ds: "trimmed_digits k s = (ds, s')" by fastforce
  have d: "list_all number_char ds"
    using ds number_parts(3) [OF number_digits] by (auto simp: trimmed_digits_def Let_def)
  note parts = number_parts [OF d]
  have ex: "list_all number_char (exponent_text x)" for x
    using number_digits by (simp add: exponent_text_def Let_def number_signs)
  have rep: "list_all number_char (replicate n (CHR ''0''))" for n
    by (simp add: list_all_iff number_signs)
  have "list_all number_char (fixed_text m e ds s')"
    using d parts rep number_digits by (simp add: fixed_text_def Let_def number_signs split: prod.splits)
  moreover have "list_all number_char (scientific_text ds s')"
    using parts ex by (simp add: scientific_text_def number_signs)
  ultimately show ?thesis by (simp add: Fin ks ds Let_def number_signs)
qed (simp_all add: number_signs)

lemma to_chars_free: "\<not> number_char c \<Longrightarrow> c \<notin> set (to_chars v)"
  using to_chars_chars [of v] by (auto simp: list_all_iff)

lemma digits_free: "\<not> number_char c \<Longrightarrow> c \<notin> set (nat_to_string n)"
  using number_digits [of n] by (auto simp: list_all_iff)

end
