(* ===== verification/DoubleText.thy ===== *)
theory DoubleText
  imports Rounding ShortestDouble WriteElements
begin

text \<open>
  Doubles as text: what \<open>%.17g\<close> (\<open>doubleToString\<close>) and \<open>std::to_chars\<close> write, \<open>parseDouble\<close> reads back as the same
  double, except for the values below the least normal number.
\<close>

section \<open>Decimal digits of a ratio\<close>

lemma nat_to_string_length: "0 < n \<Longrightarrow> 10 ^ (length (nat_to_string n) - 1) \<le> n \<and> n < 10 ^ length (nat_to_string n)"
proof (induction n rule: nat_to_string.induct)
  case (1 n)
  show ?case
  proof (cases "n < 10")
    case True
    then show ?thesis using 1(2) by (subst (1 2) nat_to_string.simps) simp
  next
    case False
    define k where "k = length (nat_to_string (n div 10))"
    have "0 < k" by (simp add: k_def)
    have IH: "10 ^ (k - 1) \<le> n div 10" "n div 10 < 10 ^ k" using 1(1) False by (simp_all add: k_def)
    have "10 * 10 ^ (k - 1) \<le> n" "n < 10 * 10 ^ k" using IH by linarith+
    moreover have "10 * 10 ^ (k - 1) = (10 ^ k :: nat)" using \<open>0 < k\<close> by (cases k) simp_all
    moreover have "length (nat_to_string n) = Suc k" using False by (subst nat_to_string.simps) (simp add: k_def)
    ultimately show ?thesis by simp
  qed
qed

lemma length_17: "10 ^ 16 \<le> q \<Longrightarrow> q < 10 ^ 17 \<Longrightarrow> length (nat_to_string q) = 17"
proof -
  assume q: "10 ^ 16 \<le> q" "q < 10 ^ 17"
  then have l: "10 ^ (length (nat_to_string q) - 1) \<le> q" "q < 10 ^ length (nat_to_string q)"
    using nat_to_string_length [of q] by auto
  have "(10::nat) ^ (length (nat_to_string q) - 1) < 10 ^ 17" using l(1) q(2) by (rule le_less_trans)
  then have "length (nat_to_string q) - 1 < 17" by (rule power_less_imp_less_exp [rotated]) simp
  moreover have "(10::nat) ^ 16 < 10 ^ length (nat_to_string q)" using q(1) l(2) by (rule le_less_trans)
  then have "16 < length (nat_to_string q)" by (rule power_less_imp_less_exp [rotated]) simp
  ultimately show ?thesis by simp
qed

lemma powi10_nat: "10 powi (int k) = (10::real) ^ k"
  by (simp add: power_int_def)

lemma powi10_diff: "10 powi (x - y) = (10 powi x / 10 powi y :: real)"
  by (simp add: power_int_diff)

lemma dec_exponent_bounds:
  assumes "0 < n" "0 < d"
  shows "10 powi (dec_exponent n d) \<le> real n / real d \<and> real n / real d < 10 powi (dec_exponent n d + 1)"
proof -
  define a b where "a = length (nat_to_string n)" and "b = length (nat_to_string d)"
  have ab: "0 < a" "0 < b" by (simp_all add: a_def b_def)
  note an = nat_to_string_length [OF assms(1), folded a_def] and bd = nat_to_string_length [OF assms(2), folded b_def]
  have "10 ^ (a - 1) \<le> real n" "real n < 10 ^ a" "10 ^ (b - 1) \<le> real d" "real d < 10 ^ b"
    using an bd by (simp_all add: numeral_power_le_of_nat_cancel_iff of_nat_less_numeral_power_cancel_iff)
  then have n: "10 powi (int a - 1) \<le> real n" "real n < 10 powi (int a)"
    and d: "10 powi (int b - 1) \<le> real d" "real d < 10 powi (int b)"
    using ab powi10_nat [of "a - 1"] powi10_nat [of "b - 1"] by (simp_all add: powi10_nat of_nat_diff Suc_leI)
  define k where "k = int a - int b"
  have pos: "0 < real d" "0 < real n" using assms by simp_all
  have "10 powi (k - 1) = 10 powi (int a - 1) / (10 powi (int b) :: real)"
    by (simp only: powi10_diff [symmetric]) (simp add: k_def algebra_simps)
  also have "\<dots> < real n / real d" using n(1) d(2) pos by (intro frac_less2) auto
  finally have lo: "10 powi (k - 1) \<le> real n / real d" by simp
  have "real n / real d < 10 powi (int a) / 10 powi (int b - 1)" using n(2) d(1) pos by (intro frac_less) auto
  also have "\<dots> = 10 powi (k + 1)" by (simp only: powi10_diff [symmetric]) (simp add: k_def algebra_simps)
  finally have hi: "real n / real d < 10 powi (k + 1)" .
  define ge where "ge = (if 0 \<le> k then n \<ge> d * 10 ^ nat k else n * 10 ^ nat (- k) \<ge> d)"
  have "ge \<longleftrightarrow> 10 powi k \<le> real n / real d"
  proof (cases "0 \<le> k")
    case True
    have "ge \<longleftrightarrow> real d * 10 ^ nat k \<le> real n" using True
      by (simp add: ge_def flip: of_nat_le_iff [where 'a = real])
    then show ?thesis using True pos by (simp add: power_int_def field_simps)
  next
    case False
    have "ge \<longleftrightarrow> real d \<le> real n * 10 ^ nat (- k)" using False
      by (simp add: ge_def flip: of_nat_le_iff [where 'a = real])
    then show ?thesis using False pos by (simp add: power_int_def field_simps)
  qed
  moreover have "dec_exponent n d = (if ge then k else k - 1)"
    by (simp add: dec_exponent_def Let_def k_def ge_def a_def b_def)
  ultimately show ?thesis using lo hi by auto
qed

lemma scale10_real:
  "0 < d \<Longrightarrow> scale10 n d s = (n', d') \<Longrightarrow> 0 < d' \<and> real n' / real d' = real n / real d / 10 powi s"
  by (auto simp: scale10_def power_int_def field_simps split: if_splits)

text \<open>Seventeen digits are within half a unit of the last one.\<close>

lemma nearest_digits:
  assumes "0 < n" "0 < d" "scale10 n d (dec_exponent n d - 16) = (n', d')"
  shows "10 ^ 16 \<le> div_rne n' d' \<and> div_rne n' d' \<le> 10 ^ 17
    \<and> \<bar>real (div_rne n' d') * 10 powi (dec_exponent n d - 16) - real n / real d\<bar> \<le> real n / real d / (2 * 10 ^ 16)"
proof -
  define r s y where "r = real n / real d" and "s = dec_exponent n d - 16" and "y = r / 10 powi s"
  have sc: "0 < d'" "real n' / real d' = y"
    using scale10_real [OF assms(2,3)] by (simp_all add: r_def s_def y_def)
  have b: "10 powi (dec_exponent n d) = 10 powi s * (10::real) ^ 16" "10 powi (dec_exponent n d + 1) = 10 powi s * (10::real) ^ 17"
    by (simp_all add: s_def power_int_diff power_int_add)
  have p: "0 < (10 powi s :: real)" by simp
  have y: "10 ^ 16 \<le> y" "y < 10 ^ 17" "r = y * 10 powi s"
    using dec_exponent_bounds [OF assms(1,2)] p unfolding b r_def [symmetric] y_def by (simp_all add: field_simps)
  have q: "\<bar>y - real (div_rne n' d')\<bar> \<le> 1 / 2" using div_rne_near [OF sc(1), of n'] sc(2) by simp
  have "10 ^ 16 < real (div_rne n' d') + 1" "real (div_rne n' d') < 10 ^ 17 + 1" using q y by linarith+
  then have "10 ^ 16 \<le> div_rne n' d'" "div_rne n' d' \<le> 10 ^ 17" by simp_all
  moreover have "\<bar>real (div_rne n' d') * 10 powi s - r\<bar> = \<bar>real (div_rne n' d') - y\<bar> * 10 powi s"
    using p by (simp add: y(3) abs_mult flip: left_diff_distrib)
  moreover have "\<bar>real (div_rne n' d') - y\<bar> * 10 powi s \<le> y / (2 * 10 ^ 16) * 10 powi s"
  proof (rule mult_right_mono)
    have "10 ^ 16 * (1 / (2 * 10 ^ 16)) \<le> y * (1 / (2 * 10 ^ 16))" using y(1) by (intro mult_right_mono) simp_all
    then have "1 / 2 \<le> y / (2 * 10 ^ 16)" by simp
    then show "\<bar>real (div_rne n' d') - y\<bar> \<le> y / (2 * 10 ^ 16)" using q unfolding abs_le_iff by linarith
  qed simp
  ultimately show ?thesis by (simp add: y(3) flip: r_def s_def)
qed

lemma dec17_near:
  assumes "0 < n" "0 < d" "dec17 n d = (q, x)"
  shows "10 ^ 16 \<le> q \<and> q < 10 ^ 17
    \<and> \<bar>real q * 10 powi (x - 16) - real n / real d\<bar> \<le> real n / real d / (2 * 10 ^ 16)"
proof -
  obtain n' d' where s: "scale10 n d (dec_exponent n d - 16) = (n', d')" by fastforce
  note near = nearest_digits [OF assms(1,2) s]
  have "dec17 n d = (if div_rne n' d' = 10 ^ 17 then (10 ^ 16, dec_exponent n d + 1) else (div_rne n' d', dec_exponent n d))"
    using s by (auto simp: dec17_def scale10_def Let_def split: if_splits)
  moreover have "(10::real) ^ 16 * 10 powi (dec_exponent n d + 1 - 16) = 10 ^ 17 * 10 powi (dec_exponent n d - 16)"
    by (simp add: power_int_diff power_int_add)
  ultimately show ?thesis using near assms(3) by (auto split: if_splits)
qed

section \<open>Reading a decimal literal\<close>

text \<open>Digits with an optional fraction and an optional exponent, as both printers write them.\<close>

definition literal_text :: "string \<Rightarrow> string \<Rightarrow> int option \<Rightarrow> string" where
  "literal_text ip fp x =
    ip @ (if fp = [] then [] else CHR ''.'' # fp) @ (case x of None \<Rightarrow> [] | Some y \<Rightarrow> exponent_text y)"

definition literal_char :: "char \<Rightarrow> bool" where
  "literal_char c \<longleftrightarrow> is_digit c \<or> c \<in> set ''.e+-''"

lemma literal_chars:
  assumes "list_all is_digit ip" "list_all is_digit fp"
  shows "list_all literal_char (literal_text ip fp x)"
proof -
  have d: "list_all is_digit ds \<Longrightarrow> list_all literal_char ds" for ds by (auto simp: list_all_iff literal_char_def)
  have n: "list_all literal_char (nat_to_string k)" for k
    using nat_to_string_digits by (auto simp: list_all_iff literal_char_def)
  have c: "literal_char (CHR ''.'')" "literal_char (CHR ''e'')" "literal_char (CHR ''+'')" "literal_char (CHR ''-'')"
      "literal_char (CHR ''0'')"
    by (simp_all add: literal_char_def is_digit_nat)
  have e: "list_all literal_char (exponent_text y)" for y
    by (simp add: exponent_text_def Let_def n c)
  have f: "list_all literal_char (if fp = [] then [] else CHR ''.'' # fp)"
    using d [OF assms(2)] c(1) by simp
  show ?thesis
    unfolding literal_text_def list_all_append
    by (intro conjI d [OF assms(1)] f) (simp add: e split: option.split)
qed

lemma upper_literal: "literal_char c \<Longrightarrow> asciiUpperChar c \<notin> set ''INX''"
proof -
  assume c: "literal_char c"
  have d: "asciiUpperChar c = c" if "is_digit c"
    using that by (auto simp: asciiUpperChar_def is_digit_nat less_eq_char_def)
  have i: "\<not> is_digit (CHR ''I'')" "\<not> is_digit (CHR ''N'')" "\<not> is_digit (CHR ''X'')" by (simp_all add: is_digit_nat)
  have "asciiUpperChar (CHR ''.'') = CHR ''.''" "asciiUpperChar (CHR ''e'') = CHR ''E''"
      "asciiUpperChar (CHR ''+'') = CHR ''+''" "asciiUpperChar (CHR ''-'') = CHR ''-''"
    by code_simp+
  then show ?thesis using c d i by (auto simp: literal_char_def)
qed

lemma strip_word_none:
  assumes "list_all literal_char s" "y \<in> set w" "y \<in> set ''INX''"
  shows "strip_word w s = None"
proof -
  have "asciiUpperCopy (take k s) \<noteq> w" for k
  proof
    assume "asciiUpperCopy (take k s) = w"
    then have "y \<in> asciiUpperChar ` set (take k s)" using assms(2) by (auto simp: asciiUpperCopy_def)
    then obtain c where "c \<in> set s" "y = asciiUpperChar c" using in_set_takeD by fast
    moreover have "literal_char c" using assms(1) \<open>c \<in> set s\<close> by (simp add: list_all_iff)
    ultimately show False using upper_literal [of c] assms(3) by (simp only:)
  qed
  then show ?thesis by (simp add: strip_word_def)
qed

lemma take_digits:
  assumes "list_all is_digit ds" "rest = [] \<or> \<not> is_digit (hd rest)"
  shows "takeWhile is_digit (ds @ rest) = ds" "dropWhile is_digit (ds @ rest) = rest"
  using assms by (cases rest; simp add: list_all_iff)+

lemma digits_list: "list_all is_digit (nat_to_string n)"
  using nat_to_string_digits by (auto simp: list_all_iff)

lemma take_exponent_text: "take_exponent (CHR ''e'') (CHR ''E'') (exponent_text x) = (x, [])"
proof -
  define ds where "ds = (let ds = nat_to_string (nat \<bar>x\<bar>) in if length ds < 2 then ''0'' @ ds else ds)"
  have "is_digit (CHR ''0'')" "char_val (CHR ''0'') = 0" by (simp_all add: is_digit_nat char_val_def)
  moreover have "digits_value 10 (CHR ''0'' # s) = digits_value 10 s" for s
    by (simp add: digits_value_def \<open>char_val (CHR ''0'') = 0\<close>)
  ultimately have d: "list_all is_digit ds" "digits_value 10 ds = nat \<bar>x\<bar>" "ds \<noteq> []"
    by (simp_all add: ds_def Let_def digits_list digits_value_nat_to_string)
  have t: "takeWhile is_digit ds = ds" "dropWhile is_digit ds = []"
    using take_digits [OF d(1), of "[]"] by simp_all
  have x: "exponent_text x = CHR ''e'' # (if x < 0 then CHR ''-'' else CHR ''+'') # ds"
    by (simp add: exponent_text_def ds_def Let_def)
  show ?thesis unfolding x using d t by (auto simp: Let_def simp del: takeWhile_eq_all_conv dropWhile_eq_Nil_conv)
qed

lemma exponent_part:
  "take_exponent (CHR ''e'') (CHR ''E'') (case x of None \<Rightarrow> [] | Some y \<Rightarrow> exponent_text y)
    = (case x of None \<Rightarrow> 0 | Some y \<Rightarrow> y, [])"
  by (cases x) (simp_all add: take_exponent_text)

lemma mantissa_part:
  assumes "list_all is_digit ip" "ip \<noteq> []" "list_all is_digit fp"
    and rest: "rest = [] \<or> (\<not> is_digit (hd rest) \<and> hd rest \<noteq> CHR ''.'')"
  shows "take_mantissa 10 (ip @ (if fp = [] then [] else CHR ''.'' # fp) @ rest) = Some (ip @ fp, length fp, rest)"
proof (cases "fp = []")
  case True
  then show ?thesis
    using assms take_digits [OF assms(1), of rest]
    by (cases rest) (auto simp: take_mantissa_def is_base_digit_10 Let_def
        simp del: takeWhile_eq_all_conv dropWhile_eq_Nil_conv)
next
  case False
  have p: "\<not> is_digit (CHR ''.'')" by (simp add: is_digit_nat)
  show ?thesis
    using False assms p take_digits [OF assms(1), of "CHR ''.'' # fp @ rest"] take_digits [OF assms(3), of rest]
    by (auto simp: take_mantissa_def is_base_digit_10 Let_def simp del: takeWhile_eq_all_conv dropWhile_eq_Nil_conv)
qed

lemma mantissa_literal:
  assumes "list_all is_digit ip" "ip \<noteq> []" "list_all is_digit fp"
  shows "take_mantissa 10 (literal_text ip fp x)
    = Some (ip @ fp, length fp, case x of None \<Rightarrow> [] | Some y \<Rightarrow> exponent_text y)"
  unfolding literal_text_def
  by (rule mantissa_part [OF assms]) (auto simp: exponent_text_def Let_def is_digit_nat split: option.splits)

lemma stod_literal:
  assumes "list_all is_digit ip" "ip \<noteq> []" "list_all is_digit fp"
  shows "stod_unsigned neg (literal_text ip fp x)
    = finish_literal neg (digits_value 10 (ip @ fp)) 10 ((case x of None \<Rightarrow> 0 | Some y \<Rightarrow> y) - int (length fp)) []"
proof -
  have "strip_word w (literal_text ip fp x) = None" if "w \<in> {''INFINITY'', ''INF'', ''NAN'', ''0X''}" for w
    using that strip_word_none [OF literal_chars [OF assms(1,3)], of "CHR ''I''" w]
      strip_word_none [OF literal_chars [OF assms(1,3)], of "CHR ''N''" w]
      strip_word_none [OF literal_chars [OF assms(1,3)], of "CHR ''X''" w] by auto
  then show ?thesis by (simp add: stod_unsigned_def mantissa_literal [OF assms] exponent_part)
qed

text \<open>Stripping the zeros at the end of a fraction does not change the number.\<close>

lemma strip_zeros_split: "\<exists>k. ds = strip_zeros ds @ replicate k (CHR ''0'')"
proof -
  have "rev ds = takeWhile (\<lambda>c. c = CHR ''0'') (rev ds) @ dropWhile (\<lambda>c. c = CHR ''0'') (rev ds)" by simp
  moreover have "takeWhile (\<lambda>c. c = CHR ''0'') (rev ds)
      = replicate (length (takeWhile (\<lambda>c. c = CHR ''0'') (rev ds))) (CHR ''0'')"
    by (rule replicate_eqI) (auto dest: set_takeWhileD)
  ultimately have "rev ds = replicate (length (takeWhile (\<lambda>c. c = CHR ''0'') (rev ds))) (CHR ''0'') @ rev (strip_zeros ds)"
    by (simp add: strip_zeros_def)
  then have "ds = strip_zeros ds @ replicate (length (takeWhile (\<lambda>c. c = CHR ''0'') (rev ds))) (CHR ''0'')"
    by (metis rev_append rev_replicate rev_rev_ident)
  then show ?thesis by blast
qed

lemma digits_value_zeros: "digits_value 10 (ds @ replicate k (CHR ''0'')) = digits_value 10 ds * 10 ^ k"
proof (induction k)
  case (Suc k)
  have "char_val (CHR ''0'') = 0" by (simp add: char_val_def is_digit_nat)
  then show ?case using Suc
    by (simp add: replicate_append_same [symmetric] digits_value_snoc flip: append_assoc del: replicate_Suc)
      (simp add: replicate_append_same [symmetric] digits_value_snoc flip: append_assoc)
qed simp

lemma strip_value:
  "real (digits_value 10 (ip @ strip_zeros fp)) * 10 powi (y - int (length (strip_zeros fp)))
    = real (digits_value 10 (ip @ fp)) * 10 powi (y - int (length fp))"
proof -
  obtain k where k: "fp = strip_zeros fp @ replicate k (CHR ''0'')" using strip_zeros_split by blast
  then have len: "int (length fp) = int (length (strip_zeros fp)) + int k"
    by (metis length_append length_replicate of_nat_add)
  have val: "digits_value 10 (ip @ fp) = digits_value 10 (ip @ strip_zeros fp) * 10 ^ k"
    by (subst k) (simp only: append_assoc [symmetric] digits_value_zeros)
  have "10 powi (y - int (length (strip_zeros fp))) = (10 ^ k * 10 powi (y - int (length fp)) :: real)"
    using power_int_add [of "10::real" "int k" "y - int (length fp)"] by (simp add: powi10_nat len)
  then show ?thesis by (simp add: val)
qed

lemma zero_digits: "digits_value 10 (replicate k (CHR ''0'') @ ds) = digits_value 10 ds"
proof -
  have "char_val (CHR ''0'') = 0" by (simp add: char_val_def is_digit_nat)
  then show ?thesis by (induction k) (simp_all add: digits_value_def)
qed

text \<open>What \<open>%.17g\<close> prints, as a literal with the value of its seventeen digits.\<close>

lemma fmt_literal:
  assumes "dec17 n d = (q, x)" "10 ^ 16 \<le> q" "q < 10 ^ 17"
  shows "\<exists>ip fp y. fmt_g17_pos n d = literal_text ip fp y \<and> list_all is_digit ip \<and> list_all is_digit fp \<and> ip \<noteq> []
    \<and> real (digits_value 10 (ip @ fp)) * 10 powi ((case y of None \<Rightarrow> 0 | Some z \<Rightarrow> z) - int (length fp))
      = real q * 10 powi (x - 16)"
proof -
  define ds where "ds = nat_to_string q"
  have ds: "length ds = 17" "list_all is_digit ds" "digits_value 10 ds = q"
    using length_17 assms(2,3) by (simp_all add: ds_def digits_list digits_value_nat_to_string)
  have sub: "list_all is_digit t" if "set t \<subseteq> set ds" for t using that ds(2) by (auto simp: list_all_iff)
  have strip: "set (strip_zeros t) \<subseteq> set t" for t by (auto simp: strip_zeros_def dest: set_dropWhileD)
  have wf: "with_fraction ip fp = literal_text ip (strip_zeros fp) None"
      "with_fraction ip fp @ exponent_text x = literal_text ip (strip_zeros fp) (Some x)" for ip fp
    by (simp_all add: with_fraction_def literal_text_def Let_def)
  have cut: "\<exists>ip fp y. with_fraction (take k ds) (drop k ds) @ e = literal_text ip fp y \<and> list_all is_digit ip \<and> list_all is_digit fp \<and> ip \<noteq> []
    \<and> real (digits_value 10 (ip @ fp)) * 10 powi ((case y of None \<Rightarrow> 0 | Some z \<Rightarrow> z) - int (length fp))
      = real q * 10 powi (x - 16)"
    if k: "0 < k" "k \<le> 17" and e: "e = [] \<and> int k = x + 1 \<or> e = exponent_text x \<and> k = 1" for k e
  proof -
    have dig: "list_all is_digit (take k ds)" "list_all is_digit (strip_zeros (drop k ds))"
      using sub [OF set_take_subset] sub [OF subset_trans [OF strip set_drop_subset]] by auto
    have ne: "take k ds \<noteq> []" using k ds(1) by auto
    have val: "real (digits_value 10 (take k ds @ strip_zeros (drop k ds))) * 10 powi (z - int (length (strip_zeros (drop k ds))))
        = real q * 10 powi (z - (17 - int k))" for z
      using strip_value [of "take k ds" "drop k ds" z] ds(1,3) k by (simp add: of_nat_diff)
    from e show ?thesis
    proof
      assume "e = [] \<and> int k = x + 1"
      then show ?thesis using dig ne val [of 0] wf(1) [of "take k ds" "drop k ds"]
        by (intro exI [of _ "take k ds"] exI [of _ "strip_zeros (drop k ds)"] exI [of _ None]) simp
    next
      assume "e = exponent_text x \<and> k = 1"
      then show ?thesis using dig ne val [of x] wf(2) [of "take k ds" "drop k ds"]
        by (intro exI [of _ "take k ds"] exI [of _ "strip_zeros (drop k ds)"] exI [of _ "Some x"]) simp
    qed
  qed
  consider "x < -4 \<or> 17 \<le> x" | "0 \<le> x" "x < 17" | "-4 \<le> x" "x < 0" by linarith
  then show ?thesis
  proof cases
    case 1
    then show ?thesis using cut [of 1 "exponent_text x"] by (simp add: fmt_g17_pos_def assms(1) Let_def ds_def)
  next
    case 2
    then show ?thesis using cut [of "nat x + 1" "[]"] by (simp add: fmt_g17_pos_def assms(1) Let_def ds_def)
  next
    case 3
    define fp where "fp = replicate (nat (- x) - 1) (CHR ''0'') @ ds"
    have z: "is_digit (CHR ''0'')" by (simp add: is_digit_nat)
    have t: "fmt_g17_pos n d = literal_text ''0'' (strip_zeros fp) None"
      using 3 wf(1) by (simp add: fmt_g17_pos_def assms(1) Let_def ds_def fp_def)
    have "list_all is_digit fp" using z ds(2) by (auto simp: fp_def list_all_iff)
    then have d: "list_all is_digit ''0''" "list_all is_digit (strip_zeros fp)"
      using strip z by (auto simp: list_all_iff)
    have "digits_value 10 (''0'' @ fp) = q"
      using zero_digits [of "Suc (nat (- x) - 1)" ds] ds(3) by (simp add: fp_def)
    moreover have "0 - int (length fp) = x - 16" using 3 ds(1) by (simp add: fp_def)
    ultimately have "real (digits_value 10 (''0'' @ strip_zeros fp)) * 10 powi (0 - int (length (strip_zeros fp)))
        = real q * 10 powi (x - 16)"
      using strip_value [of "''0''" fp 0] by (simp only:)
    then show ?thesis using t d
      by (intro exI [of _ "''0''"] exI [of _ "strip_zeros fp"] exI [of _ None]) simp
  qed
qed

section \<open>Reading back\<close>

lemma is_exact_real:
  "0 < d \<Longrightarrow> is_exact (Fin s m e) n d \<longleftrightarrow> real n / real d = real m * 2 powi e"
proof -
  assume d: "0 < d"
  have "is_exact (Fin s m e) n d \<longleftrightarrow>
      (if 0 \<le> e then real m * 2 ^ nat e * real d = real n else real m * real d = real n * 2 ^ nat (- e))"
    by (auto simp flip: of_nat_eq_iff [where 'a = real])
  then show ?thesis using d by (auto simp: power_int_def field_simps)
qed

text \<open>The value of a literal as a ratio.\<close>

definition power_ratio :: "nat \<Rightarrow> nat \<Rightarrow> int \<Rightarrow> nat \<times> nat" where
  "power_ratio M b E = (if 0 \<le> E then (M * b ^ nat E, 1) else (M, b ^ nat (- E)))"

lemma power_ratio_real:
  "0 < b \<Longrightarrow> power_ratio M b E = (n, d) \<Longrightarrow>
    0 < d \<and> (0 < M \<longrightarrow> 0 < n) \<and> real n / real d = real M * real b powi E"
  by (auto simp: power_ratio_def power_int_def field_simps split: if_splits)

lemma round_power_ratio: "power_ratio M b E = (n, d) \<Longrightarrow> round_power neg M b E = round_ratio neg n d"
  by (auto simp: power_ratio_def round_power_def split: if_splits)

lemma finish_literal_ratio:
  "power_ratio M b E = (n, d) \<Longrightarrow> finish_literal neg M b E rest =
    (let x = round_ratio neg n d in if range_error x n d then Inl OutOfRange else Inr (x, rest))"
  by (auto simp: power_ratio_def round_power_def finish_literal_def Let_def split: if_splits)

lemma round_power_near:
  assumes c: "canonical m e" "0 < m" "0 < M"
    and near: "\<bar>real M * 10 powi E - real m * 2 powi e\<bar> \<le> real m * 2 powi e / (2 * 10 ^ 16)"
  shows "round_power neg M 10 E = Fin neg m e"
proof -
  obtain n d where r: "power_ratio M 10 E = (n, d)" by fastforce
  have nd: "0 < n" "0 < d" "real n / real d = real M * 10 powi E" using power_ratio_real [OF _ r] c(3) by auto
  have p: "0 < (2 powi e :: real)" by simp
  have "\<bar>real n / real d / 2 powi e - real m\<bar> * 2 powi e = \<bar>real M * 10 powi E - real m * 2 powi e\<bar>"
  proof -
    have "\<bar>x - real m\<bar> * 2 powi e = \<bar>x * 2 powi e - real m * 2 powi e\<bar>" for x
      using p by (simp add: abs_mult flip: left_diff_distrib)
    then show ?thesis using p by (simp add: nd(3))
  qed
  then have "\<bar>real n / real d / 2 powi e - real m\<bar> * 2 powi e \<le> real m / (2 * 10 ^ 16) * 2 powi e"
    using near by simp
  then have "\<bar>real n / real d / 2 powi e - real m\<bar> \<le> real m / (2 * 10 ^ 16)"
    using p by (simp only: mult_le_cancel_right_pos)
  then show ?thesis unfolding round_power_ratio [OF r] by (rule round_near [OF c(1,2) nd(1,2)])
qed

lemma finish_literal_rounded:
  assumes "round_power neg M 10 E = Fin neg m e"
  shows "finish_literal neg M 10 E rest =
    (if m < 2 ^ 52 \<and> real M * 10 powi E \<noteq> real m * 2 powi e then Inl OutOfRange else Inr (Fin neg m e, rest))"
proof -
  obtain n d where r: "power_ratio M 10 E = (n, d)" by fastforce
  have nd: "0 < d" "real n / real d = real M * 10 powi E" using power_ratio_real [OF _ r] by auto
  show ?thesis
    unfolding finish_literal_ratio [OF r] assms [unfolded round_power_ratio [OF r]] Let_def range_error.simps
      is_exact_real [OF nd(1)] nd(2) by simp
qed

lemma round_power_cong:
  "real M * 10 powi E = real q * 10 powi k \<Longrightarrow> round_power neg M 10 E = round_power neg q 10 k"
proof -
  assume eq: "real M * 10 powi E = real q * 10 powi k"
  obtain n d n' d' where r: "power_ratio M 10 E = (n, d)" "power_ratio q 10 k = (n', d')" by fastforce
  have "0 < d" "0 < d'" "real n / real d = real n' / real d'"
    using power_ratio_real [OF _ r(1)] power_ratio_real [OF _ r(2)] eq by auto
  then show ?thesis unfolding round_power_ratio [OF r(1)] round_power_ratio [OF r(2)] by (rule round_ratio_cong)
qed

lemma parse_literal:
  assumes "list_all is_digit ip" "ip \<noteq> []" "list_all is_digit fp"
  shows "parseDouble ((if neg then ''-'' else []) @ literal_text ip fp y)
    = (case finish_literal neg (digits_value 10 (ip @ fp)) 10 ((case y of None \<Rightarrow> 0 | Some z \<Rightarrow> z) - int (length fp)) [] of
         Inl _ \<Rightarrow> None | Inr (v, _) \<Rightarrow> Some v)"
proof -
  define t where "t = literal_text ip fp y"
  define whole where "whole = (if neg then ''-'' else []) @ t"
  have chars: "list_all literal_char t" using literal_chars assms by (simp add: t_def)
  obtain c cs where t: "t = c # cs" "is_digit c" using assms(1,2) by (cases ip) (auto simp: t_def literal_text_def)
  have "literal_char (CHR ''-'')" by (simp add: literal_char_def)
  then have all: "list_all literal_char whole" using chars by (simp add: whole_def)
  have "\<not> is_blank z" if "literal_char z" for z
    using that digit_plain by (auto simp: literal_char_def is_blank_def)
  then have trim: "trimText whole = whole" using all by (intro trimText_no_blank) (auto simp: list_all_iff)
  have sign: "take_sign whole = (neg, t)" using digit_plain [OF t(2)] by (simp add: whole_def t(1))
  have "take 2 t \<noteq> ''0x'' \<and> take 2 t \<noteq> ''0X''"
  proof -
    have "\<not> literal_char (CHR ''x'')" "\<not> literal_char (CHR ''X'')" by (simp_all add: literal_char_def is_digit_nat)
    then have "CHR ''x'' \<notin> set (take 2 t)" "CHR ''X'' \<notin> set (take 2 t)"
      using chars by (auto simp: list_all_iff dest: in_set_takeD)
    then show ?thesis by auto
  qed
  then have hex: "\<not> isHexPrefixed whole" by (simp add: isHexPrefixed_def sign)
  have space: "dropWhile is_cspace whole = whole"
    using digit_plain [OF t(2)] by (simp add: whole_def t(1) is_cspace_def)
  have ne: "whole \<noteq> []" using t by (simp add: whole_def)
  have rest: "finish_literal s k b z [] = Inl OutOfRange \<or> (\<exists>v. finish_literal s k b z [] = Inr (v, []))" for s k b z
    by (simp add: finish_literal_def Let_def split: prod.splits)
  show ?thesis
    using rest [of neg "digits_value 10 (ip @ fp)" 10 "(case y of None \<Rightarrow> 0 | Some z \<Rightarrow> z) - int (length fp)"]
    unfolding whole_def [symmetric] t_def [symmetric]
    by (auto simp: parseDouble_def Let_def trim ne hex stod_def space sign stod_literal [OF assms, of neg y, folded t_def])
qed

lemma ratio_of_real: "ratio_of m e = (n, d) \<Longrightarrow> 0 < d \<and> real n / real d = real m * 2 powi e \<and> (0 < m \<longrightarrow> 0 < n)"
  by (auto simp: ratio_of_def power_int_def field_simps split: if_splits)

lemma fmt_g17_fin: "0 < m \<Longrightarrow> ratio_of m e = (n, d) \<Longrightarrow> fmt_g17 (Fin s m e) = (if s then ''-'' else []) @ fmt_g17_pos n d"
  by (auto simp: ratio_of_def split: if_splits)

text \<open>Below the least normal number no seventeen digits are exact.\<close>

lemma subnormal_inexact:
  assumes q: "0 < q" "q \<le> 10 ^ 17" and m: "0 < m" "m < 2 ^ 52"
  shows "real q * 10 powi k \<noteq> real m * 2 powi (-1074)"
proof
  assume eq: "real q * 10 powi k = real m * 2 powi (-1074)"
  have neg: "k < - 24"
  proof (rule ccontr)
    assume "\<not> k < - 24"
    then have "10 powi (-24) \<le> (10 powi k :: real)" by (intro power_int_increasing) simp_all
    moreover have "(1::real) \<le> real q" using q(1) by simp
    ultimately have "1 * 10 powi (-24) \<le> real q * 10 powi k" by (intro mult_mono) simp_all
    then have "10 powi (-24) \<le> real m * 2 powi (-1074)" using eq by simp
    also have "\<dots> \<le> 2 ^ 52 * 2 powi (-1074)"
    proof (rule mult_right_mono)
      show "real m \<le> 2 ^ 52" using m(2) by simp
    qed simp
    also have "\<dots> < 10 powi (-24)" by (simp add: power_int_def field_simps)
    finally show False by simp
  qed
  define j where "j = nat (- k)"
  have k: "k = - int j" "25 \<le> j" using neg by (simp_all add: j_def)
  have "real q * 2 ^ 1074 = real m * 10 ^ j"
    using eq by (simp add: k(1) power_int_minus powi10_nat field_simps)
  then have nat_eq: "q * 2 ^ 1074 = m * 10 ^ j" by (simp flip: of_nat_eq_iff [where 'a = real])
  have "(5::nat) ^ 25 dvd 10 ^ j"
  proof -
    have "(5::nat) ^ 25 dvd 5 ^ j" using k(2) by (rule le_imp_power_dvd)
    moreover have "(5::nat) ^ j dvd 10 ^ j" by (intro dvd_power_same) simp
    ultimately show ?thesis by (rule dvd_trans)
  qed
  then have "5 ^ 25 dvd q * 2 ^ 1074" unfolding nat_eq by (rule dvd_mult)
  moreover have "coprime ((5::nat) ^ 25) (2 ^ 1074)" by (intro coprime_power_left_iff [THEN iffD2] disjI1 coprime_power_right_iff [THEN iffD2]) simp
  ultimately have "5 ^ 25 dvd q" by (rule iffD1 [OF coprime_dvd_mult_left_iff, rotated])
  then have "5 ^ 25 \<le> q" using q(1) by (intro dvd_imp_le) simp_all
  then show False using q(2) by simp
qed

text \<open>A literal that rounds to a double reads as it, or, below the normal numbers, as nothing.\<close>

lemma parse_rounded:
  assumes ip: "list_all is_digit ip" "ip \<noteq> []" "list_all is_digit fp"
    and c: "canonical m e" "0 < m" and q: "0 < q" "q \<le> 10 ^ 17"
    and val: "real (digits_value 10 (ip @ fp)) * 10 powi ((case y of None \<Rightarrow> 0 | Some z \<Rightarrow> z) - int (length fp))
      = real q * 10 powi k"
    and rounds: "round_power s q 10 k = Fin s m e"
  shows "parseDouble ((if s then ''-'' else []) @ literal_text ip fp y)
    = (if m < 2 ^ 52 then None else Some (Fin s m e))"
proof -
  define M E where "M = digits_value 10 (ip @ fp)" and "E = (case y of None \<Rightarrow> 0 | Some z \<Rightarrow> z) - int (length fp)"
  note val = val [folded M_def E_def]
  have r: "round_power s M 10 E = Fin s m e"
    using rounds round_power_cong [OF val] by simp
  have "real q * 10 powi k \<noteq> real m * 2 powi e" if "m < 2 ^ 52"
  proof -
    have "e = -1074" using c(1) that by (simp add: canonical_def)
    then show ?thesis using subnormal_inexact [OF q c(2) that] by simp
  qed
  then show ?thesis
    unfolding parse_literal [OF ip] M_def [symmetric] E_def [symmetric] finish_literal_rounded [OF r] val by simp
qed

lemma g17_literal:
  assumes c: "canonical m e" and m: "0 < m"
  shows "\<exists>ip fp y q k. fmt_g17 (Fin s m e) = (if s then ''-'' else []) @ literal_text ip fp y
    \<and> list_all is_digit ip \<and> ip \<noteq> [] \<and> list_all is_digit fp
    \<and> real (digits_value 10 (ip @ fp)) * 10 powi ((case y of None \<Rightarrow> 0 | Some z \<Rightarrow> z) - int (length fp))
      = real q * 10 powi k
    \<and> round_power s q 10 k = Fin s m e \<and> 0 < q \<and> q \<le> 10 ^ 17"
proof -
  obtain n d where r: "ratio_of m e = (n, d)" by fastforce
  obtain q x where qx: "dec17 n d = (q, x)" by fastforce
  note nd = ratio_of_real [OF r]
  have q: "10 ^ 16 \<le> q" "q < 10 ^ 17"
    "\<bar>real q * 10 powi (x - 16) - real m * 2 powi e\<bar> \<le> real m * 2 powi e / (2 * 10 ^ 16)"
    using dec17_near [OF _ _ qx] nd m by auto
  then have pos: "0 < q" "q \<le> 10 ^ 17" by simp_all
  obtain ip fp y where lit: "fmt_g17_pos n d = literal_text ip fp y" "list_all is_digit ip" "list_all is_digit fp" "ip \<noteq> []"
    "real (digits_value 10 (ip @ fp)) * 10 powi ((case y of None \<Rightarrow> 0 | Some z \<Rightarrow> z) - int (length fp))
      = real q * 10 powi (x - 16)"
    using fmt_literal [OF qx q(1,2)] by auto
  show ?thesis
    using lit pos round_power_near [OF c m pos(1) q(3), of s] fmt_g17_fin [OF m r, of s] by metis
qed

lemma g17_roundtrip:
  assumes "is_double v"
  shows "parseDouble (fmt_g17 v) = (if subnormal v then None else Some v)"
proof (cases v)
  case NaN
  have "parseDouble ''nan'' = Some NaN" by code_simp
  then show ?thesis by (simp add: NaN)
next
  case (Inf s)
  have "parseDouble ''-inf'' = Some (Inf True)" "parseDouble ''inf'' = Some (Inf False)" by code_simp+
  then show ?thesis by (simp add: Inf)
next
  case (Fin s m e)
  then have c: "canonical m e" using assms by simp
  show ?thesis
  proof (cases "m = 0")
    case True
    then have "e = -1074" using c by (simp add: canonical_def)
    moreover have "parseDouble ((if s then ''-'' else []) @ literal_text ''0'' [] None) = Some (Fin s 0 (-1074))"
      using parse_literal [of "''0''" "[]" s None]
      by (simp add: is_digit_nat digits_value_def char_val_def finish_literal_def round_power_def round_ratio_def)
    ultimately show ?thesis by (simp add: Fin True literal_text_def)
  next
    case False
    then obtain ip fp y q k where lit: "fmt_g17 v = (if s then ''-'' else []) @ literal_text ip fp y"
      "list_all is_digit ip" "ip \<noteq> []" "list_all is_digit fp"
      "real (digits_value 10 (ip @ fp)) * 10 powi ((case y of None \<Rightarrow> 0 | Some z \<Rightarrow> z) - int (length fp))
        = real q * 10 powi k"
      "round_power s q 10 k = Fin s m e" "0 < q" "q \<le> 10 ^ 17"
      using g17_literal [OF c, of s] by (auto simp: Fin)
    show ?thesis using parse_rounded [OF lit(2-4) c _ lit(7,8,5,6)] False by (simp add: lit(1)) (simp add: Fin)
  qed
qed

interpretation written_double: codec "\<lambda>v. is_double v \<and> \<not> subnormal v" doubleToString parseDouble
  by unfold_locales (simp add: doubleToString_def g17_roundtrip)

text \<open>
  Without the range check of \<open>std::stod\<close> every double is read back, the subnormal ones too: no two doubles
  have the same seventeen digits.
\<close>

definition literal_value :: "bool \<Rightarrow> string \<Rightarrow> double" where
  "literal_value neg t =
    (case take_mantissa 10 t of
       None \<Rightarrow> if t = ''inf'' then Inf neg else NaN
     | Some (ds, places, r) \<Rightarrow>
         round_power neg (digits_value 10 ds) 10 (fst (take_exponent (CHR ''e'') (CHR ''E'') r) - int places))"

definition text_value :: "string \<Rightarrow> double" where
  "text_value t = literal_value (fst (take_sign t)) (snd (take_sign t))"

lemma text_value_literal:
  assumes "list_all is_digit ip" "ip \<noteq> []" "list_all is_digit fp"
  shows "text_value ((if neg then ''-'' else []) @ literal_text ip fp y)
    = round_power neg (digits_value 10 (ip @ fp)) 10 ((case y of None \<Rightarrow> 0 | Some z \<Rightarrow> z) - int (length fp))"
proof -
  obtain c cs where t: "literal_text ip fp y = c # cs" "is_digit c"
    using assms(1,2) by (cases ip) (auto simp: literal_text_def)
  have "take_sign ((if neg then ''-'' else []) @ literal_text ip fp y) = (neg, literal_text ip fp y)"
    using digit_plain [OF t(2)] by (simp add: t(1))
  then show ?thesis by (simp add: text_value_def literal_value_def mantissa_literal [OF assms] exponent_part)
qed

interpretation g17_text: codec is_double fmt_g17 "\<lambda>t. Some (text_value t)"
proof
  fix v
  assume v: "is_double v"
  show "Some (text_value (fmt_g17 v)) = Some v"
  proof (cases v)
    case NaN
    have "text_value ''nan'' = NaN" by code_simp
    then show ?thesis by (simp add: NaN)
  next
    case (Inf s)
    have "text_value ''-inf'' = Inf True" "text_value ''inf'' = Inf False" by code_simp+
    then show ?thesis by (simp add: Inf)
  next
    case (Fin s m e)
    then have c: "canonical m e" using v by simp
    show ?thesis
    proof (cases "m = 0")
      case True
      then have "e = -1074" using c by (simp add: canonical_def)
      moreover have "text_value ((if s then ''-'' else []) @ literal_text ''0'' [] None) = Fin s 0 (-1074)"
        using text_value_literal [of "''0''" "[]" s None]
        by (simp add: is_digit_nat digits_value_def char_val_def round_power_def round_ratio_def)
      ultimately show ?thesis by (simp add: Fin True literal_text_def)
    next
      case False
      then obtain ip fp y q k where lit: "fmt_g17 v = (if s then ''-'' else []) @ literal_text ip fp y"
        "list_all is_digit ip" "ip \<noteq> []" "list_all is_digit fp"
        "real (digits_value 10 (ip @ fp)) * 10 powi ((case y of None \<Rightarrow> 0 | Some z \<Rightarrow> z) - int (length fp))
          = real q * 10 powi k"
        "round_power s q 10 k = Fin s m e"
        using g17_literal [OF c, of s] by (auto simp: Fin)
      then show ?thesis
        using text_value_literal [OF lit(2-4), of s y] round_power_cong [OF lit(5), of s] by (simp add: Fin)
    qed
  qed
qed

section \<open>\<open>std::to_chars\<close>\<close>

lemma round_power_sign:
  assumes "round_power False k b s = Fin False m e"
  shows "round_power neg k b s = Fin neg m e"
proof -
  obtain n d where "power_ratio k b s = (n, d)" by fastforce
  from round_power_ratio [OF this] show ?thesis using assms round_ratio_sign [of n d m e neg] by simp
qed

lemma reads_back_pos: "reads_back m e k s \<Longrightarrow> 0 < m \<Longrightarrow> 0 < k"
  by (cases "k = 0"; cases "0 \<le> s") (auto simp: reads_back_def round_power_def round_ratio_def)

lemma candidate_sound:
  assumes m: "0 < m" and p: "p \<le> 17" and c: "candidate m e p = Some (k, s)"
  shows "reads_back m e k s \<and> k \<le> 10 ^ 17"
proof -
  obtain n d where r: "ratio_of m e = (n, d)" by fastforce
  define x where "x = dec_exponent n d"
  define s0 where "s0 = x - int p + 1"
  obtain n' d' where sc: "scale10 n d s0 = (n', d')" by fastforce
  note nd = ratio_of_real [OF r]
  have y: "0 < d'" "real n' / real d' = real n / real d / 10 powi s0" using scale10_real [OF _ sc] nd by auto
  have up: "real n / real d < 10 powi (x + 1)" using dec_exponent_bounds [of n d] nd m by (auto simp: x_def)
  have "10 powi (x + 1) = 10 powi s0 * (10::real) ^ p"
    using power_int_add [of "10::real" s0 "int p"] by (simp add: s0_def powi10_nat)
  then have "real n / real d < 10 ^ p * 10 powi s0" using up by (simp add: mult.commute)
  then have lt: "real n' / real d' < 10 ^ p" unfolding y(2) by (subst pos_divide_less_eq) simp_all
  have "real (div_rne n' d') < 10 ^ p + 1" using div_rne_near [OF y(1), of n'] lt unfolding abs_le_iff by linarith
  then have "real (div_rne n' d') < real (Suc (10 ^ p))" by simp
  then have near: "div_rne n' d' \<le> 10 ^ p" by (simp only: of_nat_less_iff less_Suc_eq_le)
  have "real (n' div d') \<le> real n' / real d'" by (rule of_nat_div_le_of_nat)
  then have "real (n' div d') < 10 ^ p" using lt by (rule le_less_trans)
  then have other: "Suc (n' div d') \<le> 10 ^ p" by simp
  have "(10::nat) ^ p \<le> 10 ^ 17" using p by (intro power_increasing) simp_all
  then show ?thesis
    using c near other by (auto simp: candidate_def r sc Let_def x_def [symmetric] s0_def [symmetric] split: if_splits)
qed

lemma candidate_17: "canonical m e \<Longrightarrow> 0 < m \<Longrightarrow> candidate m e 17 \<noteq> None"
proof -
  assume c: "canonical m e" "0 < m"
  obtain n d where r: "ratio_of m e = (n, d)" by fastforce
  define s0 where "s0 = dec_exponent n d - 16"
  obtain n' d' where sc: "scale10 n d s0 = (n', d')" by fastforce
  note nd = ratio_of_real [OF r]
  have near: "10 ^ 16 \<le> div_rne n' d'"
    "\<bar>real (div_rne n' d') * 10 powi s0 - real m * 2 powi e\<bar> \<le> real m * 2 powi e / (2 * 10 ^ 16)"
    using nearest_digits [of n d n' d'] nd c(2) sc by (auto simp: s0_def)
  have "0 < div_rne n' d'" using near(1) by simp
  then have "reads_back m e (div_rne n' d') s0"
    unfolding reads_back_def by (rule round_power_near [OF c _ near(2)])
  then show ?thesis by (simp add: candidate_def r sc Let_def s0_def [symmetric])
qed

lemma first_candidate_found:
  "\<exists>p\<in>set ps. candidate m e p \<noteq> None \<Longrightarrow> \<exists>p\<in>set ps. candidate m e p = Some (first_candidate m e ps)"
  by (induction ps) (auto split: option.splits)

text \<open>The digits chosen read back as the value: the fall-back after the seventeen attempts is never taken.\<close>

lemma shortest_reads_back:
  assumes "canonical m e" "0 < m" "shortest_decimal m e = (k, s)"
  shows "reads_back m e k s \<and> 0 < k \<and> k \<le> 10 ^ 17"
proof -
  have "17 \<in> set [1..<18]" by simp
  then obtain p where "p \<in> set [1..<18]" "candidate m e p = Some (k, s)"
    using first_candidate_found [of "[1..<18]" m e] candidate_17 [OF assms(1,2)] assms(3)
    unfolding shortest_decimal_def by metis
  then show ?thesis using candidate_sound [OF assms(2), of p e k s] reads_back_pos assms(2) by auto
qed

lemma trimmed_value:
  assumes "trimmed_digits k s = (ds, s')" "0 < k"
  shows "list_all is_digit ds \<and> ds \<noteq> [] \<and> real (digits_value 10 ds) * 10 powi s' = real k * 10 powi s"
proof -
  have ds: "ds = strip_zeros (nat_to_string k)" and len: "s' = s + int (length (nat_to_string k)) - int (length ds)"
    using assms(1) by (auto simp: trimmed_digits_def Let_def)
  obtain j where j: "nat_to_string k = ds @ replicate j (CHR ''0'')"
    using strip_zeros_split [of "nat_to_string k"] unfolding ds by blast
  have s': "s' = s + int j" using len arg_cong [OF j, of length] by simp
  have v: "k = digits_value 10 ds * 10 ^ j"
    using digits_value_zeros [of ds j] digits_value_nat_to_string [of k] j by simp
  have "list_all is_digit ds" using digits_list [of k] unfolding j by simp
  moreover have "ds \<noteq> []" using v assms(2) by (auto simp: digits_value_def)
  moreover have "real (digits_value 10 ds) * 10 powi s' = real k * 10 powi s"
    using power_int_add [of "10::real" s "int j"] by (subst v) (simp add: s' powi10_nat)
  ultimately show ?thesis by blast
qed

lemma scientific_literal:
  "ds \<noteq> [] \<Longrightarrow> scientific_text ds s = literal_text (take 1 ds) (drop 1 ds) (Some (s + int (length ds) - 1))
    \<and> s + int (length ds) - 1 - int (length (drop 1 ds)) = s"
  by (cases ds) (simp_all add: scientific_text_def literal_text_def)

text \<open>A whole number that rounds to a double with a negative exponent is that double.\<close>

lemma whole_rounds_exact:
  assumes "0 < n" "round_ratio neg n 1 = Fin neg m e" "e < 0"
  shows "real n = real m * 2 powi e"
proof -
  define e0 where "e0 = ratio_exponent n 1"
  obtain n' d' where s: "scale2 n 1 e0 = (n', d')" by fastforce
  define q where "q = div_rne n' d'"
  have me: "q = 2 ^ 53 \<and> m = 2 ^ 52 \<and> e = e0 + 1 \<or> m = q \<and> e = e0"
    using round_ratio_cases [OF assms(1) s [unfolded e0_def], of neg] assms(2)
    by (auto simp: Let_def e0_def simp flip: q_def split: if_splits)
  then have "e0 < 0" using assms(3) by auto
  then have nd: "n' = n * 2 ^ nat (- e0)" "d' = 1" using s by (simp_all add: scale2_def)
  then have "q = n * 2 ^ nat (- e0)" by (simp add: q_def div_rne_def)
  then have "real q = real n * 2 ^ nat (- e0)" by simp
  then have q: "real q * 2 powi e0 = real n" using \<open>e0 < 0\<close>
    by (simp add: power_int_def power_inverse flip: power_mult_distrib)
  show ?thesis
  proof (cases "m = q \<and> e = e0")
    case False
    then have "q = 2 ^ 53" "m = 2 ^ 52" "e = e0 + 1" using me by auto
    then show ?thesis using q by (simp add: powi_step)
  qed (use q in simp)
qed

lemma fixed_literal:
  assumes "list_all is_digit ds" "ds \<noteq> []" "s < 0"
  shows "\<exists>ip fp. fixed_text m e ds s = literal_text ip fp None \<and> list_all is_digit ip \<and> ip \<noteq> [] \<and> list_all is_digit fp
    \<and> digits_value 10 (ip @ fp) = digits_value 10 ds \<and> - int (length fp) = s"
proof -
  define after where "after = nat (- s)"
  have after: "0 < after" "- int after = s" using assms(3) by (simp_all add: after_def)
  show ?thesis
  proof (cases "after < length ds")
    case True
    have dig: "list_all is_digit (take k ds)" "list_all is_digit (drop k ds)" for k
      using assms(1) by (auto simp: list_all_iff dest: in_set_takeD in_set_dropD)
    have "fixed_text m e ds s = literal_text (take (length ds - after) ds) (drop (length ds - after) ds) None"
      using assms(3) True after(1) by (simp add: fixed_text_def Let_def literal_text_def after_def)
    moreover have "take (length ds - after) ds \<noteq> []" using True by auto
    ultimately show ?thesis using dig True after(2)
      by (intro exI [of _ "take (length ds - after) ds"] exI [of _ "drop (length ds - after) ds"]) simp
  next
    case False
    have z: "is_digit (CHR ''0'')" by (simp add: is_digit_nat)
    define fp where "fp = replicate (after - length ds) (CHR ''0'') @ ds"
    have "fixed_text m e ds s = literal_text ''0'' fp None"
      using assms(2,3) False by (simp add: fixed_text_def Let_def literal_text_def after_def fp_def)
    moreover have "digits_value 10 (''0'' @ fp) = digits_value 10 ds"
      using zero_digits [of "Suc (after - length ds)" ds] by (simp add: fp_def)
    moreover have "list_all is_digit fp" using z assms(1) by (auto simp: fp_def list_all_iff)
    moreover have "- int (length fp) = s" using False after by (simp add: fp_def)
    ultimately show ?thesis using z by (intro exI [of _ "''0''"] exI [of _ fp]) simp
  qed
qed

text \<open>The digits of a whole number with a non-negative exponent are those of the value itself.\<close>

lemma whole_text:
  assumes c: "canonical m e" "0 < m" and r: "ratio_of m e = (n, d)"
    and k: "reads_back m e k s" "0 < k" "0 \<le> s"
  shows "real (n div d) = real m * 2 powi e \<and> 2 ^ 52 \<le> m"
proof -
  have nd: "0 < d" "real n / real d = real m * 2 powi e" using ratio_of_real [OF r] by auto
  define w where "w = k * 10 ^ nat s"
  have w: "0 < w" "round_ratio False w 1 = Fin False m e"
    using k by (simp_all add: reads_back_def round_power_def w_def)
  have div: "real (n div d) = real m * 2 powi e"
  proof (cases "e < 0")
    case True
    have "real w = real n / real d" using whole_rounds_exact [OF w True] nd(2) by simp
    then have "real n = real w * real d" using nd(1) by (simp add: field_simps)
    then have "n = w * d" by (simp flip: of_nat_mult add: of_nat_eq_iff)
    then show ?thesis using nd by simp
  next
    case False
    then show ?thesis using r by (auto simp: ratio_of_def power_int_def)
  qed
  have "2 ^ 52 \<le> m"
  proof (rule ccontr)
    assume "\<not> 2 ^ 52 \<le> m"
    then have m: "m < 2 ^ 52" by simp
    then have "e = -1074" using c(1) by (simp add: canonical_def)
    then have "w * 2 ^ 1074 = m"
      using whole_rounds_exact [OF w] by (simp add: power_int_def field_simps flip: of_nat_eq_iff [where 'a = real])
    moreover have "2 ^ 52 * 1 \<le> 2 ^ 1074 * w" using w(1) by (intro mult_le_mono power_increasing) simp_all
    ultimately show False using m by (simp add: mult.commute)
  qed
  with div show ?thesis by blast
qed

lemma fixed_reads:
  assumes c: "canonical m e" "0 < m"
    and k: "reads_back m e k s0" "0 < k" "k \<le> 10 ^ 17" and t: "trimmed_digits k s0 = (ds, s)"
  shows "parseDouble ((if neg then ''-'' else []) @ fixed_text m e ds s) = (if m < 2 ^ 52 then None else Some (Fin neg m e))"
proof -
  note ds = trimmed_value [OF t k(2)]
  have r: "round_power neg k 10 s0 = Fin neg m e" using k(1) unfolding reads_back_def by (rule round_power_sign)
  show ?thesis
  proof (cases "0 \<le> s")
    case True
    obtain n d where nd: "ratio_of m e = (n, d)" by fastforce
    have "round_power False (digits_value 10 ds) 10 s = Fin False m e"
      using k(1) round_power_cong [of "digits_value 10 ds" s k s0] ds by (simp add: reads_back_def)
    then have "reads_back m e (digits_value 10 ds) s" by (simp add: reads_back_def)
    then have w: "real (n div d) = real m * 2 powi e" "2 ^ 52 \<le> m"
      using whole_text [OF c nd] reads_back_pos c(2) True by blast+
    have "0 < real (n div d)" unfolding w(1) using c(2) by simp
    then have pos: "0 < n div d" by (simp only: of_nat_0_less_iff)
    have "round_power neg (n div d) 10 0 = Fin neg m e"
      using round_power_near [OF c pos, of 0 neg] w(1) by simp
    then have "finish_literal neg (n div d) 10 0 [] = Inr (Fin neg m e, [])"
      using finish_literal_rounded w(2) by simp
    then have "parseDouble ((if neg then ''-'' else []) @ literal_text (nat_to_string (n div d)) [] None) = Some (Fin neg m e)"
      using parse_literal [OF digits_list nat_to_string_not_Nil, of "[]" neg "n div d" None]
      by (simp add: digits_value_nat_to_string)
    then show ?thesis using True w(2) by (simp add: fixed_text_def nd literal_text_def)
  next
    case False
    then obtain ip fp where lit: "fixed_text m e ds s = literal_text ip fp None" "list_all is_digit ip" "ip \<noteq> []"
      "list_all is_digit fp" "digits_value 10 (ip @ fp) = digits_value 10 ds" "- int (length fp) = s"
      using fixed_literal [of ds s m e] ds by auto
    have "real (digits_value 10 (ip @ fp)) * 10 powi ((case None of None \<Rightarrow> 0 | Some z \<Rightarrow> z) - int (length fp))
        = real k * 10 powi s0"
      using ds lit(5,6) by simp
    from parse_rounded [OF lit(2-4) c k(2,3) this r] show ?thesis unfolding lit(1) .
  qed
qed

lemma scientific_reads:
  assumes c: "canonical m e" "0 < m"
    and k: "reads_back m e k s0" "0 < k" "k \<le> 10 ^ 17" and t: "trimmed_digits k s0 = (ds, s)"
  shows "parseDouble ((if neg then ''-'' else []) @ scientific_text ds s) = (if m < 2 ^ 52 then None else Some (Fin neg m e))"
proof -
  note ds = trimmed_value [OF t k(2)]
  have r: "round_power neg k 10 s0 = Fin neg m e" using k(1) unfolding reads_back_def by (rule round_power_sign)
  have lit: "scientific_text ds s = literal_text (take 1 ds) (drop 1 ds) (Some (s + int (length ds) - 1))"
    "s + int (length ds) - 1 - int (length (drop 1 ds)) = s"
    using scientific_literal ds by blast+
  have dig: "list_all is_digit (take 1 ds)" "take 1 ds \<noteq> []" "list_all is_digit (drop 1 ds)"
    using ds by (auto simp: list_all_iff dest: in_set_takeD in_set_dropD)
  have "real (digits_value 10 (take 1 ds @ drop 1 ds))
      * 10 powi ((case Some (s + int (length ds) - 1) of None \<Rightarrow> 0 | Some z \<Rightarrow> z) - int (length (drop 1 ds)))
      = real k * 10 powi s0"
    unfolding append_take_drop_id option.case lit(2) using ds by blast
  from parse_rounded [OF dig c k(2,3) this r] show ?thesis unfolding lit(1) .
qed

lemma to_chars_roundtrip:
  assumes "is_double v"
  shows "parseDouble (to_chars v) = (if subnormal v then None else Some v)"
proof (cases v)
  case (Fin neg m e)
  then have c: "canonical m e" using assms by simp
  show ?thesis
  proof (cases "m = 0")
    case True
    then show ?thesis using g17_roundtrip [OF assms] by (simp add: Fin)
  next
    case False
    obtain k s0 where sd: "shortest_decimal m e = (k, s0)" by fastforce
    obtain ds s where td: "trimmed_digits k s0 = (ds, s)" by fastforce
    have k: "reads_back m e k s0" "0 < k" "k \<le> 10 ^ 17" using shortest_reads_back [OF c _ sd] False by auto
    show ?thesis
      using fixed_reads [OF c _ k td, of neg] scientific_reads [OF c _ k td, of neg] False
      by (simp add: Fin sd td Let_def)
  qed
qed (use g17_roundtrip [OF assms] in simp_all)

section \<open>What \<open>parseDouble\<close> returns is a double\<close>

lemma finish_literal_is_double: "0 < b \<Longrightarrow> finish_literal neg M b E rest = Inr (v, r) \<Longrightarrow> is_double v"
proof -
  assume b: "0 < b" and f: "finish_literal neg M b E rest = Inr (v, r)"
  obtain n d where nd: "power_ratio M b E = (n, d)" by fastforce
  have "0 < d" using power_ratio_real [OF b nd] by blast
  then have "is_double (round_ratio neg n d)" by (rule round_ratio_is_double)
  moreover have "v = round_ratio neg n d"
    using f unfolding finish_literal_ratio [OF nd] by (simp add: Let_def split: if_splits)
  ultimately show ?thesis by simp
qed

lemma stod_is_double: "stod s = Inr (v, used) \<Longrightarrow> is_double v"
proof -
  assume s: "stod s = Inr (v, used)"
  obtain neg t where t: "take_sign (dropWhile is_cspace s) = (neg, t)" by fastforce
  obtain r where r: "stod_unsigned neg t = Inr (v, r)"
    using s by (auto simp: stod_def t split: sum.splits)
  have exp: "\<exists>e r'. (let (e, r') = x in finish_literal neg M b (e - z) r') = finish_literal neg M b (e - z) r'" for x M b z
    by (cases x) auto
  show ?thesis
    using r finish_literal_is_double [of 2] finish_literal_is_double [of 10]
    by (auto simp: stod_unsigned_def Let_def split: option.splits prod.splits)
qed

lemma parse_is_double: "parseDouble s = Some v \<Longrightarrow> is_double v"
proof -
  assume p: "parseDouble s = Some v"
  have "is_double (dbl_of_int i)" for i
    by (simp add: dbl_of_int_def dbl_zero_def canonical_def round_ratio_is_double)
  then show ?thesis
    using p by (auto simp: parseDouble_def Let_def dest: stod_is_double split: if_splits option.splits sum.splits)
qed

text \<open>Every initial value the model builder reads is one.\<close>

lemma built_init_is_double: "initValue (fst (buildSignal node warnings)) = Some v \<Longrightarrow> is_double v"
  by (auto simp: buildSignal_def Let_def case_prod_unfold dest: parse_is_double split: option.splits if_splits)

text \<open>The least positive double is written and not read back.\<close>

lemma subnormal_lost: "parseDouble (doubleToString (Fin False 1 (-1074))) = None"
  using g17_roundtrip [of "Fin False 1 (-1074)"] by (simp add: canonical_def doubleToString_def)

end
