(* ===== verification/WriteRoundTrip.thy ===== *)
theory WriteRoundTrip
  imports WriteReading DoubleText
begin

text \<open>
  Whole projects through a round trip: which tags a written tree has, what part of each object
  survives (\<open>keptCluster\<close> and its siblings), parsing what was written, and writing it again.
\<close>

section \<open>The tags of a written tree\<close>

fun tags_in :: "xml list \<Rightarrow> string list" where
  "tags_in [] = []"
| "tags_in (Text t # ds) = tags_in ds"
| "tags_in (Elem n as cs # ds) = n # tags_in cs @ tags_in ds"

lemma reads_tags:
  "reads_as x k \<Longrightarrow> tags_in [x] = map tagName (nodes_in [k])"
  "reads_kids xs ks \<Longrightarrow> tags_in xs = map tagName (nodes_in ks)"
proof (induction x k and xs ks rule: reads_as_reads_kids.induct)
  case (5 n as cs ds ks)
  then obtain k ks' where ks: "ks = k # ks'" "reads_as (Elem n as cs) k" "reads_kids ds ks'"
    by (auto simp: reads_kids_elem)
  have "nodes_in (k # ks') = nodes_in [k] @ nodes_in ks'"
    using nodes_in_append [of "[k]" ks'] by simp
  then show ?case using 5 ks by simp
qed auto

lemma tags_in_append: "tags_in (xs @ ys) = tags_in xs @ tags_in ys"
  by (induction xs rule: tags_in.induct) auto

lemma tags_in_map: "tags_in (map f xs) = concat (map (\<lambda>x. tags_in [f x]) xs)"
proof (induction xs)
  case (Cons x xs)
  then show ?case using tags_in_append [of "[f x]" "map f xs"] by simp
qed simp

definition family_tags :: "string list" where
  "family_tags = [''CLUSTER'', ''CAN-CLUSTER'', ''ECU-INSTANCE'', ''FRAME'', ''CAN-FRAME'', ''PDU'',
     ''I-SIGNAL-I-PDU'', ''SYSTEM-SIGNAL'', ''I-SIGNAL'', ''SIGNAL-GROUP'', ''I-SIGNAL-GROUP'']"

definition inner_free :: "xml \<Rightarrow> bool" where
  "inner_free x \<longleftrightarrow> set (tags_in (xml_children x)) \<inter> set family_tags = {}"

lemma tags_plain: "plain_content sc \<Longrightarrow> CHR ''&'' \<notin> set t \<Longrightarrow> tags_in (sc t) = []"
  by (simp add: plain_content_def)

lemma tags_textChild: "plain_content sc \<Longrightarrow> safe_text t \<Longrightarrow> tags_in (textChild sc tag t # ds) = tag # tags_in ds"
  by (simp add: textChild_def tags_plain safe_text_def)

lemma tags_refChild: "plain_content sc \<Longrightarrow> safe_text t \<Longrightarrow> tags_in (refChild sc tag dest t # ds) = tag # tags_in ds"
  by (simp add: refChild_def tags_plain safe_text_def)

lemma tags_optional:
  "plain_content sc \<Longrightarrow> \<forall>t. v = Some t \<longrightarrow> safe_text t \<Longrightarrow> set (tags_in (optionalTextChild sc tag v)) \<subseteq> {tag}"
  by (cases v) (auto simp: optionalTextChild_def tags_textChild)

lemma tags_enumerated:
  assumes "\<And>im. snd im \<in> set ms \<Longrightarrow> set (tags_in [g im]) \<subseteq> A"
  shows "set (tags_in (map g (enumerate 0 (sort_key f ms)))) \<subseteq> A"
proof -
  have "snd im \<in> set ms" if "im \<in> set (enumerate 0 (sort_key f ms))" for im
    using imageI [OF that, of snd] map_snd_enumerate [of 0 "sort_key f ms"] by (metis set_map set_sort)
  then have "set (tags_in [g im]) \<subseteq> A" if "im \<in> set (enumerate 0 (sort_key f ms))" for im
    using that assms by blast
  then show ?thesis by (simp only: tags_in_map set_concat set_map) blast
qed

lemmas free_simps = inner_free_def family_tags_def tags_in_append tags_in_map tags_textChild tags_refChild
  safe_name_def

lemma cluster_free:
  assumes "plain_content sc" and "safe_name (shortName (cluster_common c))"
    and "\<forall>t. category (cluster_common c) = Some t \<longrightarrow> safe_text t"
    and "\<forall>m \<in> set (physicalChannels c). safe_name m"
  shows "inner_free (buildClusterElement sc c)"
  using assms tags_optional [OF assms(1,3), of "''CATEGORY''"]
  by (auto simp: free_simps buildClusterElement_def sortedStrings_def channelEntry_def safe_u32
      split: option.splits if_splits)

lemma ecu_free:
  assumes "plain_content sc" and "safe_name (shortName (ecu_common x))"
    and "\<forall>t. category (ecu_common x) = Some t \<longrightarrow> safe_text t"
    and "\<forall>m \<in> set (controllers x). safe_name m"
  shows "inner_free (buildEcuInstanceElement sc x)"
  using assms tags_optional [OF assms(1,3), of "''CATEGORY''"]
  by (auto simp: free_simps buildEcuInstanceElement_def sortedStrings_def controllerEntry_def
      split: option.splits if_splits)

lemma frame_free:
  assumes "plain_content sc" and "safe_name (shortName (frame_common f))"
    and "\<forall>m \<in> set (frame_pdus f). safe_ref (pduShortNameRef m)"
  shows "inner_free (buildFrameElement sc f)"
proof -
  have "set (tags_in [framePduEntry sc (shortName (frame_common f)) im])
      \<subseteq> {''PDU-TO-FRAME-MAPPING'', ''SHORT-NAME'', ''PDU-REF'', ''START-POSITION''}"
    if "snd im \<in> set (frame_pdus f)" for im
    using that assms safe_mappingName [OF assms(2)] safe_sys_path
    by (cases im) (auto simp: framePduEntry_def tags_textChild tags_refChild tags_in_append safe_u32 safe_ref_def)
  then have "set (tags_in (map (framePduEntry sc (shortName (frame_common f))) (enumerate 0 (sortedFramePduMappings (frame_pdus f)))))
      \<subseteq> {''PDU-TO-FRAME-MAPPING'', ''SHORT-NAME'', ''PDU-REF'', ''START-POSITION''}"
    unfolding sortedFramePduMappings_def by (rule tags_enumerated)
  then show ?thesis
    using assms(1,2) by (auto simp: inner_free_def family_tags_def safe_name_def buildFrameElement_def tags_textChild safe_u32
        dest: subsetD split: if_splits)
qed

lemma pdu_free:
  assumes "plain_content sc" and "safe_name (shortName (pdu_common p))"
    and "\<forall>m \<in> set (signalMappings p). safe_ref (signalShortNameRef m)"
  shows "inner_free (buildPduElement sc p)"
proof -
  have "set (tags_in [pduSignalEntry sc (shortName (pdu_common p)) im])
      \<subseteq> {''I-SIGNAL-TO-I-PDU-MAPPING'', ''SHORT-NAME'', ''I-SIGNAL-REF'', ''START-POSITION''}"
    if "snd im \<in> set (signalMappings p)" for im
    using that assms safe_mappingName [OF assms(2)] safe_sys_path
    by (cases im) (auto simp: pduSignalEntry_def tags_textChild tags_refChild tags_in_append safe_u32 safe_ref_def)
  then have "set (tags_in (map (pduSignalEntry sc (shortName (pdu_common p))) (enumerate 0 (sortedPduSignalMappings (signalMappings p)))))
      \<subseteq> {''I-SIGNAL-TO-I-PDU-MAPPING'', ''SHORT-NAME'', ''I-SIGNAL-REF'', ''START-POSITION''}"
    unfolding sortedPduSignalMappings_def by (rule tags_enumerated)
  then show ?thesis
    using assms(1,2) by (auto simp: inner_free_def family_tags_def safe_name_def buildPduElement_def tags_textChild safe_u32
        dest: subsetD split: if_splits)
qed

lemma signal_free:
  assumes "plain_content sc" and "safe_name (shortName (signal_common s))"
  shows "inner_free (buildSignalElement sc s)"
proof -
  have "safe_text ''/SwBaseType/SINT8''" by (simp add: safe_text_def trimmed_def is_blank_def)
  then show ?thesis
    using assms by (auto simp: free_simps buildSignalElement_def safe_u32 doubleToString_def safe_fmt_g17
        split: option.splits if_splits)
qed

lemma group_free:
  assumes "plain_content sc" and "safe_name (shortName (group_common g))"
    and "\<forall>m \<in> set (members g). safe_name m"
  shows "inner_free (buildSignalGroupElement sc g)"
  using assms safe_sys_path
  by (auto simp: free_simps buildSignalGroupElement_def sortedStrings_def memberRef_def split: if_splits)

section \<open>What survives a round trip\<close>

text \<open>
  The part of each object the writer keeps: sorted lists, no span, and without the losses listed in
  \<open>write_elements.cpp\<close> (connected channels, transmitters, byte orders, scaling, receivers, value
  tables) and the category of everything but clusters and ECUs.
\<close>

definition keptName :: "common_fields \<Rightarrow> common_fields" where
  "keptName c = \<lparr>shortName = shortName c, category = None, rawSpanRef = no_span\<rparr>"

definition keptCluster :: "cluster \<Rightarrow> cluster" where
  "keptCluster c = \<lparr>cluster_common = (cluster_common c)\<lparr>rawSpanRef := no_span\<rparr>, baudrate = baudrate c,
     physicalChannels = sort (physicalChannels c)\<rparr>"

definition keptEcu :: "ecu_instance \<Rightarrow> ecu_instance" where
  "keptEcu x = \<lparr>ecu_common = (ecu_common x)\<lparr>rawSpanRef := no_span\<rparr>, connectedChannels = [],
     controllers = sort (controllers x)\<rparr>"

definition keptFrame :: "frame \<Rightarrow> frame" where
  "keptFrame f = \<lparr>frame_common = keptName (frame_common f), frame_length = frame_length f, transmitters = [],
     frame_pdus = sort_key pduShortNameRef (frame_pdus f)\<rparr>"

definition keptPdu :: "pdu \<Rightarrow> pdu" where
  "keptPdu p = \<lparr>pdu_common = keptName (pdu_common p), pdu_length = pdu_length p,
     signalMappings = map (\<lambda>m. m\<lparr>psm_byteOrder := MostSignificantByteFirst\<rparr>)
       (sort_key signalShortNameRef (signalMappings p))\<rparr>"

definition keptSignal :: "signal \<Rightarrow> signal" where
  "keptSignal s = default_signal\<lparr>signal_common := keptName (signal_common s), bitLength := bitLength s,
     isSigned := isSigned s,
     initValue := (case initValue s of None \<Rightarrow> None | Some v \<Rightarrow> if subnormal v then None else Some v)\<rparr>"

definition keptGroup :: "signal_group \<Rightarrow> signal_group" where
  "keptGroup g = \<lparr>group_common = keptName (group_common g), members = sort (members g)\<rparr>"

text \<open>The same object with its span forgotten.\<close>

definition noSpan :: "common_fields \<Rightarrow> common_fields" where
  "noSpan c = c\<lparr>rawSpanRef := no_span\<rparr>"

text \<open>Names and references whose text the file format keeps as it is, and values of the type \<open>double\<close>.\<close>

definition writable :: "parsed_file \<Rightarrow> bool" where
  "writable f \<longleftrightarrow>
    list_all (\<lambda>c. safe_name (shortName (cluster_common c))
      \<and> (case category (cluster_common c) of None \<Rightarrow> True | Some t \<Rightarrow> safe_text t)
      \<and> list_all safe_name (physicalChannels c)) (clusters f) \<and>
    list_all (\<lambda>x. safe_name (shortName (ecu_common x))
      \<and> (case category (ecu_common x) of None \<Rightarrow> True | Some t \<Rightarrow> safe_text t)
      \<and> list_all safe_name (controllers x)) (ecuInstances f) \<and>
    list_all (\<lambda>x. safe_name (shortName (frame_common x))
      \<and> list_all (\<lambda>m. safe_ref (pduShortNameRef m)) (frame_pdus x)) (frames f) \<and>
    list_all (\<lambda>x. safe_name (shortName (pdu_common x))
      \<and> list_all (\<lambda>m. safe_ref (signalShortNameRef m)) (signalMappings x)) (pdus f) \<and>
    list_all (\<lambda>x. safe_name (shortName (signal_common x))
      \<and> (case initValue x of None \<Rightarrow> True | Some v \<Rightarrow> is_double v)) (signals f) \<and>
    list_all (\<lambda>x. safe_name (shortName (group_common x)) \<and> list_all safe_name (members x)) (signalGroups f)"

text \<open>
  One family: the objects \<open>xs\<close> written with \<open>b\<close> and read with \<open>build\<close> come back as their kept part.
\<close>

lemma family_reads:
  assumes "\<And>x k. x \<in> set xs \<Longrightarrow> reads_as (b x) k \<Longrightarrow> erase (fst (build k [])) = kept x"
    and "\<And>x. x \<in> set xs \<Longrightarrow> inner_free (b x)" and "\<And>x. is_elem (b x) \<and> xml_name (b x) = tag"
    and "tag \<in> set family_tags" and "reads_kids (map b xs) ks"
  shows "filter (\<lambda>k. tagName k \<in> set family_tags) (nodes_in ks) = ks
    \<and> (\<forall>k \<in> set ks. tagName k = tag) \<and> map (\<lambda>k. erase (fst (build k []))) ks = map kept xs"
proof -
  have "list_all2 (\<lambda>x k. reads_as (b x) k) xs ks" using assms(3,5) by (simp add: reads_kids_map)
  then show ?thesis using assms(1,2)
  proof (induction xs ks rule: list_all2_induct)
    case Nil
    then show ?case by simp
  next
    case (Cons x xs k ks)
    obtain as cs where b: "b x = Elem tag as cs" using assms(3) [of x] by (cases "b x") auto
    have k: "tagName k = tag" "reads_kids cs (children k)" using Cons.hyps(1) by (simp_all add: b reads_as_Elem)
    have "set (map tagName (nodes_in (children k))) \<inter> set family_tags = {}"
      using reads_tags(2) [OF k(2)] Cons.prems(2) [of x] by (simp add: b inner_free_def)
    then have "filter (\<lambda>k. tagName k \<in> set family_tags) (nodes_in (children k)) = []"
      by (auto simp: filter_empty_conv)
    moreover have "nodes_in (k # ks) = k # nodes_in (children k) @ nodes_in ks" by (cases k) simp
    ultimately show ?case using Cons k(1) assms(4) by simp
  qed
qed

definition eraseCluster :: "cluster \<Rightarrow> cluster" where
  "eraseCluster c = c\<lparr>cluster_common := noSpan (cluster_common c)\<rparr>"
definition eraseEcu :: "ecu_instance \<Rightarrow> ecu_instance" where
  "eraseEcu x = x\<lparr>ecu_common := noSpan (ecu_common x)\<rparr>"
definition eraseFrame :: "frame \<Rightarrow> frame" where
  "eraseFrame f = f\<lparr>frame_common := noSpan (frame_common f)\<rparr>"
definition erasePdu :: "pdu \<Rightarrow> pdu" where
  "erasePdu p = p\<lparr>pdu_common := noSpan (pdu_common p)\<rparr>"
definition eraseSignal :: "signal \<Rightarrow> signal" where
  "eraseSignal s = s\<lparr>signal_common := noSpan (signal_common s)\<rparr>"
definition eraseGroup :: "signal_group \<Rightarrow> signal_group" where
  "eraseGroup g = g\<lparr>group_common := noSpan (group_common g)\<rparr>"

lemmas erase_kept_defs = eraseCluster_def eraseEcu_def eraseFrame_def erasePdu_def eraseSignal_def eraseGroup_def
  noSpan_def keptName_def keptCluster_def keptEcu_def keptFrame_def keptPdu_def keptSignal_def keptGroup_def

lemma build_shape:
  "is_elem (buildClusterElement sc c) \<and> xml_name (buildClusterElement sc c) = ''CAN-CLUSTER''"
  "is_elem (buildEcuInstanceElement sc x) \<and> xml_name (buildEcuInstanceElement sc x) = ''ECU-INSTANCE''"
  "is_elem (buildFrameElement sc f) \<and> xml_name (buildFrameElement sc f) = ''CAN-FRAME''"
  "is_elem (buildPduElement sc p) \<and> xml_name (buildPduElement sc p) = ''I-SIGNAL-I-PDU''"
  "is_elem (buildSignalElement sc s) \<and> xml_name (buildSignalElement sc s) = ''I-SIGNAL''"
  "is_elem (buildSignalGroupElement sc g) \<and> xml_name (buildSignalGroupElement sc g) = ''I-SIGNAL-GROUP''"
  by (simp_all add: buildClusterElement_def buildEcuInstanceElement_def buildFrameElement_def
      buildPduElement_def buildSignalElement_def buildSignalGroupElement_def)

lemma writable_parts:
  assumes "list_all writable (files p)"
  shows "\<forall>c \<in> set (gather clusters p). safe_name (shortName (cluster_common c))
      \<and> (\<forall>t. category (cluster_common c) = Some t \<longrightarrow> safe_text t) \<and> (\<forall>m \<in> set (physicalChannels c). safe_name m)"
    and "\<forall>x \<in> set (gather ecuInstances p). safe_name (shortName (ecu_common x))
      \<and> (\<forall>t. category (ecu_common x) = Some t \<longrightarrow> safe_text t) \<and> (\<forall>m \<in> set (controllers x). safe_name m)"
    and "\<forall>x \<in> set (gather frames p). safe_name (shortName (frame_common x))
      \<and> (\<forall>m \<in> set (frame_pdus x). safe_ref (pduShortNameRef m))"
    and "\<forall>x \<in> set (gather pdus p). safe_name (shortName (pdu_common x))
      \<and> (\<forall>m \<in> set (signalMappings x). safe_ref (signalShortNameRef m))"
    and "\<forall>x \<in> set (gather signals p). safe_name (shortName (signal_common x))
      \<and> (\<forall>v. initValue x = Some v \<longrightarrow> is_double v)"
    and "\<forall>x \<in> set (gather signalGroups p). safe_name (shortName (group_common x)) \<and> (\<forall>m \<in> set (members x). safe_name m)"
  using assms by (fastforce simp: writable_def gather_def list_all_iff)+

lemma elements_read:
  assumes sc: "plain_content sc" and w: "list_all writable (files p)" and r: "reads_kids (elementNodes sc p) ks"
  shows "\<exists>k1 k2 k3 k4 k5 k6. ks = k1 @ k2 @ k3 @ k4 @ k5 @ k6
      \<and> filter (\<lambda>k. tagName k \<in> set family_tags) (nodes_in ks) = ks
      \<and> (\<forall>k \<in> set k1. tagName k = ''CAN-CLUSTER'') \<and> (\<forall>k \<in> set k2. tagName k = ''ECU-INSTANCE'')
      \<and> (\<forall>k \<in> set k3. tagName k = ''CAN-FRAME'') \<and> (\<forall>k \<in> set k4. tagName k = ''I-SIGNAL-I-PDU'')
      \<and> (\<forall>k \<in> set k5. tagName k = ''I-SIGNAL'') \<and> (\<forall>k \<in> set k6. tagName k = ''I-SIGNAL-GROUP'')
      \<and> map (\<lambda>k. eraseCluster (fst (buildCluster k []))) k1 = map keptCluster (sortedCopy cluster_common (gather clusters p))
      \<and> map (\<lambda>k. eraseEcu (fst (buildEcuInstance k []))) k2 = map keptEcu (sortedCopy ecu_common (gather ecuInstances p))
      \<and> map (\<lambda>k. eraseFrame (fst (buildFrame k []))) k3 = map keptFrame (sortedCopy frame_common (gather frames p))
      \<and> map (\<lambda>k. erasePdu (fst (buildPdu k []))) k4 = map keptPdu (sortedCopy pdu_common (gather pdus p))
      \<and> map (\<lambda>k. eraseSignal (fst (buildSignal k []))) k5 = map keptSignal (sortedCopy signal_common (gather signals p))
      \<and> map (\<lambda>k. eraseGroup (fst (buildSignalGroup k []))) k6 = map keptGroup (sortedCopy group_common (gather signalGroups p))"
proof -
  note parts = writable_parts [OF w]
  note split = reads_kids_append [THEN iffD1]
  from split [OF r [unfolded elementNodes_def]] obtain k1 q1 where q1: "ks = k1 @ q1"
    and r1: "reads_kids (map (buildClusterElement sc) (sortedCopy cluster_common (gather clusters p))) k1"
    and s1: "reads_kids (map (buildEcuInstanceElement sc) (sortedCopy ecu_common (gather ecuInstances p))
      @ map (buildFrameElement sc) (sortedCopy frame_common (gather frames p))
      @ map (buildPduElement sc) (sortedCopy pdu_common (gather pdus p))
      @ map (buildSignalElement sc) (sortedCopy signal_common (gather signals p))
      @ map (buildSignalGroupElement sc) (sortedCopy group_common (gather signalGroups p))) q1" by (elim exE conjE)
  from split [OF s1] obtain k2 q2 where q2: "q1 = k2 @ q2"
    and r2: "reads_kids (map (buildEcuInstanceElement sc) (sortedCopy ecu_common (gather ecuInstances p))) k2"
    and s2: "reads_kids (map (buildFrameElement sc) (sortedCopy frame_common (gather frames p))
      @ map (buildPduElement sc) (sortedCopy pdu_common (gather pdus p))
      @ map (buildSignalElement sc) (sortedCopy signal_common (gather signals p))
      @ map (buildSignalGroupElement sc) (sortedCopy group_common (gather signalGroups p))) q2" by (elim exE conjE)
  from split [OF s2] obtain k3 q3 where q3: "q2 = k3 @ q3"
    and r3: "reads_kids (map (buildFrameElement sc) (sortedCopy frame_common (gather frames p))) k3"
    and s3: "reads_kids (map (buildPduElement sc) (sortedCopy pdu_common (gather pdus p))
      @ map (buildSignalElement sc) (sortedCopy signal_common (gather signals p))
      @ map (buildSignalGroupElement sc) (sortedCopy group_common (gather signalGroups p))) q3" by (elim exE conjE)
  from split [OF s3] obtain k4 q4 where q4: "q3 = k4 @ q4"
    and r4: "reads_kids (map (buildPduElement sc) (sortedCopy pdu_common (gather pdus p))) k4"
    and s4: "reads_kids (map (buildSignalElement sc) (sortedCopy signal_common (gather signals p))
      @ map (buildSignalGroupElement sc) (sortedCopy group_common (gather signalGroups p))) q4" by (elim exE conjE)
  from split [OF s4] obtain k5 k6 where q5: "q4 = k5 @ k6"
    and r5: "reads_kids (map (buildSignalElement sc) (sortedCopy signal_common (gather signals p))) k5"
    and r6: "reads_kids (map (buildSignalGroupElement sc) (sortedCopy group_common (gather signalGroups p))) k6" by (elim exE conjE)
  note fam = family_tags_def sortedCopy_def
  have 1: "filter (\<lambda>k. tagName k \<in> set family_tags) (nodes_in k1) = k1 \<and> (\<forall>k \<in> set k1. tagName k = ''CAN-CLUSTER'')
      \<and> map (\<lambda>k. eraseCluster (fst (buildCluster k []))) k1 = map keptCluster (sortedCopy cluster_common (gather clusters p))"
  proof (intro family_reads [OF _ _ _ _ r1])
    show "eraseCluster (fst (buildCluster k [])) = keptCluster c"
      if "c \<in> set (sortedCopy cluster_common (gather clusters p))" "reads_as (buildClusterElement sc c) k" for c k
      using cluster_roundtrip [OF sc _ _ _ that(2)] parts(1) that(1) by (simp add: fam erase_kept_defs)
  qed (use parts(1) in \<open>simp_all add: cluster_free [OF sc] fam build_shape\<close>)
  have 2: "filter (\<lambda>k. tagName k \<in> set family_tags) (nodes_in k2) = k2 \<and> (\<forall>k \<in> set k2. tagName k = ''ECU-INSTANCE'')
      \<and> map (\<lambda>k. eraseEcu (fst (buildEcuInstance k []))) k2 = map keptEcu (sortedCopy ecu_common (gather ecuInstances p))"
  proof (intro family_reads [OF _ _ _ _ r2])
    show "eraseEcu (fst (buildEcuInstance k [])) = keptEcu x"
      if "x \<in> set (sortedCopy ecu_common (gather ecuInstances p))" "reads_as (buildEcuInstanceElement sc x) k" for x k
      using ecuInstance_roundtrip [OF sc _ _ _ that(2)] parts(2) that(1) by (simp add: fam erase_kept_defs)
  qed (use parts(2) in \<open>simp_all add: ecu_free [OF sc] fam build_shape\<close>)
  have 3: "filter (\<lambda>k. tagName k \<in> set family_tags) (nodes_in k3) = k3 \<and> (\<forall>k \<in> set k3. tagName k = ''CAN-FRAME'')
      \<and> map (\<lambda>k. eraseFrame (fst (buildFrame k []))) k3 = map keptFrame (sortedCopy frame_common (gather frames p))"
  proof (intro family_reads [OF _ _ _ _ r3])
    show "eraseFrame (fst (buildFrame k [])) = keptFrame x"
      if "x \<in> set (sortedCopy frame_common (gather frames p))" "reads_as (buildFrameElement sc x) k" for x k
      using frame_roundtrip [OF sc _ _ that(2)] parts(3) that(1) by (simp add: fam erase_kept_defs)
  qed (use parts(3) in \<open>simp_all add: frame_free [OF sc] fam build_shape\<close>)
  have 4: "filter (\<lambda>k. tagName k \<in> set family_tags) (nodes_in k4) = k4 \<and> (\<forall>k \<in> set k4. tagName k = ''I-SIGNAL-I-PDU'')
      \<and> map (\<lambda>k. erasePdu (fst (buildPdu k []))) k4 = map keptPdu (sortedCopy pdu_common (gather pdus p))"
  proof (intro family_reads [OF _ _ _ _ r4])
    show "erasePdu (fst (buildPdu k [])) = keptPdu x"
      if "x \<in> set (sortedCopy pdu_common (gather pdus p))" "reads_as (buildPduElement sc x) k" for x k
      using pdu_roundtrip [OF sc _ _ that(2)] parts(4) that(1) by (simp add: fam erase_kept_defs)
  qed (use parts(4) in \<open>simp_all add: pdu_free [OF sc] fam build_shape\<close>)
  have 5: "filter (\<lambda>k. tagName k \<in> set family_tags) (nodes_in k5) = k5 \<and> (\<forall>k \<in> set k5. tagName k = ''I-SIGNAL'')
      \<and> map (\<lambda>k. eraseSignal (fst (buildSignal k []))) k5 = map keptSignal (sortedCopy signal_common (gather signals p))"
  proof (intro family_reads [OF _ _ _ _ r5])
    show "eraseSignal (fst (buildSignal k [])) = keptSignal x"
      if "x \<in> set (sortedCopy signal_common (gather signals p))" "reads_as (buildSignalElement sc x) k" for x k
    proof -
      have x: "safe_name (shortName (signal_common x))" "\<And>v. initValue x = Some v \<Longrightarrow> is_double v"
        using parts(5) that(1) by (auto simp: fam)
      show ?thesis
        using signal_roundtrip [OF sc x(1) that(2), of "[]"] x(2) g17_roundtrip
        by (simp add: erase_kept_defs split: option.split)
    qed
  qed (use parts(5) in \<open>simp_all add: signal_free [OF sc] fam build_shape\<close>)
  have 6: "filter (\<lambda>k. tagName k \<in> set family_tags) (nodes_in k6) = k6 \<and> (\<forall>k \<in> set k6. tagName k = ''I-SIGNAL-GROUP'')
      \<and> map (\<lambda>k. eraseGroup (fst (buildSignalGroup k []))) k6 = map keptGroup (sortedCopy group_common (gather signalGroups p))"
  proof (intro family_reads [OF _ _ _ _ r6])
    show "eraseGroup (fst (buildSignalGroup k [])) = keptGroup x"
      if "x \<in> set (sortedCopy group_common (gather signalGroups p))" "reads_as (buildSignalGroupElement sc x) k" for x k
      using signalGroup_roundtrip [OF sc _ _ that(2)] parts(6) that(1) by (simp add: fam erase_kept_defs)
  qed (use parts(6) in \<open>simp_all add: group_free [OF sc] fam build_shape\<close>)
  have "ks = k1 @ k2 @ k3 @ k4 @ k5 @ k6" using q1 q2 q3 q4 q5 by simp
  moreover from this have "filter (\<lambda>k. tagName k \<in> set family_tags) (nodes_in ks) = ks"
    using 1 2 3 4 5 6 by (simp add: nodes_in_append)
  ultimately show ?thesis using 1 2 3 4 5 6
    by (elim conjE) (rule exI [of _ k1], rule exI [of _ k2], rule exI [of _ k3], rule exI [of _ k4],
      rule exI [of _ k5], rule exI [of _ k6], intro conjI; assumption)
qed

section \<open>Writing a project and parsing the result\<close>

text \<open>The nodes of a family in a tree read from a written project.\<close>

lemma tree_read:
  assumes sc: "plain_content sc" and r: "reads_as (outputTree sc p) docRoot"
  shows "\<exists>ks. reads_kids (elementNodes sc p) ks \<and> mset (attributes docRoot) = mset (xml_attrs (outputTree sc p))
      \<and> filter (\<lambda>k. tagName k \<in> set family_tags) (nodes_in [docRoot])
        = filter (\<lambda>k. tagName k \<in> set family_tags) (nodes_in ks)"
proof -
  have sys: "safe_text ''Sys''" by (simp add: safe_text_def trimmed_def is_blank_def)
  obtain a b where a: "children docRoot = [a]" "tagName a = ''AR-PACKAGES''" "children a = [b]"
      "tagName b = ''AR-PACKAGE''" and t: "tagName docRoot = ''AUTOSAR''"
      and rest: "reads_kids [textChild sc ''SHORT-NAME'' ''Sys'', Elem ''ELEMENTS'' [] (elementNodes sc p)] (children b)"
      and attr: "mset (attributes docRoot) = mset (xml_attrs (outputTree sc p))"
    using r by (auto simp: outputTree_def forRelease_def scaffold_def Let_def reads_as_Elem reads_kids_elem)
  obtain n e where n: "children b = [n, e]" "reads_as (textChild sc ''SHORT-NAME'' ''Sys'') n"
      "tagName e = ''ELEMENTS''" "reads_kids (elementNodes sc p) (children e)"
    using rest by (auto simp: reads_kids_elem reads_as_Elem)
  have unfold: "nodes_in [x] = x # nodes_in (children x)" for x by (cases x) simp
  have "nodes_in [n, e] = [n] @ e # nodes_in (children e)"
    using nodes_in_append [of "[n]" "[e]"] reads_textChild [OF sc sys n(2)]
    by (simp add: unfold leaf_of_def)
  then have "nodes_in [docRoot] = [docRoot, a, b, n, e] @ nodes_in (children e)"
    by (simp add: unfold a n(1))
  then show ?thesis
    using n(4) attr t a n(3) leaf_tag [OF reads_textChild [OF sc sys n(2)]]
    by (intro exI [of _ "children e"]) (simp add: family_tags_def)
qed

lemma tagged_family:
  assumes "set ts \<subseteq> set family_tags"
    and "filter (\<lambda>k. tagName k \<in> set family_tags) (nodes_in [docRoot]) = ks"
  shows "tagged ts docRoot = filter (\<lambda>k. tagName k \<in> set ts) ks"
proof -
  have "filter (\<lambda>k. tagName k \<in> set ts) ks = filter (\<lambda>k. tagName k \<in> set family_tags \<and> tagName k \<in> set ts) (nodes_in [docRoot])"
    by (simp add: assms(2) [symmetric])
  then show ?thesis unfolding tagged_def using assms(1) by (metis (no_types, lifting) filter_cong subsetD)
qed

lemma filter_segments:
  "\<forall>k \<in> set xs. P k \<Longrightarrow> \<forall>k \<in> set ys. \<not> P k \<Longrightarrow> \<forall>k \<in> set zs. \<not> P k \<Longrightarrow> filter P (ys @ xs @ zs) = xs"
  by (simp add: filter_empty_conv)

lemma map_of_mset:
  assumes "mset xs = mset ys" and "distinct (map fst ys)"
  shows "map_of xs = map_of ys"
proof -
  have "mset (map fst xs) = mset (map fst ys)" using assms(1) by simp
  then have "distinct (map fst xs)" using assms(2) mset_eq_imp_distinct_iff by blast
  then show ?thesis using assms mset_eq_setD [OF assms(1)] by (intro map_of_inject_set [THEN iffD2]) auto
qed

lemma schemaFilename_detected:
  assumes "mset (attributes docRoot) = mset (xml_attrs (outputTree sc p))"
    and "\<forall>c \<in> set (writeRelease p). \<not> isSchemaLocationSpace c"
  shows "detectSchemaFilename docRoot = Some (schemaFilenameForRelease (writeRelease p))"
proof -
  let ?r = "writeRelease p"
  have "map_of (attributes docRoot) = map_of (xml_attrs (outputTree sc p))"
    by (rule map_of_mset [OF assms(1)]) (simp add: outputTree_def forRelease_def scaffold_def Let_def)
  then have "map_of (attributes docRoot) ''xsi:schemaLocation'' = Some (schemaLocationForRelease ?r)"
    by (simp add: outputTree_def forRelease_def scaffold_def Let_def schemaLocationForRelease_def)
  then show ?thesis
    using secondToken_pair [OF namespaceUri_plain [OF assms(2)] schemaFilename_plain]
    by (simp add: detectSchemaFilename_secondToken schemaLocationForRelease_def)
qed

definition supported_release :: "string \<Rightarrow> bool" where
  "supported_release r \<longleftrightarrow> r \<in> snd ` set schemaFilenameTable"

lemma supported_release_written:
  assumes "supported_release r"
  shows "resolveRelease (schemaFilenameForRelease r) = Inr r \<and> (\<forall>c \<in> set r. \<not> isSchemaLocationSpace c)"
  using assms by (auto simp: supported_release_def schemaFilenameTable_def resolveRelease_def
      schemaFilenameForRelease_def isSchemaLocationSpace_def)

lemma buildSubtree_release: "autosarRelease (buildSubtree docRoot f) = autosarRelease f"
proof -
  have "autosarRelease (fold dispatchNode ns f) = autosarRelease f" for ns
    by (induction ns arbitrary: f) (simp_all add: dispatch_meta)
  then show ?thesis by (simp add: buildSubtree_def build_in_fold)
qed

lemma write_parse:
  assumes sc: "plain_content sc" and w: "list_all writable (files p)"
    and rel: "supported_release (writeRelease p)" and r: "reads_as (outputTree sc p) docRoot"
  shows "\<exists>f. buildFile path docRoot = Inr f \<and> autosarRelease f = writeRelease p
    \<and> map eraseCluster (clusters f) = map keptCluster (sortedCopy cluster_common (gather clusters p))
    \<and> map eraseEcu (ecuInstances f) = map keptEcu (sortedCopy ecu_common (gather ecuInstances p))
    \<and> map eraseFrame (frames f) = map keptFrame (sortedCopy frame_common (gather frames p))
    \<and> map erasePdu (pdus f) = map keptPdu (sortedCopy pdu_common (gather pdus p))
    \<and> map eraseSignal (signals f) = map keptSignal (sortedCopy signal_common (gather signals p))
    \<and> map eraseGroup (signalGroups f) = map keptGroup (sortedCopy group_common (gather signalGroups p))"
proof -
  obtain ks where ks: "reads_kids (elementNodes sc p) ks"
      "mset (attributes docRoot) = mset (xml_attrs (outputTree sc p))"
      "filter (\<lambda>k. tagName k \<in> set family_tags) (nodes_in [docRoot]) = filter (\<lambda>k. tagName k \<in> set family_tags) (nodes_in ks)"
    using tree_read [OF sc r] by auto
  obtain k1 k2 k3 k4 k5 k6 where split: "ks = k1 @ k2 @ k3 @ k4 @ k5 @ k6"
      "filter (\<lambda>k. tagName k \<in> set family_tags) (nodes_in ks) = ks"
    and t: "\<forall>k \<in> set k1. tagName k = ''CAN-CLUSTER''" "\<forall>k \<in> set k2. tagName k = ''ECU-INSTANCE''"
      "\<forall>k \<in> set k3. tagName k = ''CAN-FRAME''" "\<forall>k \<in> set k4. tagName k = ''I-SIGNAL-I-PDU''"
      "\<forall>k \<in> set k5. tagName k = ''I-SIGNAL''" "\<forall>k \<in> set k6. tagName k = ''I-SIGNAL-GROUP''"
    and kept: "map (\<lambda>k. eraseCluster (fst (buildCluster k []))) k1 = map keptCluster (sortedCopy cluster_common (gather clusters p))"
      "map (\<lambda>k. eraseEcu (fst (buildEcuInstance k []))) k2 = map keptEcu (sortedCopy ecu_common (gather ecuInstances p))"
      "map (\<lambda>k. eraseFrame (fst (buildFrame k []))) k3 = map keptFrame (sortedCopy frame_common (gather frames p))"
      "map (\<lambda>k. erasePdu (fst (buildPdu k []))) k4 = map keptPdu (sortedCopy pdu_common (gather pdus p))"
      "map (\<lambda>k. eraseSignal (fst (buildSignal k []))) k5 = map keptSignal (sortedCopy signal_common (gather signals p))"
      "map (\<lambda>k. eraseGroup (fst (buildSignalGroup k []))) k6 = map keptGroup (sortedCopy group_common (gather signalGroups p))"
    using elements_read [OF sc w ks(1)] by (elim exE conjE) (rule that)
  have fam: "tagged ts docRoot = filter (\<lambda>k. tagName k \<in> set ts) (k1 @ k2 @ k3 @ k4 @ k5 @ k6)"
    if "set ts \<subseteq> set family_tags" for ts
    using tagged_family [OF that] ks(3) split by metis
  have segs: "tagged [''CLUSTER'', ''CAN-CLUSTER''] docRoot = k1" "tagged [''ECU-INSTANCE''] docRoot = k2"
    "tagged [''FRAME'', ''CAN-FRAME''] docRoot = k3" "tagged [''PDU'', ''I-SIGNAL-I-PDU''] docRoot = k4"
    "tagged [''SYSTEM-SIGNAL'', ''I-SIGNAL''] docRoot = k5" "tagged [''SIGNAL-GROUP'', ''I-SIGNAL-GROUP''] docRoot = k6"
    by (subst fam; simp add: family_tags_def t filter_empty_conv)+
  note f = supported_release_written [OF rel]
  have "detectSchemaFilename docRoot = Some (schemaFilenameForRelease (writeRelease p))"
    using schemaFilename_detected [OF ks(2)] f by blast
  then show ?thesis
    using f by (simp add: buildFile_def buildSubtree_lists buildSubtree_release segs kept empty_file_def comp_def)
qed

section \<open>Writing again\<close>

lemma erased_names:
  "shortName (cluster_common (eraseCluster c)) = shortName (cluster_common c)"
  "shortName (ecu_common (eraseEcu x)) = shortName (ecu_common x)"
  "shortName (frame_common (eraseFrame f)) = shortName (frame_common f)"
  "shortName (pdu_common (erasePdu p)) = shortName (pdu_common p)"
  "shortName (signal_common (eraseSignal s)) = shortName (signal_common s)"
  "shortName (group_common (eraseGroup g)) = shortName (group_common g)"
  by (simp_all add: erase_kept_defs)

lemma kept_names:
  "shortName (cluster_common (keptCluster c)) = shortName (cluster_common c)"
  "shortName (ecu_common (keptEcu x)) = shortName (ecu_common x)"
  "shortName (frame_common (keptFrame f)) = shortName (frame_common f)"
  "shortName (pdu_common (keptPdu p)) = shortName (pdu_common p)"
  "shortName (signal_common (keptSignal s)) = shortName (signal_common s)"
  "shortName (group_common (keptGroup g)) = shortName (group_common g)"
  by (simp_all add: erase_kept_defs)

lemma build_erased:
  "buildClusterElement sc (eraseCluster c) = buildClusterElement sc c"
  "buildEcuInstanceElement sc (eraseEcu x) = buildEcuInstanceElement sc x"
  "buildFrameElement sc (eraseFrame f) = buildFrameElement sc f"
  "buildPduElement sc (erasePdu p) = buildPduElement sc p"
  "buildSignalElement sc (eraseSignal s) = buildSignalElement sc s"
  "buildSignalGroupElement sc (eraseGroup g) = buildSignalGroupElement sc g"
  by (simp_all add: erase_kept_defs buildClusterElement_def buildEcuInstanceElement_def buildFrameElement_def
      buildPduElement_def buildSignalElement_def buildSignalGroupElement_def)

lemma sort_key_again: "sort_key f (sort_key f xs) = sort_key f xs"
  by (simp add: sort_key_id_if_sorted)

lemma sort_key_map: "sort_key f (map g xs) = map g (sort_key (\<lambda>x. f (g x)) xs)"
proof -
  have "insort_key f (g x) (map g ys) = map g (insort_key (\<lambda>x. f (g x)) x ys)" for x ys by (induction ys) auto
  then show ?thesis by (induction xs) auto
qed

lemma enumerate_map: "enumerate n (map g xs) = map (\<lambda>(i, x). (i, g x)) (enumerate n xs)"
  by (induction xs arbitrary: n) auto

definition init_kept :: "signal \<Rightarrow> bool" where
  "init_kept s \<longleftrightarrow> (case initValue s of None \<Rightarrow> True | Some v \<Rightarrow> \<not> subnormal v)"

lemma build_kept:
  "buildClusterElement sc (keptCluster c) = buildClusterElement sc c"
  "buildEcuInstanceElement sc (keptEcu x) = buildEcuInstanceElement sc x"
  "buildFrameElement sc (keptFrame f) = buildFrameElement sc f"
  "buildPduElement sc (keptPdu p) = buildPduElement sc p"
  "init_kept s \<Longrightarrow> buildSignalElement sc (keptSignal s) = buildSignalElement sc s"
  "buildSignalGroupElement sc (keptGroup g) = buildSignalGroupElement sc g"
proof -
  have empty: "sort_key f xs = [] \<longleftrightarrow> xs = []" for f :: "'a \<Rightarrow> string" and xs
    by (metis length_0_conv length_sort)
  have empty': "sort ms = [] \<longleftrightarrow> ms = []" for ms :: "string list"
    by (metis length_0_conv length_sort)
  show "buildClusterElement sc (keptCluster c) = buildClusterElement sc c"
    "buildEcuInstanceElement sc (keptEcu x) = buildEcuInstanceElement sc x"
    "buildSignalGroupElement sc (keptGroup g) = buildSignalGroupElement sc g"
    by (simp_all add: erase_kept_defs buildClusterElement_def buildEcuInstanceElement_def
        buildSignalGroupElement_def sortedStrings_def sort_key_again empty')
  show "buildFrameElement sc (keptFrame f) = buildFrameElement sc f"
    by (simp add: erase_kept_defs buildFrameElement_def sortedFramePduMappings_def sort_key_again)
      (metis length_0_conv length_sort)
  have "pduSignalEntry sc n (i, m\<lparr>psm_byteOrder := b\<rparr>) = pduSignalEntry sc n (i, m)" for n i m b
    by (simp add: pduSignalEntry_def)
  then show "buildPduElement sc (keptPdu p) = buildPduElement sc p"
    by (simp add: erase_kept_defs buildPduElement_def sortedPduSignalMappings_def sort_key_again sort_key_map
        enumerate_map case_prod_unfold comp_def)
      (metis length_0_conv length_sort)
  show "init_kept s \<Longrightarrow> buildSignalElement sc (keptSignal s) = buildSignalElement sc s"
    by (auto simp: erase_kept_defs buildSignalElement_def init_kept_def default_signal_def split: option.splits)
qed

lemma family_rewrite:
  assumes "map erase ys = map kept (sortedCopy common zs)"
    and "\<And>x. b (erase x) = b x" and "\<And>x. x \<in> set zs \<Longrightarrow> b (kept x) = b x"
    and "\<And>x. shortName (common (erase x)) = shortName (common x)"
    and "\<And>x. shortName (common (kept x)) = shortName (common x)"
  shows "map b (sortedCopy common ys) = map b (sortedCopy common zs)"
proof -
  let ?n = "\<lambda>x. shortName (common x)"
  have "map ?n (map erase ys) = map ?n (map kept (sortedCopy common zs))" using assms(1) by simp
  then have "map ?n ys = map ?n (sortedCopy common zs)" by (simp add: comp_def assms(4,5))
  then have "sorted (map ?n ys)" by (simp add: sortedCopy_def)
  then have ys: "sortedCopy common ys = ys" unfolding sortedCopy_def by (rule sort_key_id_if_sorted)
  have "map b ys = map b (map erase ys)" by (simp add: assms(2))
  also have "\<dots> = map b (map kept (sortedCopy common zs))" using assms(1) by simp
  also have "\<dots> = map b (sortedCopy common zs)" using assms(3) by (simp add: sortedCopy_def)
  finally show ?thesis by (simp add: ys)
qed

section \<open>The white-space guard\<close>

lemma no_ws_text: "plain_content sc \<Longrightarrow> safe_text t \<Longrightarrow> \<not> whitespace_in (sc t)"
  by (simp add: solid_content trimmed_solid safe_text_def)

lemma ws_leaf:
  "whitespace_in (textChild sc tag t # ds) \<longleftrightarrow> whitespace_in (sc t) \<or> whitespace_in ds"
  "whitespace_in (refChild sc tag dest t # ds) \<longleftrightarrow> whitespace_in (sc t) \<or> whitespace_in ds"
  by (simp_all add: textChild_def refChild_def)

lemma ws_map: "whitespace_in (map f xs) \<longleftrightarrow> (\<exists>x \<in> set xs. whitespace_in [f x])"
proof (induction xs)
  case (Cons x xs)
  then show ?case using whitespace_in_append [of "[f x]" "map f xs"] by simp
qed simp

lemma no_ws_optional:
  "plain_content sc \<Longrightarrow> \<forall>t. v = Some t \<longrightarrow> safe_text t \<Longrightarrow> \<not> whitespace_in (optionalTextChild sc tag v)"
  by (cases v) (auto simp: optionalTextChild_def ws_leaf no_ws_text)

lemmas no_ws = ws_leaf ws_map whitespace_in_append no_ws_optional no_ws_text

lemma cluster_no_ws:
  assumes "plain_content sc" and "safe_name (shortName (cluster_common c))"
    and "\<forall>t. category (cluster_common c) = Some t \<longrightarrow> safe_text t"
    and "\<forall>m \<in> set (physicalChannels c). safe_name m"
  shows "\<not> whitespace_in [buildClusterElement sc c]"
  unfolding buildClusterElement_def
  by (cases "baudrate c") (use assms in \<open>auto simp: sortedStrings_def channelEntry_def safe_u32 safe_name_def no_ws\<close>)

lemma ecu_no_ws:
  assumes "plain_content sc" and "safe_name (shortName (ecu_common x))"
    and "\<forall>t. category (ecu_common x) = Some t \<longrightarrow> safe_text t"
    and "\<forall>m \<in> set (controllers x). safe_name m"
  shows "\<not> whitespace_in [buildEcuInstanceElement sc x]"
  unfolding buildEcuInstanceElement_def
  using assms by (auto simp: sortedStrings_def controllerEntry_def safe_name_def no_ws)

lemma enumerated_snd: "im \<in> set (enumerate 0 (sort_key f ms)) \<Longrightarrow> snd im \<in> set ms"
  by (metis imageI map_snd_enumerate set_map set_sort)

lemma frame_no_ws:
  assumes "plain_content sc" and "safe_name (shortName (frame_common f))"
    and "\<forall>m \<in> set (frame_pdus f). safe_ref (pduShortNameRef m)"
  shows "\<not> whitespace_in [buildFrameElement sc f]"
proof -
  have "\<not> whitespace_in [framePduEntry sc (shortName (frame_common f)) im]" if "snd im \<in> set (frame_pdus f)" for im
    using that assms safe_mappingName [OF assms(2)] safe_sys_path
    by (cases im) (auto simp: framePduEntry_def safe_u32 safe_ref_def no_ws)
  then show ?thesis
    using assms unfolding buildFrameElement_def sortedFramePduMappings_def
    by (auto simp: safe_u32 safe_name_def no_ws dest: enumerated_snd)
qed

lemma pdu_no_ws:
  assumes "plain_content sc" and "safe_name (shortName (pdu_common p))"
    and "\<forall>m \<in> set (signalMappings p). safe_ref (signalShortNameRef m)"
  shows "\<not> whitespace_in [buildPduElement sc p]"
proof -
  have "\<not> whitespace_in [pduSignalEntry sc (shortName (pdu_common p)) im]" if "snd im \<in> set (signalMappings p)" for im
    using that assms safe_mappingName [OF assms(2)] safe_sys_path
    by (cases im) (auto simp: pduSignalEntry_def safe_u32 safe_ref_def no_ws)
  then show ?thesis
    using assms unfolding buildPduElement_def sortedPduSignalMappings_def
    by (auto simp: safe_u32 safe_name_def no_ws dest: enumerated_snd)
qed

lemma signal_no_ws:
  assumes "plain_content sc" and "safe_name (shortName (signal_common s))"
  shows "\<not> whitespace_in [buildSignalElement sc s]"
proof -
  have "safe_text ''/SwBaseType/SINT8''" by (simp add: safe_text_def trimmed_def is_blank_def)
  then show ?thesis
    using assms unfolding buildSignalElement_def
    by (cases "initValue s") (auto simp: safe_u32 safe_name_def doubleToString_def safe_fmt_g17 no_ws)
qed

lemma group_no_ws:
  assumes "plain_content sc" and "safe_name (shortName (group_common g))"
    and "\<forall>m \<in> set (members g). safe_name m"
  shows "\<not> whitespace_in [buildSignalGroupElement sc g]"
  using assms safe_sys_path unfolding buildSignalGroupElement_def
  by (auto simp: sortedStrings_def memberRef_def safe_name_def no_ws)

lemma output_no_ws:
  assumes sc: "plain_content sc" and w: "list_all writable (files p)"
  shows "\<not> whitespace_in [outputTree sc p]"
proof -
  note parts = writable_parts [OF w]
  have "\<not> whitespace_in (elementNodes sc p)"
    using parts unfolding elementNodes_def whitespace_in_append ws_map sortedCopy_def
    by (simp add: cluster_no_ws [OF sc] ecu_no_ws [OF sc] frame_no_ws [OF sc] pdu_no_ws [OF sc]
        signal_no_ws [OF sc] group_no_ws [OF sc])
  moreover have "safe_text ''Sys''" by (simp add: safe_text_def trimmed_def is_blank_def)
  ultimately show ?thesis
    by (simp add: outputTree_def forRelease_def scaffold_def Let_def ws_leaf no_ws_text [OF sc])
qed

lemma writable_names: "writable f \<Longrightarrow> [] \<notin> set (all_names f)"
  by (auto simp: writable_def all_names_def list_all_iff safe_name_def)

section \<open>Properties\<close>

text \<open>The tree the loader makes of a written tree, with empty spans: an instance of \<open>reads_as\<close>.\<close>

fun node_of :: "xml \<Rightarrow> raw_node" where
  "node_of (Elem n as cs) = RawNode n as (concat (texts_of cs)) no_span (map node_of (filter is_elem cs))"
| "node_of (Text t) = RawNode [] [] t no_span []"

lemma reads_kids_node_of: "reads_kids xs (map node_of (filter is_elem xs))"
  by (induction xs rule: tags_in.induct) (auto simp: reads_kids_elem reads_text_def)

lemma reads_node_of: "is_elem x \<Longrightarrow> reads_as x (node_of x)"
  using reads_kids_node_of [of "[x]"] by (simp add: reads_kids_elem)

definition plain_sc :: "string \<Rightarrow> xml list" where
  "plain_sc t = (if t = [] then [] else [Text t])"

definition written_sample :: parsed_project where
  "written_sample = \<lparr>files = [empty_file\<lparr>autosarRelease := ''4.3.1'',
     clusters := [\<lparr>cluster_common = default_common\<lparr>shortName := ''Bus'', category := Some ''CAN''\<rparr>,
        baudrate = Some 500000, physicalChannels = [''Ch2'', ''Ch1'']\<rparr>],
     ecuInstances := [\<lparr>ecu_common = default_common\<lparr>shortName := ''E''\<rparr>, connectedChannels = [''Ch1''],
        controllers = [''Ctl'']\<rparr>],
     frames := [sample_frame\<lparr>frame_pdus := [\<lparr>pduShortNameRef = ''P'', fpm_startPosition = 8\<rparr>]\<rparr>],
     pdus := [\<lparr>pdu_common = default_common\<lparr>shortName := ''P''\<rparr>, pdu_length = 4,
        signalMappings = [\<lparr>signalShortNameRef = ''S'', psm_startPosition = 3, psm_byteOrder = LeastSignificantByteFirst\<rparr>]\<rparr>],
     signals := [default_signal\<lparr>signal_common := default_common\<lparr>shortName := ''S''\<rparr>, bitLength := 5,
        initValue := Some (Fin False 7205759403792794 (-56))\<rparr>],
     signalGroups := [\<lparr>group_common = default_common\<lparr>shortName := ''G''\<rparr>, members = [''S'']\<rparr>]\<rparr>],
     resolvedRefs = []\<rparr>"

lemma sample_hyps:
  "plain_content plain_sc" "list_all writable (files written_sample)" "supported_release (writeRelease written_sample)"
  "reads_as (outputTree plain_sc written_sample) (node_of (outputTree plain_sc written_sample))"
  "list_all init_kept (gather signals written_sample)"
proof -
  show "plain_content plain_sc" by (simp add: plain_content_def plain_sc_def)
  show "list_all writable (files written_sample)"
    by (simp add: written_sample_def writable_def sample_frame_def default_common_def default_signal_def
        empty_file_def safe_name_def safe_text_def trimmed_def is_blank_def safe_ref_def canonical_def)
  show "supported_release (writeRelease written_sample)"
    by (simp add: written_sample_def writeRelease_def supported_release_def schemaFilenameTable_def)
  show "reads_as (outputTree plain_sc written_sample) (node_of (outputTree plain_sc written_sample))"
    by (rule reads_node_of) (simp add: outputTree_def forRelease_def scaffold_def Let_def)
  show "list_all init_kept (gather signals written_sample)"
    by (simp add: gather_def written_sample_def init_kept_def default_signal_def)
qed

text \<open>C2: for a project whose names and texts carry no ampersand and no blank ends, and whose names have no slash
  (\<open>writable\<close>), written for a supported release: writing it and parsing the written tree gives back, family
  by family and sorted by short name, exactly the kept part of every object, and the release it was
  written for.\<close>

theorem write_then_parse:
  assumes "plain_content sc" and "list_all writable (files p)" and "supported_release (writeRelease p)"
    and "reads_as (outputTree sc p) docRoot"
  shows "\<exists>f. buildFile path docRoot = Inr f \<and> autosarRelease f = writeRelease p
    \<and> map eraseCluster (clusters f) = map keptCluster (sortedCopy cluster_common (gather clusters p))
    \<and> map eraseEcu (ecuInstances f) = map keptEcu (sortedCopy ecu_common (gather ecuInstances p))
    \<and> map eraseFrame (frames f) = map keptFrame (sortedCopy frame_common (gather frames p))
    \<and> map erasePdu (pdus f) = map keptPdu (sortedCopy pdu_common (gather pdus p))
    \<and> map eraseSignal (signals f) = map keptSignal (sortedCopy signal_common (gather signals p))
    \<and> map eraseGroup (signalGroups f) = map keptGroup (sortedCopy group_common (gather signalGroups p))"
  by (rule write_parse [OF assms])

theorem write_then_parse_witness:
  "\<exists>f. buildFile [''out.arxml''] (node_of (outputTree plain_sc written_sample)) = Inr f
    \<and> autosarRelease f = ''4.3.1'' \<and> length (pdus f) = 1
    \<and> map eraseCluster (clusters f) = [\<lparr>cluster_common = default_common\<lparr>shortName := ''Bus'', category := Some ''CAN''\<rparr>,
        baudrate = Some 500000, physicalChannels = [''Ch1'', ''Ch2'']\<rparr>]"
proof -
  obtain f where f: "buildFile [''out.arxml''] (node_of (outputTree plain_sc written_sample)) = Inr f"
      "autosarRelease f = writeRelease written_sample"
      "map eraseCluster (clusters f) = map keptCluster (sortedCopy cluster_common (gather clusters written_sample))"
      "map erasePdu (pdus f) = map keptPdu (sortedCopy pdu_common (gather pdus written_sample))"
    using write_then_parse [OF sample_hyps(1-4), of "[''out.arxml'']"] by blast
  have "length (pdus f) = 1"
    using arg_cong [OF f(4), of length] by (simp add: sortedCopy_def gather_def written_sample_def)
  moreover have "map keptCluster (sortedCopy cluster_common (gather clusters written_sample))
      = [\<lparr>cluster_common = default_common\<lparr>shortName := ''Bus'', category := Some ''CAN''\<rparr>,
        baudrate = Some 500000, physicalChannels = [''Ch1'', ''Ch2'']\<rparr>]"
    by (simp add: sortedCopy_def gather_def written_sample_def keptCluster_def default_common_def)
  ultimately show ?thesis using f(1-3) by (simp add: writeRelease_def written_sample_def)
qed

text \<open>C10: for a writable project of a supported release without a subnormal initial value (\<open>init_kept\<close>), writing what
  was parsed from the written project produces the same tree again: one round trip reaches a fixed point. A
  subnormal initial value is written and then dropped by the parser, so the second tree lacks it.\<close>

theorem write_is_stable:
  assumes "plain_content sc" and "list_all writable (files p)" and "supported_release (writeRelease p)"
    and "reads_as (outputTree sc p) docRoot" and "list_all init_kept (gather signals p)"
    and "buildFile path docRoot = Inr f"
  shows "outputTree sc \<lparr>files = [f], resolvedRefs = refs\<rparr> = outputTree sc p"
proof -
  let ?q = "\<lparr>files = [f], resolvedRefs = refs\<rparr>"
  have f: "autosarRelease f = writeRelease p"
      "map eraseCluster (clusters f) = map keptCluster (sortedCopy cluster_common (gather clusters p))"
      "map eraseEcu (ecuInstances f) = map keptEcu (sortedCopy ecu_common (gather ecuInstances p))"
      "map eraseFrame (frames f) = map keptFrame (sortedCopy frame_common (gather frames p))"
      "map erasePdu (pdus f) = map keptPdu (sortedCopy pdu_common (gather pdus p))"
      "map eraseSignal (signals f) = map keptSignal (sortedCopy signal_common (gather signals p))"
      "map eraseGroup (signalGroups f) = map keptGroup (sortedCopy group_common (gather signalGroups p))"
    using write_parse [OF assms(1-4), of path] assms(6) by auto
  have one: "gather m ?q = m f" for m :: "parsed_file \<Rightarrow> 'a list" by (simp add: gather_def)
  have "writeRelease p \<noteq> []" using assms(3) by (auto simp: supported_release_def schemaFilenameTable_def)
  then have rel: "writeRelease ?q = writeRelease p" using f(1) by (simp add: writeRelease_def)
  have sig: "buildSignalElement sc (keptSignal s) = buildSignalElement sc s" if "s \<in> set (gather signals p)" for s
    using that assms(5) build_kept(5) by (simp add: list_all_iff)
  have "elementNodes sc ?q = elementNodes sc p"
    unfolding elementNodes_def one
    by (intro arg_cong2 [where f = "(@)"] family_rewrite [OF f(2)] family_rewrite [OF f(3)] family_rewrite [OF f(4)]
        family_rewrite [OF f(5)] family_rewrite [OF f(6)] family_rewrite [OF f(7)])
      (simp_all add: build_erased build_kept sig erased_names kept_names)
  then show ?thesis by (simp add: outputTree_def rel)
qed

theorem write_is_stable_witness:
  "\<exists>f. buildFile [''out.arxml''] (node_of (outputTree plain_sc written_sample)) = Inr f
    \<and> outputTree plain_sc \<lparr>files = [f], resolvedRefs = []\<rparr> = outputTree plain_sc written_sample"
proof -
  obtain f where f: "buildFile [''out.arxml''] (node_of (outputTree plain_sc written_sample)) = Inr f"
    using write_parse [OF sample_hyps(1-4)] by blast
  show ?thesis using write_is_stable [OF sample_hyps f] f by blast
qed

text \<open>For a project whose names and texts carry no blank ends and no ampersand the white-space
  guard never fires: the write goes on to replace the file.\<close>

theorem write_guard_silent:
  assumes "plain_content sc" and "list_all writable (files p)"
  shows "writeProject e sc p path fs = replaceFile e (outputTree sc p) path fs"
proof -
  have "validate p = []" using validate_findings [of p] assms(2) writable_names by (auto simp: list_all_iff)
  then show ?thesis
    using output_no_ws [OF assms] by (simp add: writeProject_def Let_def hasErrors_def)
qed

theorem write_guard_silent_witness:
  "writeProject \<lparr>save_fails = False, partial_save = None, rename_error = None, remove_fails = False\<rparr>
      plain_sc written_sample ''out.arxml'' (\<lambda>_. None)
    = (None, (\<lambda>_. None)(''out.arxml'' := Some (outputTree plain_sc written_sample)))"
  unfolding write_guard_silent [OF sample_hyps(1,2)]
  by (auto simp: replaceFile_def writeXmlToFile_def Let_def fun_eq_iff)

end
