(* ===== verification/DiffReport.thy ===== *)
theory DiffReport
  imports ProjectParser "HOL-Library.Product_Lexorder"
begin

text \<open>
  The data the diff engine produces and its orderings and texts (\<open>diff/diff_report.hpp\<close>,
  \<open>src/diff/diff_report.cpp\<close>, \<open>src/diff/diff_render.cpp\<close>). A \<open>std::ostringstream\<close> is the string
  written so far.
\<close>

datatype diff_kind = Added | Removed | Moved | Modified

record field_diff =
  fieldName :: string
  oldValue :: string
  newValue :: string

record diff_entry =
  de_kind :: diff_kind
  elementType :: string
  oldPath :: string
  newPath :: string
  fieldDiffs :: "field_diff list"

record diff_diagnostic =
  dd_message :: string
  dd_elementType :: string

record diff_report =
  entries :: "diff_entry list"
  diagnostics :: "diff_diagnostic list"

definition empty_report :: diff_report where
  "empty_report = \<lparr>entries = [], diagnostics = []\<rparr>"

definition mergeReport :: "diff_report \<Rightarrow> diff_report \<Rightarrow> diff_report" where
  "mergeReport r other =
    \<lparr>entries = entries r @ entries other, diagnostics = diagnostics r @ diagnostics other\<rparr>"

fun kind_to_string :: "diff_kind \<Rightarrow> string" where
  "kind_to_string Added = ''Added''"
| "kind_to_string Removed = ''Removed''"
| "kind_to_string Moved = ''Moved''"
| "kind_to_string Modified = ''Modified''"

definition dquoted :: "string \<Rightarrow> string" where
  "dquoted s = CHR 0x22 # s @ [CHR 0x22]"

definition newline :: string where
  "newline = [CHR 0x0A]"

definition entryDebugText :: "diff_entry \<Rightarrow> string" where
  "entryDebugText e =
    ''['' @ kind_to_string (de_kind e) @ ''] '' @ elementType e @
    (case de_kind e of
       Added \<Rightarrow> '' new='' @ dquoted (newPath e)
     | Removed \<Rightarrow> '' old='' @ dquoted (oldPath e)
     | Moved \<Rightarrow> '' old='' @ dquoted (oldPath e) @ '' new='' @ dquoted (newPath e)
     | Modified \<Rightarrow> '' path='' @ dquoted (newPath e)) @
    '' fields='' @ nat_to_string (length (fieldDiffs e))"

definition toDebugString :: "diff_report \<Rightarrow> string" where
  "toDebugString r =
    ''DiffReport('' @ nat_to_string (length (entries r)) @ '' entries, ''
      @ nat_to_string (length (diagnostics r)) @ '' diagnostics)''
      @ concat (map (\<lambda>e. newline @ ''  '' @ entryDebugText e) (entries r))
      @ concat (map (\<lambda>d. newline @ ''  [Diagnostic] '' @ dd_elementType d @ '': '' @ dd_message d)
          (diagnostics r))"

section \<open>Ordering\<close>

fun sortKeyFor :: "diff_entry \<Rightarrow> string" where
  "sortKeyFor e = (case de_kind e of Removed \<Rightarrow> oldPath e | _ \<Rightarrow> newPath e)"

text \<open>
  \<open>std::ranges::sort\<close> with the two lexicographic comparators. The stable \<open>sort_key\<close> is one of the
  results the standard allows; that there is no other one is a theorem about the engine.
\<close>

definition entryKey :: "diff_entry \<Rightarrow> string \<times> string" where
  "entryKey e = (sortKeyFor e, elementType e)"

definition diagKey :: "diff_diagnostic \<Rightarrow> string \<times> string" where
  "diagKey d = (dd_message d, dd_elementType d)"

definition sortDeterministically :: "diff_report \<Rightarrow> diff_report" where
  "sortDeterministically r =
    \<lparr>entries = sort_key entryKey (entries r), diagnostics = sort_key diagKey (diagnostics r)\<rparr>"

section \<open>Text\<close>

definition renderFieldLines :: "diff_entry \<Rightarrow> string" where
  "renderFieldLines e =
    concat (map (\<lambda>f. ''    '' @ fieldName f @ '': '' @ oldValue f @ '' -> '' @ newValue f @ newline)
      (fieldDiffs e))"

definition renderEntryLines :: "diff_entry \<Rightarrow> string" where
  "renderEntryLines e =
    (case de_kind e of
       Added \<Rightarrow> ''  '' @ elementType e @ '' '' @ newPath e @ newline
     | Removed \<Rightarrow> ''  '' @ elementType e @ '' '' @ oldPath e @ newline
     | Moved \<Rightarrow> ''  '' @ elementType e @ '' '' @ oldPath e @ '' -> '' @ newPath e @ newline
                  @ renderFieldLines e
     | Modified \<Rightarrow> ''  '' @ elementType e @ '' '' @ newPath e @ newline @ renderFieldLines e)"

definition hasKind :: "diff_entry list \<Rightarrow> diff_kind \<Rightarrow> bool" where
  "hasKind es k \<longleftrightarrow> list_ex (\<lambda>e. de_kind e = k) es"

text \<open>The closure \<open>emitSection\<close>: the text so far and whether no section was written yet.\<close>

definition emitSection ::
  "diff_entry list \<Rightarrow> string \<Rightarrow> diff_kind \<Rightarrow> string \<times> bool \<Rightarrow> string \<times> bool" where
  "emitSection es title k st =
    (case st of (txt, firstSection) \<Rightarrow>
      if \<not> hasKind es k then st
      else (txt @ (if \<not> firstSection then newline else []) @ title @ '':'' @ newline
              @ concat (map (\<lambda>e. if de_kind e = k then renderEntryLines e else []) es), False))"

definition toText :: "diff_report \<Rightarrow> string" where
  "toText r =
    (if entries r = [] \<and> diagnostics r = [] then ''No differences.'' @ newline
     else
       let s1 = emitSection (entries r) ''Added'' Added ([], True);
           s2 = emitSection (entries r) ''Removed'' Removed s1;
           s3 = emitSection (entries r) ''Moved'' Moved s2;
           (txt, firstSection) = emitSection (entries r) ''Modified'' Modified s3
       in if diagnostics r \<noteq> []
          then txt @ (if \<not> firstSection then newline else []) @ ''Diagnostics:'' @ newline
                 @ concat (map (\<lambda>d. ''  ['' @ dd_elementType d @ ''] '' @ dd_message d @ newline)
                     (diagnostics r))
          else txt)"

section \<open>Facts about sorting\<close>

text \<open>Two lists sorted by an injective key with the same elements are equal.\<close>

lemma sorted_key_unique:
  assumes "sorted (map k xs)" and "sorted (map k ys)" and "mset xs = mset ys" and "inj_on k (set ys)"
  shows "xs = ys"
proof -
  have set: "set xs = set ys" using assms(3) by (metis set_mset_mset)
  have "map k xs = map k ys"
  proof -
    have "mset (map k xs) = mset (map k ys)" using assms(3) by simp
    then have "sort (map k ys) = map k xs" using assms(1) by (intro properties_for_sort) simp_all
    then show ?thesis using sorted_sort_id [OF assms(2)] by simp
  qed
  then show ?thesis using assms(4) set by (simp add: inj_on_map_eq_map)
qed

lemma sort_key_unique:
  assumes "mset xs = mset ys" and "sorted (map k xs)" and "distinct (map k ys)"
  shows "xs = sort_key k ys"
  using assms by (intro sorted_key_unique [of k]) (simp_all add: distinct_map)

end
