(* ===== verification/DiffFields.thy ===== *)
theory DiffFields
  imports DiffReport
begin

text \<open>
  Field comparison (\<open>diff/diff_fields.hpp\<close>) and key-based comparison of nested collections
  (\<open>diff/diff_nested.hpp\<close>). \<open>boost::pfr\<close> iterates the fields of an aggregate in declaration order:
  a struct is the list of its stringified fields, next to the table of field names.
\<close>

section \<open>Values as strings\<close>

definition dv_bool :: "bool \<Rightarrow> string" where
  "dv_bool v = (if v then ''true'' else ''false'')"

definition dv_byteOrder :: "byte_order \<Rightarrow> string" where
  "dv_byteOrder b = (if b = MostSignificantByteFirst then ''MostSignificantByteFirst''
     else ''LeastSignificantByteFirst'')"

fun dv_optional :: "('a \<Rightarrow> string) \<Rightarrow> 'a option \<Rightarrow> string" where
  "dv_optional f None = ''nullopt''"
| "dv_optional f (Some v) = f v"

definition dv_vector :: "('a \<Rightarrow> string) \<Rightarrow> 'a list \<Rightarrow> string" where
  "dv_vector f v = ''['' @ join_with '', '' (map f v) @ '']''"

definition dv_common :: "common_fields \<Rightarrow> string" where
  "dv_common c = ''category='' @ (case category c of Some s \<Rightarrow> s | None \<Rightarrow> ''nullopt'')"

definition dv_framePdu :: "frame_pdu_mapping \<Rightarrow> string" where
  "dv_framePdu m = pduShortNameRef m @ ''@'' @ u32_to_string (fpm_startPosition m)"

definition dv_pduSignal :: "pdu_signal_mapping \<Rightarrow> string" where
  "dv_pduSignal m = signalShortNameRef m @ ''@'' @ u32_to_string (psm_startPosition m)
     @ (if psm_byteOrder m = MostSignificantByteFirst then ''M'' else ''L'')"

definition dv_valueTableEntry :: "value_table_entry \<Rightarrow> string" where
  "dv_valueTableEntry e = i64_to_string (vte_value e) @ '':'' @ vte_label e"

section \<open>Structs\<close>

definition names_Cluster :: "string list" where
  "names_Cluster = [''common'', ''baudrate'', ''physicalChannels'']"
definition names_EcuInstance :: "string list" where
  "names_EcuInstance = [''common'', ''connectedChannels'', ''controllers'']"
definition names_FramePduMapping :: "string list" where
  "names_FramePduMapping = [''pduShortNameRef'', ''startPosition'']"
definition names_Frame :: "string list" where
  "names_Frame = [''common'', ''length'', ''transmitters'', ''pdus'']"
definition names_PduSignalMapping :: "string list" where
  "names_PduSignalMapping = [''signalShortNameRef'', ''startPosition'', ''byteOrder'']"
definition names_Pdu :: "string list" where
  "names_Pdu = [''common'', ''length'', ''signalMappings'']"
definition names_ValueTableEntry :: "string list" where
  "names_ValueTableEntry = [''value'', ''label'']"
definition names_Signal :: "string list" where
  "names_Signal = [''common'', ''startBit'', ''bitLength'', ''byteOrder'', ''isSigned'', ''factor'',
     ''offset'', ''min'', ''max'', ''unit'', ''initValue'', ''receivers'', ''valueTable'']"
definition names_SignalGroup :: "string list" where
  "names_SignalGroup = [''common'', ''members'']"

definition values_Cluster :: "cluster \<Rightarrow> string list" where
  "values_Cluster c = [dv_common (cluster_common c), dv_optional u32_to_string (baudrate c),
     dv_vector (\<lambda>s. s) (physicalChannels c)]"
definition values_EcuInstance :: "ecu_instance \<Rightarrow> string list" where
  "values_EcuInstance e = [dv_common (ecu_common e), dv_vector (\<lambda>s. s) (connectedChannels e),
     dv_vector (\<lambda>s. s) (controllers e)]"
definition values_FramePduMapping :: "frame_pdu_mapping \<Rightarrow> string list" where
  "values_FramePduMapping m = [pduShortNameRef m, u32_to_string (fpm_startPosition m)]"
definition values_Frame :: "frame \<Rightarrow> string list" where
  "values_Frame f = [dv_common (frame_common f), u32_to_string (frame_length f),
     dv_vector (\<lambda>s. s) (transmitters f), dv_vector dv_framePdu (frame_pdus f)]"
definition values_PduSignalMapping :: "pdu_signal_mapping \<Rightarrow> string list" where
  "values_PduSignalMapping m = [signalShortNameRef m, u32_to_string (psm_startPosition m),
     dv_byteOrder (psm_byteOrder m)]"
definition values_Pdu :: "pdu \<Rightarrow> string list" where
  "values_Pdu p = [dv_common (pdu_common p), u32_to_string (pdu_length p),
     dv_vector dv_pduSignal (signalMappings p)]"
definition values_ValueTableEntry :: "value_table_entry \<Rightarrow> string list" where
  "values_ValueTableEntry e = [i64_to_string (vte_value e), vte_label e]"
definition values_Signal :: "signal \<Rightarrow> string list" where
  "values_Signal s = [dv_common (signal_common s), u32_to_string (startBit s),
     u32_to_string (bitLength s), dv_byteOrder (signal_byteOrder s), dv_bool (isSigned s),
     fmt_g17 (factor s), fmt_g17 (offset s), dv_optional fmt_g17 (signal_min s),
     dv_optional fmt_g17 (signal_max s), dv_optional (\<lambda>s. s) (unit_name s),
     dv_optional fmt_g17 (initValue s), dv_vector (\<lambda>s. s) (receivers s),
     dv_optional (dv_vector dv_valueTableEntry) (valueTable s)]"
definition values_SignalGroup :: "signal_group \<Rightarrow> string list" where
  "values_SignalGroup g = [dv_common (group_common g), dv_vector (\<lambda>s. s) (members g)]"

fun diffStructImpl :: "string list \<Rightarrow> string list \<Rightarrow> string list \<Rightarrow> field_diff list" where
  "diffStructImpl (n # ns) (a # as) (b # bs) =
    (if a \<noteq> b then [\<lparr>fieldName = n, oldValue = a, newValue = b\<rparr>] else []) @ diffStructImpl ns as bs"
| "diffStructImpl _ _ _ = []"

text \<open>The template: \<open>diffStruct<T>\<close> is \<open>diffStruct names values\<close> for the struct's two tables.\<close>

definition diffStruct :: "string list \<Rightarrow> ('a \<Rightarrow> string list) \<Rightarrow> 'a \<Rightarrow> 'a \<Rightarrow> field_diff list" where
  "diffStruct names values old new = diffStructImpl names (values old) (values new)"

section \<open>Nested collections\<close>

definition indexByKey :: "('a \<Rightarrow> string) \<Rightarrow> 'a list \<Rightarrow> (string, 'a) omap" where
  "indexByKey keyOf items = fold (\<lambda>item. m_try_emplace (keyOf item) item) items []"

definition keyedName :: "string \<Rightarrow> string \<Rightarrow> string" where
  "keyedName field key = field @ ''['' @ key @ '']''"

definition diffNestedCollectionWith ::
  "'a list \<Rightarrow> 'a list \<Rightarrow> ('a \<Rightarrow> string) \<Rightarrow> ('a \<Rightarrow> string) \<Rightarrow> string
    \<Rightarrow> ('a \<Rightarrow> 'a \<Rightarrow> field_diff list) \<Rightarrow> field_diff list" where
  "diffNestedCollectionWith oldItems newItems toStr keyOf field itemDiff =
    (let oldByKey = indexByKey keyOf oldItems; newByKey = indexByKey keyOf newItems in
     concat (map (\<lambda>(key, o'). if \<not> m_contains newByKey key
        then [\<lparr>fieldName = keyedName field key, oldValue = toStr o', newValue = ''absent''\<rparr>] else []) oldByKey)
     @ concat (map (\<lambda>(key, n'). if \<not> m_contains oldByKey key
        then [\<lparr>fieldName = keyedName field key, oldValue = ''absent'', newValue = toStr n'\<rparr>] else []) newByKey)
     @ concat (map (\<lambda>(key, o'). case map_of newByKey key of
          None \<Rightarrow> []
        | Some n' \<Rightarrow> map (\<lambda>sub. \<lparr>fieldName = keyedName field key @ ''.'' @ fieldName sub,
                           oldValue = oldValue sub, newValue = newValue sub\<rparr>) (itemDiff o' n')) oldByKey))"

text \<open>The instances of \<open>diffNestedCollection\<close>: strings are their own key and have no fields.\<close>

definition diffNestedStrings :: "string list \<Rightarrow> string list \<Rightarrow> string \<Rightarrow> field_diff list" where
  "diffNestedStrings old new field =
    diffNestedCollectionWith old new (\<lambda>s. s) (\<lambda>s. s) field (\<lambda>_ _. [])"

definition diffNestedFramePdus :: "frame_pdu_mapping list \<Rightarrow> frame_pdu_mapping list \<Rightarrow> field_diff list" where
  "diffNestedFramePdus old new =
    diffNestedCollectionWith old new dv_framePdu pduShortNameRef ''pdus''
      (diffStruct names_FramePduMapping values_FramePduMapping)"

definition diffNestedPduSignals :: "pdu_signal_mapping list \<Rightarrow> pdu_signal_mapping list \<Rightarrow> field_diff list" where
  "diffNestedPduSignals old new =
    diffNestedCollectionWith old new dv_pduSignal signalShortNameRef ''signalMappings''
      (diffStruct names_PduSignalMapping values_PduSignalMapping)"

definition diffNestedValueTable :: "value_table_entry list \<Rightarrow> value_table_entry list \<Rightarrow> field_diff list" where
  "diffNestedValueTable old new =
    diffNestedCollectionWith old new dv_valueTableEntry (\<lambda>e. i64_to_string (vte_value e)) ''valueTable''
      (diffStruct names_ValueTableEntry values_ValueTableEntry)"

definition without_fields :: "string list \<Rightarrow> field_diff list \<Rightarrow> field_diff list" where
  "without_fields names ds = filter (\<lambda>d. fieldName d \<notin> set names) ds"

definition diffSignalGroupElements :: "signal_group \<Rightarrow> signal_group \<Rightarrow> field_diff list" where
  "diffSignalGroupElements old new =
    without_fields [''members''] (diffStruct names_SignalGroup values_SignalGroup old new)
    @ diffNestedStrings (members old) (members new) ''members''"

definition diffFrameElements :: "frame \<Rightarrow> frame \<Rightarrow> field_diff list" where
  "diffFrameElements old new =
    (let flat = diffStruct names_Frame values_Frame old new;
         diffs = without_fields [''pdus''] flat @ diffNestedFramePdus (frame_pdus old) (frame_pdus new);
         txOpaque = filter (\<lambda>d. fieldName d = ''transmitters'') flat
     in if txOpaque \<noteq> []
        then without_fields [''transmitters''] diffs
               @ diffNestedStrings (transmitters old) (transmitters new) ''transmitters''
        else diffs)"

definition diffPduElements :: "pdu \<Rightarrow> pdu \<Rightarrow> field_diff list" where
  "diffPduElements old new =
    without_fields [''signalMappings''] (diffStruct names_Pdu values_Pdu old new)
    @ diffNestedPduSignals (signalMappings old) (signalMappings new)"

definition diffSignalValueTable ::
  "value_table_entry list option \<Rightarrow> value_table_entry list option \<Rightarrow> field_diff list" where
  "diffSignalValueTable oldTable newTable =
    (let oldItems = (case oldTable of Some t \<Rightarrow> t | None \<Rightarrow> []);
         newItems = (case newTable of Some t \<Rightarrow> t | None \<Rightarrow> []) in
     if oldItems = [] \<and> newItems = [] \<and> (oldTable \<noteq> None) = (newTable \<noteq> None) then []
     else diffNestedValueTable oldItems newItems)"

definition diffSignalElements :: "signal \<Rightarrow> signal \<Rightarrow> field_diff list" where
  "diffSignalElements old new =
    without_fields [''valueTable'', ''receivers''] (diffStruct names_Signal values_Signal old new)
    @ diffSignalValueTable (valueTable old) (valueTable new)
    @ diffNestedStrings (receivers old) (receivers new) ''receivers''"

section \<open>Facts\<close>

lemma diffStructImpl_same: "diffStructImpl ns vs vs = []"
proof (induction ns arbitrary: vs)
  case (Cons n ns)
  then show ?case by (cases vs) simp_all
qed simp

lemma diffStruct_same [simp]: "diffStruct names values x x = []"
  by (simp add: diffStruct_def diffStructImpl_same)

lemma indexByKey_fold:
  "indexByKey keyOf items = fold (\<lambda>(k, v). m_try_emplace k v) (map (\<lambda>i. (keyOf i, i)) items) []"
proof -
  have "fold (\<lambda>item. m_try_emplace (keyOf item) item) items m
      = fold (\<lambda>(k, v). m_try_emplace k v) (map (\<lambda>i. (keyOf i, i)) items) m" for m
    by (induction items arbitrary: m) auto
  then show ?thesis by (simp add: indexByKey_def)
qed

lemma indexByKey_inv: "m_inv (indexByKey keyOf items)"
  unfolding indexByKey_fold by (rule smap.inv_emplace_all [OF smap.inv_emp])

lemma indexByKey_lookup: "map_of (indexByKey keyOf items) k = map_of (map (\<lambda>i. (keyOf i, i)) items) k"
  unfolding indexByKey_fold by (rule smap.first_wins)

lemma indexByKey_reorder:
  assumes "mset items = mset items'" and "distinct (map keyOf items)"
  shows "indexByKey keyOf items = indexByKey keyOf items'"
proof (rule smap.entries_unique [OF indexByKey_inv indexByKey_inv])
  fix k
  let ?f = "\<lambda>i. (keyOf i, i)"
  have "mset (map keyOf items) = mset (map keyOf items')" using assms(1) by simp
  from mset_eq_imp_distinct_iff [OF this] have "distinct (map fst (map ?f items'))"
    using assms(2) by (simp add: comp_def)
  moreover have "distinct (map fst (map ?f items))" using assms(2) by (simp add: comp_def)
  moreover have "set (map ?f items) = set (map ?f items')"
    using assms(1) by (metis list.set_map set_mset_mset)
  ultimately have "map_of (map ?f items) = map_of (map ?f items')"
    by (metis map_of_inject_set)
  then show "map_of (indexByKey keyOf items) k = map_of (indexByKey keyOf items') k"
    by (simp only: indexByKey_lookup)
qed

lemma nested_same: "(\<And>x. itemDiff x x = []) \<Longrightarrow>
    diffNestedCollectionWith xs xs toStr keyOf field itemDiff = []"
proof -
  assume refl: "\<And>x. itemDiff x x = []"
  let ?m = "indexByKey keyOf xs"
  have found: "map_of ?m k = Some v" if "(k, v) \<in> set ?m" for k v
    using that by (rule smap.mem_entries [OF indexByKey_inv, THEN iffD1])
  have none: "concat (map g ?m) = []" if "\<And>k v. (k, v) \<in> set ?m \<Longrightarrow> g (k, v) = []" for g :: "string \<times> 'a \<Rightarrow> field_diff list"
    using that by auto
  show ?thesis
    unfolding diffNestedCollectionWith_def Let_def append_is_Nil_conv
    by (intro conjI; rule none; drule found; simp add: refl)
qed

lemma elements_same:
  "diffSignalGroupElements g g = []" "diffFrameElements f f = []" "diffPduElements p p = []"
  "diffSignalElements s s = []"
  by (simp_all add: diffSignalGroupElements_def diffFrameElements_def diffPduElements_def
      diffSignalElements_def diffSignalValueTable_def diffNestedStrings_def diffNestedFramePdus_def
      diffNestedPduSignals_def diffNestedValueTable_def without_fields_def nested_same Let_def)

end
