(* ===== verification/DiffEngine.thy ===== *)
theory DiffEngine
  imports DiffFields
begin

text \<open>
  The diff engine: matching by path (\<open>diff/diff_match.hpp\<close>, \<open>src/diff/diff_match.cpp\<close>), move
  detection (\<open>diff/diff_moves.hpp\<close>, \<open>src/diff/diff_moves.cpp\<close>), field diffs of matched pairs
  (\<open>src/diff/diff_populate.cpp\<close>) and the facade (\<open>src/diff/diff_engine.cpp\<close>). The templates over
  the six element types take the element's common block and its secondary key as functions.
\<close>

section \<open>Matching by path\<close>

definition diffPathForShortName :: "string \<Rightarrow> string" where
  "diffPathForShortName name = (if name = [] then [] else ''/'' @ name)"

definition indexByPath :: "('a \<Rightarrow> common_fields) \<Rightarrow> 'a list \<Rightarrow> (string, 'a) omap" where
  "indexByPath common elements =
    fold (\<lambda>x m. let path = diffPathForShortName (shortName (common x)) in
      if path = [] then m else m_try_emplace path x m) elements []"

definition new_entry :: "diff_kind \<Rightarrow> string \<Rightarrow> string \<Rightarrow> string \<Rightarrow> diff_entry" where
  "new_entry k ty op np =
    \<lparr>de_kind = k, elementType = ty, oldPath = op, newPath = np, fieldDiffs = []\<rparr>"

definition matchByPath :: "(string, 'a) omap \<Rightarrow> (string, 'a) omap \<Rightarrow> string \<Rightarrow> diff_report" where
  "matchByPath oldIndex newIndex ty =
    \<lparr>entries =
       concat (map (\<lambda>(path, _). if \<not> m_contains newIndex path then [new_entry Removed ty path []] else []) oldIndex)
       @ concat (map (\<lambda>(path, _). if \<not> m_contains oldIndex path then [new_entry Added ty [] path] else []) newIndex)
       @ concat (map (\<lambda>(path, _). if m_contains newIndex path then [new_entry Modified ty path path] else []) oldIndex),
     diagnostics = []\<rparr>"

definition collectAll :: "(parsed_file \<Rightarrow> 'a list) \<Rightarrow> parsed_project \<Rightarrow> 'a list" where
  "collectAll member project = concat (map member (files project))"

definition clusterIndex :: "parsed_project \<Rightarrow> (string, cluster) omap" where
  "clusterIndex p = indexByPath cluster_common (collectAll clusters p)"
definition ecuIndex :: "parsed_project \<Rightarrow> (string, ecu_instance) omap" where
  "ecuIndex p = indexByPath ecu_common (collectAll ecuInstances p)"
definition frameIndex :: "parsed_project \<Rightarrow> (string, frame) omap" where
  "frameIndex p = indexByPath frame_common (collectAll frames p)"
definition pduIndex :: "parsed_project \<Rightarrow> (string, pdu) omap" where
  "pduIndex p = indexByPath pdu_common (collectAll pdus p)"
definition signalIndex :: "parsed_project \<Rightarrow> (string, signal) omap" where
  "signalIndex p = indexByPath signal_common (collectAll signals p)"
definition groupIndex :: "parsed_project \<Rightarrow> (string, signal_group) omap" where
  "groupIndex p = indexByPath group_common (collectAll signalGroups p)"

definition matchParsedProjects :: "parsed_project \<Rightarrow> parsed_project \<Rightarrow> diff_report" where
  "matchParsedProjects old new =
    fold (\<lambda>part report. mergeReport report part)
      [matchByPath (clusterIndex old) (clusterIndex new) ''Cluster'',
       matchByPath (ecuIndex old) (ecuIndex new) ''EcuInstance'',
       matchByPath (frameIndex old) (frameIndex new) ''Frame'',
       matchByPath (pduIndex old) (pduIndex new) ''Pdu'',
       matchByPath (signalIndex old) (signalIndex new) ''Signal'',
       matchByPath (groupIndex old) (groupIndex new) ''SignalGroup'']
      empty_report"

section \<open>Secondary keys\<close>

definition joinSorted :: "string list \<Rightarrow> string" where
  "joinSorted items = join_with '','' (sort items)"

definition secondaryKey_Cluster :: "cluster \<Rightarrow> string option" where
  "secondaryKey_Cluster c =
    Some (''baud:'' @ (case baudrate c of Some b \<Rightarrow> u32_to_string b | None \<Rightarrow> ''-'')
      @ ''|ch:'' @ joinSorted (physicalChannels c))"

definition secondaryKey_EcuInstance :: "ecu_instance \<Rightarrow> string option" where
  "secondaryKey_EcuInstance e =
    Some (''ch:'' @ joinSorted (connectedChannels e) @ ''|ctrl:'' @ joinSorted (controllers e))"

definition secondaryKey_Frame :: "frame \<Rightarrow> string option" where
  "secondaryKey_Frame f =
    Some (''len:'' @ u32_to_string (frame_length f) @ ''|tx:'' @ joinSorted (transmitters f)
      @ ''|pdu:'' @ joinSorted (map (\<lambda>m. pduShortNameRef m @ ''@'' @ u32_to_string (fpm_startPosition m))
          (frame_pdus f)))"

definition secondaryKey_Pdu :: "pdu \<Rightarrow> string option" where
  "secondaryKey_Pdu p =
    Some (''len:'' @ u32_to_string (pdu_length p)
      @ ''|sig:'' @ joinSorted (map (\<lambda>m. signalShortNameRef m @ ''@'' @ u32_to_string (psm_startPosition m))
          (signalMappings p)))"

definition secondaryKey_Signal :: "signal \<Rightarrow> string option" where
  "secondaryKey_Signal s =
    Some (''start:'' @ u32_to_string (startBit s) @ ''|len:'' @ u32_to_string (bitLength s)
      @ ''|order:'' @ (if signal_byteOrder s = MostSignificantByteFirst then ''M'' else ''L'')
      @ ''|rx:'' @ joinSorted (receivers s))"

definition secondaryKey_SignalGroup :: "signal_group \<Rightarrow> string option" where
  "secondaryKey_SignalGroup g = Some (''m:'' @ joinSorted (members g))"

section \<open>Move detection\<close>

record move_group =
  removedIdx :: "nat list"
  addedIdx :: "nat list"

definition no_group :: move_group where
  "no_group = \<lparr>removedIdx = [], addedIdx = []\<rparr>"

definition groupEntry ::
  "(string, 'a) omap \<Rightarrow> (string, 'a) omap \<Rightarrow> ('a \<Rightarrow> string option) \<Rightarrow> string
    \<Rightarrow> nat \<times> diff_entry \<Rightarrow> (string, move_group) omap \<Rightarrow> (string, move_group) omap" where
  "groupEntry oldIndex newIndex secKey ty ie groups =
    (case ie of (i, e) \<Rightarrow>
      if elementType e \<noteq> ty then groups
      else if de_kind e = Removed then
        (case map_of oldIndex (oldPath e) of
           None \<Rightarrow> groups
         | Some x \<Rightarrow> (case secKey x of
             None \<Rightarrow> groups
           | Some key \<Rightarrow> m_modify no_group key (\<lambda>g. g\<lparr>removedIdx := removedIdx g @ [i]\<rparr>) groups))
      else if de_kind e = Added then
        (case map_of newIndex (newPath e) of
           None \<Rightarrow> groups
         | Some x \<Rightarrow> (case secKey x of
             None \<Rightarrow> groups
           | Some key \<Rightarrow> m_modify no_group key (\<lambda>g. g\<lparr>addedIdx := addedIdx g @ [i]\<rparr>) groups))
      else groups)"

definition ambiguityMessage :: "diff_entry list \<Rightarrow> string \<Rightarrow> string \<Rightarrow> move_group \<Rightarrow> string" where
  "ambiguityMessage es ty key g =
    nat_to_string (length (removedIdx g) + length (addedIdx g)) @ '' candidates shared secondary key ''
      @ key @ '' for type '' @ ty @ '', no move inferred (''
      @ join_with '', '' (map (\<lambda>i. ''removed:'' @ oldPath (es ! i)) (removedIdx g)
          @ map (\<lambda>i. ''added:'' @ newPath (es ! i)) (addedIdx g)) @ '')''"

text \<open>The body of the loop over the groups: entries, diagnostics and \<open>addedToErase\<close>.\<close>

definition processGroup ::
  "string \<Rightarrow> string \<times> move_group \<Rightarrow> diff_entry list \<times> diff_diagnostic list \<times> nat list
    \<Rightarrow> diff_entry list \<times> diff_diagnostic list \<times> nat list" where
  "processGroup ty kg st =
    (case kg of (key, g) \<Rightarrow> case st of (es, ds, er) \<Rightarrow>
      if length (removedIdx g) = 1 \<and> length (addedIdx g) = 1
      then let r = hd (removedIdx g); a = hd (addedIdx g)
           in (es[r := (es ! r)\<lparr>de_kind := Moved, newPath := newPath (es ! a)\<rparr>], ds, er @ [a])
      else if removedIdx g \<noteq> [] \<and> addedIdx g \<noteq> []
      then (es, ds @ [\<lparr>dd_message = ambiguityMessage es ty key g, dd_elementType = ty\<rparr>], er)
      else (es, ds, er))"

fun keepEntries :: "nat \<Rightarrow> nat list \<Rightarrow> diff_entry list \<Rightarrow> diff_entry list" where
  "keepEntries i er [] = []"
| "keepEntries i [] (e # es) = e # keepEntries (Suc i) [] es"
| "keepEntries i (x # er) (e # es) =
    (if x = i then keepEntries (Suc i) er es else e # keepEntries (Suc i) (x # er) es)"

definition detectMovesForType ::
  "(string, 'a) omap \<Rightarrow> (string, 'a) omap \<Rightarrow> ('a \<Rightarrow> string option) \<Rightarrow> string
    \<Rightarrow> diff_report \<Rightarrow> diff_report" where
  "detectMovesForType oldIndex newIndex secKey ty report =
    (let groups = fold (groupEntry oldIndex newIndex secKey ty) (enumerate 0 (entries report)) [];
         (es, ds, er) = fold (processGroup ty) groups (entries report, diagnostics report, [])
     in \<lparr>entries = (if er \<noteq> [] then keepEntries 0 (sort er) es else es), diagnostics = ds\<rparr>)"

definition applyMoveDetection :: "parsed_project \<Rightarrow> parsed_project \<Rightarrow> diff_report \<Rightarrow> diff_report" where
  "applyMoveDetection old new matched =
    (let m1 = detectMovesForType (clusterIndex old) (clusterIndex new) secondaryKey_Cluster ''Cluster'' matched;
         m2 = detectMovesForType (ecuIndex old) (ecuIndex new) secondaryKey_EcuInstance ''EcuInstance'' m1;
         m3 = detectMovesForType (frameIndex old) (frameIndex new) secondaryKey_Frame ''Frame'' m2;
         m4 = detectMovesForType (pduIndex old) (pduIndex new) secondaryKey_Pdu ''Pdu'' m3;
         m5 = detectMovesForType (signalIndex old) (signalIndex new) secondaryKey_Signal ''Signal'' m4
     in detectMovesForType (groupIndex old) (groupIndex new) secondaryKey_SignalGroup ''SignalGroup'' m5)"

section \<open>Field diffs of matched pairs\<close>

definition diffFound :: "(string, 'a) omap \<Rightarrow> (string, 'a) omap \<Rightarrow> ('a \<Rightarrow> 'a \<Rightarrow> field_diff list)
    \<Rightarrow> string \<Rightarrow> string \<Rightarrow> field_diff list" where
  "diffFound oldIndex newIndex f op np =
    (case (map_of oldIndex op, map_of newIndex np) of (Some x, Some y) \<Rightarrow> f x y | _ \<Rightarrow> [])"

definition diffPair :: "parsed_project \<Rightarrow> parsed_project \<Rightarrow> string \<Rightarrow> string \<Rightarrow> string \<Rightarrow> field_diff list" where
  "diffPair old new ty op np =
    (if ty = ''Cluster''
     then diffFound (clusterIndex old) (clusterIndex new) (diffStruct names_Cluster values_Cluster) op np
     else if ty = ''EcuInstance''
     then diffFound (ecuIndex old) (ecuIndex new) (diffStruct names_EcuInstance values_EcuInstance) op np
     else if ty = ''Frame'' then diffFound (frameIndex old) (frameIndex new) diffFrameElements op np
     else if ty = ''Pdu'' then diffFound (pduIndex old) (pduIndex new) diffPduElements op np
     else if ty = ''Signal'' then diffFound (signalIndex old) (signalIndex new) diffSignalElements op np
     else if ty = ''SignalGroup''
     then diffFound (groupIndex old) (groupIndex new) diffSignalGroupElements op np
     else [])"

text \<open>What the loop keeps of one entry.\<close>

definition populateEntry :: "parsed_project \<Rightarrow> parsed_project \<Rightarrow> diff_entry \<Rightarrow> diff_entry list" where
  "populateEntry old new e =
    (if de_kind e \<noteq> Modified \<and> de_kind e \<noteq> Moved then [e]
     else let ds = diffPair old new (elementType e) (oldPath e) (newPath e) in
       if de_kind e = Moved \<or> ds \<noteq> [] then [e\<lparr>fieldDiffs := ds\<rparr>] else [])"

definition populateFieldDiffs :: "parsed_project \<Rightarrow> parsed_project \<Rightarrow> diff_report \<Rightarrow> diff_report" where
  "populateFieldDiffs old new report =
    report\<lparr>entries := concat (map (populateEntry old new) (entries report))\<rparr>"

definition unsortedDiff :: "parsed_project \<Rightarrow> parsed_project \<Rightarrow> diff_report" where
  "unsortedDiff old new =
    populateFieldDiffs old new (applyMoveDetection old new (matchParsedProjects old new))"

definition diff :: "parsed_project \<Rightarrow> parsed_project \<Rightarrow> diff_report" where
  "diff old new = sortDeterministically (unsortedDiff old new)"

section \<open>Facts about indices and matching\<close>

lemma indexByPath_fold:
  "indexByPath common xs = fold (\<lambda>(k, v). m_try_emplace k v)
    (map (\<lambda>x. (diffPathForShortName (shortName (common x)), x))
      (filter (\<lambda>x. shortName (common x) \<noteq> []) xs)) []"
proof -
  have "fold (\<lambda>x m. let path = diffPathForShortName (shortName (common x)) in
      if path = [] then m else m_try_emplace path x m) xs m
    = fold (\<lambda>(k, v). m_try_emplace k v)
    (map (\<lambda>x. (diffPathForShortName (shortName (common x)), x))
      (filter (\<lambda>x. shortName (common x) \<noteq> []) xs)) m" for m
    by (induction xs arbitrary: m) (auto simp: diffPathForShortName_def Let_def)
  then show ?thesis by (simp add: indexByPath_def)
qed

lemma indexByPath_inv: "m_inv (indexByPath common xs)"
  unfolding indexByPath_fold by (rule smap.inv_emplace_all [OF smap.inv_emp])

lemma index_invs:
  "m_inv (clusterIndex p)" "m_inv (ecuIndex p)" "m_inv (frameIndex p)" "m_inv (pduIndex p)"
  "m_inv (signalIndex p)" "m_inv (groupIndex p)"
  by (simp_all add: clusterIndex_def ecuIndex_def frameIndex_def pduIndex_def signalIndex_def
      groupIndex_def indexByPath_inv)

lemma match_same: "entries (matchByPath m m ty) = map (\<lambda>(path, _). new_entry Modified ty path path) m"
proof -
  have k: "m_contains m k" if "(k, v) \<in> set m" for k v
    using that by (metis map_of_eq_None_iff fst_conv image_eqI)
  have "concat (map (\<lambda>(path, _). if \<not> m_contains m path then f path else []) ps) = []"
    "concat (map (\<lambda>(path, _). if m_contains m path then [g path] else []) ps) = map (\<lambda>(path, _). g path) ps"
    if "set ps \<subseteq> set m" for ps and f :: "string \<Rightarrow> diff_entry list" and g :: "string \<Rightarrow> diff_entry"
    using that by (induction ps) (auto dest: k)
  from this [of m] show ?thesis by (simp add: matchByPath_def)
qed

text \<open>A report without removed and added entries is left alone by move detection.\<close>

lemma detectMoves_modified:
  assumes "\<forall>e \<in> set (entries r). de_kind e = Modified"
  shows "detectMovesForType oi ni sk ty r = r"
proof -
  have "fold (groupEntry oi ni sk ty) ies g = g" if "\<forall>(i, e) \<in> set ies. de_kind e = Modified" for ies g
    using that by (induction ies arbitrary: g) (auto simp: groupEntry_def)
  moreover have "\<forall>(i, e) \<in> set (enumerate 0 (entries r)). de_kind e = Modified"
    using assms by (auto simp: in_set_enumerate_eq)
  ultimately show ?thesis by (simp add: detectMovesForType_def Let_def)
qed

lemma diffFound_same: "(\<And>x. f x x = []) \<Longrightarrow> diffFound m m f p p = []"
  by (simp add: diffFound_def split: option.splits)

lemma diffPair_same: "diffPair p p ty path path = []"
  by (simp add: diffPair_def diffFound_same elements_same)

section \<open>Facts about moves\<close>

text \<open>The sides of an entry: the path it accounts for in the old and in the new project.\<close>

definition old_side :: "diff_entry \<Rightarrow> (string \<times> string) list" where
  "old_side e = (if de_kind e = Added then [] else [(elementType e, oldPath e)])"

definition new_side :: "diff_entry \<Rightarrow> (string \<times> string) multiset" where
  "new_side e = (if de_kind e = Removed then {#} else {#(elementType e, newPath e)#})"

definition old_sides :: "diff_entry list \<Rightarrow> (string \<times> string) list" where
  "old_sides es = concat (map old_side es)"

definition new_sides :: "diff_entry list \<Rightarrow> (string \<times> string) multiset" where
  "new_sides es = sum_list (map new_side es)"

lemma new_sides_update:
  "i < length es \<Longrightarrow> new_sides (es[i := e]) + new_side (es ! i) = new_sides es + new_side e"
proof (induction es arbitrary: i)
  case (Cons a es)
  show ?case
  proof (cases i)
    case 0
    then show ?thesis by (simp add: new_sides_def ac_simps)
  next
    case (Suc k)
    then show ?thesis using Cons by (simp add: new_sides_def ac_simps)
  qed
qed simp

lemma old_sides_update:
  "i < length es \<Longrightarrow> old_side e = old_side (es ! i) \<Longrightarrow> old_sides (es[i := e]) = old_sides es"
proof (induction es arbitrary: i)
  case (Cons a es)
  then show ?case by (cases i) (simp_all add: old_sides_def)
qed simp

lemma keepEntries_none: "\<forall>x \<in> set er. i + length es \<le> x \<Longrightarrow> keepEntries i er es = es"
  by (induction i er es rule: keepEntries.induct) auto

lemma keepEntries_sides:
  assumes "sorted_wrt (<) er" and "\<forall>x \<in> set er. i \<le> x \<and> x < i + length es"
    and "\<forall>x \<in> set er. de_kind (es ! (x - i)) = Added"
  shows "old_sides (keepEntries i er es) = old_sides es \<and>
    new_sides (keepEntries i er es) + sum_list (map (\<lambda>x. new_side (es ! (x - i))) er) = new_sides es"
  using assms
proof (induction i er es rule: keepEntries.induct)
  case (1 i er)
  then show ?case by (cases er) (auto simp: old_sides_def new_sides_def)
next
  case (2 i e es)
  then show ?case by (simp add: old_sides_def new_sides_def)
next
  case (3 i x er e es)
  show ?case
  proof (cases "x = i")
    case True
    have shift: "(e # es) ! (y - i) = es ! (y - Suc i)" if "y \<in> set er" for y
    proof -
      have "i < y" using "3.prems"(1) that True by simp
      then have "y - i = Suc (y - Suc i)" by simp
      then show ?thesis by simp
    qed
    have IH: "old_sides (keepEntries (Suc i) er es) = old_sides es \<and>
        new_sides (keepEntries (Suc i) er es) + sum_list (map (\<lambda>x. new_side (es ! (x - Suc i))) er) = new_sides es"
      using "3.prems" True shift by (intro "3.IH"(1)) (auto simp: Suc_le_eq)
    have "sum_list (map (\<lambda>x. new_side ((e # es) ! (x - i))) er)
        = sum_list (map (\<lambda>x. new_side (es ! (x - Suc i))) er)"
      using shift by (intro arg_cong [of _ _ sum_list] map_cong) simp_all
    moreover have "old_side e = []" using "3.prems"(3) True by (simp add: old_side_def)
    ultimately show ?thesis using IH True by (simp add: old_sides_def new_sides_def ac_simps)
  next
    case False
    have ge: "Suc i \<le> y" if "y \<in> set (x # er)" for y
      using "3.prems" False that by (auto simp: Suc_le_eq)
    have shift: "(e # es) ! (y - i) = es ! (y - Suc i)" if "y \<in> set (x # er)" for y
    proof -
      have "y - i = Suc (y - Suc i)" using ge [OF that] by simp
      then show ?thesis by simp
    qed
    have IH: "old_sides (keepEntries (Suc i) (x # er) es) = old_sides es \<and>
        new_sides (keepEntries (Suc i) (x # er) es)
          + sum_list (map (\<lambda>x. new_side (es ! (x - Suc i))) (x # er)) = new_sides es"
      using "3.prems" False shift ge by (intro "3.IH"(2)) auto
    have "sum_list (map (\<lambda>x. new_side ((e # es) ! (x - i))) (x # er))
        = sum_list (map (\<lambda>x. new_side (es ! (x - Suc i))) (x # er))"
      using shift by (intro arg_cong [of _ _ sum_list] map_cong) simp_all
    then show ?thesis using IH False by (simp add: old_sides_def new_sides_def ac_simps)
  qed
qed

end
