(* ===== verification/DiffTheorems.thy ===== *)
theory DiffTheorems
  imports DiffEngine
begin

text \<open>
  What the diff engine guarantees: move detection accounts for every path exactly once, a diff of a
  project with itself is empty, matching partitions the paths, and the result does not depend on
  how the unstable sort orders equal elements.
\<close>

section \<open>Groups by secondary key\<close>

definition removed_key :: "(string, 'a) omap \<Rightarrow> ('a \<Rightarrow> string option) \<Rightarrow> string \<Rightarrow> diff_entry \<Rightarrow> string option" where
  "removed_key oi sk ty e =
    (if elementType e = ty \<and> de_kind e = Removed then Option.bind (map_of oi (oldPath e)) sk else None)"

definition added_key :: "(string, 'a) omap \<Rightarrow> ('a \<Rightarrow> string option) \<Rightarrow> string \<Rightarrow> diff_entry \<Rightarrow> string option" where
  "added_key ni sk ty e =
    (if elementType e = ty \<and> de_kind e = Added then Option.bind (map_of ni (newPath e)) sk else None)"

definition group_event ::
  "(string, 'a) omap \<Rightarrow> (string, 'a) omap \<Rightarrow> ('a \<Rightarrow> string option) \<Rightarrow> string \<Rightarrow> nat \<times> diff_entry
    \<Rightarrow> (string \<times> (move_group \<Rightarrow> move_group)) list" where
  "group_event oi ni sk ty ie =
    (case removed_key oi sk ty (snd ie) of
       Some k \<Rightarrow> [(k, \<lambda>g. g\<lparr>removedIdx := removedIdx g @ [fst ie]\<rparr>)]
     | None \<Rightarrow> (case added_key ni sk ty (snd ie) of
         Some k \<Rightarrow> [(k, \<lambda>g. g\<lparr>addedIdx := addedIdx g @ [fst ie]\<rparr>)]
       | None \<Rightarrow> []))"

lemma groupEntry_event:
  "groupEntry oi ni sk ty ie g = fold (\<lambda>(k, f). m_modify no_group k f) (group_event oi ni sk ty ie) g"
  by (cases ie) (auto simp: groupEntry_def group_event_def removed_key_def added_key_def split: option.splits)

lemma fold_groupEntry:
  "fold (groupEntry oi ni sk ty) ies g
    = fold (\<lambda>(k, f). m_modify no_group k f) (concat (map (group_event oi ni sk ty) ies)) g"
  by (induction ies arbitrary: g) (simp_all add: groupEntry_event)

definition idx_with :: "(diff_entry \<Rightarrow> string option) \<Rightarrow> (nat \<times> diff_entry) list \<Rightarrow> string \<Rightarrow> nat list" where
  "idx_with K ies k = map fst (filter (\<lambda>ie. K (snd ie) = Some k) ies)"

lemma removed_not_added: "removed_key oi sk ty e = Some k \<Longrightarrow> added_key ni sk' ty' e = None"
  by (auto simp: removed_key_def added_key_def split: if_splits)

lemma fold_group_events:
  "fold (\<lambda>f. f) (map snd (filter (\<lambda>kf. fst kf = k) (concat (map (group_event oi ni sk ty) ies)))) g
    = \<lparr>removedIdx = removedIdx g @ idx_with (removed_key oi sk ty) ies k,
       addedIdx = addedIdx g @ idx_with (added_key ni sk ty) ies k\<rparr>"
proof (induction ies arbitrary: g)
  case Nil
  then show ?case by (simp add: idx_with_def)
next
  case (Cons ie ies)
  show ?case
  proof (cases "removed_key oi sk ty (snd ie)")
    case (Some k')
    then show ?thesis
      using Cons.IH removed_not_added [OF Some, of ni sk ty] by (simp add: group_event_def idx_with_def)
  next
    case None
    then show ?thesis
      using Cons.IH by (cases "added_key ni sk ty (snd ie)") (simp_all add: group_event_def idx_with_def)
  qed
qed

lemma groups_characterised:
  fixes oi ni :: "(string, 'a) omap" and sk ty es
  defines "gs \<equiv> fold (groupEntry oi ni sk ty) (enumerate 0 es) []"
  shows "distinct (map fst gs)"
    and "(k, g) \<in> set gs \<Longrightarrow> removedIdx g = idx_with (removed_key oi sk ty) (enumerate 0 es) k
      \<and> addedIdx g = idx_with (added_key ni sk ty) (enumerate 0 es) k"
proof -
  have gs: "gs = fold (\<lambda>(k, f). m_modify no_group k f)
      (concat (map (group_event oi ni sk ty) (enumerate 0 es))) []"
    by (simp add: gs_def fold_groupEntry)
  have inv: "m_inv gs" unfolding gs by (rule sgroup.inv_modify_all [OF smap.inv_emp])
  show "distinct (map fst gs)" by (rule smap.distinct_keys [OF inv])
  assume "(k, g) \<in> set gs"
  then have "map_of gs k = Some g" by (rule smap.mem_entries [OF inv, THEN iffD1])
  then show "removedIdx g = idx_with (removed_key oi sk ty) (enumerate 0 es) k
      \<and> addedIdx g = idx_with (added_key ni sk ty) (enumerate 0 es) k"
    unfolding gs sgroup.group_all fold_group_events by (auto simp: no_group_def split: if_splits)
qed

lemma idx_with_mem: "i \<in> set (idx_with K (enumerate 0 es) k) \<longleftrightarrow> i < length es \<and> K (es ! i) = Some k"
proof
  assume "i < length es \<and> K (es ! i) = Some k"
  then have "(i, es ! i) \<in> set (filter (\<lambda>ie. K (snd ie) = Some k) (enumerate 0 es))"
    by (simp add: in_set_enumerate_eq)
  then show "i \<in> set (idx_with K (enumerate 0 es) k)"
    unfolding idx_with_def set_map by (metis fst_conv image_eqI)
qed (auto simp: idx_with_def in_set_enumerate_eq)

section \<open>Moves account for every path\<close>

text \<open>
  The invariant of the loop over the groups, for the keys \<open>K\<close> already processed: entries of other
  keys are untouched, each erased index is an added entry of a processed key, and each erased
  entry's new path has already been given to its moved entry.
\<close>

definition moves_inv ::
  "(diff_entry \<Rightarrow> string option) \<Rightarrow> (diff_entry \<Rightarrow> string option) \<Rightarrow> diff_entry list \<Rightarrow> string set
    \<Rightarrow> diff_entry list \<Rightarrow> nat list \<Rightarrow> bool" where
  "moves_inv rk ak orig K es er \<longleftrightarrow>
    length es = length orig \<and>
    (\<forall>i < length orig. (\<forall>k \<in> K. rk (orig ! i) \<noteq> Some k) \<longrightarrow> es ! i = orig ! i) \<and>
    (\<forall>i < length orig. es ! i = orig ! i \<or> de_kind (es ! i) = Moved) \<and>
    distinct er \<and> (\<forall>i \<in> set er. i < length orig \<and> (\<exists>k \<in> K. ak (orig ! i) = Some k)) \<and>
    old_sides es = old_sides orig \<and>
    new_sides es = new_sides orig + sum_list (map (\<lambda>i. new_side (orig ! i)) er)"

lemma processGroup_inv:
  assumes inv: "moves_inv (removed_key oi sk ty) (added_key ni sk ty) orig K es er"
    and k: "k \<notin> K"
    and g: "removedIdx g = idx_with (removed_key oi sk ty) (enumerate 0 orig) k"
      "addedIdx g = idx_with (added_key ni sk ty) (enumerate 0 orig) k"
    and step: "processGroup ty (k, g) (es, ds, er) = (es', ds', er')"
  shows "moves_inv (removed_key oi sk ty) (added_key ni sk ty) orig (insert k K) es' er'"
proof (cases "length (removedIdx g) = 1 \<and> length (addedIdx g) = 1")
  case False
  then have "es' = es" "er' = er" using step by (auto simp: processGroup_def split: if_splits)
  then show ?thesis using inv unfolding moves_inv_def by blast
next
  case True
  let ?rk = "removed_key oi sk ty" and ?ak = "added_key ni sk ty"
  obtain r where r: "removedIdx g = [r]" using True by (metis One_nat_def length_0_conv length_Suc_conv)
  obtain a where a: "addedIdx g = [a]" using True by (metis One_nat_def length_0_conv length_Suc_conv)
  have rr: "r < length orig" "?rk (orig ! r) = Some k"
    using r g(1) idx_with_mem [of r ?rk orig k] by auto
  have aa: "a < length orig" "?ak (orig ! a) = Some k"
    using a g(2) idx_with_mem [of a ?ak orig k] by auto
  let ?e = "(es ! r)\<lparr>de_kind := Moved, newPath := newPath (es ! a)\<rparr>"
  have es': "es' = es[r := ?e]" and er': "er' = er @ [a]"
    using step True r a by (auto simp: processGroup_def Let_def)
  have len: "length es = length orig" using inv by (simp add: moves_inv_def)
  have esr: "es ! r = orig ! r" using inv rr k by (auto simp: moves_inv_def)
  have "?rk (orig ! a) = None" using aa(2) removed_not_added [of oi sk ty "orig ! a" _ ni sk ty] by fastforce
  then have esa: "es ! a = orig ! a" using inv aa(1) by (simp add: moves_inv_def)
  have kinds: "de_kind (orig ! r) = Removed" "elementType (orig ! r) = ty"
      "de_kind (orig ! a) = Added" "elementType (orig ! a) = ty"
    using rr(2) aa(2) by (auto simp: removed_key_def added_key_def split: if_splits)
  have "old_sides es' = old_sides orig"
    using inv rr(1) len unfolding es' moves_inv_def
    by (subst old_sides_update) (auto simp: old_side_def esr kinds)
  moreover have "new_sides es' = new_sides es + new_side (orig ! a)"
    using new_sides_update [of r es ?e] rr(1) len
    by (simp add: es' new_side_def esr esa kinds)
  moreover have "a \<notin> set er" using inv aa(2) k by (auto simp: moves_inv_def)
  ultimately show ?thesis
    using inv rr aa k unfolding moves_inv_def
    by (auto simp: es' er' nth_list_update ac_simps)
qed

lemma processGroups_inv:
  assumes "fold (processGroup ty) gs (es, ds, er) = (es', ds', er')"
    and "moves_inv (removed_key oi sk ty) (added_key ni sk ty) orig K es er"
    and "distinct (map fst gs)" and "fst ` set gs \<inter> K = {}"
    and "\<forall>(k, g) \<in> set gs. removedIdx g = idx_with (removed_key oi sk ty) (enumerate 0 orig) k
      \<and> addedIdx g = idx_with (added_key ni sk ty) (enumerate 0 orig) k"
  shows "moves_inv (removed_key oi sk ty) (added_key ni sk ty) orig (K \<union> fst ` set gs) es' er'"
  using assms
proof (induction gs arbitrary: es ds er K)
  case (Cons kg gs)
  obtain k g where kg: "kg = (k, g)" by (cases kg)
  obtain es1 ds1 er1 where st: "processGroup ty (k, g) (es, ds, er) = (es1, ds1, er1)"
    by (cases "processGroup ty (k, g) (es, ds, er)")
  have inv1: "moves_inv (removed_key oi sk ty) (added_key ni sk ty) orig (insert k K) es1 er1"
    using Cons.prems kg by (intro processGroup_inv [OF Cons.prems(2) _ _ _ st]) auto
  have "moves_inv (removed_key oi sk ty) (added_key ni sk ty) orig (insert k K \<union> fst ` set gs) es' er'"
    using Cons.prems st kg inv1 by (intro Cons.IH [of es1 ds1 er1]) auto
  then show ?case by (simp add: kg)
qed simp

lemma sum_list_mset_cong:
  fixes f :: "'a \<Rightarrow> 'b::comm_monoid_add"
  shows "mset xs = mset ys \<Longrightarrow> sum_list (map f xs) = sum_list (map f ys)"
  unfolding sum_mset_sum_list [symmetric] mset_map by simp

lemma detectMoves_sides:
  "old_sides (entries (detectMovesForType oi ni sk ty r)) = old_sides (entries r) \<and>
   new_sides (entries (detectMovesForType oi ni sk ty r)) = new_sides (entries r)"
proof -
  let ?orig = "entries r"
  let ?gs = "fold (groupEntry oi ni sk ty) (enumerate 0 ?orig) []"
  obtain es ds er where run: "fold (processGroup ty) ?gs (?orig, diagnostics r, []) = (es, ds, er)"
    by (cases "fold (processGroup ty) ?gs (?orig, diagnostics r, [])")
  have start: "moves_inv (removed_key oi sk ty) (added_key ni sk ty) ?orig {} ?orig []"
    by (simp add: moves_inv_def)
  have inv: "moves_inv (removed_key oi sk ty) (added_key ni sk ty) ?orig ({} \<union> fst ` set ?gs) es er"
    using groups_characterised [where oi = oi and ni = ni and sk = sk and ty = ty and es = ?orig]
    by (intro processGroups_inv [OF run start]) (auto simp del: fold_simps)
  let ?er = "sort er"
  have sorted: "sorted_wrt (<) ?er"
    using inv by (auto simp: moves_inv_def strict_sorted_iff)
  have added: "es ! x = ?orig ! x" and kind: "de_kind (es ! x) = Added" and lt: "x < length es"
    if "x \<in> set ?er" for x
  proof -
    obtain k where k: "x < length ?orig" "added_key ni sk ty (?orig ! x) = Some k"
      using inv \<open>x \<in> set ?er\<close> by (auto simp: moves_inv_def)
    have "removed_key oi sk ty (?orig ! x) = None"
      using k(2) by (auto simp: removed_key_def added_key_def split: if_splits)
    then have "es ! x = ?orig ! x" using inv k(1) by (simp add: moves_inv_def)
    then show "es ! x = ?orig ! x" and "de_kind (es ! x) = Added"
      using k(2) by (simp_all add: added_key_def split: if_splits)
    show "x < length es" using inv k(1) by (simp add: moves_inv_def)
  qed
  have keep: "old_sides (keepEntries 0 ?er es) = old_sides es \<and>
      new_sides (keepEntries 0 ?er es) + sum_list (map (\<lambda>x. new_side (es ! (x - 0))) ?er) = new_sides es"
    using sorted kind lt by (intro keepEntries_sides) auto
  have "sum_list (map (\<lambda>x. new_side (es ! (x - 0))) ?er) = sum_list (map (\<lambda>x. new_side (?orig ! x)) ?er)"
    using added by (intro arg_cong [of _ _ sum_list] map_cong) simp_all
  also have "\<dots> = sum_list (map (\<lambda>x. new_side (?orig ! x)) er)"
    by (rule sum_list_mset_cong) simp
  finally have "new_sides (keepEntries 0 ?er es) = new_sides ?orig"
    using keep inv by (simp add: moves_inv_def)
  moreover have "entries (detectMovesForType oi ni sk ty r) = keepEntries 0 ?er es"
    using run by (cases er) (simp_all add: detectMovesForType_def keepEntries_none)
  moreover have "old_sides es = old_sides ?orig" using inv by (simp add: moves_inv_def)
  ultimately show ?thesis using keep by simp
qed

lemma keepEntries_subset: "set (keepEntries i er es) \<subseteq> set es"
  by (induction i er es rule: keepEntries.induct) auto

lemma detectMoves_removed:
  "e \<in> set (entries (detectMovesForType oi ni sk ty r)) \<Longrightarrow> de_kind e = Removed \<Longrightarrow> e \<in> set (entries r)"
proof -
  assume e: "e \<in> set (entries (detectMovesForType oi ni sk ty r))" and rem: "de_kind e = Removed"
  let ?orig = "entries r"
  let ?gs = "fold (groupEntry oi ni sk ty) (enumerate 0 ?orig) []"
  obtain es ds er where run: "fold (processGroup ty) ?gs (?orig, diagnostics r, []) = (es, ds, er)"
    by (cases "fold (processGroup ty) ?gs (?orig, diagnostics r, [])")
  have "moves_inv (removed_key oi sk ty) (added_key ni sk ty) ?orig ({} \<union> fst ` set ?gs) es er"
    using groups_characterised [where oi = oi and ni = ni and sk = sk and ty = ty and es = ?orig]
    by (intro processGroups_inv [OF run]) (auto simp: moves_inv_def simp del: fold_simps)
  then have inv: "length es = length ?orig" "\<forall>i < length ?orig. es ! i = ?orig ! i \<or> de_kind (es ! i) = Moved"
    by (simp_all add: moves_inv_def)
  have "e \<in> set es"
    using e run keepEntries_subset [of 0 "sort er" es]
    by (auto simp: detectMovesForType_def Let_def split: if_splits)
  then obtain i where "i < length es" "e = es ! i" by (auto simp: in_set_conv_nth)
  then show "e \<in> set ?orig" using inv rem by (metis diff_kind.distinct(7) nth_mem)
qed

lemma applyMoveDetection_sides:
  "old_sides (entries (applyMoveDetection old new r)) = old_sides (entries r)"
  "new_sides (entries (applyMoveDetection old new r)) = new_sides (entries r)"
  by (simp_all add: applyMoveDetection_def Let_def detectMoves_sides)

section \<open>A diff of a project with itself\<close>

lemma match_self: "\<forall>e \<in> set (entries (matchParsedProjects p p)).
    de_kind e = Modified \<and> oldPath e = newPath e"
  by (auto simp: matchParsedProjects_def mergeReport_def empty_report_def match_same new_entry_def)

lemma match_diagnostics: "diagnostics (matchParsedProjects old new) = []"
  by (simp add: matchParsedProjects_def mergeReport_def empty_report_def matchByPath_def)

lemma apply_self: "applyMoveDetection p p (matchParsedProjects p p) = matchParsedProjects p p"
  using match_self [of p] by (simp add: applyMoveDetection_def Let_def detectMoves_modified)

section \<open>Distinct sort keys\<close>

text \<open>Every entry of a report without removed and added duplicates: the accounted sides are distinct.\<close>

lemma concat_singletons: "concat (map (\<lambda>x. if P x then [f x] else []) xs) = map f (filter P xs)"
  by (induction xs) auto

lemma case_fst: "(\<lambda>(path, _). f path) = (\<lambda>x. f (fst x))"
  by (simp add: fun_eq_iff)

lemma match_old_sides:
  "old_sides (entries (matchByPath oi ni ty))
    = map (\<lambda>x. (ty, fst x)) (filter (\<lambda>x. \<not> m_contains ni (fst x)) oi)
      @ map (\<lambda>x. (ty, fst x)) (filter (\<lambda>x. m_contains ni (fst x)) oi)"
  unfolding matchByPath_def case_fst concat_singletons
  by (simp add: old_sides_def old_side_def new_entry_def comp_def concat_map_singleton)

lemma match_new_sides:
  "new_sides (entries (matchByPath oi ni ty))
    = mset (map (\<lambda>x. (ty, fst x)) (filter (\<lambda>x. \<not> m_contains oi (fst x)) ni))
      + mset (map (\<lambda>x. (ty, fst x)) (filter (\<lambda>x. m_contains ni (fst x)) oi))"
proof -
  have sum: "sum_list (map (\<lambda>x. {#g x#}) xs) = mset (map g xs)" for g :: "'c \<Rightarrow> 'd" and xs
    by (induction xs) simp_all
  show ?thesis
    unfolding matchByPath_def case_fst concat_singletons
    by (simp add: new_sides_def new_side_def new_entry_def comp_def sum)
qed

text \<open>Every path of a project, once, tagged with its element type.\<close>

definition typed_paths :: "string \<Rightarrow> (string, 'a) omap \<Rightarrow> (string \<times> string) list" where
  "typed_paths ty idx = map (\<lambda>x. (ty, fst x)) idx"

definition all_paths :: "parsed_project \<Rightarrow> (string \<times> string) list" where
  "all_paths p = typed_paths ''Cluster'' (clusterIndex p) @ typed_paths ''EcuInstance'' (ecuIndex p)
     @ typed_paths ''Frame'' (frameIndex p) @ typed_paths ''Pdu'' (pduIndex p)
     @ typed_paths ''Signal'' (signalIndex p) @ typed_paths ''SignalGroup'' (groupIndex p)"

lemma mset_map_partition:
  "mset (map f (filter (\<lambda>x. \<not> P x) xs)) + mset (map f (filter P xs)) = mset (map f xs)"
  by (induction xs) simp_all

lemma match_old_mset: "mset (old_sides (entries (matchByPath oi ni ty))) = mset (typed_paths ty oi)"
  unfolding match_old_sides typed_paths_def mset_append by (rule mset_map_partition)

lemma match_new_mset:
  assumes "m_inv oi" and "m_inv ni"
  shows "new_sides (entries (matchByPath oi ni ty)) = mset (typed_paths ty ni)"
proof -
  have dist: "distinct (map fst oi)" "distinct (map fst ni)"
    using assms smap.distinct_keys by blast+
  have "mset (map fst (filter (\<lambda>x. m_contains ni (fst x)) oi)) = mset (map fst (filter (\<lambda>x. m_contains oi (fst x)) ni))"
  proof (rule set_eq_iff_mset_eq_distinct [THEN iffD1])
    show "distinct (map fst (filter (\<lambda>x. m_contains ni (fst x)) oi))"
      "distinct (map fst (filter (\<lambda>x. m_contains oi (fst x)) ni))"
      using dist by (simp_all add: distinct_map_filter)
    show "set (map fst (filter (\<lambda>x. m_contains ni (fst x)) oi)) = set (map fst (filter (\<lambda>x. m_contains oi (fst x)) ni))"
      by (force simp: map_of_eq_None_iff)
  qed
  then have "image_mset (Pair ty) (mset (map fst (filter (\<lambda>x. m_contains ni (fst x)) oi)))
      = image_mset (Pair ty) (mset (map fst (filter (\<lambda>x. m_contains oi (fst x)) ni)))" by simp
  then have eq: "mset (map (\<lambda>x. (ty, fst x)) (filter (\<lambda>x. m_contains ni (fst x)) oi))
      = mset (map (\<lambda>x. (ty, fst x)) (filter (\<lambda>x. m_contains oi (fst x)) ni))"
    by (simp add: multiset.map_comp comp_def)
  show ?thesis
    unfolding match_new_sides eq typed_paths_def by (rule mset_map_partition)
qed

lemma old_sides_append: "old_sides (xs @ ys) = old_sides xs @ old_sides ys"
  by (simp add: old_sides_def)

lemma new_sides_append: "new_sides (xs @ ys) = new_sides xs + new_sides ys"
  by (simp add: new_sides_def)

lemma match_sides:
  "mset (old_sides (entries (matchParsedProjects old new))) = mset (all_paths old)"
  "new_sides (entries (matchParsedProjects old new)) = mset (all_paths new)"
proof -
  have e: "old_sides [] = []" "new_sides [] = {#}" by (simp_all add: old_sides_def new_sides_def)
  show "mset (old_sides (entries (matchParsedProjects old new))) = mset (all_paths old)"
    by (simp add: matchParsedProjects_def mergeReport_def empty_report_def old_sides_append e
        match_old_mset all_paths_def)
  show "new_sides (entries (matchParsedProjects old new)) = mset (all_paths new)"
    by (simp add: matchParsedProjects_def mergeReport_def empty_report_def new_sides_append e
        match_new_mset index_invs all_paths_def)
qed

lemma typed_paths_distinct: "m_inv idx \<Longrightarrow> distinct (typed_paths ty idx)"
  using smap.distinct_keys [of idx] by (simp add: typed_paths_def distinct_map inj_on_def)

lemma typed_paths_type: "(a, b) \<in> set (typed_paths ty idx) \<Longrightarrow> a = ty"
  by (auto simp: typed_paths_def)

lemma all_paths_distinct: "distinct (all_paths p)"
  unfolding all_paths_def distinct_append
  by (intro conjI; (rule typed_paths_distinct, rule index_invs)?) (auto dest: typed_paths_type)

text \<open>A removed entry's path is no path of the new project.\<close>

lemma matchByPath_removed:
  assumes "e \<in> set (entries (matchByPath oi ni ty))" and "de_kind e = Removed"
  shows "elementType e = ty \<and> (ty, oldPath e) \<notin> set (typed_paths ty ni)"
  using assms by (fastforce simp: matchByPath_def new_entry_def typed_paths_def map_of_eq_None_iff
      image_iff split: if_splits)

lemma match_removed:
  assumes "e \<in> set (entries (matchParsedProjects old new))" and "de_kind e = Removed"
  shows "(elementType e, oldPath e) \<notin> set (all_paths new)"
proof -
  have "e \<in> set (entries (matchByPath (clusterIndex old) (clusterIndex new) ''Cluster'')) \<or>
      e \<in> set (entries (matchByPath (ecuIndex old) (ecuIndex new) ''EcuInstance'')) \<or>
      e \<in> set (entries (matchByPath (frameIndex old) (frameIndex new) ''Frame'')) \<or>
      e \<in> set (entries (matchByPath (pduIndex old) (pduIndex new) ''Pdu'')) \<or>
      e \<in> set (entries (matchByPath (signalIndex old) (signalIndex new) ''Signal'')) \<or>
      e \<in> set (entries (matchByPath (groupIndex old) (groupIndex new) ''SignalGroup''))"
    using assms(1) by (auto simp: matchParsedProjects_def mergeReport_def empty_report_def)
  then show ?thesis
    by - (elim disjE; drule matchByPath_removed [OF _ assms(2)];
      auto simp: all_paths_def dest: typed_paths_type)
qed

lemma applyMoveDetection_removed:
  "e \<in> set (entries (applyMoveDetection old new r)) \<Longrightarrow> de_kind e = Removed \<Longrightarrow> e \<in> set (entries r)"
  by (auto simp: applyMoveDetection_def Let_def dest!: detectMoves_removed)

definition entry_id :: "diff_entry \<Rightarrow> string \<times> string" where
  "entry_id e = (elementType e, sortKeyFor e)"

lemma entry_ids_distinct:
  assumes "distinct (old_sides es)" and "new_sides es = mset ns" and "distinct ns"
    and "\<forall>e \<in> set es. de_kind e = Removed \<longrightarrow> (elementType e, oldPath e) \<notin> set ns"
  shows "distinct (map entry_id es)"
  using assms
proof (induction es arbitrary: ns)
  case (Cons e es)
  have in_new: "entry_id x \<in># new_sides xs" if "x \<in> set xs" "de_kind x \<noteq> Removed" for x xs
    using that by (induction xs) (auto simp: new_sides_def new_side_def entry_id_def split: diff_kind.splits)
  have in_old: "entry_id x \<in> set (old_sides xs)" if "x \<in> set xs" "de_kind x = Removed" for x xs
    using that by (induction xs) (auto simp: old_sides_def old_side_def entry_id_def)
  have mem_ns: "entry_id x \<in> set ns" if "x \<in> set (e # es)" "de_kind x \<noteq> Removed" for x
    using in_new [OF that] Cons.prems(2) by simp
  have not_ns: "entry_id x \<notin> set ns" if "x \<in> set (e # es)" "de_kind x = Removed" for x
    using Cons.prems(4) that by (auto simp: entry_id_def)
  have head: "entry_id e \<notin> entry_id ` set es"
  proof
    assume "entry_id e \<in> entry_id ` set es"
    then obtain x where x: "x \<in> set es" "entry_id x = entry_id e" by auto
    show False
    proof (cases "de_kind e = Removed")
      case True
      then have "de_kind x = Removed" using mem_ns [of x] not_ns [of e] x by auto
      then have "entry_id e \<in> set (old_sides es)" using in_old x by metis
      moreover have "old_side e = [entry_id e]" using True by (simp add: old_side_def entry_id_def)
      ultimately show False using Cons.prems(1) by (simp add: old_sides_def)
    next
      case False
      then have "de_kind x \<noteq> Removed" using mem_ns [of e] not_ns [of x] x by auto
      then have "entry_id e \<in># new_sides es" using in_new x by metis
      moreover have "new_side e = {#entry_id e#}"
        using False by (cases "de_kind e") (simp_all add: new_side_def entry_id_def)
      ultimately have "count (mset ns) (entry_id e) \<ge> 2"
        unfolding Cons.prems(2) [symmetric] by (simp add: new_sides_def)
      moreover have "count (mset ns) (entry_id e) \<le> 1"
        using Cons.prems(3) unfolding distinct_count_atmost_1
        by (cases "entry_id e \<in> set ns") (simp_all del: split_paired_All)
      ultimately show False by simp
    qed
  qed
  obtain ns' rest where parts: "mset ns' = new_sides es" "mset rest = new_side e"
    using ex_mset by metis
  then have "mset (rest @ ns') = mset ns" using Cons.prems(2) by (simp add: new_sides_def)
  then have ns': "new_sides es = mset ns'" "distinct ns'" "set ns' \<subseteq> set ns"
    using parts(1) Cons.prems(3) mset_eq_imp_distinct_iff [of "rest @ ns'" ns] mset_eq_setD [of "rest @ ns'" ns]
    by auto
  have "distinct (map entry_id es)"
    using Cons.prems ns' by (intro Cons.IH [OF _ ns'(1,2)]) (auto simp: old_sides_def)
  then show ?case using head by simp
qed simp

lemma populate_ids:
  "distinct (map entry_id es) \<Longrightarrow> distinct (map entry_id (concat (map (populateEntry old new) es)))
    \<and> entry_id ` set (concat (map (populateEntry old new) es)) \<subseteq> entry_id ` set es"
proof (induction es)
  case (Cons e es)
  have "populateEntry old new e = [] \<or> (\<exists>e'. populateEntry old new e = [e'] \<and> entry_id e' = entry_id e)"
    by (auto simp: populateEntry_def entry_id_def Let_def split: diff_kind.splits)
  then show ?case
  proof
    assume "populateEntry old new e = []"
    then show ?case using Cons by auto
  next
    assume "\<exists>e'. populateEntry old new e = [e'] \<and> entry_id e' = entry_id e"
    then obtain e' where "populateEntry old new e = [e']" "entry_id e' = entry_id e" by blast
    then show ?case using Cons by auto
  qed
qed simp

lemma unsortedDiff_ids: "distinct (map entryKey (entries (unsortedDiff old new)))"
proof -
  let ?m = "applyMoveDetection old new (matchParsedProjects old new)"
  have "distinct (old_sides (entries ?m))"
    using all_paths_distinct [of old] match_sides(1) [of old new]
    by (simp only: applyMoveDetection_sides) (metis mset_eq_imp_distinct_iff)
  moreover have "new_sides (entries ?m) = mset (all_paths new)"
    by (simp only: applyMoveDetection_sides match_sides)
  moreover have "\<forall>e \<in> set (entries ?m). de_kind e = Removed \<longrightarrow> (elementType e, oldPath e) \<notin> set (all_paths new)"
    using applyMoveDetection_removed match_removed by blast
  ultimately have "distinct (map entry_id (entries ?m))"
    using all_paths_distinct by (intro entry_ids_distinct)
  then have "distinct (map entry_id (entries (unsortedDiff old new)))"
    using populate_ids by (simp add: unsortedDiff_def populateFieldDiffs_def)
  then show ?thesis
    by (auto simp: distinct_map inj_on_def entry_id_def entryKey_def)
qed

section \<open>Properties\<close>

text \<open>C34: a project compared with itself gives the empty report.\<close>

theorem diff_self: "diff p p = empty_report"
proof -
  have "populateEntry p p e = []" if "e \<in> set (entries (matchParsedProjects p p))" for e
    using match_self [of p] that by (auto simp: populateEntry_def diffPair_same)
  then have "entries (unsortedDiff p p) = []"
    by (simp add: unsortedDiff_def populateFieldDiffs_def apply_self)
  moreover have "diagnostics (unsortedDiff p p) = []"
    by (simp add: unsortedDiff_def populateFieldDiffs_def apply_self match_diagnostics)
  ultimately show ?thesis by (simp add: diff_def sortDeterministically_def empty_report_def)
qed

text \<open>C33: after matching and move detection every path of the old project is the old side of exactly
  one entry (removed, moved or matched) and every path of the new project the new side of exactly
  one (added, moved or matched): pairing moves neither loses nor duplicates an element.\<close>

theorem moves_account_for_every_path:
  "mset (old_sides (entries (applyMoveDetection old new (matchParsedProjects old new)))) = mset (all_paths old) \<and>
   new_sides (entries (applyMoveDetection old new (matchParsedProjects old new))) = mset (all_paths new) \<and>
   distinct (all_paths old) \<and> distinct (all_paths new)"
  by (simp add: applyMoveDetection_sides match_sides all_paths_distinct)

text \<open>C35: the order of the report is determined by its contents: any list the unstable sort could
  produce from the same entries is the list of the report.\<close>

theorem diff_order_deterministic:
  assumes "mset xs = mset (entries (unsortedDiff old new))" and "sorted (map entryKey xs)"
  shows "xs = entries (diff old new)"
  using sort_key_unique [OF assms unsortedDiff_ids]
  by (simp add: diff_def sortDeterministically_def)

theorem diff_order_deterministic_witness:
  "[new_entry Removed ''EcuInstance'' ''/E'' []] = entries (diff (sample_project [sample_ecu]) (sample_project []))"
proof (rule diff_order_deterministic)
  have "entries (unsortedDiff (sample_project [sample_ecu]) (sample_project []))
      = [new_entry Removed ''EcuInstance'' ''/E'' []]"
    by code_simp
  then show "mset [new_entry Removed ''EcuInstance'' ''/E'' []]
      = mset (entries (unsortedDiff (sample_project [sample_ecu]) (sample_project [])))" by simp
qed simp

text \<open>A nested collection whose keys are distinct is compared by key: reordering either side
  changes nothing in the field diffs.\<close>

theorem nested_diff_ignores_order:
  assumes "mset old = mset old'" and "mset new = mset new'"
    and "distinct (map keyOf old)" and "distinct (map keyOf new)"
  shows "diffNestedCollectionWith old new toStr keyOf field itemDiff
    = diffNestedCollectionWith old' new' toStr keyOf field itemDiff"
  using indexByKey_reorder [OF assms(1,3)] indexByKey_reorder [OF assms(2,4)]
  by (simp add: diffNestedCollectionWith_def)

theorem nested_diff_ignores_order_witness:
  "diffNestedStrings [''A'', ''B''] [''C'', ''A''] ''members'' = diffNestedStrings [''B'', ''A''] [''A'', ''C''] ''members''"
  unfolding diffNestedStrings_def by (rule nested_diff_ignores_order) simp_all

text \<open>
  Two mappings with one key: reordering them is reported as a change, and a change of the second
  is not reported at all.
\<close>

lemma nested_diff_duplicate_keys:
  "diffNestedFramePdus [\<lparr>pduShortNameRef = ''P'', fpm_startPosition = 0\<rparr>, \<lparr>pduShortNameRef = ''P'', fpm_startPosition = 8\<rparr>]
     [\<lparr>pduShortNameRef = ''P'', fpm_startPosition = 8\<rparr>, \<lparr>pduShortNameRef = ''P'', fpm_startPosition = 0\<rparr>] \<noteq> [] \<and>
   diffNestedFramePdus [\<lparr>pduShortNameRef = ''P'', fpm_startPosition = 0\<rparr>, \<lparr>pduShortNameRef = ''P'', fpm_startPosition = 8\<rparr>]
     [\<lparr>pduShortNameRef = ''P'', fpm_startPosition = 0\<rparr>, \<lparr>pduShortNameRef = ''P'', fpm_startPosition = 9\<rparr>] = []"
  by code_simp

text \<open>An absent optional text and the text \<open>nullopt\<close> compare equal.\<close>

lemma absent_equals_nullopt: "dv_optional (\<lambda>s. s) None = dv_optional (\<lambda>s. s) (Some ''nullopt'')"
  by simp

end
