(* ===== verification/DiffExact.thy ===== *)
theory DiffExact
  imports DiffTheorems DoubleText
begin

text \<open>
  What the diff engine does not report: two projects compare as equal exactly when they have the
  same elements under the same names with the same contents, up to the order in the nested collections
  that are compared by key. The comparison is of texts, so the writers of numbers must be injective
  (\<open>u32_text\<close>, \<open>g17_text\<close>) and texts must not imitate them.
\<close>

section \<open>Nested collections\<close>

text \<open>The first item under each key, as the index keeps it.\<close>

definition keyed :: "('a \<Rightarrow> 'k) \<Rightarrow> 'a list \<Rightarrow> 'k \<rightharpoonup> 'a" where
  "keyed keyOf items = map_of (map (\<lambda>x. (keyOf x, x)) items)"

text \<open>Two maps with the same keys whose values the comparison \<open>f\<close> finds nothing between.\<close>

definition silent :: "('a \<Rightarrow> 'a \<Rightarrow> field_diff list) \<Rightarrow> ('k \<rightharpoonup> 'a) \<Rightarrow> ('k \<rightharpoonup> 'a) \<Rightarrow> bool" where
  "silent f m m' \<longleftrightarrow> (\<forall>k. rel_option (\<lambda>x y. f x y = []) (m k) (m' k))"

lemma silent_iff:
  "silent f m m' \<longleftrightarrow> (\<forall>k. case m k of None \<Rightarrow> m' k = None | Some x \<Rightarrow> (\<exists>y. m' k = Some y \<and> f x y = []))"
proof -
  have "rel_option R a b \<longleftrightarrow> (case a of None \<Rightarrow> b = None | Some x \<Rightarrow> (\<exists>y. b = Some y \<and> R x y))" for R :: "'a \<Rightarrow> 'a \<Rightarrow> bool" and a b
    by (cases a; cases b) simp_all
  then show ?thesis by (simp add: silent_def)
qed

lemma silent_eq: "(\<And>k x y. m k = Some x \<Longrightarrow> m' k = Some y \<Longrightarrow> f x y = [] \<longleftrightarrow> x = y) \<Longrightarrow> silent f m m' \<longleftrightarrow> m = m'"
  unfolding silent_iff fun_eq_iff by (intro iff_allI) (force split: option.splits)

lemma concat_Nil: "concat (map f xs) = [] \<longleftrightarrow> (\<forall>x \<in> set xs. f x = [])"
  by (induction xs) auto

lemma nested_silent:
  "diffNestedCollectionWith old new toStr keyOf field itemDiff = [] \<longleftrightarrow> silent itemDiff (keyed keyOf old) (keyed keyOf new)"
proof -
  let ?m = "indexByKey keyOf old" and ?n = "indexByKey keyOf new"
  have look: "map_of (indexByKey keyOf xs) = keyed keyOf xs" for xs
    by (simp add: fun_eq_iff indexByKey_lookup keyed_def)
  have all: "(\<forall>x \<in> set (indexByKey keyOf xs). P x) \<longleftrightarrow> (\<forall>k v. keyed keyOf xs k = Some v \<longrightarrow> P (k, v))" for xs P
    using smap.mem_entries [OF indexByKey_inv, of _ _ keyOf xs] look [of xs] by (auto simp: fun_eq_iff)
  let ?K = "keyed keyOf old" and ?N = "keyed keyOf new"
  have parts: "diffNestedCollectionWith old new toStr keyOf field itemDiff = [] \<longleftrightarrow>
      (\<forall>k v. ?K k = Some v \<longrightarrow> ?N k \<noteq> None) \<and> (\<forall>k v. ?N k = Some v \<longrightarrow> ?K k \<noteq> None)
      \<and> (\<forall>k v. ?K k = Some v \<longrightarrow> (\<forall>y. ?N k = Some y \<longrightarrow> itemDiff v y = []))"
    unfolding diffNestedCollectionWith_def Let_def append_is_Nil_conv concat_Nil all look
    by (auto split: option.splits)
  show ?thesis
    unfolding parts silent_iff
  proof (intro iffI allI conjI impI; (elim conjE)?)
    fix k
    assume "\<forall>k v. ?K k = Some v \<longrightarrow> ?N k \<noteq> None" "\<forall>k v. ?N k = Some v \<longrightarrow> ?K k \<noteq> None"
      "\<forall>k v. ?K k = Some v \<longrightarrow> (\<forall>y. ?N k = Some y \<longrightarrow> itemDiff v y = [])"
    then show "case ?K k of None \<Rightarrow> ?N k = None | Some x \<Rightarrow> \<exists>y. ?N k = Some y \<and> itemDiff x y = []"
      by (cases "?K k"; cases "?N k") auto
  next
    assume s: "\<forall>k. case ?K k of None \<Rightarrow> ?N k = None | Some x \<Rightarrow> \<exists>y. ?N k = Some y \<and> itemDiff x y = []"
    show "?N k \<noteq> None" if "?K k = Some v" for k v using s [rule_format, of k] that by auto
    show "?K k \<noteq> None" if "?N k = Some v" for k v using s [rule_format, of k] that by (cases "?K k") auto
    show "itemDiff v y = []" if "?K k = Some v" "?N k = Some y" for k v y using s [rule_format, of k] that by auto
  qed
qed

lemma strings_silent: "diffNestedStrings old new field = [] \<longleftrightarrow> set old = set new"
proof -
  have "keyed (\<lambda>s. s) xs k = (if k \<in> set xs then Some k else None)" for xs :: "string list" and k
    unfolding keyed_def by (induction xs) auto
  then show ?thesis
    unfolding diffNestedStrings_def nested_silent silent_def set_eq_iff by (intro iff_allI) auto
qed

lemma keyed_inj:
  assumes "inj f"
  shows "keyed (\<lambda>x. f (g x)) xs = keyed (\<lambda>x. f (g x)) ys \<longleftrightarrow> keyed g xs = keyed g ys"
proof -
  have k: "keyed (\<lambda>x. f (g x)) zs (f k) = keyed g zs k" for zs k
    unfolding keyed_def using assms by (induction zs) (auto simp: inj_eq)
  have r: "keyed (\<lambda>x. f (g x)) zs t = None" if "t \<notin> range f" for zs t
    using that unfolding keyed_def by (induction zs) auto
  show ?thesis
  proof
    assume "keyed (\<lambda>x. f (g x)) xs = keyed (\<lambda>x. f (g x)) ys"
    then show "keyed g xs = keyed g ys" using k by (metis ext)
  next
    assume eq: "keyed g xs = keyed g ys"
    show "keyed (\<lambda>x. f (g x)) xs = keyed (\<lambda>x. f (g x)) ys"
    proof
      fix t
      show "keyed (\<lambda>x. f (g x)) xs t = keyed (\<lambda>x. f (g x)) ys t"
        using k r eq by (cases "t \<in> range f") auto
    qed
  qed
qed

section \<open>Texts that stand for one value\<close>

definition plain_name :: "string \<Rightarrow> bool" where
  "plain_name s \<longleftrightarrow> s \<noteq> [] \<and> CHR '','' \<notin> set s"

lemma join_Cons: "join_with sep (x # xs) = x @ (if xs = [] then [] else sep @ join_with sep xs)"
  by (cases xs) simp_all

lemma first_joined: "CHR '','' \<notin> set x \<Longrightarrow> takeWhile (\<lambda>c. c \<noteq> CHR '','') (join_with '', '' (x # xs)) = x"
  by (cases xs) (auto simp: takeWhile_tail)

lemma join_inject:
  "list_all plain_name xs \<Longrightarrow> list_all plain_name ys \<Longrightarrow> join_with '', '' xs = join_with '', '' ys \<Longrightarrow> xs = ys"
proof (induction xs arbitrary: ys)
  case Nil
  then show ?case by (cases ys) (auto simp: join_Cons plain_name_def)
next
  case (Cons x xs)
  obtain y zs where ys: "ys = y # zs" using Cons.prems by (cases ys) (auto simp: join_Cons plain_name_def)
  have names: "CHR '','' \<notin> set x" "CHR '','' \<notin> set y" "y \<noteq> []"
    using Cons.prems by (auto simp: ys plain_name_def)
  have "x = y" using first_joined [OF names(1), of xs] first_joined [OF names(2), of zs] Cons.prems(3) by (simp add: ys)
  then have rest: "(if xs = [] then [] else '', '' @ join_with '', '' xs) = (if zs = [] then [] else '', '' @ join_with '', '' zs)"
    using Cons.prems(3) by (simp add: ys join_Cons)
  then have "(xs = []) = (zs = [])" by (auto split: if_splits)
  moreover have "join_with '', '' xs = join_with '', '' zs" using rest by (auto split: if_splits)
  ultimately show ?case using Cons.IH [of zs] Cons.prems \<open>x = y\<close> by (simp add: ys)
qed

lemma vector_inject:
  "list_all plain_name xs \<Longrightarrow> list_all plain_name ys \<Longrightarrow> dv_vector (\<lambda>s. s) xs = dv_vector (\<lambda>s. s) ys \<longleftrightarrow> xs = ys"
  using join_inject by (auto simp: dv_vector_def)

text \<open>\<open>nullopt\<close> is how an absent value is printed.\<close>

lemma optional_inject:
  assumes "\<And>x y. P x \<Longrightarrow> P y \<Longrightarrow> f x = f y \<longleftrightarrow> x = y" and "\<And>x. P x \<Longrightarrow> f x \<noteq> ''nullopt''"
    and "pred_option P a" "pred_option P b"
  shows "dv_optional f a = dv_optional f b \<longleftrightarrow> a = b"
  using assms by (cases a; cases b) (auto dest: not_sym)

lemma digits_not_nullopt: "u32_to_string w \<noteq> ''nullopt''"
proof
  assume "u32_to_string w = ''nullopt''"
  then have "CHR ''n'' \<in> set (nat_to_string (unat w))" by (simp add: u32_to_string_def)
  then show False using nat_to_string_digits by (force simp: is_digit_nat)
qed

lemma double_not_nullopt: "is_double v \<Longrightarrow> fmt_g17 v \<noteq> ''nullopt''"
proof
  assume v: "is_double v" and eq: "fmt_g17 v = ''nullopt''"
  have "text_value ''nullopt'' = NaN" by code_simp
  moreover have "Some (text_value (fmt_g17 v)) = Some v" by (rule g17_text.dec_enc [OF v])
  ultimately have "v = NaN" by (simp add: eq)
  then show False using eq by simp
qed

lemma optional_u32: "dv_optional u32_to_string a = dv_optional u32_to_string b \<longleftrightarrow> a = b"
  by (rule optional_inject [where P = "\<lambda>_. True"]) (simp_all add: u32_text.enc_inject digits_not_nullopt option.pred_True)

lemma optional_double:
  "pred_option is_double a \<Longrightarrow> pred_option is_double b \<Longrightarrow> dv_optional fmt_g17 a = dv_optional fmt_g17 b \<longleftrightarrow> a = b"
  by (rule optional_inject [where P = is_double]) (simp_all add: g17_text.enc_inject double_not_nullopt)

lemma optional_text:
  "a \<noteq> Some ''nullopt'' \<Longrightarrow> b \<noteq> Some ''nullopt'' \<Longrightarrow> dv_optional (\<lambda>s. s) a = dv_optional (\<lambda>s. s) b \<longleftrightarrow> a = b"
  by (cases a; cases b) auto

lemma common_inject:
  "category c \<noteq> Some ''nullopt'' \<Longrightarrow> category d \<noteq> Some ''nullopt'' \<Longrightarrow> dv_common c = dv_common d \<longleftrightarrow> category c = category d"
  by (cases "category c"; cases "category d") (auto simp: dv_common_def)

lemma byteOrder_inject: "dv_byteOrder a = dv_byteOrder b \<longleftrightarrow> a = b"
  by (cases a; cases b) (simp_all add: dv_byteOrder_def)

lemma bool_inject: "dv_bool a = dv_bool b \<longleftrightarrow> a = b"
  by (cases a; cases b) (simp_all add: dv_bool_def)

lemma int_text_inject: "i64_to_string v = i64_to_string w \<longleftrightarrow> v = w"
proof -
  have minus: "CHR ''-'' # s \<noteq> nat_to_string n" for s n
  proof
    assume "CHR ''-'' # s = nat_to_string n"
    then have "CHR ''-'' \<in> set (nat_to_string n)" by (metis list.set_intros(1))
    then show False using nat_to_string_digits by (force simp: is_digit_nat)
  qed
  have "int_to_string i = int_to_string j \<longleftrightarrow> i = j" for i j
    using minus [of "nat_to_string (nat (- i))" "nat j"] minus [of "nat_to_string (nat (- j))" "nat i"]
    by (auto simp: int_to_string_def nat_to_string_inj)
  then show ?thesis by (auto simp: i64_to_string_def intro: signed_word_eqI)
qed

lemmas text_inject = u32_text.enc_inject [OF TrueI TrueI] common_inject byteOrder_inject bool_inject int_text_inject
  optional_u32 optional_double optional_text vector_inject g17_text.enc_inject

section \<open>Elements with the same contents\<close>

definition same_cluster :: "cluster \<Rightarrow> cluster \<Rightarrow> bool" where
  "same_cluster c d \<longleftrightarrow> category (cluster_common c) = category (cluster_common d) \<and> baudrate c = baudrate d
    \<and> physicalChannels c = physicalChannels d"

definition same_ecu :: "ecu_instance \<Rightarrow> ecu_instance \<Rightarrow> bool" where
  "same_ecu e f \<longleftrightarrow> category (ecu_common e) = category (ecu_common f) \<and> connectedChannels e = connectedChannels f
    \<and> controllers e = controllers f"

definition same_frame :: "frame \<Rightarrow> frame \<Rightarrow> bool" where
  "same_frame f g \<longleftrightarrow> category (frame_common f) = category (frame_common g) \<and> frame_length f = frame_length g
    \<and> set (transmitters f) = set (transmitters g)
    \<and> keyed pduShortNameRef (frame_pdus f) = keyed pduShortNameRef (frame_pdus g)"

definition same_pdu :: "pdu \<Rightarrow> pdu \<Rightarrow> bool" where
  "same_pdu p q \<longleftrightarrow> category (pdu_common p) = category (pdu_common q) \<and> pdu_length p = pdu_length q
    \<and> keyed signalShortNameRef (signalMappings p) = keyed signalShortNameRef (signalMappings q)"

definition table_of :: "value_table_entry list option \<Rightarrow> value_table_entry list" where
  "table_of t = (case t of Some es \<Rightarrow> es | None \<Rightarrow> [])"

definition same_signal :: "signal \<Rightarrow> signal \<Rightarrow> bool" where
  "same_signal s t \<longleftrightarrow> category (signal_common s) = category (signal_common t) \<and> startBit s = startBit t
    \<and> bitLength s = bitLength t \<and> signal_byteOrder s = signal_byteOrder t \<and> isSigned s = isSigned t
    \<and> factor s = factor t \<and> offset s = offset t \<and> signal_min s = signal_min t \<and> signal_max s = signal_max t
    \<and> unit_name s = unit_name t \<and> initValue s = initValue t \<and> set (receivers s) = set (receivers t)
    \<and> keyed vte_value (table_of (valueTable s)) = keyed vte_value (table_of (valueTable t))"

definition same_group :: "signal_group \<Rightarrow> signal_group \<Rightarrow> bool" where
  "same_group g h \<longleftrightarrow> category (group_common g) = category (group_common h) \<and> set (members g) = set (members h)"

text \<open>Elements whose texts stand for one value each.\<close>

definition clean_cluster :: "cluster \<Rightarrow> bool" where
  "clean_cluster c \<longleftrightarrow> category (cluster_common c) \<noteq> Some ''nullopt'' \<and> list_all plain_name (physicalChannels c)"

definition clean_ecu :: "ecu_instance \<Rightarrow> bool" where
  "clean_ecu e \<longleftrightarrow> category (ecu_common e) \<noteq> Some ''nullopt'' \<and> list_all plain_name (connectedChannels e)
    \<and> list_all plain_name (controllers e)"

definition clean_frame :: "frame \<Rightarrow> bool" where
  "clean_frame f \<longleftrightarrow> category (frame_common f) \<noteq> Some ''nullopt'' \<and> list_all plain_name (transmitters f)"

definition clean_pdu :: "pdu \<Rightarrow> bool" where
  "clean_pdu p \<longleftrightarrow> category (pdu_common p) \<noteq> Some ''nullopt''"

definition clean_signal :: "signal \<Rightarrow> bool" where
  "clean_signal s \<longleftrightarrow> category (signal_common s) \<noteq> Some ''nullopt'' \<and> unit_name s \<noteq> Some ''nullopt''
    \<and> is_double (factor s) \<and> is_double (offset s) \<and> pred_option is_double (signal_min s)
    \<and> pred_option is_double (signal_max s) \<and> pred_option is_double (initValue s)"

definition clean_group :: "signal_group \<Rightarrow> bool" where
  "clean_group g \<longleftrightarrow> category (group_common g) \<noteq> Some ''nullopt''"

lemmas struct_simps = diffStruct_def without_fields_def names_Cluster_def values_Cluster_def names_EcuInstance_def
  values_EcuInstance_def names_Frame_def values_Frame_def names_Pdu_def values_Pdu_def names_Signal_def
  values_Signal_def names_SignalGroup_def values_SignalGroup_def names_FramePduMapping_def
  values_FramePduMapping_def names_PduSignalMapping_def values_PduSignalMapping_def names_ValueTableEntry_def
  values_ValueTableEntry_def

lemma cluster_silent:
  "clean_cluster c \<Longrightarrow> clean_cluster d \<Longrightarrow> diffStruct names_Cluster values_Cluster c d = [] \<longleftrightarrow> same_cluster c d"
  by (simp add: struct_simps clean_cluster_def same_cluster_def text_inject)

lemma ecu_silent:
  "clean_ecu e \<Longrightarrow> clean_ecu f \<Longrightarrow> diffStruct names_EcuInstance values_EcuInstance e f = [] \<longleftrightarrow> same_ecu e f"
  by (simp add: struct_simps clean_ecu_def same_ecu_def text_inject)

lemma group_silent:
  "clean_group g \<Longrightarrow> clean_group h \<Longrightarrow> diffSignalGroupElements g h = [] \<longleftrightarrow> same_group g h"
  by (simp add: diffSignalGroupElements_def struct_simps clean_group_def same_group_def text_inject strings_silent)

lemma frame_pdus_silent:
  "diffNestedFramePdus ms ns = [] \<longleftrightarrow> keyed pduShortNameRef ms = keyed pduShortNameRef ns"
proof -
  have "diffStruct names_FramePduMapping values_FramePduMapping x y = [] \<longleftrightarrow> x = y" for x y
    by (cases x; cases y) (simp add: struct_simps text_inject)
  then show ?thesis unfolding diffNestedFramePdus_def nested_silent by (intro silent_eq)
qed

lemma pdu_signals_silent:
  "diffNestedPduSignals ms ns = [] \<longleftrightarrow> keyed signalShortNameRef ms = keyed signalShortNameRef ns"
proof -
  have "diffStruct names_PduSignalMapping values_PduSignalMapping x y = [] \<longleftrightarrow> x = y" for x y
    by (cases x; cases y) (simp add: struct_simps text_inject)
  then show ?thesis unfolding diffNestedPduSignals_def nested_silent by (intro silent_eq)
qed

lemma value_table_silent:
  "diffSignalValueTable ts us = [] \<longleftrightarrow> keyed vte_value (table_of ts) = keyed vte_value (table_of us)"
proof -
  have "diffStruct names_ValueTableEntry values_ValueTableEntry x y = [] \<longleftrightarrow> x = y" for x y
    by (cases x; cases y) (simp add: struct_simps text_inject)
  then have "diffNestedValueTable xs ys = [] \<longleftrightarrow> keyed (\<lambda>e. i64_to_string (vte_value e)) xs = keyed (\<lambda>e. i64_to_string (vte_value e)) ys" for xs ys
    unfolding diffNestedValueTable_def nested_silent by (intro silent_eq)
  then have "diffNestedValueTable xs ys = [] \<longleftrightarrow> keyed vte_value xs = keyed vte_value ys" for xs ys
    using keyed_inj [of i64_to_string vte_value xs ys] by (simp add: inj_def int_text_inject)
  then show ?thesis by (auto simp: diffSignalValueTable_def table_of_def Let_def split: option.splits)
qed

lemma pdu_silent: "clean_pdu p \<Longrightarrow> clean_pdu q \<Longrightarrow> diffPduElements p q = [] \<longleftrightarrow> same_pdu p q"
  by (simp add: diffPduElements_def struct_simps clean_pdu_def same_pdu_def text_inject pdu_signals_silent)

text \<open>The names of nested differences start with the field, so the filter for the transmitters spares them.\<close>

lemma nested_names:
  "d \<in> set (diffNestedCollectionWith old new toStr keyOf field itemDiff) \<Longrightarrow> \<exists>t. fieldName d = field @ t"
  by (auto simp: diffNestedCollectionWith_def Let_def keyedName_def split: if_splits option.splits)

lemma frame_pdus_spared:
  "filter (\<lambda>d. fieldName d \<noteq> ''transmitters'') (diffNestedFramePdus ms ns) = diffNestedFramePdus ms ns"
  unfolding diffNestedFramePdus_def by (rule filter_True) (auto dest!: nested_names)

lemma frame_silent: "clean_frame f \<Longrightarrow> clean_frame g \<Longrightarrow> diffFrameElements f g = [] \<longleftrightarrow> same_frame f g"
  by (cases "transmitters f = transmitters g")
    (auto simp: frame_pdus_spared diffFrameElements_def Let_def struct_simps clean_frame_def same_frame_def text_inject
      frame_pdus_silent strings_silent)

lemma signal_silent: "clean_signal s \<Longrightarrow> clean_signal t \<Longrightarrow> diffSignalElements s t = [] \<longleftrightarrow> same_signal s t"
  by (simp add: diffSignalElements_def struct_simps clean_signal_def same_signal_def text_inject
      value_table_silent strings_silent) blast

section \<open>The engine\<close>

lemma process_keeps:
  assumes "fold (processGroup ty) gs (es, ds, er) = (es', ds', er')" "e \<in> set es'" "de_kind e = Modified"
  shows "e \<in> set es"
  using assms
proof (induction gs arbitrary: es ds er)
  case (Cons g gs)
  obtain es1 ds1 er1 where g: "processGroup ty g (es, ds, er) = (es1, ds1, er1)" by (metis prod_cases3)
  then have "e \<in> set es1" using Cons.IH [of es1 ds1 er1] Cons.prems by simp
  moreover have "set es1 \<subseteq> set es \<union> {e. de_kind e = Moved}"
    using g set_update_subset_insert
    by (fastforce simp: processGroup_def Let_def split: prod.splits if_splits)
  ultimately show ?case using Cons.prems(3) by auto
qed simp

lemma detectMoves_keeps:
  assumes "e \<in> set (entries (detectMovesForType oi ni sk ty r))" "de_kind e = Modified"
  shows "e \<in> set (entries r)"
proof -
  obtain es ds er where f: "fold (processGroup ty) (fold (groupEntry oi ni sk ty) (enumerate 0 (entries r)) [])
      (entries r, diagnostics r, []) = (es, ds, er)" by (metis prod_cases3)
  then have "e \<in> set es" using assms(1) keepEntries_subset [of 0 "sort er" es]
    by (auto simp: detectMovesForType_def split: if_splits)
  then show ?thesis by (rule process_keeps [OF f _ assms(2)])
qed

lemma moves_keep:
  "e \<in> set (entries (applyMoveDetection old new r)) \<Longrightarrow> de_kind e = Modified \<Longrightarrow> e \<in> set (entries r)"
  by (auto simp: applyMoveDetection_def Let_def dest!: detectMoves_keeps)

lemma family_path: "(ty, k) \<in> set (typed_paths t idx) \<longleftrightarrow> ty = t \<and> map_of idx k \<noteq> None"
  by (force simp: typed_paths_def map_of_eq_None_iff image_iff)

text \<open>The kind of an entry says on which sides its path stands.\<close>

definition kind_fits :: "(string \<times> string) set \<Rightarrow> (string \<times> string) set \<Rightarrow> diff_entry \<Rightarrow> bool" where
  "kind_fits olds news e \<longleftrightarrow>
    (case de_kind e of
       Removed \<Rightarrow> (elementType e, oldPath e) \<in> olds - news
     | Added \<Rightarrow> (elementType e, newPath e) \<in> news - olds
     | Modified \<Rightarrow> newPath e = oldPath e \<and> (elementType e, oldPath e) \<in> olds \<inter> news
     | Moved \<Rightarrow> False)"

lemma family_fits:
  assumes "e \<in> set (entries (matchByPath oi ni ty))"
    and "\<And>k. (ty, k) \<in> olds \<longleftrightarrow> map_of oi k \<noteq> None" and "\<And>k. (ty, k) \<in> news \<longleftrightarrow> map_of ni k \<noteq> None"
  shows "kind_fits olds news e"
  using assms(1) by (auto simp: matchByPath_def new_entry_def kind_fits_def assms(2,3) map_of_eq_None_iff
      split: if_splits) force+

lemma family_member:
  "(''Cluster'', k) \<in> set (all_paths p) \<longleftrightarrow> map_of (clusterIndex p) k \<noteq> None"
  "(''EcuInstance'', k) \<in> set (all_paths p) \<longleftrightarrow> map_of (ecuIndex p) k \<noteq> None"
  "(''Frame'', k) \<in> set (all_paths p) \<longleftrightarrow> map_of (frameIndex p) k \<noteq> None"
  "(''Pdu'', k) \<in> set (all_paths p) \<longleftrightarrow> map_of (pduIndex p) k \<noteq> None"
  "(''Signal'', k) \<in> set (all_paths p) \<longleftrightarrow> map_of (signalIndex p) k \<noteq> None"
  "(''SignalGroup'', k) \<in> set (all_paths p) \<longleftrightarrow> map_of (groupIndex p) k \<noteq> None"
  by (simp_all add: all_paths_def family_path)

lemma match_fits:
  assumes "e \<in> set (entries (matchParsedProjects old new))"
  shows "kind_fits (set (all_paths old)) (set (all_paths new)) e"
proof -
  consider "e \<in> set (entries (matchByPath (clusterIndex old) (clusterIndex new) ''Cluster''))"
    | "e \<in> set (entries (matchByPath (ecuIndex old) (ecuIndex new) ''EcuInstance''))"
    | "e \<in> set (entries (matchByPath (frameIndex old) (frameIndex new) ''Frame''))"
    | "e \<in> set (entries (matchByPath (pduIndex old) (pduIndex new) ''Pdu''))"
    | "e \<in> set (entries (matchByPath (signalIndex old) (signalIndex new) ''Signal''))"
    | "e \<in> set (entries (matchByPath (groupIndex old) (groupIndex new) ''SignalGroup''))"
    using assms by (auto simp: matchParsedProjects_def mergeReport_def empty_report_def)
  then show ?thesis by cases (rule family_fits, assumption, rule family_member, rule family_member)+
qed

lemma sort_key_Nil: "sort_key f xs = [] \<longleftrightarrow> xs = []"
  by (metis length_0_conv length_sort)

lemma empty_diff_entries:
  "diff old new = empty_report \<longleftrightarrow>
    (\<forall>e \<in> set (entries (applyMoveDetection old new (matchParsedProjects old new))). populateEntry old new e = [])
    \<and> diagnostics (applyMoveDetection old new (matchParsedProjects old new)) = []"
  by (simp add: diff_def sortDeterministically_def unsortedDiff_def populateFieldDiffs_def empty_report_def
      concat_Nil sort_key_Nil)

lemma populate_none: "populateEntry old new e = [] \<longleftrightarrow>
    de_kind e = Modified \<and> diffPair old new (elementType e) (oldPath e) (newPath e) = []"
  by (cases "de_kind e") (simp_all add: populateEntry_def Let_def)

lemma empty_diff_paths:
  "diff old new = empty_report \<longleftrightarrow>
    set (all_paths old) = set (all_paths new) \<and> (\<forall>(ty, k) \<in> set (all_paths old). diffPair old new ty k k = [])"
proof
  let ?m = "matchParsedProjects old new"
  let ?a = "applyMoveDetection old new ?m"
  assume "diff old new = empty_report"
  then have e: "de_kind e = Modified" "newPath e = oldPath e" "diffPair old new (elementType e) (oldPath e) (oldPath e) = []"
      "(elementType e, oldPath e) \<in> set (all_paths old)" "(elementType e, oldPath e) \<in> set (all_paths new)"
    if "e \<in> set (entries ?a)" for e
    using that moves_keep [OF that] match_fits [of e old new]
    by (auto simp: empty_diff_entries populate_none kind_fits_def)
  have "set (all_paths old) = set (old_sides (entries ?a))"
    using mset_eq_setD [OF match_sides(1) [of old new]] by (simp add: applyMoveDetection_sides)
  then have old: "(ty, k) \<in> set (all_paths old) \<longleftrightarrow> (\<exists>e \<in> set (entries ?a). elementType e = ty \<and> oldPath e = k)" for ty k
    using e(1) by (auto simp: old_sides_def old_side_def split: if_splits)
  have "set (all_paths new) = set_mset (new_sides (entries ?a))"
    using arg_cong [OF match_sides(2) [of old new], of set_mset] by (simp add: applyMoveDetection_sides)
  moreover have "set_mset (new_sides es) = (\<Union>e \<in> set es. set_mset (new_side e))" for es
    by (induction es) (simp_all add: new_sides_def)
  ultimately have new: "(ty, k) \<in> set (all_paths new) \<longleftrightarrow> (\<exists>e \<in> set (entries ?a). elementType e = ty \<and> oldPath e = k)" for ty k
    using e(1,2) by (auto simp: new_side_def split: if_splits)
  show "set (all_paths old) = set (all_paths new) \<and> (\<forall>(ty, k) \<in> set (all_paths old). diffPair old new ty k k = [])"
    using old new e(3) by auto
next
  let ?m = "matchParsedProjects old new"
  assume same: "set (all_paths old) = set (all_paths new) \<and> (\<forall>(ty, k) \<in> set (all_paths old). diffPair old new ty k k = [])"
  then have e: "de_kind e = Modified" "populateEntry old new e = []" if "e \<in> set (entries ?m)" for e
    using match_fits [OF that] by (auto simp: populate_none kind_fits_def split: diff_kind.splits)
  then have "applyMoveDetection old new ?m = ?m"
    by (simp add: applyMoveDetection_def Let_def detectMoves_modified)
  then show "diff old new = empty_report"
    using e(2) by (simp add: empty_diff_entries match_diagnostics)
qed

section \<open>Projects with the same contents\<close>

definition same_projects :: "parsed_project \<Rightarrow> parsed_project \<Rightarrow> bool" where
  "same_projects p q \<longleftrightarrow>
    (\<forall>k. rel_option same_cluster (map_of (clusterIndex p) k) (map_of (clusterIndex q) k)
      \<and> rel_option same_ecu (map_of (ecuIndex p) k) (map_of (ecuIndex q) k)
      \<and> rel_option same_frame (map_of (frameIndex p) k) (map_of (frameIndex q) k)
      \<and> rel_option same_pdu (map_of (pduIndex p) k) (map_of (pduIndex q) k)
      \<and> rel_option same_signal (map_of (signalIndex p) k) (map_of (signalIndex q) k)
      \<and> rel_option same_group (map_of (groupIndex p) k) (map_of (groupIndex q) k))"

definition clean_file :: "parsed_file \<Rightarrow> bool" where
  "clean_file f \<longleftrightarrow> list_all clean_cluster (clusters f) \<and> list_all clean_ecu (ecuInstances f)
    \<and> list_all clean_frame (frames f) \<and> list_all clean_pdu (pdus f) \<and> list_all clean_signal (signals f)
    \<and> list_all clean_group (signalGroups f)"

lemma indexed: "map_of (indexByPath common xs) k = Some x \<Longrightarrow> x \<in> set xs"
  unfolding indexByPath_fold smap.first_wins by (drule map_of_SomeD) auto

lemma indexed_clean:
  assumes "list_all clean_file (files p)"
  shows "map_of (clusterIndex p) k = Some c \<Longrightarrow> clean_cluster c" "map_of (ecuIndex p) k = Some e \<Longrightarrow> clean_ecu e"
    "map_of (frameIndex p) k = Some f \<Longrightarrow> clean_frame f" "map_of (pduIndex p) k = Some u \<Longrightarrow> clean_pdu u"
    "map_of (signalIndex p) k = Some s \<Longrightarrow> clean_signal s" "map_of (groupIndex p) k = Some g \<Longrightarrow> clean_group g"
  using assms
  by (auto simp: clusterIndex_def ecuIndex_def frameIndex_def pduIndex_def signalIndex_def groupIndex_def
      collectAll_def clean_file_def list_all_iff dest!: indexed)

lemma family_same:
  assumes "\<And>x y. map_of m k = Some x \<Longrightarrow> map_of n k = Some y \<Longrightarrow> f x y = [] \<longleftrightarrow> same x y"
  shows "(map_of m k \<noteq> None \<longleftrightarrow> map_of n k \<noteq> None) \<and> (map_of m k \<noteq> None \<longrightarrow> diffFound m n f k k = [])
    \<longleftrightarrow> rel_option same (map_of m k) (map_of n k)"
  using assms by (cases "map_of m k"; cases "map_of n k") (simp_all add: diffFound_def)

lemma diff_empty_same:
  assumes "list_all clean_file (files old)" "list_all clean_file (files new)"
  shows "diff old new = empty_report \<longleftrightarrow> same_projects old new"
proof -
  note clean = indexed_clean [OF assms(1)] indexed_clean [OF assms(2)]
  define ok where "ok ty k \<longleftrightarrow> ((ty, k) \<in> set (all_paths old) \<longleftrightarrow> (ty, k) \<in> set (all_paths new))
      \<and> ((ty, k) \<in> set (all_paths old) \<longrightarrow> diffPair old new ty k k = [])" for ty k
  note fam = ok_def family_member diffPair_def
  have c: "ok ''Cluster'' k \<longleftrightarrow> rel_option same_cluster (map_of (clusterIndex old) k) (map_of (clusterIndex new) k)" for k
    using family_same [of "clusterIndex old" k "clusterIndex new", OF cluster_silent] clean(1,7) by (simp add: fam)
  have e: "ok ''EcuInstance'' k \<longleftrightarrow> rel_option same_ecu (map_of (ecuIndex old) k) (map_of (ecuIndex new) k)" for k
    using family_same [of "ecuIndex old" k "ecuIndex new", OF ecu_silent] clean(2,8) by (simp add: fam)
  have f: "ok ''Frame'' k \<longleftrightarrow> rel_option same_frame (map_of (frameIndex old) k) (map_of (frameIndex new) k)" for k
    using family_same [of "frameIndex old" k "frameIndex new", OF frame_silent] clean(3,9) by (simp add: fam)
  have p: "ok ''Pdu'' k \<longleftrightarrow> rel_option same_pdu (map_of (pduIndex old) k) (map_of (pduIndex new) k)" for k
    using family_same [of "pduIndex old" k "pduIndex new", OF pdu_silent] clean(4,10) by (simp add: fam)
  have s: "ok ''Signal'' k \<longleftrightarrow> rel_option same_signal (map_of (signalIndex old) k) (map_of (signalIndex new) k)" for k
    using family_same [of "signalIndex old" k "signalIndex new", OF signal_silent] clean(5,11) by (simp add: fam)
  have g: "ok ''SignalGroup'' k \<longleftrightarrow> rel_option same_group (map_of (groupIndex old) k) (map_of (groupIndex new) k)" for k
    using family_same [of "groupIndex old" k "groupIndex new", OF group_silent] clean(6,12) by (simp add: fam)
  have other: "ok ty k" if "ty \<notin> {''Cluster'', ''EcuInstance'', ''Frame'', ''Pdu'', ''Signal'', ''SignalGroup''}" for ty k
    using that by (simp add: ok_def all_paths_def family_path)
  have "diff old new = empty_report \<longleftrightarrow> (\<forall>ty k. ok ty k)"
    unfolding empty_diff_paths ok_def by auto
  also have "\<dots> \<longleftrightarrow> (\<forall>k. ok ''Cluster'' k \<and> ok ''EcuInstance'' k \<and> ok ''Frame'' k \<and> ok ''Pdu'' k \<and> ok ''Signal'' k \<and> ok ''SignalGroup'' k)"
  proof (intro iffI allI)
    fix ty k
    assume fam: "\<forall>k. ok ''Cluster'' k \<and> ok ''EcuInstance'' k \<and> ok ''Frame'' k \<and> ok ''Pdu'' k \<and> ok ''Signal'' k \<and> ok ''SignalGroup'' k"
    show "ok ty k"
    proof (cases "ty \<in> {''Cluster'', ''EcuInstance'', ''Frame'', ''Pdu'', ''Signal'', ''SignalGroup''}")
      case True
      then show ?thesis using fam [rule_format, of k] by (elim insertE) simp_all
    next
      case False
      then show ?thesis by (rule other)
    qed
  qed simp
  finally show ?thesis unfolding same_projects_def c e f p s g .
qed

section \<open>Properties\<close>

text \<open>C12: for two projects whose texts do not imitate the printed values (\<open>clean_file\<close>: no category or unit \<open>nullopt\<close>, no
  empty channel, controller or transmitter name and none with a comma), the comparison is empty exactly when,
  for each element type and short name, the first element of that name is on both sides or on neither and
  has the same contents; the lists of channels and controllers count in their order, the other nested
  collections by the first item of each key and regardless of order. Later elements of a repeated name take no part (\<open>duplicate_hides_change\<close>), and unclean texts can
  hide a change (\<open>joined_names_hide_change\<close>, \<open>absent_equals_nullopt\<close>).\<close>

theorem diff_misses_nothing:
  assumes "list_all clean_file (files old)" and "list_all clean_file (files new)"
  shows "diff old new = empty_report \<longleftrightarrow> same_projects old new"
  by (rule diff_empty_same [OF assms])

definition grouped :: "string list \<Rightarrow> parsed_project" where
  "grouped names = \<lparr>files = [empty_file\<lparr>signalGroups :=
     [\<lparr>group_common = default_common\<lparr>shortName := ''G''\<rparr>, members = names\<rparr>]\<rparr>], resolvedRefs = []\<rparr>"

theorem diff_misses_nothing_witness:
  "diff (grouped [''A'', ''B'']) (grouped [''B'', ''A'']) = empty_report
    \<and> diff (grouped [''A'', ''B'']) (grouped [''A'']) \<noteq> empty_report"
proof -
  have c: "list_all clean_file (files (grouped names))" for names
    by (simp add: grouped_def empty_file_def clean_file_def clean_group_def default_common_def)
  have same: "same_projects (grouped xs) (grouped ys) \<longleftrightarrow> set xs = set ys" for xs ys
    by (simp add: same_projects_def grouped_def empty_file_def clusterIndex_def ecuIndex_def frameIndex_def
        pduIndex_def signalIndex_def groupIndex_def collectAll_def indexByPath_def diffPathForShortName_def
        same_group_def default_common_def)
  show ?thesis using diff_misses_nothing [OF c c] same by auto
qed

text \<open>The bound on the texts is needed: two names and one name with the separator in it compare equal.\<close>

lemma joined_names_hide_change:
  "diffStruct names_EcuInstance values_EcuInstance
     \<lparr>ecu_common = default_common, connectedChannels = [''A, B''], controllers = []\<rparr>
     \<lparr>ecu_common = default_common, connectedChannels = [''A'', ''B''], controllers = []\<rparr> = []"
  by (simp add: struct_simps dv_vector_def)

text \<open>Only the first element of a name takes part: a change of the second is not reported, and no diagnostic
  says that there are two.\<close>

definition grouped_twice :: "string list \<Rightarrow> parsed_project" where
  "grouped_twice names = \<lparr>files = [empty_file\<lparr>signalGroups :=
     [\<lparr>group_common = default_common\<lparr>shortName := ''G''\<rparr>, members = []\<rparr>,
      \<lparr>group_common = default_common\<lparr>shortName := ''G''\<rparr>, members = names\<rparr>]\<rparr>], resolvedRefs = []\<rparr>"

lemma duplicate_hides_change: "diff (grouped_twice xs) (grouped_twice ys) = empty_report"
proof -
  have c: "list_all clean_file (files (grouped_twice names))" for names
    by (simp add: grouped_twice_def empty_file_def clean_file_def clean_group_def default_common_def)
  have "same_projects (grouped_twice xs) (grouped_twice ys)"
    by (simp add: same_projects_def grouped_twice_def empty_file_def clusterIndex_def ecuIndex_def frameIndex_def
        pduIndex_def signalIndex_def groupIndex_def collectAll_def indexByPath_def diffPathForShortName_def
        same_group_def default_common_def)
  then show ?thesis using diff_empty_same [OF c c] by blast
qed

end
