(* ===== verification/RoundTripDiff.thy ===== *)
theory RoundTripDiff
  imports WriteRoundTrip DiffExact
begin

text \<open>
  The writer, the parser and the diff engine together: what \<open>parsex diff\<close> reports between a project
  and the file written from it. The comparison is empty exactly for the projects without any of the
  features the writer drops; \<open>lossless\<close> lists them.
\<close>

section \<open>What the writer keeps as it is\<close>

text \<open>The conditions under which the written element compares as equal to its original.\<close>

definition intact_cluster :: "cluster \<Rightarrow> bool" where
  "intact_cluster c \<longleftrightarrow> sorted (physicalChannels c)"

definition intact_ecu :: "ecu_instance \<Rightarrow> bool" where
  "intact_ecu x \<longleftrightarrow> connectedChannels x = [] \<and> sorted (controllers x)"

definition intact_frame :: "frame \<Rightarrow> bool" where
  "intact_frame f \<longleftrightarrow> category (frame_common f) = None \<and> transmitters f = []"

definition intact_pdu :: "pdu \<Rightarrow> bool" where
  "intact_pdu p \<longleftrightarrow> category (pdu_common p) = None
    \<and> list_all (\<lambda>m. case keyed signalShortNameRef (signalMappings p) (signalShortNameRef m) of
        None \<Rightarrow> True | Some first \<Rightarrow> psm_byteOrder first = MostSignificantByteFirst) (signalMappings p)"

definition intact_signal :: "signal \<Rightarrow> bool" where
  "intact_signal s \<longleftrightarrow> category (signal_common s) = None \<and> startBit s = 0
    \<and> signal_byteOrder s = MostSignificantByteFirst \<and> factor s = dbl_one \<and> offset s = dbl_zero
    \<and> signal_min s = None \<and> signal_max s = None \<and> unit_name s = None
    \<and> (case initValue s of None \<Rightarrow> True | Some v \<Rightarrow> \<not> subnormal v)
    \<and> receivers s = [] \<and> table_of (valueTable s) = []"

definition intact_group :: "signal_group \<Rightarrow> bool" where
  "intact_group g \<longleftrightarrow> category (group_common g) = None"

definition lossless :: "parsed_project \<Rightarrow> bool" where
  "lossless p \<longleftrightarrow> list_all (\<lambda>(k, c). intact_cluster c) (clusterIndex p)
    \<and> list_all (\<lambda>(k, x). intact_ecu x) (ecuIndex p)
    \<and> list_all (\<lambda>(k, f). intact_frame f) (frameIndex p)
    \<and> list_all (\<lambda>(k, u). intact_pdu u) (pduIndex p)
    \<and> list_all (\<lambda>(k, s). intact_signal s) (signalIndex p)
    \<and> list_all (\<lambda>(k, g). intact_group g) (groupIndex p)"

section \<open>First objects under a key\<close>

lemma find_filter: "List.find P xs = (case filter P xs of [] \<Rightarrow> None | x # _ \<Rightarrow> Some x)"
  by (induction xs) auto

lemma find_sort_key: "List.find (\<lambda>x. g x = k) (sort_key g xs) = List.find (\<lambda>x. g x = k) xs"
  by (simp add: find_filter sort_key_stable)

lemma keyed_find: "keyed g xs k = List.find (\<lambda>x. g x = k) xs"
  unfolding keyed_def by (induction xs) auto

lemma keyed_sort_key: "keyed g (sort_key g xs) = keyed g xs"
  by (simp add: fun_eq_iff keyed_find find_sort_key)

lemma keyed_map: "(\<And>x. g (h x) = g x) \<Longrightarrow> keyed g (map h xs) k = map_option h (keyed g xs k)"
  unfolding keyed_def by (induction xs) auto

lemma index_find:
  "map_of (indexByPath common xs) k =
    (if k \<noteq> [] \<and> hd k = CHR ''/'' \<and> tl k \<noteq> [] then List.find (\<lambda>x. shortName (common x) = tl k) xs else None)"
proof -
  have "map_of (indexByPath common xs) k = map_of (map (\<lambda>x. (diffPathForShortName (shortName (common x)), x))
      (filter (\<lambda>x. shortName (common x) \<noteq> []) xs)) k"
    unfolding indexByPath_fold smap.first_wins ..
  also have "\<dots> = (if k \<noteq> [] \<and> hd k = CHR ''/'' \<and> tl k \<noteq> []
      then List.find (\<lambda>x. shortName (common x) = tl k) xs else None)"
    by (cases k; induction xs) (auto simp: diffPathForShortName_def)
  finally show ?thesis .
qed

text \<open>A family after the round trip: the index finds the kept part of the object it found before.\<close>

lemma find_kept:
  assumes "map erase ys = map kept zs" and "\<And>y. n (erase y) = n y" and "\<And>z. n (kept z) = n z"
  shows "rel_option (\<lambda>z y. erase y = kept z) (List.find (\<lambda>z. n z = k) zs) (List.find (\<lambda>y. n y = k) ys)"
  using assms(1)
proof (induction zs arbitrary: ys)
  case Nil
  then show ?case by simp
next
  case (Cons z zs)
  then obtain y ys' where ys: "ys = y # ys'" "erase y = kept z" "map erase ys' = map kept zs" by (cases ys) auto
  then have "n y = n z" using assms(2,3) by metis
  then show ?case using Cons.IH [OF ys(3)] ys(1,2) by simp
qed

lemma list_all_values: "m_inv m \<Longrightarrow> list_all (\<lambda>(k, v). P v) m \<longleftrightarrow> (\<forall>k. pred_option P (map_of m k))"
  using smap.mem_entries [of m] by (force simp: list_all_iff option.pred_set elim!: option.set_cases)

section \<open>One family of elements\<close>

text \<open>
  What the six families share: writing and reading an element (\<open>kept\<close>, up to its span, \<open>erase\<close>) keeps its name,
  the comparison \<open>same\<close> finds the result equal exactly for \<open>intact\<close> elements, and clean texts stay clean.
\<close>

locale written_family =
  fixes common :: "'a \<Rightarrow> common_fields"
    and erase :: "'a \<Rightarrow> 'a"
    and kept :: "'a \<Rightarrow> 'a"
    and same :: "'a \<Rightarrow> 'a \<Rightarrow> bool"
    and intact :: "'a \<Rightarrow> bool"
    and clean :: "'a \<Rightarrow> bool"
  assumes erase_name: "shortName (common (erase y)) = shortName (common y)"
    and kept_name: "shortName (common (kept z)) = shortName (common z)"
    and same_kept: "erase y = kept z \<Longrightarrow> same z y \<longleftrightarrow> intact z"
    and clean_kept: "erase y = kept z \<Longrightarrow> clean z \<Longrightarrow> clean y"
begin

lemma index_kept:
  assumes "map erase ys = map kept (sortedCopy common zs)"
  shows "rel_option (\<lambda>z y. erase y = kept z) (map_of (indexByPath common zs) k) (map_of (indexByPath common ys) k)"
  using find_kept [where n = "\<lambda>x. shortName (common x)", OF assms erase_name kept_name]
  by (simp add: index_find sortedCopy_def find_sort_key)

lemma same_index:
  assumes "map erase ys = map kept (sortedCopy common zs)"
  shows "rel_option same (map_of (indexByPath common zs) k) (map_of (indexByPath common ys) k)
    \<longleftrightarrow> pred_option intact (map_of (indexByPath common zs) k)"
  using index_kept [OF assms, of k] same_kept
  by (cases "map_of (indexByPath common zs) k"; cases "map_of (indexByPath common ys) k") auto

lemma clean_read:
  assumes "map erase ys = map kept (sortedCopy common zs)" and "list_all clean zs"
  shows "list_all clean ys"
proof -
  have "\<exists>z \<in> set zs. erase y = kept z" if "y \<in> set ys" for y
  proof -
    have "erase y \<in> set (map kept (sortedCopy common zs))" using that by (simp flip: assms(1))
    then show ?thesis by (auto simp: sortedCopy_def)
  qed
  then show ?thesis using assms(2) clean_kept by (auto simp: list_all_iff)
qed

end

section \<open>The kept part compares as equal exactly for intact objects\<close>

lemma sort_fixed: "sort xs = xs \<longleftrightarrow> sorted xs" for xs :: "string list"
  by (metis sorted_sort sorted_sort_id)

lemma same_kept_cluster: "eraseCluster y = keptCluster c \<Longrightarrow> same_cluster c y \<longleftrightarrow> intact_cluster c"
  using sort_fixed [of "physicalChannels c"]
  by (cases "cluster_common y"; cases "cluster_common c"; cases y; cases c) (auto simp: erase_kept_defs same_cluster_def intact_cluster_def)

lemma same_kept_ecu: "eraseEcu y = keptEcu x \<Longrightarrow> same_ecu x y \<longleftrightarrow> intact_ecu x"
  using sort_fixed [of "controllers x"]
  by (cases "ecu_common y"; cases "ecu_common x"; cases y; cases x) (auto simp: erase_kept_defs same_ecu_def intact_ecu_def)

lemma same_kept_frame: "eraseFrame y = keptFrame f \<Longrightarrow> same_frame f y \<longleftrightarrow> intact_frame f"
  by (cases "frame_common y"; cases "frame_common f"; cases y; cases f) (auto simp: erase_kept_defs same_frame_def intact_frame_def keyed_sort_key)

lemma first_mappings:
  "keyed signalShortNameRef ms = keyed signalShortNameRef (map (\<lambda>m. m\<lparr>psm_byteOrder := MostSignificantByteFirst\<rparr>) ms)
    \<longleftrightarrow> list_all (\<lambda>m. case keyed signalShortNameRef ms (signalShortNameRef m) of
        None \<Rightarrow> True | Some first \<Rightarrow> psm_byteOrder first = MostSignificantByteFirst) ms" (is "?l \<longleftrightarrow> ?r")
proof -
  let ?K = "keyed signalShortNameRef ms"
  have fixed: "m = m\<lparr>psm_byteOrder := MostSignificantByteFirst\<rparr> \<longleftrightarrow> psm_byteOrder m = MostSignificantByteFirst" for m
    by (cases m) simp
  have none: "?K k = None" if "k \<notin> signalShortNameRef ` set ms" for k
    using that by (auto simp: keyed_find find_None_iff)
  have "?l \<longleftrightarrow> (\<forall>k. ?K k = map_option (\<lambda>m. m\<lparr>psm_byteOrder := MostSignificantByteFirst\<rparr>) (?K k))"
    by (simp add: fun_eq_iff keyed_map)
  also have "\<dots> \<longleftrightarrow> (\<forall>k. case ?K k of None \<Rightarrow> True | Some first \<Rightarrow> psm_byteOrder first = MostSignificantByteFirst)"
    by (intro iff_allI) (auto simp: fixed [symmetric] split: option.splits)
  also have "\<dots> \<longleftrightarrow> ?r"
  proof (intro iffI allI)
    fix k
    assume r: ?r
    show "case ?K k of None \<Rightarrow> True | Some first \<Rightarrow> psm_byteOrder first = MostSignificantByteFirst"
      using r none [of k] by (cases "k \<in> signalShortNameRef ` set ms") (auto simp: list_all_iff)
  qed (simp add: list_all_iff)
  finally show ?thesis .
qed

lemma same_kept_pdu:
  assumes "erasePdu y = keptPdu p"
  shows "same_pdu p y \<longleftrightarrow> intact_pdu p"
proof -
  let ?u = "\<lambda>m. m\<lparr>psm_byteOrder := MostSignificantByteFirst\<rparr>"
  have y: "category (pdu_common y) = None" "pdu_length y = pdu_length p"
      "signalMappings y = map ?u (sort_key signalShortNameRef (signalMappings p))"
    using assms by (cases "pdu_common y"; cases y; auto simp: erase_kept_defs)+
  have "keyed signalShortNameRef (signalMappings y) = keyed signalShortNameRef (map ?u (signalMappings p))"
    by (simp add: fun_eq_iff y(3) keyed_map keyed_sort_key)
  then show ?thesis by (auto simp: same_pdu_def intact_pdu_def y(1,2) first_mappings)
qed

lemma keyed_empty: "keyed g xs = keyed g [] \<longleftrightarrow> xs = []"
  by (cases xs) (auto simp: keyed_def fun_eq_iff)

lemma same_kept_signal: "eraseSignal y = keptSignal s \<Longrightarrow> same_signal s y \<longleftrightarrow> intact_signal s"
  by (cases "signal_common y"; cases "signal_common s"; cases y; cases s)
    (auto simp: erase_kept_defs same_signal_def intact_signal_def default_signal_def default_common_def keyed_empty
      table_of_def split: option.splits if_splits)

lemma same_kept_group: "eraseGroup y = keptGroup g \<Longrightarrow> same_group g y \<longleftrightarrow> intact_group g"
  by (cases "group_common y"; cases "group_common g"; cases y; cases g) (auto simp: erase_kept_defs same_group_def intact_group_def)

section \<open>The kept part is clean\<close>

lemma kept_clean:
  "eraseCluster yc = keptCluster c \<Longrightarrow> clean_cluster c \<Longrightarrow> clean_cluster yc"
  "eraseEcu ye = keptEcu e \<Longrightarrow> clean_ecu e \<Longrightarrow> clean_ecu ye"
  "eraseFrame yf = keptFrame f \<Longrightarrow> clean_frame yf"
  "erasePdu yp = keptPdu p \<Longrightarrow> clean_pdu yp"
  "eraseSignal ys = keptSignal s \<Longrightarrow> clean_signal s \<Longrightarrow> clean_signal ys"
  "eraseGroup yg = keptGroup g \<Longrightarrow> clean_group yg"
  subgoal by (cases "cluster_common yc"; cases "cluster_common c"; cases yc; cases c) (auto simp: erase_kept_defs clean_cluster_def list_all_iff)
  subgoal by (cases "ecu_common ye"; cases "ecu_common e"; cases ye; cases e) (auto simp: erase_kept_defs clean_ecu_def list_all_iff)
  subgoal by (cases "frame_common yf"; cases "frame_common f"; cases yf; cases f) (auto simp: erase_kept_defs clean_frame_def)
  subgoal by (cases "pdu_common yp"; cases "pdu_common p"; cases yp; cases p) (auto simp: erase_kept_defs clean_pdu_def)
  subgoal by (cases "signal_common ys"; cases "signal_common s"; cases ys; cases s) (auto simp: erase_kept_defs clean_signal_def default_signal_def canonical_def dbl_one_def dbl_zero_def split: option.splits if_splits)
  subgoal by (cases "group_common yg"; cases "group_common g"; cases yg; cases g) (auto simp: erase_kept_defs clean_group_def)
  done

section \<open>The six families\<close>

interpretation clusters_written: written_family cluster_common eraseCluster keptCluster same_cluster intact_cluster clean_cluster
  by unfold_locales (use erased_names(1) kept_names(1) same_kept_cluster kept_clean(1) in blast)+

interpretation ecus_written: written_family ecu_common eraseEcu keptEcu same_ecu intact_ecu clean_ecu
  by unfold_locales (use erased_names(2) kept_names(2) same_kept_ecu kept_clean(2) in blast)+

interpretation frames_written: written_family frame_common eraseFrame keptFrame same_frame intact_frame clean_frame
  by unfold_locales (use erased_names(3) kept_names(3) same_kept_frame kept_clean(3) in blast)+

interpretation pdus_written: written_family pdu_common erasePdu keptPdu same_pdu intact_pdu clean_pdu
  by unfold_locales (use erased_names(4) kept_names(4) same_kept_pdu kept_clean(4) in blast)+

interpretation signals_written: written_family signal_common eraseSignal keptSignal same_signal intact_signal clean_signal
  by unfold_locales (use erased_names(5) kept_names(5) same_kept_signal kept_clean(5) in blast)+

interpretation groups_written: written_family group_common eraseGroup keptGroup same_group intact_group clean_group
  by unfold_locales (use erased_names(6) kept_names(6) same_kept_group kept_clean(6) in blast)+

lemma gather_clean:
  assumes "list_all clean_file (files p)"
  shows "list_all clean_cluster (gather clusters p)" "list_all clean_ecu (gather ecuInstances p)"
    "list_all clean_frame (gather frames p)" "list_all clean_pdu (gather pdus p)"
    "list_all clean_signal (gather signals p)" "list_all clean_group (gather signalGroups p)"
  using assms by (auto simp: gather_def list_all_iff clean_file_def)

lemma collect_gather: "collectAll m p = gather m p"
  by (simp add: collectAll_def gather_def)

text \<open>A file that holds what a project's families become on the way through the writer and the parser.\<close>

definition read_back :: "parsed_project \<Rightarrow> parsed_file \<Rightarrow> bool" where
  "read_back p f \<longleftrightarrow> map eraseCluster (clusters f) = map keptCluster (sortedCopy cluster_common (gather clusters p))
    \<and> map eraseEcu (ecuInstances f) = map keptEcu (sortedCopy ecu_common (gather ecuInstances p))
    \<and> map eraseFrame (frames f) = map keptFrame (sortedCopy frame_common (gather frames p))
    \<and> map erasePdu (pdus f) = map keptPdu (sortedCopy pdu_common (gather pdus p))
    \<and> map eraseSignal (signals f) = map keptSignal (sortedCopy signal_common (gather signals p))
    \<and> map eraseGroup (signalGroups f) = map keptGroup (sortedCopy group_common (gather signalGroups p))"

lemma read_back_clean:
  assumes "read_back p f" and clean: "list_all clean_file (files p)"
  shows "clean_file f"
proof -
  have f: "map eraseCluster (clusters f) = map keptCluster (sortedCopy cluster_common (gather clusters p))"
    "map eraseEcu (ecuInstances f) = map keptEcu (sortedCopy ecu_common (gather ecuInstances p))"
    "map eraseFrame (frames f) = map keptFrame (sortedCopy frame_common (gather frames p))"
    "map erasePdu (pdus f) = map keptPdu (sortedCopy pdu_common (gather pdus p))"
    "map eraseSignal (signals f) = map keptSignal (sortedCopy signal_common (gather signals p))"
    "map eraseGroup (signalGroups f) = map keptGroup (sortedCopy group_common (gather signalGroups p))"
    using assms(1) by (simp_all add: read_back_def)
  note c = gather_clean [OF clean]
  show ?thesis
    unfolding clean_file_def
  proof (intro conjI)
    show "list_all clean_cluster (clusters f)" by (rule clusters_written.clean_read [OF f(1) c(1)])
    show "list_all clean_ecu (ecuInstances f)" by (rule ecus_written.clean_read [OF f(2) c(2)])
    show "list_all clean_frame (frames f)" by (rule frames_written.clean_read [OF f(3) c(3)])
    show "list_all clean_pdu (pdus f)" by (rule pdus_written.clean_read [OF f(4) c(4)])
    show "list_all clean_signal (signals f)" by (rule signals_written.clean_read [OF f(5) c(5)])
    show "list_all clean_group (signalGroups f)" by (rule groups_written.clean_read [OF f(6) c(6)])
  qed
qed

lemma read_back_same:
  assumes "read_back p f"
  shows "same_projects p \<lparr>files = [f], resolvedRefs = refs\<rparr> \<longleftrightarrow> lossless p"
proof -
  let ?q = "\<lparr>files = [f], resolvedRefs = refs\<rparr>"
  have f: "map eraseCluster (clusters f) = map keptCluster (sortedCopy cluster_common (gather clusters p))"
    "map eraseEcu (ecuInstances f) = map keptEcu (sortedCopy ecu_common (gather ecuInstances p))"
    "map eraseFrame (frames f) = map keptFrame (sortedCopy frame_common (gather frames p))"
    "map erasePdu (pdus f) = map keptPdu (sortedCopy pdu_common (gather pdus p))"
    "map eraseSignal (signals f) = map keptSignal (sortedCopy signal_common (gather signals p))"
    "map eraseGroup (signalGroups f) = map keptGroup (sortedCopy group_common (gather signalGroups p))"
    using assms(1) by (simp_all add: read_back_def)
  have one: "gather m ?q = m f" for m :: "parsed_file \<Rightarrow> 'a list" by (simp add: gather_def)
  note idx = clusterIndex_def ecuIndex_def frameIndex_def pduIndex_def signalIndex_def groupIndex_def collect_gather
  have r:
    "rel_option same_cluster (map_of (clusterIndex p) k) (map_of (clusterIndex ?q) k) \<longleftrightarrow> pred_option intact_cluster (map_of (clusterIndex p) k)"
    "rel_option same_ecu (map_of (ecuIndex p) k) (map_of (ecuIndex ?q) k) \<longleftrightarrow> pred_option intact_ecu (map_of (ecuIndex p) k)"
    "rel_option same_frame (map_of (frameIndex p) k) (map_of (frameIndex ?q) k) \<longleftrightarrow> pred_option intact_frame (map_of (frameIndex p) k)"
    "rel_option same_pdu (map_of (pduIndex p) k) (map_of (pduIndex ?q) k) \<longleftrightarrow> pred_option intact_pdu (map_of (pduIndex p) k)"
    "rel_option same_signal (map_of (signalIndex p) k) (map_of (signalIndex ?q) k) \<longleftrightarrow> pred_option intact_signal (map_of (signalIndex p) k)"
    "rel_option same_group (map_of (groupIndex p) k) (map_of (groupIndex ?q) k) \<longleftrightarrow> pred_option intact_group (map_of (groupIndex p) k)" for k
    unfolding idx one
    by (rule clusters_written.same_index [OF f(1)]
        ecus_written.same_index [OF f(2)]
        frames_written.same_index [OF f(3)]
        pdus_written.same_index [OF f(4)]
        signals_written.same_index [OF f(5)]
        groups_written.same_index [OF f(6)])+
  show ?thesis
    unfolding same_projects_def r lossless_def list_all_values [OF index_invs(1)] list_all_values [OF index_invs(2)]
      list_all_values [OF index_invs(3)] list_all_values [OF index_invs(4)] list_all_values [OF index_invs(5)]
      list_all_values [OF index_invs(6)] by blast
qed

section \<open>Properties\<close>

text \<open>C5: for a writable project of a supported release whose texts do not imitate the printed values (\<open>clean_file\<close>): the
  project and what is parsed from the file written from it compare as equal exactly when, for each element
  type and short name, the first object of that name has nothing the writer drops: sorted channel and
  controller lists, no connected channels, transmitters or receivers, no scaling, limits, units or value
  tables, no categories beyond those of clusters and ECUs, and only most-significant-first byte orders. What
  only a later object of a repeated name loses is not seen.\<close>

theorem written_file_compares_equal:
  assumes "plain_content sc" and "list_all writable (files p)" and "supported_release (writeRelease p)"
    and "reads_as (outputTree sc p) docRoot" and clean: "list_all clean_file (files p)"
  shows "\<exists>f. buildFile path docRoot = Inr f
    \<and> (diff p \<lparr>files = [f], resolvedRefs = refs\<rparr> = empty_report \<longleftrightarrow> lossless p)"
proof -
  obtain f where f: "buildFile path docRoot = Inr f" "read_back p f"
    using write_parse [OF assms(1-4), of path] unfolding read_back_def by blast
  then have "list_all clean_file (files \<lparr>files = [f], resolvedRefs = refs\<rparr>)" using read_back_clean clean by simp
  then show ?thesis using f(1) diff_empty_same [OF clean] read_back_same [OF f(2)] by blast
qed

text \<open>The sample of \<open>WriteRoundTrip\<close> has unsorted channels and a little-endian mapping; one without them is kept.\<close>

definition kept_sample :: parsed_project where
  "kept_sample = \<lparr>files = [empty_file\<lparr>autosarRelease := ''4.3.1'',
     clusters := [\<lparr>cluster_common = default_common\<lparr>shortName := ''Bus'', category := Some ''CAN''\<rparr>,
        baudrate = Some 500000, physicalChannels = [''Ch1'', ''Ch2'']\<rparr>],
     signalGroups := [\<lparr>group_common = default_common\<lparr>shortName := ''G''\<rparr>, members = [''S2'', ''S1'']\<rparr>]\<rparr>],
     resolvedRefs = []\<rparr>"

theorem written_file_compares_equal_witness:
  "(\<exists>f. buildFile [''out.arxml''] (node_of (outputTree plain_sc kept_sample)) = Inr f
      \<and> diff kept_sample \<lparr>files = [f], resolvedRefs = []\<rparr> = empty_report)
    \<and> (\<exists>f. buildFile [''out.arxml''] (node_of (outputTree plain_sc written_sample)) = Inr f
      \<and> diff written_sample \<lparr>files = [f], resolvedRefs = []\<rparr> \<noteq> empty_report)"
proof -
  have w: "list_all writable (files kept_sample)"
    by (simp add: kept_sample_def writable_def default_common_def
        empty_file_def safe_name_def safe_text_def trimmed_def is_blank_def)
  have rel: "supported_release (writeRelease kept_sample)"
    by (simp add: kept_sample_def writeRelease_def supported_release_def schemaFilenameTable_def)
  have reads: "reads_as (outputTree plain_sc kept_sample) (node_of (outputTree plain_sc kept_sample))"
    by (rule reads_node_of) (simp add: outputTree_def forRelease_def scaffold_def Let_def)
  have clean: "list_all clean_file (files kept_sample)" "list_all clean_file (files written_sample)"
    by (simp_all add: kept_sample_def written_sample_def empty_file_def clean_file_def clean_cluster_def clean_ecu_def
        clean_frame_def clean_pdu_def clean_signal_def clean_group_def plain_name_def default_common_def
        sample_frame_def default_signal_def dbl_one_def dbl_zero_def canonical_def)
  note idx = clusterIndex_def ecuIndex_def frameIndex_def pduIndex_def signalIndex_def groupIndex_def collectAll_def
      indexByPath_def diffPathForShortName_def
  have "lossless kept_sample"
    by (simp add: lossless_def kept_sample_def empty_file_def idx default_common_def intact_cluster_def intact_group_def)
  moreover have "\<not> lossless written_sample"
    by (simp add: lossless_def written_sample_def empty_file_def idx default_common_def intact_cluster_def)
  ultimately show ?thesis
    using written_file_compares_equal [OF sample_hyps(1) w rel reads clean(1), of "[''out.arxml'']" "[]"]
      written_file_compares_equal [OF sample_hyps(1-4) clean(2), of "[''out.arxml'']" "[]"] by blast
qed

end
