(* ===== verification/ValidatorCan.thy ===== *)
theory ValidatorCan
  imports ValidationResult
begin

text \<open>
  CAN semantics (\<open>src/validator/validator_can.cpp\<close>): payload lengths and the bit occupancy of a
  PDU. A C++ \<open>int\<close> is an \<open>int\<close> here; the conversions from \<open>std::uint32_t\<close> are \<open>int_of_u32\<close>, which is
  where the width matters (additions past \<open>INT_MAX\<close> are undefined in the source).
\<close>

section \<open>Payload lengths\<close>

definition fd_table :: "uint32 list" where
  "fd_table = [0, 1, 2, 3, 4, 5, 6, 7, 8, 12, 16, 20, 24, 32, 48, 64]"

definition canFdBytesForDlc :: "int \<Rightarrow> uint32 option" where
  "canFdBytesForDlc dlc = (if dlc < 0 \<or> dlc > 15 then None else Some (fd_table ! nat dlc))"

definition isValidClassicCanLength :: "uint32 \<Rightarrow> bool" where
  "isValidClassicCanLength len \<longleftrightarrow> len \<le> 8"

definition isValidCanFdLength :: "uint32 \<Rightarrow> bool" where
  "isValidCanFdLength len \<longleftrightarrow>
    len \<in> {0, 1, 2, 3, 4, 5, 6, 7, 8, 12, 16, 20, 24, 32, 48, 64}"

definition checkPayloadLength ::
  "string \<Rightarrow> string \<Rightarrow> uint32 \<Rightarrow> raw_span \<Rightarrow> validation_result \<Rightarrow> validation_result" where
  "checkPayloadLength kind name len sp out =
    (if isValidClassicCanLength len \<or> isValidCanFdLength len then out
     else out @ [(new_error Error ''can.dlc_mismatch''
       (kind @ '' '' @ quoted name @ '' declares payload length '' @ u32_to_string len
        @ '' bytes, which is neither valid classic CAN (0..8) nor valid CAN FD (0..8, 12, 16, 20, 24, 32, 48, 64)''))
       \<lparr>ve_location := Some sp\<rparr>])"

section \<open>Bit positions\<close>

text \<open>
  The positions are \<open>int\<close> in the source and integers here. They agree while every position stays below
  \<open>2 ^ 31\<close>; past that the source's addition overflows, which C++ leaves undefined.
\<close>

definition physicalBitsForIntelSignal :: "int \<Rightarrow> int \<Rightarrow> int list" where
  "physicalBitsForIntelSignal start len =
    (if start < 0 \<or> len \<le> 0 then []
     else map (\<lambda>idx. start + int idx) [0..<nat len])"

text \<open>The loop of the Motorola walk: bits still to place, current position.\<close>

fun motorola_walk :: "nat \<Rightarrow> int \<Rightarrow> int list" where
  "motorola_walk 0 pos = []"
| "motorola_walk (Suc n) pos = pos # motorola_walk n (if pos mod 8 = 0 then pos + 15 else pos - 1)"

definition physicalBitsForMotorolaSignal :: "int \<Rightarrow> int \<Rightarrow> int list" where
  "physicalBitsForMotorolaSignal start len =
    (if start < 0 \<or> len \<le> 0 then [] else motorola_walk (nat len) start)"

definition physicalBitsForSignal :: "byte_order \<Rightarrow> int \<Rightarrow> int \<Rightarrow> int list" where
  "physicalBitsForSignal order start len =
    (if order = LeastSignificantByteFirst then physicalBitsForIntelSignal start len
     else physicalBitsForMotorolaSignal start len)"

section \<open>Occupancy\<close>

definition out_of_range_error :: "pdu \<Rightarrow> string \<Rightarrow> int \<Rightarrow> validation_error" where
  "out_of_range_error p ref b =
    (new_error Error ''can.signal_out_of_range''
      (''signal '' @ quoted ref @ '' bit '' @ int_to_string b @ '' exceeds PDU ''
        @ quoted (shortName (pdu_common p)) @ '' payload ('' @ u32_to_string (pdu_length p) @ '' bytes)''))
      \<lparr>ve_location := Some (rawSpanRef (pdu_common p)), ve_path := Some ref\<rparr>"

definition overlap_error :: "pdu \<Rightarrow> string \<Rightarrow> string \<Rightarrow> int \<Rightarrow> validation_error" where
  "overlap_error p owner ref b =
    (new_error Error ''can.signal_overlap''
      (''signals '' @ quoted owner @ '' and '' @ quoted ref @ '' overlap in PDU ''
        @ quoted (shortName (pdu_common p)) @ '' at bit '' @ int_to_string b))
      \<lparr>ve_location := Some (rawSpanRef (pdu_common p)), ve_path := Some (shortName (pdu_common p)),
       ve_actualType := Some ref\<rparr>"

text \<open>The loop over the bits of one mapping; it stops at its first finding.\<close>

fun claimBits ::
  "pdu \<Rightarrow> string \<Rightarrow> int list \<Rightarrow> string option list \<times> validation_result
    \<Rightarrow> string option list \<times> validation_result" where
  "claimBits p ref [] (occ, out) = (occ, out)"
| "claimBits p ref (b # bs) (occ, out) =
    (if b < 0 \<or> b \<ge> int (length occ) then (occ, out @ [out_of_range_error p ref b])
     else (case occ ! nat b of
             Some owner \<Rightarrow>
               if owner \<noteq> ref then (occ, out @ [overlap_error p owner ref b])
               else claimBits p ref bs (occ[nat b := Some ref], out)
           | None \<Rightarrow> claimBits p ref bs (occ[nat b := Some ref], out)))"

definition claimMapping ::
  "pdu \<Rightarrow> (string, signal) omap \<Rightarrow> pdu_signal_mapping
    \<Rightarrow> string option list \<times> validation_result \<Rightarrow> string option list \<times> validation_result" where
  "claimMapping p sigs m st =
    (case map_of sigs (signalShortNameRef m) of
       None \<Rightarrow> st
     | Some sig \<Rightarrow>
         if bitLength sig = 0 then st
         else claimBits p (signalShortNameRef m)
                (physicalBitsForSignal (psm_byteOrder m) (int_of_u32 (psm_startPosition m))
                   (int_of_u32 (bitLength sig))) st)"

definition checkSignalOverlap ::
  "pdu \<Rightarrow> (string, signal) omap \<Rightarrow> validation_result \<Rightarrow> validation_result" where
  "checkSignalOverlap p sigs out =
    (let pduBits = unat (pdu_length p) * 8 in
     if pduBits = 0 \<or> signalMappings p = [] then out
     else snd (fold (claimMapping p sigs) (signalMappings p) (replicate pduBits None, out)))"

definition signalTable :: "parsed_file \<Rightarrow> (string, signal) omap" where
  "signalTable file =
    fold (\<lambda>s. m_try_emplace (shortName (signal_common s)) s) (signals file) []"

definition canFile :: "parsed_file \<Rightarrow> validation_result \<Rightarrow> validation_result" where
  "canFile file result =
    (let sigs = signalTable file;
         r1 = fold (\<lambda>f. checkPayloadLength ''Frame'' (shortName (frame_common f)) (frame_length f)
                (rawSpanRef (frame_common f))) (frames file) result
     in fold (\<lambda>p r. checkSignalOverlap p sigs
               (checkPayloadLength ''Pdu'' (shortName (pdu_common p)) (pdu_length p)
                 (rawSpanRef (pdu_common p)) r)) (pdus file) r1)"

definition validateCanSemantics :: "parsed_project \<Rightarrow> validation_result" where
  "validateCanSemantics project = fold canFile (files project) []"

section \<open>Facts about bit positions\<close>

text \<open>
  The network position of a bit: byte by byte, most significant bit first. The Motorola walk is
  the run of consecutive network positions.
\<close>

definition net_pos :: "int \<Rightarrow> int" where
  "net_pos b = 8 * (b div 8) + (7 - b mod 8)"

lemma net_pos_step: "net_pos (if b mod 8 = 0 then b + 15 else b - 1) = net_pos b + 1"
proof -
  define q r where "q = b div 8" and "r = b mod 8"
  have b: "b = 8 * q + r" and r: "0 \<le> r" "r < 8" by (simp_all add: q_def r_def)
  show ?thesis
  proof (cases "r = 0")
    case True
    have "(8 * q + 15) div 8 = q + 1" and "(8 * q + 15) mod 8 = 7" by presburger+
    then show ?thesis using True b by (simp add: net_pos_def)
  next
    case False
    have "(8 * q + r - 1) div 8 = q" and "(8 * q + r - 1) mod 8 = r - 1"
      using r False by presburger+
    moreover have "(8 * q + r) div 8 = q" and "(8 * q + r) mod 8 = r" using r by presburger+
    ultimately show ?thesis using False b by (simp add: net_pos_def)
  qed
qed

lemma net_pos_inj: "net_pos a = net_pos b \<longleftrightarrow> a = b"
proof
  assume eq: "net_pos a = net_pos b"
  define q r q' r' where "q = a div 8" and "r = a mod 8" and "q' = b div 8" and "r' = b mod 8"
  have a: "a = 8 * q + r" "0 \<le> r" "r < 8" and b: "b = 8 * q' + r'" "0 \<le> r'" "r' < 8"
    by (simp_all add: q_def r_def q'_def r'_def)
  have "8 * q + (7 - r) = 8 * q' + (7 - r')"
    using eq by (simp add: net_pos_def q_def r_def q'_def r'_def)
  then show "a = b" using a b by presburger
qed simp

lemma motorola_walk_net: "map net_pos (motorola_walk n pos) = map (\<lambda>i. net_pos pos + int i) [0..<n]"
proof (induction n arbitrary: pos)
  case (Suc n)
  have "map (\<lambda>i. net_pos pos + int i) [0..<Suc n] = net_pos pos # map (\<lambda>i. net_pos pos + 1 + int i) [0..<n]"
    by (simp only: upt_conv_Cons [OF zero_less_Suc] map_Suc_upt [symmetric]) (simp add: algebra_simps)
  then show ?case using Suc.IH by (simp add: net_pos_step)
qed simp

lemma motorola_distinct: "distinct (motorola_walk n pos)"
proof -
  have "distinct (map net_pos (motorola_walk n pos))"
    by (simp add: motorola_walk_net distinct_map inj_on_def)
  then show ?thesis by (simp add: distinct_map)
qed

section \<open>Facts about occupancy\<close>

definition free_for :: "string option list \<Rightarrow> string \<Rightarrow> int list \<Rightarrow> bool" where
  "free_for occ ref bits \<longleftrightarrow>
    (\<forall>b \<in> set bits. 0 \<le> b \<and> b < int (length occ) \<and> (occ ! nat b = None \<or> occ ! nat b = Some ref))"

lemma free_for_Cons:
  "free_for occ ref (b # bs) \<longleftrightarrow>
    (0 \<le> b \<and> b < int (length occ) \<and> (occ ! nat b = None \<or> occ ! nat b = Some ref)) \<and> free_for occ ref bs"
  by (simp add: free_for_def)

lemma free_for_update:
  assumes "0 \<le> b" "b < int (length occ)" "occ ! nat b = None \<or> occ ! nat b = Some ref"
  shows "free_for (occ[nat b := Some ref]) ref bs \<longleftrightarrow> free_for occ ref bs"
proof -
  have "(occ[nat b := Some ref] ! nat c = None \<or> occ[nat b := Some ref] ! nat c = Some ref)
      \<longleftrightarrow> (occ ! nat c = None \<or> occ ! nat c = Some ref)" if "0 \<le> c" "c < int (length occ)" for c
    using assms that by (cases "nat b = nat c") (auto simp: nth_list_update)
  then show ?thesis by (auto simp: free_for_def)
qed

definition mark_bits :: "string \<Rightarrow> int list \<Rightarrow> string option list \<Rightarrow> string option list" where
  "mark_bits ref bits occ = map (\<lambda>i. if int i \<in> set bits then Some ref else occ ! i) [0..<length occ]"

lemma length_mark_bits [simp]: "length (mark_bits ref bits occ) = length occ"
  by (simp add: mark_bits_def)

lemma nth_mark_bits [simp]:
  "i < length occ \<Longrightarrow> mark_bits ref bits occ ! i = (if int i \<in> set bits then Some ref else occ ! i)"
  by (simp add: mark_bits_def)

lemma free_for_mark:
  assumes "free_for occ ref bits"
  shows "free_for (mark_bits ref bits occ) r bs \<longleftrightarrow> free_for occ r bs \<and> (ref = r \<or> set bits \<inter> set bs = {})"
proof -
  have nth: "mark_bits ref bits occ ! nat b = (if b \<in> set bits then Some ref else occ ! nat b)"
    if "0 \<le> b" "b < int (length occ)" for b
    using that by (simp add: nat_less_iff)
  have own: "occ ! nat b = None \<or> occ ! nat b = Some ref" if "b \<in> set bits" for b
    using assms that by (simp add: free_for_def)
  have "(mark_bits ref bits occ ! nat b = None \<or> mark_bits ref bits occ ! nat b = Some r) \<longleftrightarrow>
      (occ ! nat b = None \<or> occ ! nat b = Some r) \<and> (ref = r \<or> b \<notin> set bits)"
    if "0 \<le> b" "b < int (length occ)" for b
    using own [of b] nth [OF that] by (cases "b \<in> set bits") auto
  note here = this
  have bits: "(0 \<le> b \<and> b < int (length occ) \<and>
        (mark_bits ref bits occ ! nat b = None \<or> mark_bits ref bits occ ! nat b = Some r)) \<longleftrightarrow>
      ((0 \<le> b \<and> b < int (length occ) \<and> (occ ! nat b = None \<or> occ ! nat b = Some r))
        \<and> (ref = r \<or> b \<notin> set bits))" for b
  proof (cases "0 \<le> b \<and> b < int (length occ)")
    case True
    then show ?thesis by (simp only: here simp_thms)
  next
    case False
    then show ?thesis by argo
  qed
  have "(\<forall>b \<in> set bs. ref = r \<or> b \<notin> set bits) \<longleftrightarrow> ref = r \<or> set bits \<inter> set bs = {}" by blast
  then show ?thesis unfolding free_for_def length_mark_bits bits ball_conj_distrib by (simp only: simp_thms)
qed

lemma claimBits_free: "free_for occ ref bits \<Longrightarrow> claimBits p ref bits (occ, out) = (mark_bits ref bits occ, out)"
proof (induction bits arbitrary: occ)
  case Nil
  have "mark_bits ref [] occ = occ" by (rule nth_equalityI) simp_all
  then show ?case by simp
next
  case (Cons b bs)
  let ?occ = "occ[nat b := Some ref]"
  have b: "0 \<le> b" "b < int (length occ)" "occ ! nat b = None \<or> occ ! nat b = Some ref"
    and "free_for occ ref bs" using Cons.prems by (simp_all add: free_for_Cons)
  then have "claimBits p ref bs (?occ, out) = (mark_bits ref bs ?occ, out)"
    by (intro Cons.IH) (simp add: free_for_update)
  moreover have "mark_bits ref bs ?occ = mark_bits ref (b # bs) occ"
  proof (rule nth_equalityI)
    fix i
    assume "i < length (mark_bits ref bs ?occ)"
    moreover have "nat b = i \<longleftrightarrow> b = int i" using b(1) by auto
    ultimately show "mark_bits ref bs ?occ ! i = mark_bits ref (b # bs) occ ! i"
      by (simp add: nth_list_update eq_commute)
  qed simp
  moreover have "claimBits p ref (b # bs) (occ, out) = claimBits p ref bs (?occ, out)"
    using b by auto
  ultimately show ?case by simp
qed

lemma claimBits_out: "\<exists>es. snd (claimBits p ref bits (occ, out)) = out @ es
    \<and> length (fst (claimBits p ref bits (occ, out))) = length occ
    \<and> (es = [] \<longleftrightarrow> free_for occ ref bits)"
proof (induction bits arbitrary: occ)
  case Nil
  then show ?case by (simp add: free_for_def)
next
  case (Cons b bs)
  let ?occ = "occ[nat b := Some ref]"
  obtain es where es: "snd (claimBits p ref bs (?occ, out)) = out @ es"
    "length (fst (claimBits p ref bs (?occ, out))) = length ?occ" "es = [] \<longleftrightarrow> free_for ?occ ref bs"
    using Cons.IH by blast
  show ?case
  proof (cases "0 \<le> b \<and> b < int (length occ) \<and> (occ ! nat b = None \<or> occ ! nat b = Some ref)")
    case True
    then have step: "claimBits p ref (b # bs) (occ, out) = claimBits p ref bs (?occ, out)" by auto
    have "free_for ?occ ref bs \<longleftrightarrow> free_for occ ref (b # bs)"
      using True by (simp add: free_for_Cons free_for_update)
    then show ?thesis using es step by (metis length_list_update)
  next
    case False
    then have "\<not> free_for occ ref (b # bs)" by (simp add: free_for_Cons)
    moreover have "\<exists>e. claimBits p ref (b # bs) (occ, out) = (occ, out @ [e])"
      using False by (cases "occ ! nat b") auto
    ultimately show ?thesis by auto
  qed
qed

text \<open>The bits each mapping that resolves to a signal of non-zero length claims.\<close>

definition claims :: "(string, signal) omap \<Rightarrow> pdu_signal_mapping list \<Rightarrow> (string \<times> int list) list" where
  "claims sigs ms =
    concat (map (\<lambda>m. case map_of sigs (signalShortNameRef m) of
        None \<Rightarrow> []
      | Some sig \<Rightarrow> if bitLength sig = 0 then []
          else [(signalShortNameRef m, physicalBitsForSignal (psm_byteOrder m)
                  (int_of_u32 (psm_startPosition m)) (int_of_u32 (bitLength sig)))]) ms)"

lemma fold_claimMapping:
  "fold (claimMapping p sigs) ms st = fold (\<lambda>(ref, bits). claimBits p ref bits) (claims sigs ms) st"
  by (induction ms arbitrary: st) (auto simp: claims_def claimMapping_def split: option.splits)

definition claims_fit :: "nat \<Rightarrow> (string \<times> int list) list \<Rightarrow> bool" where
  "claims_fit n cs \<longleftrightarrow>
    (\<forall>(ref, bits) \<in> set cs. \<forall>b \<in> set bits. 0 \<le> b \<and> b < int n) \<and>
    sorted_wrt (\<lambda>(r, bs) (r', bs'). r = r' \<or> set bs \<inter> set bs' = {}) cs"

lemma fold_claimBits:
  "\<exists>es. snd (fold (\<lambda>(ref, bits). claimBits p ref bits) cs (occ, out)) = out @ es
    \<and> (es = [] \<longleftrightarrow> (\<forall>(ref, bits) \<in> set cs. free_for occ ref bits) \<and> claims_fit (length occ) cs)"
proof (induction cs arbitrary: occ out)
  case Nil
  then show ?case by (simp add: claims_fit_def)
next
  case (Cons c cs)
  obtain ref bits where c: "c = (ref, bits)" by (cases c)
  obtain es1 where es1: "snd (claimBits p ref bits (occ, out)) = out @ es1"
    "es1 = [] \<longleftrightarrow> free_for occ ref bits" using claimBits_out by blast
  let ?occ = "fst (claimBits p ref bits (occ, out))"
  obtain es2 where es2: "snd (fold (\<lambda>(ref, bits). claimBits p ref bits) cs (?occ, out @ es1)) = (out @ es1) @ es2"
    "es2 = [] \<longleftrightarrow> (\<forall>(r, bs) \<in> set cs. free_for ?occ r bs) \<and> claims_fit (length ?occ) cs"
    using Cons.IH by blast
  have run: "snd (fold (\<lambda>(ref, bits). claimBits p ref bits) (c # cs) (occ, out)) = out @ es1 @ es2"
    using es1(1) es2(1) c by (metis (no_types, lifting) append.assoc case_prod_conv fold_simps(2) prod.collapse)
  have "es1 @ es2 = [] \<longleftrightarrow> (\<forall>(r, bs) \<in> set (c # cs). free_for occ r bs) \<and> claims_fit (length occ) (c # cs)"
  proof (cases "free_for occ ref bits")
    case False
    then show ?thesis using es1(2) c by auto
  next
    case True
    have occ: "?occ = mark_bits ref bits occ" by (simp add: claimBits_free [OF True])
    have "(\<forall>(r, bs) \<in> set cs. free_for ?occ r bs) \<longleftrightarrow>
        (\<forall>(r, bs) \<in> set cs. free_for occ r bs \<and> (ref = r \<or> set bits \<inter> set bs = {}))"
      by (simp add: occ free_for_mark [OF True])
    then show ?thesis
      using es1(2) es2(2) True c by (auto simp: claims_fit_def occ free_for_def [of occ ref])
  qed
  then show ?case using run by blast
qed

section \<open>Properties\<close>

text \<open>C17: the overlap check adds nothing to the findings exactly when the PDU has length zero, whatever it maps, or
  every bit claimed by a mapping lies in the payload and mappings of differently named signals claim disjoint
  bits. A mapping claims the bits of its signal from its start position on, and none when the signal is
  unknown or without bits, or when its length or the start position is \<open>2 ^ 31\<close> or more (\<open>large_start_position_unchecked\<close>).
  Positions are mathematical integers here; past \<open>INT_MAX\<close> the behaviour of the C++ arithmetic is undefined.\<close>

theorem checkSignalOverlap_exact:
  "checkSignalOverlap p sigs out = out \<longleftrightarrow>
    pdu_length p = 0 \<or> claims_fit (unat (pdu_length p) * 8) (claims sigs (signalMappings p))"
proof (cases "pdu_length p = 0 \<or> signalMappings p = []")
  case True
  then show ?thesis by (auto simp: checkSignalOverlap_def claims_def claims_fit_def)
next
  case False
  let ?n = "unat (pdu_length p) * 8"
  let ?cs = "claims sigs (signalMappings p)"
  have ne: "?n \<noteq> 0" using False by (simp add: unat_eq_0)
  obtain es where es: "snd (fold (\<lambda>(ref, bits). claimBits p ref bits) ?cs (replicate ?n None, out)) = out @ es"
    "es = [] \<longleftrightarrow> (\<forall>(ref, bits) \<in> set ?cs. free_for (replicate ?n None) ref bits) \<and> claims_fit ?n ?cs"
    using fold_claimBits [of p ?cs "replicate ?n None" out] by auto
  have "(\<forall>(ref, bits) \<in> set ?cs. free_for (replicate ?n None) ref bits)" if "claims_fit ?n ?cs"
    using that by (fastforce simp: claims_fit_def free_for_def nat_less_iff)
  moreover have "checkSignalOverlap p sigs out = out @ es"
    using False ne es(1) by (simp add: checkSignalOverlap_def fold_claimMapping Let_def)
  ultimately show ?thesis using es(2) False by auto
qed

text \<open>The Motorola walk visits consecutive network positions (byte by byte, most significant bit
  first), starting at the start bit, and never visits a bit twice.\<close>

theorem motorola_consecutive:
  assumes "0 \<le> start" and "0 < len"
  shows "map net_pos (physicalBitsForMotorolaSignal start len)
      = map (\<lambda>i. net_pos start + int i) [0..<nat len] \<and>
    distinct (physicalBitsForMotorolaSignal start len)"
  using assms by (simp add: physicalBitsForMotorolaSignal_def motorola_walk_net motorola_distinct)

theorem motorola_consecutive_witness:
  "map net_pos (physicalBitsForMotorolaSignal 3 6) = map (\<lambda>i. net_pos 3 + int i) [0..<nat 6] \<and>
    distinct (physicalBitsForMotorolaSignal 3 6)"
  by (rule motorola_consecutive) simp_all

text \<open>The payload lengths accepted as CAN FD are exactly the values of the DLC table, which is
  strictly increasing and extends the classic lengths.\<close>

theorem can_fd_lengths:
  "(isValidCanFdLength len \<longleftrightarrow> (\<exists>dlc. canFdBytesForDlc dlc = Some len)) \<and>
   sorted_wrt (<) fd_table \<and>
   (isValidClassicCanLength len \<or> isValidCanFdLength len \<longleftrightarrow> isValidCanFdLength len)"
proof (intro conjI)
  have "(\<exists>dlc. canFdBytesForDlc dlc = Some len) \<longleftrightarrow> len \<in> set fd_table"
  proof
    assume "len \<in> set fd_table"
    then obtain i where "i < length fd_table" "len = fd_table ! i" by (auto simp: in_set_conv_nth)
    then show "\<exists>dlc. canFdBytesForDlc dlc = Some len"
      by (intro exI [of _ "int i"]) (simp add: canFdBytesForDlc_def fd_table_def)
  next
    assume "\<exists>dlc. canFdBytesForDlc dlc = Some len"
    then obtain dlc where "0 \<le> dlc" "dlc \<le> 15" "len = fd_table ! nat dlc"
      unfolding canFdBytesForDlc_def by (metis not_less option.distinct(1) option.inject)
    moreover from this have "nat dlc < length fd_table" by (simp add: fd_table_def)
    ultimately show "len \<in> set fd_table" by simp
  qed
  then show "isValidCanFdLength len \<longleftrightarrow> (\<exists>dlc. canFdBytesForDlc dlc = Some len)"
    by (simp add: isValidCanFdLength_def fd_table_def)
  show "sorted_wrt (<) fd_table" by (simp add: fd_table_def)
  have "isValidCanFdLength len" if "isValidClassicCanLength len"
  proof -
    have "unat len \<le> 8" using that by (simp add: isValidClassicCanLength_def word_le_nat_alt)
    then have "unat len \<in> {0, 1, 2, 3, 4, 5, 6, 7, 8}" by auto
    moreover have "len = of_nat (unat len)" by simp
    ultimately show ?thesis unfolding isValidCanFdLength_def by fastforce
  qed
  then show "isValidClassicCanLength len \<or> isValidCanFdLength len \<longleftrightarrow> isValidCanFdLength len" by blast
qed

text \<open>A start position of \<open>2^31\<close> or more is negative as an \<open>int\<close>: no bit is checked.\<close>

lemma large_start_position_unchecked:
  "checkSignalOverlap
     \<lparr>pdu_common = default_common, pdu_length = 1,
      signalMappings = [\<lparr>signalShortNameRef = ''S'', psm_startPosition = 0x80000000,
        psm_byteOrder = LeastSignificantByteFirst\<rparr>]\<rparr>
     [(''S'', default_signal\<lparr>bitLength := 8\<rparr>)] [] = []"
  by (simp add: checkSignalOverlap_def claimMapping_def physicalBitsForSignal_def
      physicalBitsForIntelSignal_def int_of_u32_def default_signal_def)

end
