(* ===== verification/ValidatorReferences.thy ===== *)
theory ValidatorReferences
  imports ValidationResult
begin

text \<open>
  References and uniqueness (\<open>src/validator/validator_references.cpp\<close>,
  \<open>src/validator/validator_uniqueness.cpp\<close>): the index of short-name paths over the raw trees of a
  project, the check of every \<open>...-REF\<close> with a \<open>DEST\<close> against it, and the check that the named
  children of each node have different names. A \<open>const RawNode*\<close> is the node it points to.
\<close>

section \<open>The path index\<close>

definition nodeName :: "raw_node \<Rightarrow> string" where
  "nodeName node =
    (case findChild node ''SHORT-NAME'' of None \<Rightarrow> [] | Some c \<Rightarrow> trimText (nodeText c))"

definition nodePathOf :: "string \<Rightarrow> raw_node \<Rightarrow> string" where
  "nodePathOf base node = (if nodeName node \<noteq> [] then base @ ''/'' @ nodeName node else base)"

definition enterNode :: "string \<Rightarrow> raw_node \<Rightarrow> (string, raw_node) omap \<Rightarrow> (string, raw_node) omap" where
  "enterNode base node out =
    (if nodeName node \<noteq> [] then m_try_emplace (nodePathOf base node) node out else out)"

fun index_in :: "string \<Rightarrow> raw_node list \<Rightarrow> (string, raw_node) omap \<Rightarrow> (string, raw_node) omap" where
  "index_in base [] out = out"
| "index_in base (RawNode t a x s ks # ns) out =
    index_in base ns
      (if t = ''SHORT-NAME'' then out
       else index_in (nodePathOf base (RawNode t a x s ks)) ks (enterNode base (RawNode t a x s ks) out))"

definition indexNode :: "raw_node \<Rightarrow> string \<Rightarrow> (string, raw_node) omap \<Rightarrow> (string, raw_node) omap" where
  "indexNode node base out = index_in (nodePathOf base node) (children node) (enterNode base node out)"

definition buildReferencePathIndex :: "parsed_project \<Rightarrow> (string, raw_node) omap" where
  "buildReferencePathIndex project =
    fold (\<lambda>f idx. case rawDocument f of None \<Rightarrow> idx | Some root \<Rightarrow> indexNode root [] idx)
      (files project) []"

section \<open>Reference sites\<close>

definition isRefTag :: "string \<Rightarrow> bool" where
  "isRefTag tag \<longleftrightarrow> length tag > 4 \<and> ends_with tag ''-REF''"

definition destAttr :: "raw_node \<Rightarrow> string option" where
  "destAttr node = map_option snd (List.find (\<lambda>a. fst a = ''DEST'') (attributes node))"

fun refs_in :: "raw_node list \<Rightarrow> (raw_node \<times> string) list" where
  "refs_in [] = []"
| "refs_in (RawNode t a x s ks # ns) =
    (if isRefTag t
     then (case destAttr (RawNode t a x s ks) of Some d \<Rightarrow> [(RawNode t a x s ks, d)] | None \<Rightarrow> [])
     else []) @ refs_in ks @ refs_in ns"

definition collectRefs :: "raw_node \<Rightarrow> (raw_node \<times> string) list" where
  "collectRefs node = refs_in [node]"

definition destToTags :: "(string, string list) omap" where
  "destToTags =
    [(''ECU-INSTANCE'', [''ECU-INSTANCE'']),
     (''FRAME'', [''FRAME'', ''CAN-FRAME'']),
     (''I-SIGNAL'', [''I-SIGNAL'']),
     (''I-SIGNAL-GROUP'', [''I-SIGNAL-GROUP'', ''SIGNAL-GROUP'']),
     (''PDU'', [''PDU'', ''I-SIGNAL-I-PDU'']),
     (''PDU-TRIGGERING'', [''PDU-TRIGGERING'']),
     (''PHYSICAL-CHANNEL'', [''PHYSICAL-CHANNEL'', ''CAN-PHYSICAL-CHANNEL'']),
     (''SIGNAL-GROUP'', [''SIGNAL-GROUP'', ''I-SIGNAL-GROUP'']),
     (''SYSTEM-SIGNAL'', [''SYSTEM-SIGNAL''])]"

definition tagMatchesDest :: "string \<Rightarrow> string \<Rightarrow> bool" where
  "tagMatchesDest actualTag dest =
    (case map_of destToTags dest of None \<Rightarrow> True | Some tags \<Rightarrow> actualTag \<in> set tags)"

text \<open>The body of the loop over the sites of one file.\<close>

definition checkRef ::
  "(string, raw_node) omap \<Rightarrow> raw_node \<times> string \<Rightarrow> validation_result \<Rightarrow> validation_result" where
  "checkRef index site result =
    (let ref = fst site; dest = snd site; path = trimText (nodeText ref) in
     if path = [] then result
     else case map_of index path of
       None \<Rightarrow> result @ [(new_error Error ''ref.dangling'' (''dangling reference to '' @ quoted path))
           \<lparr>ve_location := Some (nodeSpan ref), ve_path := Some path\<rparr>]
     | Some target \<Rightarrow>
         if \<not> m_contains destToTags dest
         then result @ [(new_error Warning ''ref.dest_unrecognized''
             (''unrecognized DEST '' @ quoted dest @ '' for '' @ quoted path))
             \<lparr>ve_location := Some (nodeSpan ref), ve_path := Some path, ve_expectedType := Some dest\<rparr>]
         else if \<not> tagMatchesDest (tagName target) dest
         then result @ [(new_error Error ''ref.type_mismatch''
             (''reference to '' @ quoted path @ '' expects DEST '' @ quoted dest
               @ '' but resolves to <'' @ tagName target @ ''>''))
             \<lparr>ve_location := Some (nodeSpan ref), ve_path := Some path, ve_expectedType := Some dest,
              ve_actualType := Some (tagName target)\<rparr>]
         else result)"

definition validateReferences :: "parsed_project \<Rightarrow> validation_result" where
  "validateReferences project =
    (let index = buildReferencePathIndex project in
     fold (\<lambda>f result. case rawDocument f of None \<Rightarrow> result
            | Some root \<Rightarrow> fold (checkRef index) (collectRefs root) result) (files project) [])"

section \<open>Uniqueness\<close>

definition groupNamed :: "raw_node list \<Rightarrow> (string, raw_node list) omap" where
  "groupNamed ks =
    fold (\<lambda>c m. if tagName c = ''SHORT-NAME'' then m
                else if nodeName c \<noteq> [] then m_modify [] (nodeName c) (\<lambda>v. v @ [c]) m else m) ks []"

definition duplicate_error :: "string \<Rightarrow> string \<Rightarrow> raw_node list \<Rightarrow> validation_error" where
  "duplicate_error nodePath name mems =
    (let shown = (if nodePath = [] then ''/'' else nodePath) in
     (new_error Error ''shortname.duplicate''
       (''duplicate SHORT-NAME '' @ quoted name @ '' under '' @ quoted shown))
       \<lparr>ve_location := Some (nodeSpan (mems ! 1)), ve_path := Some shown\<rparr>)"

definition checkScope :: "string \<Rightarrow> raw_node list \<Rightarrow> validation_result \<Rightarrow> validation_result" where
  "checkScope nodePath ks out =
    out @ concat (map (\<lambda>(name, mems).
      if length mems > 1 then [duplicate_error nodePath name mems] else []) (groupNamed ks))"

fun check_in :: "string \<Rightarrow> raw_node list \<Rightarrow> validation_result \<Rightarrow> validation_result" where
  "check_in base [] out = out"
| "check_in base (RawNode t a x s ks # ns) out =
    check_in base ns
      (if t = ''SHORT-NAME'' then out
       else let path = nodePathOf base (RawNode t a x s ks) in check_in path ks (checkScope path ks out))"

definition checkNode :: "raw_node \<Rightarrow> string \<Rightarrow> validation_result \<Rightarrow> validation_result" where
  "checkNode node base out =
    (let path = nodePathOf base node in check_in path (children node) (checkScope path (children node) out))"

definition validateUniqueness :: "parsed_project \<Rightarrow> validation_result" where
  "validateUniqueness project =
    fold (\<lambda>f result. case rawDocument f of None \<Rightarrow> result | Some root \<Rightarrow> checkNode root [] result)
      (files project) []"

section \<open>Facts about the index\<close>

text \<open>The named nodes below a list of nodes with their paths, in document order.\<close>

definition entry_of :: "string \<Rightarrow> raw_node \<Rightarrow> (string \<times> raw_node) list" where
  "entry_of base node = (if nodeName node \<noteq> [] then [(nodePathOf base node, node)] else [])"

fun paths_in :: "string \<Rightarrow> raw_node list \<Rightarrow> (string \<times> raw_node) list" where
  "paths_in base [] = []"
| "paths_in base (RawNode t a x s ks # ns) =
    (if t = ''SHORT-NAME'' then []
     else entry_of base (RawNode t a x s ks) @ paths_in (nodePathOf base (RawNode t a x s ks)) ks)
    @ paths_in base ns"

definition node_paths :: "raw_node \<Rightarrow> (string \<times> raw_node) list" where
  "node_paths root = entry_of [] root @ paths_in (nodePathOf [] root) (children root)"

definition project_paths :: "parsed_project \<Rightarrow> (string \<times> raw_node) list" where
  "project_paths p = concat (map (\<lambda>f. case rawDocument f of None \<Rightarrow> [] | Some root \<Rightarrow> node_paths root) (files p))"

lemma enterNode_fold: "enterNode base n out = fold (\<lambda>(k, v). m_try_emplace k v) (entry_of base n) out"
  by (simp add: enterNode_def entry_of_def)

lemma index_in_fold: "index_in base ns out = fold (\<lambda>(k, v). m_try_emplace k v) (paths_in base ns) out"
  by (induction base ns out rule: index_in.induct) (auto simp: enterNode_fold)

lemma indexNode_fold: "indexNode root [] out = fold (\<lambda>(k, v). m_try_emplace k v) (node_paths root) out"
  by (simp add: indexNode_def node_paths_def index_in_fold enterNode_fold)

lemma index_fold: "buildReferencePathIndex p = fold (\<lambda>(k, v). m_try_emplace k v) (project_paths p) []"
proof -
  have "fold (\<lambda>f idx. case rawDocument f of None \<Rightarrow> idx | Some root \<Rightarrow> indexNode root [] idx) fs m
      = fold (\<lambda>(k, v). m_try_emplace k v)
          (concat (map (\<lambda>f. case rawDocument f of None \<Rightarrow> [] | Some root \<Rightarrow> node_paths root) fs)) m" for fs m
    by (induction fs arbitrary: m) (auto simp: indexNode_fold split: option.splits)
  then show ?thesis by (simp add: buildReferencePathIndex_def project_paths_def)
qed

lemma index_lookup: "map_of (buildReferencePathIndex p) path = map_of (project_paths p) path"
  by (simp add: index_fold smap.first_wins)

section \<open>Facts about the checks\<close>

lemma refs_in_filter: "refs_in ns =
    concat (map (\<lambda>n. if isRefTag (tagName n) then (case destAttr n of Some d \<Rightarrow> [(n, d)] | None \<Rightarrow> []) else [])
      (nodes_in ns))"
  by (induction ns rule: refs_in.induct) auto

definition refFindings :: "(string, raw_node) omap \<Rightarrow> raw_node \<times> string \<Rightarrow> validation_result" where
  "refFindings index site = checkRef index site []"

lemma checkRef_appends: "checkRef index site result = result @ refFindings index site"
  by (cases "trimText (nodeText (fst site)) = []"; cases "map_of index (trimText (nodeText (fst site)))";
      cases "map_of destToTags (snd site)") (simp_all add: refFindings_def checkRef_def Let_def)

lemma fold_checkRef: "fold (checkRef index) sites result = result @ concat (map (refFindings index) sites)"
  by (induction sites arbitrary: result) (auto simp: checkRef_appends)

definition projectRefs :: "parsed_project \<Rightarrow> (raw_node \<times> string) list" where
  "projectRefs p = concat (map (\<lambda>f. case rawDocument f of None \<Rightarrow> [] | Some root \<Rightarrow> collectRefs root) (files p))"

lemma validateReferences_concat:
  "validateReferences p = concat (map (refFindings (buildReferencePathIndex p)) (projectRefs p))"
proof -
  have "fold (\<lambda>f result. case rawDocument f of None \<Rightarrow> result
            | Some root \<Rightarrow> fold (checkRef index) (collectRefs root) result) fs r
      = r @ concat (map (refFindings index)
          (concat (map (\<lambda>f. case rawDocument f of None \<Rightarrow> [] | Some root \<Rightarrow> collectRefs root) fs)))"
    for index r and fs :: "parsed_file list"
    by (induction fs arbitrary: r) (auto simp: fold_checkRef split: option.splits)
  then show ?thesis by (simp only: validateReferences_def projectRefs_def Let_def append_Nil)
qed

text \<open>A site the check accepts: blank, or resolved to a node whose tag its \<open>DEST\<close> allows.\<close>

definition ref_ok :: "(string \<times> raw_node) list \<Rightarrow> raw_node \<times> string \<Rightarrow> bool" where
  "ref_ok paths site \<longleftrightarrow>
    (let path = trimText (nodeText (fst site)) in
     path = [] \<or> (\<exists>target tags. map_of paths path = Some target \<and>
       map_of destToTags (snd site) = Some tags \<and> tagName target \<in> set tags))"

lemma refFindings_empty:
  "refFindings (buildReferencePathIndex p) site = [] \<longleftrightarrow> ref_ok (project_paths p) site"
  by (auto simp: refFindings_def checkRef_def ref_ok_def index_lookup tagMatchesDest_def Let_def
      split: option.splits)

text \<open>The names of the named children of a node, in order.\<close>

definition childNames :: "raw_node list \<Rightarrow> string list" where
  "childNames ks = [nodeName c. c \<leftarrow> ks, tagName c \<noteq> ''SHORT-NAME'' \<and> nodeName c \<noteq> []]"

definition named :: "raw_node \<Rightarrow> bool" where
  "named c \<longleftrightarrow> tagName c \<noteq> ''SHORT-NAME'' \<and> nodeName c \<noteq> []"

lemma groupNamed_fold:
  "groupNamed ks = fold (\<lambda>(k, f). m_modify [] k f) (map (\<lambda>c. (nodeName c, \<lambda>v. v @ [c])) (filter named ks)) []"
proof -
  have "fold (\<lambda>c m. if tagName c = ''SHORT-NAME'' then m
                else if nodeName c \<noteq> [] then m_modify [] (nodeName c) (\<lambda>v. v @ [c]) m else m) ks m
      = fold (\<lambda>(k, f). m_modify [] k f) (map (\<lambda>c. (nodeName c, \<lambda>v. v @ [c])) (filter named ks)) m" for m
    by (induction ks arbitrary: m) (auto simp: named_def)
  then show ?thesis by (simp add: groupNamed_def)
qed

lemma fold_snocs: "fold (\<lambda>f. f) (map (\<lambda>c v. v @ [c]) cs) v = v @ cs"
  by (induction cs arbitrary: v) auto

text \<open>Grouping: under a name stand the children with that name, in document order.\<close>

lemma groupNamed_lookup:
  "map_of (groupNamed ks) name =
    (let mems = filter (\<lambda>c. named c \<and> nodeName c = name) ks in if mems = [] then None else Some mems)"
proof -
  let ?kfs = "map (\<lambda>c. (nodeName c, \<lambda>v. v @ [c])) (filter named ks)"
  have f: "map snd (filter (\<lambda>kf. fst kf = name) ?kfs)
      = map (\<lambda>c v. v @ [c]) (filter (\<lambda>c. named c \<and> nodeName c = name) ks)"
    by (induction ks) auto
  have "name \<in> fst ` set ?kfs \<longleftrightarrow> filter (\<lambda>c. named c \<and> nodeName c = name) ks \<noteq> []"
    by (auto simp: filter_empty_conv image_iff)
  then show ?thesis
    unfolding groupNamed_fold sgroup.group_all f fold_snocs by (simp add: Let_def)
qed

lemma groupNamed_inv: "m_inv (groupNamed ks)"
  unfolding groupNamed_fold by (rule sgroup.inv_modify_all [OF smap.inv_emp])

lemma count_at_most_1: "(\<forall>x. count_list xs x \<le> 1) \<longleftrightarrow> distinct xs"
proof (induction xs)
  case (Cons a xs)
  have "(\<forall>x. count_list (a # xs) x \<le> 1) \<longleftrightarrow> count_list xs a = 0 \<and> (\<forall>x. count_list xs x \<le> 1)"
  proof
    assume all: "\<forall>x. count_list (a # xs) x \<le> 1"
    have "count_list xs x \<le> 1" for x using spec [OF all, of x] by (simp split: if_splits)
    moreover have "count_list xs a = 0" using spec [OF all, of a] by simp
    ultimately show "count_list xs a = 0 \<and> (\<forall>x. count_list xs x \<le> 1)" by blast
  qed simp
  then show ?case using Cons.IH by (simp add: count_list_0_iff)
qed simp

lemma groupNamed_small:
  "(\<forall>(name, mems) \<in> set (groupNamed ks). length mems \<le> 1) \<longleftrightarrow> distinct (childNames ks)"
proof -
  have names: "childNames ks = map nodeName (filter named ks)"
    by (induction ks) (auto simp: childNames_def named_def)
  have "(\<forall>(name, mems) \<in> set (groupNamed ks). length mems \<le> 1)
      \<longleftrightarrow> (\<forall>name. length (filter (\<lambda>c. named c \<and> nodeName c = name) ks) \<le> 1)"
  proof -
    have "(name, mems) \<in> set (groupNamed ks) \<longleftrightarrow>
        mems = filter (\<lambda>c. named c \<and> nodeName c = name) ks \<and> mems \<noteq> []" for name mems
      using smap.mem_entries [OF groupNamed_inv] by (auto simp: groupNamed_lookup Let_def)
    then show ?thesis by (force simp del: length_filter_conv_card)
  qed
  also have "\<dots> \<longleftrightarrow> (\<forall>name. count_list (childNames ks) name \<le> 1)"
  proof -
    have "count_list (map nodeName (filter named ks)) name
        = length (filter (\<lambda>c. named c \<and> nodeName c = name) ks)" for name
      by (induction ks) auto
    then show ?thesis by (simp add: names)
  qed
  also have "\<dots> \<longleftrightarrow> distinct (childNames ks)"
    by (rule count_at_most_1)
  finally show ?thesis .
qed

text \<open>The nodes whose children are compared: all but the name carriers and what is below them.\<close>

fun scopes_in :: "raw_node list \<Rightarrow> raw_node list" where
  "scopes_in [] = []"
| "scopes_in (RawNode t a x s ks # ns) =
    (if t = ''SHORT-NAME'' then [] else RawNode t a x s ks # scopes_in ks) @ scopes_in ns"

definition project_scopes :: "parsed_project \<Rightarrow> raw_node list" where
  "project_scopes p = concat (map (\<lambda>f. case rawDocument f of None \<Rightarrow> []
     | Some root \<Rightarrow> root # scopes_in (children root)) (files p))"

lemma checkScope_findings:
  "\<exists>es. checkScope path ks out = out @ es \<and> (es = [] \<longleftrightarrow> distinct (childNames ks))"
proof -
  have "concat (map (\<lambda>(name, mems). if length mems > 1 then [duplicate_error path name mems] else []) g) = []
      \<longleftrightarrow> (\<forall>(name, mems) \<in> set g. length mems \<le> 1)" for g
    by (auto simp: not_less split: if_splits)
  then show ?thesis unfolding checkScope_def groupNamed_small [symmetric] by blast
qed

lemma check_in_findings:
  "\<exists>es. check_in base ns out = out @ es \<and> (es = [] \<longleftrightarrow> (\<forall>n \<in> set (scopes_in ns). distinct (childNames (children n))))"
proof (induction base ns out rule: check_in.induct)
  case (1 base out)
  then show ?case by simp
next
  case (2 base t a x s ks ns out)
  let ?path = "nodePathOf base (RawNode t a x s ks)"
  show ?case
  proof (cases "t = ''SHORT-NAME''")
    case True
    then show ?thesis using "2.IH"(2) by simp
  next
    case False
    obtain e1 where e1: "checkScope ?path ks out = out @ e1" "e1 = [] \<longleftrightarrow> distinct (childNames ks)"
      using checkScope_findings by blast
    obtain e2 where e2: "check_in ?path ks (checkScope ?path ks out) = checkScope ?path ks out @ e2"
      "e2 = [] \<longleftrightarrow> (\<forall>n \<in> set (scopes_in ks). distinct (childNames (children n)))"
      using "2.IH"(1) [OF False refl] by blast
    obtain e3 where e3: "check_in base ns (check_in ?path ks (checkScope ?path ks out))
        = check_in ?path ks (checkScope ?path ks out) @ e3"
      "e3 = [] \<longleftrightarrow> (\<forall>n \<in> set (scopes_in ns). distinct (childNames (children n)))"
      using "2.IH"(2) False by (auto simp: Let_def)
    show ?thesis
      using False e1 e2 e3 by (intro exI [of _ "e1 @ e2 @ e3"]) (auto simp: Let_def)
  qed
qed

lemma checkNode_findings:
  "\<exists>es. checkNode root base out = out @ es \<and>
    (es = [] \<longleftrightarrow> (\<forall>n \<in> set (root # scopes_in (children root)). distinct (childNames (children n))))"
proof -
  obtain e1 where e1: "checkScope (nodePathOf base root) (children root) out = out @ e1"
    "e1 = [] \<longleftrightarrow> distinct (childNames (children root))"
    using checkScope_findings by blast
  obtain e2 where "check_in (nodePathOf base root) (children root) (out @ e1) = (out @ e1) @ e2"
    "e2 = [] \<longleftrightarrow> (\<forall>n \<in> set (scopes_in (children root)). distinct (childNames (children n)))"
    using check_in_findings by blast
  then show ?thesis using e1 by (auto simp: checkNode_def Let_def)
qed

lemma validateUniqueness_findings:
  "validateUniqueness p = [] \<longleftrightarrow> (\<forall>n \<in> set (project_scopes p). distinct (childNames (children n)))"
proof -
  have "\<exists>es. fold (\<lambda>f result. case rawDocument f of None \<Rightarrow> result | Some root \<Rightarrow> checkNode root [] result) fs r
      = r @ es \<and> (es = [] \<longleftrightarrow> (\<forall>n \<in> set (concat (map (\<lambda>f. case rawDocument f of None \<Rightarrow> []
          | Some root \<Rightarrow> root # scopes_in (children root)) fs)). distinct (childNames (children n))))"
    for r and fs :: "parsed_file list"
  proof (induction fs arbitrary: r)
    case (Cons f fs)
    show ?case
    proof (cases "rawDocument f")
      case None
      then show ?thesis using Cons.IH [of r] by simp
    next
      case (Some root)
      obtain e1 where e1: "checkNode root [] r = r @ e1"
        "e1 = [] \<longleftrightarrow> (\<forall>n \<in> set (root # scopes_in (children root)). distinct (childNames (children n)))"
        using checkNode_findings by blast
      obtain e2 where e2: "fold (\<lambda>f result. case rawDocument f of None \<Rightarrow> result
          | Some root \<Rightarrow> checkNode root [] result) fs (r @ e1) = (r @ e1) @ e2"
        "e2 = [] \<longleftrightarrow> (\<forall>n \<in> set (concat (map (\<lambda>f. case rawDocument f of None \<Rightarrow> []
          | Some root \<Rightarrow> root # scopes_in (children root)) fs)). distinct (childNames (children n)))"
        using Cons.IH [of "r @ e1"] by blast
      have "e1 @ e2 = [] \<longleftrightarrow> (\<forall>n \<in> set (concat (map (\<lambda>f. case rawDocument f of None \<Rightarrow> []
          | Some root \<Rightarrow> root # scopes_in (children root)) (f # fs))). distinct (childNames (children n)))"
        unfolding append_is_Nil_conv e1(2) e2(2) by (simp only: list.map concat.simps set_append ball_Un Some option.case)
      then show ?thesis using e1(1) e2(1) Some by (intro exI [of _ "e1 @ e2"]) simp
    qed
  qed simp
  from this [of "files p" "[]"] show ?thesis by (auto simp: validateUniqueness_def project_scopes_def)
qed

section \<open>Properties\<close>

text \<open>The path index maps a path to the first node with that path in document order (files in
  project order), and has no other entry.\<close>

theorem index_first_in_document_order:
  "map_of (buildReferencePathIndex p) path = map_of (project_paths p) path
    \<and> m_inv (buildReferencePathIndex p)"
  by (simp add: index_fold smap.first_wins smap.inv_emplace_all smap.inv_emp)

text \<open>C21: the reference check reports nothing exactly when every \<open>...-REF\<close> with a \<open>DEST\<close> is blank or
  names the path of a node whose tag the \<open>DEST\<close> allows.\<close>

theorem validateReferences_exact:
  "validateReferences p = [] \<longleftrightarrow> list_all (ref_ok (project_paths p)) (projectRefs p)"
  by (auto simp: validateReferences_concat refFindings_empty list_all_iff)

text \<open>C22: the uniqueness check reports nothing exactly when, in every node of every file, the named
  children have pairwise different names.\<close>

theorem validateUniqueness_exact:
  "validateUniqueness p = [] \<longleftrightarrow> list_all (\<lambda>n. distinct (childNames (children n))) (project_scopes p)"
  by (simp add: validateUniqueness_findings list_all_iff)

text \<open>
  Two elements with one path in different unnamed containers: the index keeps the first and the
  uniqueness check, which it defers to, says nothing.
\<close>

definition named_node :: "string \<Rightarrow> string \<Rightarrow> raw_node list \<Rightarrow> raw_node" where
  "named_node tag name ks = RawNode tag [] [] no_span (RawNode ''SHORT-NAME'' [] name no_span [] # ks)"

definition collision_root :: raw_node where
  "collision_root = RawNode ''AUTOSAR'' [] [] no_span
    [RawNode ''X'' [] [] no_span [named_node ''FRAME'' ''A'' []],
     RawNode ''Y'' [] [] no_span [named_node ''PDU'' ''A'' []]]"

lemma uniqueness_misses_path_collision:
  "validateUniqueness \<lparr>files = [empty_file\<lparr>rawDocument := Some collision_root\<rparr>], resolvedRefs = []\<rparr> = []
    \<and> map fst (node_paths collision_root) = [''/A'', ''/A'']"
  by code_simp

end
