(* ===== verification/ValidatorSchema.thy ===== *)
theory ValidatorSchema
  imports ValidatorCan ValidatorReferences "HOL-Library.Product_Lexorder"
begin

text \<open>
  Schema validation (\<open>src/validator/validator_schema.cpp\<close>) and the facade
  (\<open>src/validator/validator_facade.cpp\<close>). libxml2's validation of a file against a schema is a
  parameter: the structured errors it reports, in order, and its return value. What is modelled is
  ParseX's part, above all the attribution of an error line to a span of the raw tree.
\<close>

section \<open>Messages\<close>

definition is_trailing :: "char \<Rightarrow> bool" where
  "is_trailing c \<longleftrightarrow> c = CHR 0x0A \<or> c = CHR 0x0D \<or> c = CHR '' ''"

text \<open>\<open>None\<close> is the null pointer.\<close>

definition trimMessage :: "string option \<Rightarrow> string" where
  "trimMessage raw =
    (let msg = (case raw of Some m \<Rightarrow> m | None \<Rightarrow> ''schema validation failed'');
         t = rev (dropWhile is_trailing (rev msg))
     in if t = [] then ''schema validation failed'' else t)"

section \<open>Lines and spans\<close>

type_synonym line_index = "(int \<times> raw_span) list"

text \<open>\<open>static_cast<int>\<close> of a \<open>size_t\<close>.\<close>

definition int_of_size :: "size_t \<Rightarrow> int" where
  "int_of_size w = sint (ucast w :: 32 word)"

fun line_entries_in :: "raw_node list \<Rightarrow> line_index" where
  "line_entries_in [] = []"
| "line_entries_in (RawNode t a x s ks # ns) =
    (if lineNumber s > 0 then [(int_of_size (lineNumber s), s)] else [])
    @ line_entries_in ks @ line_entries_in ns"

definition collectLineEntries :: "raw_node \<Rightarrow> line_index" where
  "collectLineEntries root = line_entries_in [root]"

text \<open>
  The comparator looks at the line and the start offset; two elements of one document never share
  both, so the order \<open>ranges::sort\<close> leaves among equal elements does not matter.
\<close>

definition buildLineIndex :: "raw_node \<Rightarrow> line_index" where
  "buildLineIndex root = sort_key (\<lambda>(line, s). (line, startOffset s)) (collectLineEntries root)"

text \<open>\<open>lower_bound\<close> on the first components: the number of entries below the line.\<close>

definition lowerBound :: "line_index \<Rightarrow> int \<Rightarrow> nat" where
  "lowerBound index line = length (takeWhile (\<lambda>e. fst e < line) index)"

definition spanForLine :: "line_index \<Rightarrow> int \<Rightarrow> raw_span option" where
  "spanForLine index line =
    (if index = [] \<or> line \<le> 0 then None
     else let i = lowerBound index line in
       if i = length index then Some (snd (last index))
       else if fst (index ! i) = line then Some (snd (index ! i))
       else if i = 0 then Some (snd (index ! i))
       else let higher = index ! i; lower = index ! (i - 1);
                loDist = line - fst lower; hiDist = fst higher - line
            in Some (if hiDist < loDist then snd higher else snd lower))"

section \<open>The check\<close>

record xml_error =
  xe_is_warning :: bool
  xe_message :: "string option"
  xe_line :: int

definition onSchemaError :: "line_index \<Rightarrow> xml_error \<Rightarrow> validation_result \<Rightarrow> validation_result" where
  "onSchemaError index err result =
    result @ [(new_error (if xe_is_warning err then Warning else Error) ''schema.invalid''
      (trimMessage (xe_message err))) \<lparr>ve_location := spanForLine index (xe_line err)\<rparr>]"

text \<open>
  libxml2: whether a validation context can be made, and, for a file that can be read, the errors
  reported and the return value of \<open>xmlSchemaValidateDoc\<close>.
\<close>

record schema_lib =
  new_context :: bool
  validate_file :: "string \<Rightarrow> (xml_error list \<times> int) option"

definition validateSchema :: "schema_lib option \<Rightarrow> parsed_file \<Rightarrow> validation_result" where
  "validateSchema sharedSchema file =
    (case sharedSchema of
       None \<Rightarrow> [new_error Error ''schema.no_schema'' ''validateSchema: null shared schema handle'']
     | Some lib \<Rightarrow>
         if sourcePath file = []
         then [new_error Error ''schema.no_source'' ''validateSchema: ParsedFile has no sourcePath'']
         else if \<not> new_context lib
         then [new_error Error ''schema.no_context'' ''validateSchema: cannot create validation context'']
         else
           let lineIndex = (case rawDocument file of None \<Rightarrow> [] | Some root \<Rightarrow> buildLineIndex root);
               narrowPath = path_string (sourcePath file) in
           case validate_file lib narrowPath of
             None \<Rightarrow> [new_error Error ''schema.unreadable''
                (''validateSchema: cannot re-parse '' @ quoted narrowPath @ '' for validation'')]
           | Some (errs, ret) \<Rightarrow>
               (let result = fold (onSchemaError lineIndex) errs [] in
                if ret < 0
                then result @ [new_error Error ''schema.internal''
                       ''validateSchema: internal validation error'']
                else result))"

definition validateAll :: "schema_lib option \<Rightarrow> parsed_project \<Rightarrow> validation_result" where
  "validateAll sharedSchema project =
    (let c1 = fold (\<lambda>f c. merge c (validateSchema sharedSchema f)) (files project) [];
         c2 = merge c1 (validateReferences project);
         c3 = merge c2 (validateUniqueness project)
     in merge c3 (validateCanSemantics project))"

section \<open>Facts\<close>

lemma sorted_fst:
  assumes "sorted (map (\<lambda>(l, s). (l, startOffset s)) xs)"
  shows "sorted (map fst xs)"
proof -
  have "sorted_wrt (\<lambda>x y. fst x \<le> fst y) xs"
    using assms unfolding sorted_map
    by (rule sorted_wrt_mono_rel [rotated]) (auto simp: less_eq_prod_def)
  then show ?thesis by (simp add: sorted_map)
qed

lemma buildLineIndex_sorted: "sorted (map fst (buildLineIndex root))"
  by (simp add: buildLineIndex_def sorted_fst)

lemma buildLineIndex_set: "set (buildLineIndex root) = set (collectLineEntries root)"
  by (simp add: buildLineIndex_def)

lemma lowerBound_split:
  assumes "sorted (map fst index)"
  shows "i < lowerBound index line \<Longrightarrow> fst (index ! i) < line"
    "lowerBound index line \<le> i \<Longrightarrow> i < length index \<Longrightarrow> line \<le> fst (index ! i)"
proof -
  assume "i < lowerBound index line"
  then show "fst (index ! i) < line"
    unfolding lowerBound_def by (metis nth_mem set_takeWhileD takeWhile_nth)
next
  assume i: "lowerBound index line \<le> i" "i < length index"
  then have "lowerBound index line < length index" by simp
  then have "line \<le> fst (index ! lowerBound index line)"
    using nth_length_takeWhile [of "\<lambda>e. fst e < line" index] by (simp add: lowerBound_def)
  also have "\<dots> \<le> fst (index ! i)"
    using sorted_nth_mono [OF assms i(1)] i by simp
  finally show "line \<le> fst (index ! i)" .
qed

lemma lowerBound_le: "lowerBound index line \<le> length index"
  by (simp add: lowerBound_def length_takeWhile_le)

lemma spanForLine_nearest:
  assumes sorted: "sorted (map fst index)" and s: "spanForLine index line = Some s"
  shows "\<exists>l. (l, s) \<in> set index \<and> (\<forall>(l', s') \<in> set index. \<bar>line - l\<bar> \<le> \<bar>line - l'\<bar>)"
proof -
  let ?i = "lowerBound index line"
  have ne: "index \<noteq> []" using s by (auto simp: spanForLine_def)
  have mono: "j \<le> k \<Longrightarrow> k < length index \<Longrightarrow> fst (index ! j) \<le> fst (index ! k)" for j k
    using sorted_nth_mono [OF sorted] by simp
  note below = lowerBound_split(1) [OF sorted, of _ line]
  note above = lowerBound_split(2) [OF sorted, of line]
  have pick: "\<exists>k < length index. s = snd (index ! k) \<and>
      (\<forall>j < length index. \<bar>line - fst (index ! k)\<bar> \<le> \<bar>line - fst (index ! j)\<bar>)"
  proof (cases "?i = length index")
    case True
    then have "s = snd (index ! (length index - 1))"
      using s ne by (simp add: spanForLine_def Let_def last_conv_nth split: if_splits)
    moreover have "\<bar>line - fst (index ! (length index - 1))\<bar> \<le> \<bar>line - fst (index ! j)\<bar>"
      if "j < length index" for j
      using mono [of j "length index - 1"] below [of "length index - 1"] below [of j] True that ne by simp
    ultimately show ?thesis using ne by (intro exI [of _ "length index - 1"]) simp
  next
    case False
    then have lt: "?i < length index" using lowerBound_le [of index line] by simp
    have near_hi: "\<bar>line - fst (index ! ?i)\<bar> \<le> \<bar>line - fst (index ! j)\<bar>" if "?i \<le> j" "j < length index" for j
      using mono [OF that] above [OF _ lt] above [OF that] by simp
    have near_lo: "\<bar>line - fst (index ! (?i - 1))\<bar> \<le> \<bar>line - fst (index ! j)\<bar>" if "j < ?i" for j
      using mono [of j "?i - 1"] below [OF that] below [of "?i - 1"] that lt by simp
    have cases: "s = snd (index ! ?i) \<and> (fst (index ! ?i) = line \<or> ?i = 0
          \<or> fst (index ! ?i) - line < line - fst (index ! (?i - 1)))
      \<or> s = snd (index ! (?i - 1)) \<and> ?i \<noteq> 0 \<and> \<not> fst (index ! ?i) - line < line - fst (index ! (?i - 1))"
      using s lt False by (auto simp: spanForLine_def Let_def split: if_splits)
    then show ?thesis
    proof
      assume hi: "s = snd (index ! ?i) \<and> (fst (index ! ?i) = line \<or> ?i = 0
          \<or> fst (index ! ?i) - line < line - fst (index ! (?i - 1)))"
      have "\<bar>line - fst (index ! ?i)\<bar> \<le> \<bar>line - fst (index ! j)\<bar>" if "j < length index" for j
      proof (cases "?i \<le> j")
        case True
        then show ?thesis using near_hi that by blast
      next
        case False
        then show ?thesis using hi near_lo [of j] above [OF _ lt] below [of "?i - 1"] by auto
      qed
      then show ?thesis using hi lt by blast
    next
      assume lo: "s = snd (index ! (?i - 1)) \<and> ?i \<noteq> 0 \<and> \<not> fst (index ! ?i) - line < line - fst (index ! (?i - 1))"
      have "\<bar>line - fst (index ! (?i - 1))\<bar> \<le> \<bar>line - fst (index ! j)\<bar>" if "j < length index" for j
      proof (cases "j < ?i")
        case True
        then show ?thesis using near_lo by blast
      next
        case False
        then show ?thesis
          using lo near_hi [of j] that above [OF _ lt] below [of "?i - 1"] by auto
      qed
      then show ?thesis using lo lt by (intro exI [of _ "?i - 1"]) simp
    qed
  qed
  then obtain k where k: "k < length index" "s = snd (index ! k)"
    "\<forall>j < length index. \<bar>line - fst (index ! k)\<bar> \<le> \<bar>line - fst (index ! j)\<bar>" by blast
  have "(fst (index ! k), s) \<in> set index" using k(1,2) by (simp add: nth_mem)
  moreover have "\<forall>(l', s') \<in> set index. \<bar>line - fst (index ! k)\<bar> \<le> \<bar>line - l'\<bar>"
    using k(3) by (fastforce simp: in_set_conv_nth)
  ultimately show ?thesis by blast
qed

lemma fold_merge: "fold (\<lambda>f c. merge c (g f)) fs c = c @ concat (map g fs)"
  by (induction fs arbitrary: c) (auto simp: merge_def)

lemma validateAll_concat:
  "validateAll lib p = concat (map (validateSchema lib) (files p)) @ validateReferences p
    @ validateUniqueness p @ validateCanSemantics p"
  unfolding validateAll_def Let_def fold_merge by (simp add: merge_def)

lemma overallPassed_concat: "overallPassed (concat rs) mode \<longleftrightarrow> (\<forall>r \<in> set rs. overallPassed r mode)"
proof (induction rs)
  case Nil
  then show ?case by (simp add: overallPassed_def hasErrors_def hasWarnings_def)
qed (simp add: err_simps)

section \<open>Properties\<close>

text \<open>An error line is attributed to a node of the document whose line is nearest to it.\<close>

theorem spanForLine_is_nearest:
  assumes "spanForLine (buildLineIndex root) line = Some s"
  shows "\<exists>l. (l, s) \<in> set (collectLineEntries root) \<and>
    (\<forall>(l', s') \<in> set (collectLineEntries root). \<bar>line - l\<bar> \<le> \<bar>line - l'\<bar>)"
  using spanForLine_nearest [OF buildLineIndex_sorted assms] by (simp only: buildLineIndex_set)

theorem spanForLine_is_nearest_witness:
  "\<exists>l. (l, no_span\<lparr>lineNumber := 9\<rparr>) \<in> set (collectLineEntries (RawNode ''A'' [] [] (no_span\<lparr>lineNumber := 2\<rparr>)
      [RawNode ''B'' [] [] (no_span\<lparr>lineNumber := 9\<rparr>) []])) \<and>
    (\<forall>(l', s') \<in> set (collectLineEntries (RawNode ''A'' [] [] (no_span\<lparr>lineNumber := 2\<rparr>)
      [RawNode ''B'' [] [] (no_span\<lparr>lineNumber := 9\<rparr>) []])). \<bar>7 - l\<bar> \<le> \<bar>7 - l'\<bar>)"
  by (rule spanForLine_is_nearest)
    (simp add: buildLineIndex_def collectLineEntries_def spanForLine_def lowerBound_def no_span_def
      int_of_size_def word_less_alt)

text \<open>The combined verdict is the conjunction of the verdicts of the four checks, in both modes;
  in the strict mode it holds exactly when no check reported anything.\<close>

theorem validateAll_verdict:
  "(overallPassed (validateAll lib p) mode \<longleftrightarrow>
     list_all (\<lambda>f. overallPassed (validateSchema lib f) mode) (files p) \<and>
     overallPassed (validateReferences p) mode \<and> overallPassed (validateUniqueness p) mode \<and>
     overallPassed (validateCanSemantics p) mode) \<and>
   (overallPassed (validateAll lib p) Strict \<longleftrightarrow> validateAll lib p = [])"
  by (simp add: validateAll_concat err_simps overallPassed_concat overallPassed_Strict list_all_iff)

end
