(* ===== verification/ExportDb.thy ===== *)
theory ExportDb
  imports ModelBuilder "HOL-Library.Product_Lexorder"
begin

text \<open>
  The export database (\<open>src/export/can_db.cpp\<close>): one pass over the raw tree collects every lookup
  the export needs, then frames, PDUs and signals are joined by short name. The unordered maps are
  only ever looked up, never iterated, so the ordered maps of \<open>StdMap\<close> stand for them. The helpers
  the file repeats from the model builder (\<open>trimText\<close>, \<open>shortNameOfRef\<close>, \<open>findChild\<close>,
  \<open>collectDescendants\<close>) are the same functions.
\<close>

section \<open>The flat database\<close>

record export_signal =
  es_name :: string
  es_startBit :: uint32
  es_bitLength :: uint32
  es_byteOrder :: byte_order
  es_isSigned :: bool
  es_factor :: double
  es_offset :: double
  es_min :: "double option"
  es_max :: "double option"
  es_unit :: string
  es_initValue :: "double option"
  es_receivers :: "string list"
  es_valueTable :: "value_table_entry list"

record export_frame =
  ef_name :: string
  ef_id :: uint32
  ef_extended :: bool
  ef_canFd :: bool
  ef_length :: uint32
  ef_transmitters :: "string list"
  ef_signals :: "export_signal list"

record export_database =
  ed_busName :: string
  ed_baudrate :: "uint32 option"
  ed_nodes :: "string list"
  ed_frames :: "export_frame list"
  ed_warnings :: "warning list"

definition empty_database :: export_database where
  "empty_database = \<lparr>ed_busName = [], ed_baudrate = None, ed_nodes = [], ed_frames = [], ed_warnings = []\<rparr>"

section \<open>Text and numbers\<close>

text \<open>The exporter's \<open>childText\<close> does not tell a missing child from a blank one.\<close>

definition dbChildText :: "raw_node \<Rightarrow> string \<Rightarrow> string" where
  "dbChildText node tag = (case findChild node tag of None \<Rightarrow> [] | Some child \<Rightarrow> trimText (nodeText child))"

definition nameOf :: "raw_node \<Rightarrow> string" where
  "nameOf node = dbChildText node ''SHORT-NAME''"

definition refNames :: "raw_node \<Rightarrow> string \<Rightarrow> string list" where
  "refNames node tag = map (\<lambda>r. shortNameOfRef (nodeText r)) (collectDescendants node tag)"

definition parseUnsigned :: "string \<Rightarrow> nat \<Rightarrow> double option" where
  "parseUnsigned digits base =
    (case stoull base digits of
       Inl _ \<Rightarrow> None
     | Inr (n, consumed) \<Rightarrow> if consumed = length digits then Some (dbl_of_nat (unat n)) else None)"

definition dbParseDouble :: "string \<Rightarrow> double option" where
  "dbParseDouble raw =
    (let txt = trimText raw in
     if txt = [] then None
     else
       let prefixed = (\<lambda>lo up. length txt > 2 \<and> txt ! 0 = CHR ''0'' \<and> (txt ! 1 = lo \<or> txt ! 1 = up));
           binary = prefixed (CHR ''b'') (CHR ''B'');
           hex = prefixed (CHR ''x'') (CHR ''X'');
           octal = (length txt > 1 \<and> list_all (\<lambda>c. c \<in> set ''01234567'') txt \<and> txt ! 0 = CHR ''0'')
       in if binary \<or> hex then parseUnsigned (drop 2 txt) (if binary then 2 else 16)
          else if octal then parseUnsigned (drop 1 txt) 8
          else (case stod txt of
                  Inl _ \<Rightarrow> None
                | Inr (v, consumed) \<Rightarrow> if consumed = length txt then Some v else None))"

text \<open>\<open>4294967295.0\<close>; the casts of the sources happen only behind the range checks.\<close>

definition dbl_u32_max :: double where
  "dbl_u32_max = dbl_of_nat (2 ^ 32 - 1)"

definition in_u32_range :: "double \<Rightarrow> bool" where
  "in_u32_range v \<longleftrightarrow> dbl_le dbl_zero v \<and> dbl_le v dbl_u32_max"

definition cast_u32 :: "double \<Rightarrow> uint32" where
  "cast_u32 v = (case dbl_trunc v of Some i \<Rightarrow> word_of_int i | None \<Rightarrow> 0)"

text \<open>For a NaN every comparison is false, so the range checks let it pass and the last one rejects it.\<close>

definition parseId :: "string \<Rightarrow> uint32 option" where
  "parseId raw =
    (case dbParseDouble raw of
       None \<Rightarrow> None
     | Some v \<Rightarrow>
         if dbl_lt v dbl_zero \<or> dbl_lt dbl_u32_max v \<or> \<not> dbl_eq v (dbl_of_nat (unat (cast_u32 v)))
         then None else Some (cast_u32 v))"

text \<open>
  The cast to \<open>int64_t\<close> of a value outside its range is undefined; the conversion instruction of
  x86-64 then gives the least integer, which equals no such value, so the result is \<open>None\<close>.
\<close>

definition asInteger :: "double \<Rightarrow> int64 option" where
  "asInteger v =
    (case dbl_trunc v of
       None \<Rightarrow> None
     | Some whole \<Rightarrow>
         if - (2 ^ 63) \<le> whole \<and> whole < 2 ^ 63 \<and> dbl_eq (dbl_of_int whole) v
         then Some (word_of_int whole) else None)"

definition addUnique :: "string \<Rightarrow> string list \<Rightarrow> string list" where
  "addUnique name xs = (if name \<noteq> [] \<and> name \<notin> set xs then xs @ [name] else xs)"

section \<open>The index\<close>

record frame_port =
  fp_out :: bool
  fp_ecu :: string

record pdu_group =
  pg_out :: bool
  pg_pdus :: "string list"

record export_index =
  ix_triggerings :: "(string, raw_node) omap"
  ix_iSignals :: "(string, raw_node) omap"
  ix_systemSignals :: "(string, raw_node) omap"
  ix_compuMethods :: "(string, raw_node) omap"
  ix_units :: "(string, string) omap"
  ix_groupsByPath :: "(string, pdu_group) omap"
  ix_framePorts :: "(string, frame_port) omap"
  ix_ecuGroupRefs :: "(string \<times> string list) list"
  ix_bigEndian :: "(string, bool) omap"

definition empty_index :: export_index where
  "empty_index = \<lparr>ix_triggerings = [], ix_iSignals = [], ix_systemSignals = [], ix_compuMethods = [],
     ix_units = [], ix_groupsByPath = [], ix_framePorts = [], ix_ecuGroupRefs = [], ix_bigEndian = []\<rparr>"

definition newline :: string where
  "newline = [CHR 0x0A]"

definition packingKey :: "string \<Rightarrow> string \<Rightarrow> string" where
  "packingKey pduName sig = pduName @ newline @ sig"

definition isOut :: "raw_node \<Rightarrow> bool" where
  "isOut node \<longleftrightarrow> dbChildText node ''COMMUNICATION-DIRECTION'' = ''OUT''"

definition indexPdu :: "raw_node \<Rightarrow> (string, bool) omap \<Rightarrow> (string, bool) omap" where
  "indexPdu node m =
    fold (\<lambda>(k, v). m_try_emplace k v)
      (map (\<lambda>mapping. (packingKey (nameOf node) (shortNameOfRef (dbChildText mapping ''I-SIGNAL-REF'')),
                       dbChildText mapping ''PACKING-BYTE-ORDER'' = ''MOST-SIGNIFICANT-BYTE-FIRST''))
        (collectDescendants node ''I-SIGNAL-TO-I-PDU-MAPPING'')) m"

text \<open>The cascade of \<open>buildIndex\<close> for one node: the changed index.\<close>

definition indexEntry :: "raw_node \<Rightarrow> string \<Rightarrow> string \<Rightarrow> export_index \<Rightarrow> export_index" where
  "indexEntry node pkgPath ecu ix =
    (let tag = tagName node in
     if tag = ''AR-PACKAGE'' then ix
     else if tag = ''CAN-FRAME-TRIGGERING'' then
       ix\<lparr>ix_triggerings := m_try_emplace (shortNameOfRef (dbChildText node ''FRAME-REF'')) node (ix_triggerings ix)\<rparr>
     else if tag = ''I-SIGNAL'' then
       ix\<lparr>ix_iSignals := m_try_emplace (nameOf node) node (ix_iSignals ix)\<rparr>
     else if tag = ''SYSTEM-SIGNAL'' then
       ix\<lparr>ix_systemSignals := m_try_emplace (nameOf node) node (ix_systemSignals ix)\<rparr>
     else if tag = ''COMPU-METHOD'' then
       ix\<lparr>ix_compuMethods := m_try_emplace (nameOf node) node (ix_compuMethods ix)\<rparr>
     else if tag = ''UNIT'' then
       ix\<lparr>ix_units := m_try_emplace (nameOf node) (dbChildText node ''DISPLAY-NAME'') (ix_units ix)\<rparr>
     else if tag = ''I-SIGNAL-I-PDU'' then ix\<lparr>ix_bigEndian := indexPdu node (ix_bigEndian ix)\<rparr>
     else if tag = ''I-SIGNAL-I-PDU-GROUP'' then
       ix\<lparr>ix_groupsByPath := m_try_emplace (pkgPath @ ''/'' @ nameOf node)
            \<lparr>pg_out = isOut node, pg_pdus = refNames node ''I-SIGNAL-I-PDU-REF''\<rparr> (ix_groupsByPath ix)\<rparr>
     else if tag = ''ECU-INSTANCE'' then
       ix\<lparr>ix_ecuGroupRefs := ix_ecuGroupRefs ix @ [(nameOf node,
            map (\<lambda>r. trimText (nodeText r)) (collectDescendants node ''ASSOCIATED-COM-I-PDU-GROUP-REF''))]\<rparr>
     else if tag = ''FRAME-PORT'' then
       ix\<lparr>ix_framePorts := m_try_emplace (nameOf node) \<lparr>fp_out = isOut node, fp_ecu = ecu\<rparr> (ix_framePorts ix)\<rparr>
     else ix)"

definition childPkg :: "raw_node \<Rightarrow> string \<Rightarrow> string" where
  "childPkg node pkgPath = (if tagName node = ''AR-PACKAGE'' then pkgPath @ ''/'' @ nameOf node else pkgPath)"

definition childEcu :: "raw_node \<Rightarrow> string \<Rightarrow> string" where
  "childEcu node ecu = (if tagName node = ''ECU-INSTANCE'' then nameOf node else ecu)"

text \<open>\<open>buildIndex\<close> over a list of siblings: a node, everything below it, the next sibling.\<close>

fun buildIndex :: "raw_node list \<Rightarrow> string \<Rightarrow> string \<Rightarrow> export_index \<Rightarrow> export_index" where
  "buildIndex [] pkgPath ecu ix = ix"
| "buildIndex (RawNode t a x s ks # ns) pkgPath ecu ix =
    buildIndex ns pkgPath ecu
      (buildIndex ks (childPkg (RawNode t a x s ks) pkgPath) (childEcu (RawNode t a x s ks) ecu)
        (indexEntry (RawNode t a x s ks) pkgPath ecu ix))"

section \<open>Scaling\<close>

record scaling =
  sc_factor :: double
  sc_offset :: double
  sc_min :: "double option"
  sc_max :: "double option"
  sc_unit :: string
  sc_valueTable :: "value_table_entry list"

definition identity_scaling :: scaling where
  "identity_scaling = \<lparr>sc_factor = dbl_one, sc_offset = dbl_zero, sc_min = None, sc_max = None,
     sc_unit = [], sc_valueTable = []\<rparr>"

definition childNodes :: "raw_node option \<Rightarrow> raw_node list" where
  "childNodes parent = (case parent of None \<Rightarrow> [] | Some p \<Rightarrow> children p)"

definition applyLimits :: "raw_node \<Rightarrow> scaling \<Rightarrow> scaling" where
  "applyLimits scl out =
    (case (dbParseDouble (dbChildText scl ''LOWER-LIMIT''), dbParseDouble (dbChildText scl ''UPPER-LIMIT'')) of
       (Some lower, Some upper) \<Rightarrow>
         (let low = dbl_add (dbl_mul lower (sc_factor out)) (sc_offset out);
              high = dbl_add (dbl_mul upper (sc_factor out)) (sc_offset out)
          in if dbl_lt (sc_factor out) dbl_zero
             then out\<lparr>sc_min := Some high, sc_max := Some low\<rparr>
             else out\<lparr>sc_min := Some low, sc_max := Some high\<rparr>)
     | _ \<Rightarrow> out)"

text \<open>The coefficients are passed in: the caller has found the child the function dereferences.\<close>

definition applyLinearScale :: "raw_node \<Rightarrow> raw_node \<Rightarrow> scaling \<Rightarrow> bool \<times> scaling" where
  "applyLinearScale scl coeffs out =
    (let numerators = childNodes (findChild coeffs ''COMPU-NUMERATOR'');
         denominators = childNodes (findChild coeffs ''COMPU-DENOMINATOR'');
         divisor = (case denominators of [] \<Rightarrow> Some dbl_one | d # _ \<Rightarrow> dbParseDouble (nodeText d))
     in case (numerators, divisor) of
          ([n0, n1], Some d) \<Rightarrow>
            if dbl_eq d dbl_zero then (False, out)
            else (case (dbParseDouble (nodeText n0), dbParseDouble (nodeText n1)) of
                    (Some c, Some slope) \<Rightarrow>
                      (True, applyLimits scl (out\<lparr>sc_offset := dbl_div c d, sc_factor := dbl_div slope d\<rparr>))
                  | _ \<Rightarrow> (False, out))
        | _ \<Rightarrow> (False, out))"

definition textTableEntry :: "raw_node \<Rightarrow> value_table_entry option" where
  "textTableEntry scl =
    (case Option.bind (findChild scl ''COMPU-CONST'') (\<lambda>c. findChild c ''VT'') of
       None \<Rightarrow> None
     | Some label \<Rightarrow>
         (case (dbParseDouble (dbChildText scl ''LOWER-LIMIT''), dbParseDouble (dbChildText scl ''UPPER-LIMIT'')) of
            (Some lower, Some upper) \<Rightarrow>
              if \<not> dbl_eq lower upper then None
              else map_option (\<lambda>v. \<lparr>vte_value = v, vte_label = trimText (nodeText label)\<rparr>) (asInteger lower)
          | _ \<Rightarrow> None))"

definition addTextTableEntry :: "raw_node \<Rightarrow> scaling \<Rightarrow> scaling" where
  "addTextTableEntry scl out =
    (case textTableEntry scl of
       None \<Rightarrow> out
     | Some entry \<Rightarrow> out\<lparr>sc_valueTable := sc_valueTable out @ [entry]\<rparr>)"

definition compuScaleStep :: "raw_node \<Rightarrow> bool \<times> scaling \<Rightarrow> bool \<times> scaling" where
  "compuScaleStep scl st =
    (case st of (haveLinear, out) \<Rightarrow>
      (case findChild scl ''COMPU-RATIONAL-COEFFS'' of
         Some coeffs \<Rightarrow>
           if \<not> haveLinear then applyLinearScale scl coeffs out
           else (haveLinear, addTextTableEntry scl out)
       | None \<Rightarrow> (haveLinear, addTextTableEntry scl out)))"

definition applyCompuMethod :: "raw_node \<Rightarrow> scaling \<Rightarrow> scaling" where
  "applyCompuMethod method out =
    snd (fold compuScaleStep (collectDescendants method ''COMPU-SCALE'') (False, out))"

definition unitName :: "export_index \<Rightarrow> raw_node option \<Rightarrow> string" where
  "unitName ix holder =
    (case Option.bind holder (\<lambda>h. findDescendant h ''UNIT-REF'') of
       None \<Rightarrow> []
     | Some ref \<Rightarrow>
         (case map_of (ix_units ix) (shortNameOfRef (nodeText ref)) of
            None \<Rightarrow> []
          | Some u \<Rightarrow> if u = ''NoUnit'' then [] else u))"

text \<open>\<open>None\<close>: the chain does not reach a \<open>SYSTEM-SIGNAL\<close> and the caller falls back to the model.\<close>

definition systemSignalOf :: "export_index \<Rightarrow> string \<Rightarrow> raw_node option" where
  "systemSignalOf ix signalName =
    Option.bind (map_of (ix_iSignals ix) signalName) (\<lambda>node.
      Option.bind (findChild node ''SYSTEM-SIGNAL-REF'') (\<lambda>ref.
        map_of (ix_systemSignals ix) (shortNameOfRef (nodeText ref))))"

definition resolveScaling :: "export_index \<Rightarrow> string \<Rightarrow> scaling option" where
  "resolveScaling ix signalName =
    (case systemSignalOf ix signalName of
       None \<Rightarrow> None
     | Some system \<Rightarrow>
         (let method = Option.bind (findDescendant system ''COMPU-METHOD-REF'')
                (\<lambda>r. map_of (ix_compuMethods ix) (shortNameOfRef (nodeText r)));
              scaled = (case method of None \<Rightarrow> identity_scaling | Some m \<Rightarrow> applyCompuMethod m identity_scaling);
              u = unitName ix (Some system)
          in Some (scaled\<lparr>sc_unit := (if u = [] then unitName ix method else u)\<rparr>)))"

section \<open>Signals of the model\<close>

type_synonym model_signals = "(string, signal list) omap"

definition modelSignalsOf :: "parsed_file \<Rightarrow> model_signals" where
  "modelSignalsOf file =
    fold (\<lambda>s. m_modify [] (shortName (signal_common s)) (\<lambda>l. l @ [s])) (signals file) []"

fun pickLoop :: "raw_node option \<Rightarrow> signal option \<Rightarrow> signal list \<Rightarrow> signal option" where
  "pickLoop raw best [] = best"
| "pickLoop raw best (s # ss) =
    (if (case raw of None \<Rightarrow> False | Some n \<Rightarrow> rawSpanRef (signal_common s) = nodeSpan n) then Some s
     else pickLoop raw
       (case best of
          None \<Rightarrow> Some s
        | Some b \<Rightarrow> if bitLength b = 0 \<and> bitLength s \<noteq> 0 then Some s else best) ss)"

definition pickModelSignal :: "model_signals \<Rightarrow> export_index \<Rightarrow> string \<Rightarrow> signal option" where
  "pickModelSignal ms ix name =
    (case map_of ms name of
       None \<Rightarrow> None
     | Some candidates \<Rightarrow> pickLoop (map_of (ix_iSignals ix) name) None candidates)"

section \<open>Senders and receivers\<close>

record frame_parties =
  pa_transmitters :: "string list"
  pa_receivers :: "string list"

definition no_parties :: frame_parties where
  "no_parties = \<lparr>pa_transmitters = [], pa_receivers = []\<rparr>"

type_synonym party_map = "(string, frame_parties) omap"

definition addParty :: "bool \<Rightarrow> string \<Rightarrow> string \<Rightarrow> party_map \<Rightarrow> party_map" where
  "addParty out frameName ecu =
    m_modify no_parties frameName
      (\<lambda>p. if out then p\<lparr>pa_transmitters := addUnique ecu (pa_transmitters p)\<rparr>
           else p\<lparr>pa_receivers := addUnique ecu (pa_receivers p)\<rparr>)"

definition portParties :: "export_index \<Rightarrow> frame \<Rightarrow> party_map \<Rightarrow> party_map" where
  "portParties ix f parties =
    (let name = shortName (frame_common f) in
     case map_of (ix_triggerings ix) name of
       None \<Rightarrow> parties
     | Some trig \<Rightarrow>
         fold (\<lambda>portName m. case map_of (ix_framePorts ix) portName of
                 None \<Rightarrow> m
               | Some port \<Rightarrow> addParty (fp_out port) name (fp_ecu port) m)
           (refNames trig ''FRAME-PORT-REF'') parties)"

definition addPortParties :: "parsed_file \<Rightarrow> export_index \<Rightarrow> party_map \<Rightarrow> party_map" where
  "addPortParties file ix parties = fold (portParties ix) (frames file) parties"

definition framesByPduOf :: "parsed_file \<Rightarrow> (string, frame list) omap" where
  "framesByPduOf file =
    fold (\<lambda>f m. fold (\<lambda>mapping. m_modify [] (pduShortNameRef mapping) (\<lambda>l. l @ [f])) (frame_pdus f) m)
      (frames file) []"

definition groupParties :: "(string, frame list) omap \<Rightarrow> string \<Rightarrow> pdu_group \<Rightarrow> party_map \<Rightarrow> party_map" where
  "groupParties byPdu ecu g parties =
    fold (\<lambda>pdu m.
        fold (\<lambda>f. addParty (pg_out g) (shortName (frame_common f)) ecu)
          (case map_of byPdu pdu of None \<Rightarrow> [] | Some fs \<Rightarrow> fs) m)
      (pg_pdus g) parties"

definition addGroupParties :: "parsed_file \<Rightarrow> export_index \<Rightarrow> party_map \<Rightarrow> party_map" where
  "addGroupParties file ix parties =
    (let byPdu = framesByPduOf file in
     fold (\<lambda>(ecu, refs) m.
         fold (\<lambda>path m'. case map_of (ix_groupsByPath ix) path of
                 None \<Rightarrow> m' | Some g \<Rightarrow> groupParties byPdu ecu g m') refs m)
       (ix_ecuGroupRefs ix) parties)"

definition resolveParties :: "parsed_file \<Rightarrow> export_index \<Rightarrow> party_map" where
  "resolveParties file ix = addGroupParties file ix (addPortParties file ix [])"

section \<open>Frames and signals\<close>

definition makeFrameHeader :: "frame \<Rightarrow> export_index \<Rightarrow> frame_parties \<Rightarrow> export_frame option" where
  "makeFrameHeader f ix who =
    (case map_of (ix_triggerings ix) (shortName (frame_common f)) of
       None \<Rightarrow> None
     | Some node \<Rightarrow>
         (case parseId (dbChildText node ''IDENTIFIER'') of
            None \<Rightarrow> None
          | Some frameId \<Rightarrow>
              Some \<lparr>ef_name = shortName (frame_common f), ef_id = frameId,
                ef_extended = (dbChildText node ''CAN-ADDRESSING-MODE'' = ''EXTENDED''),
                ef_canFd = (dbChildText node ''CAN-FRAME-TX-BEHAVIOR'' = ''CAN-FD''
                  \<or> dbChildText node ''CAN-FRAME-RX-BEHAVIOR'' = ''CAN-FD''),
                ef_length = frame_length f,
                ef_transmitters = (if pa_transmitters who = [] then transmitters f else pa_transmitters who),
                ef_signals = []\<rparr>))"

definition applyRawSignalData :: "export_signal \<Rightarrow> string \<Rightarrow> export_index \<Rightarrow> export_signal" where
  "applyRawSignalData exported pduName ix =
    (let packed = (case map_of (ix_bigEndian ix) (packingKey pduName (es_name exported)) of
                     None \<Rightarrow> exported
                   | Some big \<Rightarrow> exported\<lparr>es_byteOrder :=
                       (if big then MostSignificantByteFirst else LeastSignificantByteFirst)\<rparr>)
     in case map_of (ix_iSignals ix) (es_name exported) of
          None \<Rightarrow> packed
        | Some raw \<Rightarrow>
            (let sized = (case dbParseDouble (dbChildText raw ''LENGTH'') of
                            None \<Rightarrow> packed
                          | Some len \<Rightarrow> if in_u32_range len then packed\<lparr>es_bitLength := cast_u32 len\<rparr> else packed)
             in case Option.bind (findChild raw ''INIT-VALUE'') (\<lambda>i. findDescendant i ''VALUE'') of
                  None \<Rightarrow> sized
                | Some v \<Rightarrow> sized\<lparr>es_initValue := dbParseDouble (nodeText v)\<rparr>))"

definition applyScaling :: "export_signal \<Rightarrow> signal \<Rightarrow> export_index \<Rightarrow> export_signal" where
  "applyScaling exported sig ix =
    (case resolveScaling ix (es_name exported) of
       Some sc \<Rightarrow> exported\<lparr>es_factor := sc_factor sc, es_offset := sc_offset sc, es_min := sc_min sc,
         es_max := sc_max sc, es_unit := sc_unit sc, es_valueTable := sc_valueTable sc\<rparr>
     | None \<Rightarrow> exported\<lparr>es_factor := factor sig, es_offset := offset sig, es_min := signal_min sig,
         es_max := signal_max sig, es_unit := (case unit_name sig of None \<Rightarrow> [] | Some u \<Rightarrow> u),
         es_valueTable := (case valueTable sig of None \<Rightarrow> [] | Some t \<Rightarrow> t)\<rparr>)"

definition blank_signal :: export_signal where
  "blank_signal = \<lparr>es_name = [], es_startBit = 0, es_bitLength = 0, es_byteOrder = LeastSignificantByteFirst,
     es_isSigned = False, es_factor = dbl_one, es_offset = dbl_zero, es_min = None, es_max = None,
     es_unit = [], es_initValue = None, es_receivers = [], es_valueTable = []\<rparr>"

definition makeSignal :: "signal \<Rightarrow> pdu_signal_mapping \<Rightarrow> frame_pdu_mapping \<Rightarrow> string \<Rightarrow> export_index
    \<Rightarrow> frame_parties \<Rightarrow> export_signal" where
  "makeSignal sig place mapping pduName ix who =
    (let exported = blank_signal\<lparr>es_name := signalShortNameRef place,
            es_startBit := psm_startPosition place + fpm_startPosition mapping,
            es_byteOrder := psm_byteOrder place, es_bitLength := bitLength sig,
            es_isSigned := isSigned sig, es_initValue := initValue sig\<rparr>
     in (applyScaling (applyRawSignalData exported pduName ix) sig ix)
          \<lparr>es_receivers := (if pa_receivers who = [] then receivers sig else pa_receivers who)\<rparr>)"

definition warnDb :: "string \<Rightarrow> export_database \<Rightarrow> export_database" where
  "warnDb msg db = db\<lparr>ed_warnings := ed_warnings db @ [\<lparr>warning_message = msg, warning_location = None\<rparr>]\<rparr>"

record lookups =
  lk_index :: export_index
  lk_modelSignals :: model_signals
  lk_pdus :: "(string, pdu) omap"

definition addSignal :: "lookups \<Rightarrow> string \<Rightarrow> frame_pdu_mapping \<Rightarrow> frame_parties \<Rightarrow> string
    \<Rightarrow> pdu_signal_mapping \<Rightarrow> export_frame \<times> export_database \<Rightarrow> export_frame \<times> export_database" where
  "addSignal lk frameName mapping who pduName place st =
    (case st of (out, db) \<Rightarrow>
      if signalShortNameRef place = [] then (out, db)
      else (case pickModelSignal (lk_modelSignals lk) (lk_index lk) (signalShortNameRef place) of
              None \<Rightarrow> (out, warnDb (''Frame '' @ quoted frameName @ '': signal '' @ quoted (signalShortNameRef place)
                        @ '' is not defined, skipped'') db)
            | Some sig \<Rightarrow> (out\<lparr>ef_signals := ef_signals out
                  @ [makeSignal sig place mapping pduName (lk_index lk) who]\<rparr>, db)))"

definition appendPduSignals :: "lookups \<Rightarrow> string \<Rightarrow> frame_parties \<Rightarrow> frame_pdu_mapping
    \<Rightarrow> export_frame \<times> export_database \<Rightarrow> export_frame \<times> export_database" where
  "appendPduSignals lk frameName who mapping st =
    (case st of (out, db) \<Rightarrow>
      (case map_of (lk_pdus lk) (pduShortNameRef mapping) of
         None \<Rightarrow> (out, warnDb (''Frame '' @ quoted frameName @ '': PDU '' @ quoted (pduShortNameRef mapping)
                   @ '' is not exported (multiplexed, container, secured or unknown PDU)'') db)
       | Some p \<Rightarrow> fold (addSignal lk frameName mapping who (pduShortNameRef mapping)) (signalMappings p) (out, db)))"

definition exportFrame :: "lookups \<Rightarrow> party_map \<Rightarrow> frame \<Rightarrow> export_database \<Rightarrow> export_database" where
  "exportFrame lk parties f db =
    (let name = shortName (frame_common f);
         who = (case map_of parties name of None \<Rightarrow> no_parties | Some p \<Rightarrow> p)
     in case makeFrameHeader f (lk_index lk) who of
          None \<Rightarrow> warnDb (''Frame '' @ quoted name
                    @ '' skipped: no CAN-FRAME-TRIGGERING with an IDENTIFIER'') db
        | Some header \<Rightarrow>
            (let (out, db') = fold (appendPduSignals lk name who) (frame_pdus f) (header, db)
             in db'\<lparr>ed_frames := ed_frames db' @ [out]\<rparr>))"

definition indexOf :: "parsed_file \<Rightarrow> export_index" where
  "indexOf file =
    (case rawDocument file of None \<Rightarrow> empty_index | Some root \<Rightarrow> buildIndex [root] [] [] empty_index)"

definition pdusOf :: "parsed_file \<Rightarrow> (string, pdu) omap" where
  "pdusOf file = fold (\<lambda>(k, v). m_try_emplace k v) (map (\<lambda>p. (shortName (pdu_common p), p)) (pdus file)) []"

definition buildExportDatabase :: "parsed_file \<Rightarrow> export_database" where
  "buildExportDatabase file =
    (let bus = (case clusters file of
                  [] \<Rightarrow> empty_database
                | c # _ \<Rightarrow> empty_database\<lparr>ed_busName := shortName (cluster_common c), ed_baudrate := baudrate c\<rparr>);
         db = bus\<lparr>ed_nodes := map (\<lambda>x. shortName (ecu_common x)) (ecuInstances file)\<rparr>;
         ix = indexOf file;
         lk = \<lparr>lk_index = ix, lk_modelSignals = modelSignalsOf file, lk_pdus = pdusOf file\<rparr>
     in fold (exportFrame lk (resolveParties file ix)) (frames file) db)"

section \<open>What the number parsers let through\<close>

text \<open>\<open>std::stoull\<close> accepts a sign after the prefix, so a negative hexadecimal wraps to a huge value.\<close>

lemma dbParseDouble_signed_hex: "dbParseDouble ''0x-1'' = Some (dbl_of_nat (2 ^ 64 - 1))"
  by (simp add: dbParseDouble_def parseUnsigned_def integer_scan_defs Let_def unsigned_minus_1_eq_mask
      mask_eq_exp_minus_1)

text \<open>The identifier may carry bit 31, although the header says it never does.\<close>

lemma parseId_flag_bit: "parseId ''0x80000001'' = Some 0x80000001"
  by (simp add: parseId_def dbParseDouble_def parseUnsigned_def integer_scan_defs Let_def dbl_of_nat_def
      round_ratio_def ratio_exponent_def bit_size.simps scale2_def div_rne_def cast_u32_def fin_at_def
      dbl_u32_max_def dbl_zero_def)

end
