(* ===== verification/ExportTheorems.thy ===== *)
theory ExportTheorems
  imports ExportDb
begin

text \<open>
  What the export database contains: a declarative reference for the join of frames, PDUs and
  signals, the first-definition-wins meaning of the index, and the senders and receivers as a set of
  events.
\<close>

section \<open>The join as a comprehension\<close>

definition whoOf :: "party_map \<Rightarrow> frame \<Rightarrow> frame_parties" where
  "whoOf parties f = (case map_of parties (shortName (frame_common f)) of None \<Rightarrow> no_parties | Some p \<Rightarrow> p)"

definition placedSignal :: "lookups \<Rightarrow> frame_parties \<Rightarrow> frame_pdu_mapping \<Rightarrow> pdu_signal_mapping \<Rightarrow> export_signal list" where
  "placedSignal lk who mapping place =
    (if signalShortNameRef place = [] then []
     else case pickModelSignal (lk_modelSignals lk) (lk_index lk) (signalShortNameRef place) of
            None \<Rightarrow> []
          | Some sig \<Rightarrow> [makeSignal sig place mapping (pduShortNameRef mapping) (lk_index lk) who])"

definition signalsOfMapping :: "lookups \<Rightarrow> frame_parties \<Rightarrow> frame_pdu_mapping \<Rightarrow> export_signal list" where
  "signalsOfMapping lk who mapping =
    (case map_of (lk_pdus lk) (pduShortNameRef mapping) of
       None \<Rightarrow> []
     | Some p \<Rightarrow> concat (map (placedSignal lk who mapping) (signalMappings p)))"

text \<open>What is missing in a mapping, by name: a PDU, or signals of it.\<close>

definition missingOfMapping :: "lookups \<Rightarrow> frame_pdu_mapping \<Rightarrow> string list" where
  "missingOfMapping lk mapping =
    (case map_of (lk_pdus lk) (pduShortNameRef mapping) of
       None \<Rightarrow> [pduShortNameRef mapping]
     | Some p \<Rightarrow> filter (\<lambda>n. n \<noteq> [] \<and> pickModelSignal (lk_modelSignals lk) (lk_index lk) n = None)
                 (map signalShortNameRef (signalMappings p)))"

definition exportedFrames :: "lookups \<Rightarrow> party_map \<Rightarrow> frame \<Rightarrow> export_frame list" where
  "exportedFrames lk parties f =
    (case makeFrameHeader f (lk_index lk) (whoOf parties f) of
       None \<Rightarrow> []
     | Some h \<Rightarrow> [h\<lparr>ef_signals := concat (map (signalsOfMapping lk (whoOf parties f)) (frame_pdus f))\<rparr>])"

definition missingOfFrame :: "lookups \<Rightarrow> party_map \<Rightarrow> frame \<Rightarrow> nat" where
  "missingOfFrame lk parties f =
    (if makeFrameHeader f (lk_index lk) (whoOf parties f) = None then 1
     else length (concat (map (missingOfMapping lk) (frame_pdus f))))"

lemma warnDb_fields:
  "ed_frames (warnDb msg db) = ed_frames db" "length (ed_warnings (warnDb msg db)) = Suc (length (ed_warnings db))"
  by (simp_all add: warnDb_def)

lemma addSignal_all:
  assumes "fold (addSignal lk name mapping who (pduShortNameRef mapping)) places (out, db) = (out', db')"
  shows "out' = out\<lparr>ef_signals := ef_signals out @ concat (map (placedSignal lk who mapping) places)\<rparr>
    \<and> ed_frames db' = ed_frames db
    \<and> length (ed_warnings db') = length (ed_warnings db) + length (filter
        (\<lambda>n. n \<noteq> [] \<and> pickModelSignal (lk_modelSignals lk) (lk_index lk) n = None) (map signalShortNameRef places))"
  using assms
proof (induction places arbitrary: out db)
  case (Cons p ps)
  obtain o1 d1 where step: "addSignal lk name mapping who (pduShortNameRef mapping) p (out, db) = (o1, d1)" by fastforce
  have one: "o1 = out\<lparr>ef_signals := ef_signals out @ placedSignal lk who mapping p\<rparr> \<and> ed_frames d1 = ed_frames db
      \<and> length (ed_warnings d1) = length (ed_warnings db)
          + (if signalShortNameRef p \<noteq> [] \<and> pickModelSignal (lk_modelSignals lk) (lk_index lk) (signalShortNameRef p) = None
             then 1 else 0)"
    using step by (auto simp: addSignal_def placedSignal_def warnDb_fields split: if_splits option.splits)
  then show ?case using Cons.IH [of o1 d1] Cons.prems step by auto
qed simp

lemma appendPduSignals_all:
  assumes "fold (appendPduSignals lk name who) maps (out, db) = (out', db')"
  shows "out' = out\<lparr>ef_signals := ef_signals out @ concat (map (signalsOfMapping lk who) maps)\<rparr>
    \<and> ed_frames db' = ed_frames db
    \<and> length (ed_warnings db') = length (ed_warnings db) + length (concat (map (missingOfMapping lk) maps))"
  using assms
proof (induction maps arbitrary: out db)
  case (Cons m ms)
  obtain o1 d1 where step: "appendPduSignals lk name who m (out, db) = (o1, d1)" by fastforce
  have one: "o1 = out\<lparr>ef_signals := ef_signals out @ signalsOfMapping lk who m\<rparr> \<and> ed_frames d1 = ed_frames db
      \<and> length (ed_warnings d1) = length (ed_warnings db) + length (missingOfMapping lk m)"
  proof (cases "map_of (lk_pdus lk) (pduShortNameRef m)")
    case None
    then show ?thesis
      using step by (auto simp: appendPduSignals_def signalsOfMapping_def missingOfMapping_def warnDb_fields)
  next
    case (Some p)
    then show ?thesis
      using step addSignal_all [of lk name m who "signalMappings p" out db o1 d1]
      by (simp add: appendPduSignals_def signalsOfMapping_def missingOfMapping_def)
  qed
  then show ?case using Cons.IH [of o1 d1] Cons.prems step by auto
qed simp

lemma exportFrame_all:
  "ed_frames (fold (exportFrame lk parties) fs db) = ed_frames db @ concat (map (exportedFrames lk parties) fs)
   \<and> length (ed_warnings (fold (exportFrame lk parties) fs db))
      = length (ed_warnings db) + sum_list (map (missingOfFrame lk parties) fs)"
proof (induction fs arbitrary: db)
  case (Cons f fs)
  have "ed_frames (exportFrame lk parties f db) = ed_frames db @ exportedFrames lk parties f
      \<and> length (ed_warnings (exportFrame lk parties f db)) = length (ed_warnings db) + missingOfFrame lk parties f"
  proof (cases "makeFrameHeader f (lk_index lk) (whoOf parties f)")
    case None
    then show ?thesis
      by (simp add: exportFrame_def whoOf_def exportedFrames_def missingOfFrame_def warnDb_fields Let_def)
  next
    case (Some h)
    obtain o1 d1 where run: "fold (appendPduSignals lk (shortName (frame_common f)) (whoOf parties f)) (frame_pdus f) (h, db) = (o1, d1)"
      by fastforce
    have "ef_signals h = []" using Some by (auto simp: makeFrameHeader_def split: option.splits)
    then show ?thesis
      using appendPduSignals_all [OF run] run Some
      by (simp add: exportFrame_def whoOf_def [symmetric] exportedFrames_def missingOfFrame_def Let_def)
  qed
  then show ?case using Cons.IH [of "exportFrame lk parties f db"] by simp
qed simp

definition lookupsOf :: "parsed_file \<Rightarrow> lookups" where
  "lookupsOf file = \<lparr>lk_index = indexOf file, lk_modelSignals = modelSignalsOf file, lk_pdus = pdusOf file\<rparr>"

lemma buildExportDatabase_all:
  "ed_frames (buildExportDatabase file)
    = concat (map (exportedFrames (lookupsOf file) (resolveParties file (indexOf file))) (frames file))"
  "length (ed_warnings (buildExportDatabase file))
    = sum_list (map (missingOfFrame (lookupsOf file) (resolveParties file (indexOf file))) (frames file))"
  by (simp_all add: buildExportDatabase_def lookupsOf_def exportFrame_all Let_def empty_database_def split: list.splits)

section \<open>The index\<close>

text \<open>The pairs a node contributes to one of the maps.\<close>

definition entry_of :: "string \<Rightarrow> (raw_node \<Rightarrow> string) \<Rightarrow> (raw_node \<Rightarrow> 'v) \<Rightarrow> raw_node \<Rightarrow> (string \<times> 'v) list" where
  "entry_of tag key val n = (if tagName n = tag then [(key n, val n)] else [])"

lemma buildIndex_map:
  assumes "\<And>n pkg ecu ix. field (indexEntry n pkg ecu ix) = fold (\<lambda>(k, v). m_try_emplace k v) (g n) (field ix)"
  shows "field (buildIndex ns pkg ecu ix)
    = fold (\<lambda>(k, v). m_try_emplace k v) (concat (map g (nodes_in ns))) (field ix)"
  by (induction ns pkg ecu ix rule: buildIndex.induct) (simp_all add: assms fold_append)

lemma indexEntry_maps:
  "ix_triggerings (indexEntry n pkg ecu ix) = fold (\<lambda>(k, v). m_try_emplace k v)
     (entry_of ''CAN-FRAME-TRIGGERING'' (\<lambda>n. shortNameOfRef (dbChildText n ''FRAME-REF'')) (\<lambda>n. n) n) (ix_triggerings ix)"
  "ix_iSignals (indexEntry n pkg ecu ix) = fold (\<lambda>(k, v). m_try_emplace k v)
     (entry_of ''I-SIGNAL'' nameOf (\<lambda>n. n) n) (ix_iSignals ix)"
  "ix_systemSignals (indexEntry n pkg ecu ix) = fold (\<lambda>(k, v). m_try_emplace k v)
     (entry_of ''SYSTEM-SIGNAL'' nameOf (\<lambda>n. n) n) (ix_systemSignals ix)"
  "ix_compuMethods (indexEntry n pkg ecu ix) = fold (\<lambda>(k, v). m_try_emplace k v)
     (entry_of ''COMPU-METHOD'' nameOf (\<lambda>n. n) n) (ix_compuMethods ix)"
  "ix_units (indexEntry n pkg ecu ix) = fold (\<lambda>(k, v). m_try_emplace k v)
     (entry_of ''UNIT'' nameOf (\<lambda>n. dbChildText n ''DISPLAY-NAME'') n) (ix_units ix)"
  by (simp_all add: indexEntry_def entry_of_def Let_def)

lemma map_of_entries:
  "map_of (concat (map (entry_of tag key val) ns)) k
    = map_option val (List.find (\<lambda>n. tagName n = tag \<and> key n = k) ns)"
  by (induction ns) (auto simp: entry_of_def)

lemma export_index_lookup:
  assumes "\<And>n pkg ecu ix. field (indexEntry n pkg ecu ix)
      = fold (\<lambda>(k, v). m_try_emplace k v) (entry_of tag key val n) (field ix)" and "field empty_index = []"
  shows "map_of (field (buildIndex ns pkg ecu empty_index)) k
    = map_option val (List.find (\<lambda>n. tagName n = tag \<and> key n = k) (nodes_in ns))"
  unfolding buildIndex_map [where field = field, OF assms(1)] assms(2)
  by (simp only: smap.first_wins map_of_entries)

section \<open>Senders and receivers\<close>

text \<open>Who is recorded for which frame: \<open>(sends, frame, ECU)\<close>, in the order of the code.\<close>

definition portEvents :: "export_index \<Rightarrow> frame \<Rightarrow> (bool \<times> string \<times> string) list" where
  "portEvents ix f =
    (case map_of (ix_triggerings ix) (shortName (frame_common f)) of
       None \<Rightarrow> []
     | Some trig \<Rightarrow> concat (map (\<lambda>portName. case map_of (ix_framePorts ix) portName of
           None \<Rightarrow> [] | Some port \<Rightarrow> [(fp_out port, shortName (frame_common f), fp_ecu port)])
         (refNames trig ''FRAME-PORT-REF'')))"

definition carries :: "frame \<Rightarrow> string \<Rightarrow> bool" where
  "carries f pduName \<longleftrightarrow> pduName \<in> set (map pduShortNameRef (frame_pdus f))"

definition addEvents :: "(bool \<times> string \<times> string) list \<Rightarrow> party_map \<Rightarrow> party_map" where
  "addEvents evs m = fold (\<lambda>(out, fr, ecu). addParty out fr ecu) evs m"

lemma addEvents_append: "addEvents (xs @ ys) m = addEvents ys (addEvents xs m)"
  by (simp add: addEvents_def)

lemma addEvents_simps [simp]:
  "addEvents [] m = m" "addEvents ((out, fr, ecu) # evs) m = addEvents evs (addParty out fr ecu m)"
  by (simp_all add: addEvents_def)

lemma portParties_events: "portParties ix f m = addEvents (portEvents ix f) m"
proof (cases "map_of (ix_triggerings ix) (shortName (frame_common f))")
  case None
  then show ?thesis by (simp add: portParties_def portEvents_def)
next
  case (Some trig)
  have "fold (\<lambda>portName m. case map_of (ix_framePorts ix) portName of
        None \<Rightarrow> m | Some port \<Rightarrow> addParty (fp_out port) nm (fp_ecu port) m) ps m
      = addEvents (concat (map (\<lambda>portName. case map_of (ix_framePorts ix) portName of
           None \<Rightarrow> [] | Some port \<Rightarrow> [(fp_out port, nm, fp_ecu port)]) ps)) m" for ps nm m
    by (induction ps arbitrary: m) (auto split: option.splits)
  then show ?thesis using Some by (simp add: portParties_def portEvents_def Let_def)
qed

definition groupEvents :: "(string, frame list) omap \<Rightarrow> string \<Rightarrow> pdu_group \<Rightarrow> (bool \<times> string \<times> string) list" where
  "groupEvents byPdu ecu g = concat (map (\<lambda>p. map (\<lambda>f. (pg_out g, shortName (frame_common f), ecu))
      (case map_of byPdu p of None \<Rightarrow> [] | Some fs \<Rightarrow> fs)) (pg_pdus g))"

lemma groupParties_events: "groupParties byPdu ecu g m = addEvents (groupEvents byPdu ecu g) m"
proof -
  have frs: "fold (\<lambda>f. addParty b (shortName (frame_common f)) ecu) fs m
      = addEvents (map (\<lambda>f. (b, shortName (frame_common f), ecu)) fs) m" for b fs m
    by (induction fs arbitrary: m) auto
  have "fold (\<lambda>pdu m. addEvents (h pdu) m) ps m = addEvents (concat (map h ps)) m" for h ps m
    by (induction ps arbitrary: m) (auto simp: addEvents_append)
  then show ?thesis by (simp add: groupParties_def groupEvents_def frs)
qed

definition partyEvents :: "parsed_file \<Rightarrow> export_index \<Rightarrow> (bool \<times> string \<times> string) list" where
  "partyEvents file ix = concat (map (portEvents ix) (frames file))
    @ concat (map (\<lambda>(ecu, refs). concat (map (\<lambda>path. case map_of (ix_groupsByPath ix) path of
          None \<Rightarrow> [] | Some g \<Rightarrow> groupEvents (framesByPduOf file) ecu g) refs)) (ix_ecuGroupRefs ix))"

lemma resolveParties_events: "resolveParties file ix = addEvents (partyEvents file ix) []"
proof -
  have chain: "fold (\<lambda>x m. addEvents (h x) m) xs m = addEvents (concat (map h xs)) m" for h :: "'a \<Rightarrow> _" and xs m
    by (induction xs arbitrary: m) (auto simp: addEvents_append)
  have ports: "addPortParties file ix m = addEvents (concat (map (portEvents ix) (frames file))) m" for m
    by (simp add: addPortParties_def portParties_events [abs_def] chain)
  have inner: "(\<lambda>path m'. case map_of (ix_groupsByPath ix) path of None \<Rightarrow> m'
        | Some g \<Rightarrow> groupParties (framesByPduOf file) ecu g m')
      = (\<lambda>path m'. addEvents (case map_of (ix_groupsByPath ix) path of None \<Rightarrow> []
        | Some g \<Rightarrow> groupEvents (framesByPduOf file) ecu g) m')" for ecu
    by (intro ext) (simp add: groupParties_events split: option.splits)
  have outer: "(\<lambda>(ecu, refs) m. fold (\<lambda>path m'. case map_of (ix_groupsByPath ix) path of None \<Rightarrow> m'
        | Some g \<Rightarrow> groupParties (framesByPduOf file) ecu g m') refs m)
      = (\<lambda>x m. addEvents (case x of (ecu, refs) \<Rightarrow> concat (map (\<lambda>path. case map_of (ix_groupsByPath ix) path of
          None \<Rightarrow> [] | Some g \<Rightarrow> groupEvents (framesByPduOf file) ecu g) refs)) m)"
    by (intro ext) (auto simp: inner chain)
  show ?thesis
    by (simp add: resolveParties_def addGroupParties_def Let_def outer chain ports partyEvents_def addEvents_append)
qed

definition partyOf :: "party_map \<Rightarrow> string \<Rightarrow> frame_parties" where
  "partyOf m name = (case map_of m name of None \<Rightarrow> no_parties | Some p \<Rightarrow> p)"

definition side :: "bool \<Rightarrow> frame_parties \<Rightarrow> string list" where
  "side out p = (if out then pa_transmitters p else pa_receivers p)"

lemma set_addUnique: "set (addUnique e xs) = set xs \<union> {x. x = e \<and> x \<noteq> []}"
  by (auto simp: addUnique_def)

lemma distinct_addUnique: "distinct xs \<Longrightarrow> distinct (addUnique e xs)"
  by (auto simp: addUnique_def)

lemma addParty_side:
  assumes "m_inv m"
  shows "m_inv (addParty out fr ecu m)"
    and "side b (partyOf (addParty out fr ecu m) name)
      = (if name = fr \<and> b = out then addUnique ecu (side b (partyOf m name)) else side b (partyOf m name))"
  using assms sgroup.inv_modify
  by (auto simp: addParty_def partyOf_def side_def sgroup.find_modify no_parties_def split: option.splits)

lemma addEvents_side:
  assumes "m_inv m" and "distinct (side b (partyOf m name))"
  shows "distinct (side b (partyOf (addEvents evs m) name))
    \<and> set (side b (partyOf (addEvents evs m) name))
      = set (side b (partyOf m name)) \<union> {e. (b, name, e) \<in> set evs \<and> e \<noteq> []}"
  using assms
proof (induction evs arbitrary: m)
  case (Cons ev evs)
  obtain out fr ecu where ev: "ev = (out, fr, ecu)" by (cases ev)
  note step = addParty_side [OF Cons.prems(1), where out = out and fr = fr and ecu = ecu]
  have "distinct (side b (partyOf (addParty out fr ecu m) name))"
    using step(2) [of b name] Cons.prems(2) distinct_addUnique [of "side b (partyOf m name)" ecu] by auto
  from Cons.IH [OF step(1) this] show ?case
    by (auto simp: ev step(2) set_addUnique)
qed simp

lemma framesByPdu_set:
  "set (case map_of (framesByPduOf file) pdu of None \<Rightarrow> [] | Some fs \<Rightarrow> fs) = {f \<in> set (frames file). carries f pdu}"
proof -
  let ?look = "\<lambda>m. set (case map_of m pdu of None \<Rightarrow> [] | Some fs \<Rightarrow> fs)"
  have inner: "m_inv m \<Longrightarrow> m_inv (fold (\<lambda>mapping. m_modify [] (pduShortNameRef mapping) (\<lambda>l. l @ [f])) maps m)
      \<and> ?look (fold (\<lambda>mapping. m_modify [] (pduShortNameRef mapping) (\<lambda>l. l @ [f])) maps m)
        = ?look m \<union> (if pdu \<in> set (map pduShortNameRef maps) then {f} else {})" for f maps m
  proof (induction maps arbitrary: m)
    case (Cons a maps)
    show ?case using Cons.IH [OF sgroup.inv_modify [OF Cons.prems]]
      by (auto simp: sgroup.find_modify [OF Cons.prems] split: option.splits)
  qed simp
  have "m_inv m \<Longrightarrow> ?look (fold (\<lambda>f m. fold (\<lambda>mapping. m_modify [] (pduShortNameRef mapping) (\<lambda>l. l @ [f])) (frame_pdus f) m) fs m)
      = ?look m \<union> {f \<in> set fs. carries f pdu}" for fs m
  proof (induction fs arbitrary: m)
    case (Cons f fs)
    show ?case using Cons.IH inner [OF Cons.prems, of f "frame_pdus f"] by (auto simp: carries_def)
  qed simp
  from this [OF smap.inv_emp, of "frames file"] show ?thesis by (simp add: framesByPduOf_def)
qed

text \<open>
  An ECU takes part in a frame: as the owner of a port the frame's triggering refers to, or because
  it is associated with a PDU group that holds a PDU of the frame.
\<close>

definition viaPort :: "parsed_file \<Rightarrow> export_index \<Rightarrow> bool \<Rightarrow> string \<Rightarrow> string \<Rightarrow> bool" where
  "viaPort file ix out name e \<longleftrightarrow>
    (\<exists>f \<in> set (frames file). shortName (frame_common f) = name \<and>
      (\<exists>trig portName. map_of (ix_triggerings ix) name = Some trig \<and>
        portName \<in> set (refNames trig ''FRAME-PORT-REF'') \<and>
        map_of (ix_framePorts ix) portName = Some \<lparr>fp_out = out, fp_ecu = e\<rparr>))"

definition viaGroup :: "parsed_file \<Rightarrow> export_index \<Rightarrow> bool \<Rightarrow> string \<Rightarrow> string \<Rightarrow> bool" where
  "viaGroup file ix out name e \<longleftrightarrow>
    (\<exists>refs path g. (e, refs) \<in> set (ix_ecuGroupRefs ix) \<and> path \<in> set refs \<and>
      map_of (ix_groupsByPath ix) path = Some g \<and> pg_out g = out \<and>
      (\<exists>f \<in> set (frames file). shortName (frame_common f) = name \<and> (\<exists>p \<in> set (pg_pdus g). carries f p)))"

lemma partyEvents_set:
  "(out, name, e) \<in> set (partyEvents file ix) \<longleftrightarrow> viaPort file ix out name e \<or> viaGroup file ix out name e"
proof -
  have port: "(out, name, e) \<in> set (portEvents ix f) \<longleftrightarrow> shortName (frame_common f) = name \<and>
      (\<exists>trig portName. map_of (ix_triggerings ix) name = Some trig \<and>
        portName \<in> set (refNames trig ''FRAME-PORT-REF'') \<and>
        map_of (ix_framePorts ix) portName = Some \<lparr>fp_out = out, fp_ecu = e\<rparr>)" for f
  proof -
    have rec: "map_of m k = Some \<lparr>fp_out = out, fp_ecu = e\<rparr> \<longleftrightarrow>
        (\<exists>q. map_of m k = Some q \<and> fp_out q = out \<and> fp_ecu q = e)" for m and k :: string
    proof
      assume "\<exists>q. map_of m k = Some q \<and> fp_out q = out \<and> fp_ecu q = e"
      then obtain q where "map_of m k = Some q" "fp_out q = out" "fp_ecu q = e" by blast
      then show "map_of m k = Some \<lparr>fp_out = out, fp_ecu = e\<rparr>" by (cases q) simp
    qed simp
    show ?thesis
      unfolding portEvents_def rec
      by (cases "map_of (ix_triggerings ix) (shortName (frame_common f))") (auto split: option.splits, (metis option.inject)+)
  qed
  have grp: "(out, name, e) \<in> set (groupEvents (framesByPduOf file) ecu g) \<longleftrightarrow> ecu = e \<and> pg_out g = out \<and>
      (\<exists>f \<in> set (frames file). shortName (frame_common f) = name \<and> (\<exists>p \<in> set (pg_pdus g). carries f p))" for ecu g
    unfolding groupEvents_def by (auto simp: framesByPdu_set)
  have "(out, name, e) \<in> set (partyEvents file ix) \<longleftrightarrow>
      (\<exists>f \<in> set (frames file). (out, name, e) \<in> set (portEvents ix f)) \<or>
      (\<exists>(ecu, refs) \<in> set (ix_ecuGroupRefs ix). \<exists>path \<in> set refs. \<exists>g. map_of (ix_groupsByPath ix) path = Some g
         \<and> (out, name, e) \<in> set (groupEvents (framesByPduOf file) ecu g))"
    unfolding partyEvents_def by (fastforce split: option.splits)
  then show ?thesis unfolding port grp viaPort_def viaGroup_def by blast
qed

section \<open>Properties\<close>

text \<open>C11: every frame with a CAN identifier is exported, in order, with one signal for every mapping
  whose PDU and signal are known; whatever is left out is counted by the warnings, one for each frame
  without an identifier, each unknown PDU and each undefined signal.\<close>

theorem export_is_complete:
  "ed_frames (buildExportDatabase file)
     = concat (map (exportedFrames (lookupsOf file) (resolveParties file (indexOf file))) (frames file)) \<and>
   length (ed_warnings (buildExportDatabase file))
     = sum_list (map (missingOfFrame (lookupsOf file) (resolveParties file (indexOf file))) (frames file))"
  by (simp add: buildExportDatabase_all)

text \<open>Each map of the index holds, for a key, the value of the first node in document order that
  carries the key: the single pass agrees with a search of the whole tree.\<close>

theorem export_index_first_definition:
  "map_of (ix_triggerings (buildIndex [root] [] [] empty_index)) k
     = List.find (\<lambda>n. tagName n = ''CAN-FRAME-TRIGGERING'' \<and> shortNameOfRef (dbChildText n ''FRAME-REF'') = k) (nodes_in [root]) \<and>
   map_of (ix_iSignals (buildIndex [root] [] [] empty_index)) k
     = List.find (\<lambda>n. tagName n = ''I-SIGNAL'' \<and> nameOf n = k) (nodes_in [root]) \<and>
   map_of (ix_systemSignals (buildIndex [root] [] [] empty_index)) k
     = List.find (\<lambda>n. tagName n = ''SYSTEM-SIGNAL'' \<and> nameOf n = k) (nodes_in [root]) \<and>
   map_of (ix_compuMethods (buildIndex [root] [] [] empty_index)) k
     = List.find (\<lambda>n. tagName n = ''COMPU-METHOD'' \<and> nameOf n = k) (nodes_in [root]) \<and>
   map_of (ix_units (buildIndex [root] [] [] empty_index)) k
     = map_option (\<lambda>n. dbChildText n ''DISPLAY-NAME'')
         (List.find (\<lambda>n. tagName n = ''UNIT'' \<and> nameOf n = k) (nodes_in [root]))"
  using export_index_lookup [where field = ix_triggerings, OF indexEntry_maps(1)]
    export_index_lookup [where field = ix_iSignals, OF indexEntry_maps(2)]
    export_index_lookup [where field = ix_systemSignals, OF indexEntry_maps(3)]
    export_index_lookup [where field = ix_compuMethods, OF indexEntry_maps(4)]
    export_index_lookup [where field = ix_units, OF indexEntry_maps(5)]
  by (simp add: empty_index_def option.map_ident)

text \<open>The transmitters (\<open>out\<close>) and receivers of a frame are exactly the ECUs with a name that take
  part in it through a port or a PDU group, each listed once.\<close>

theorem frame_parties_exact:
  "set (side out (partyOf (resolveParties file ix) name))
     = {e. e \<noteq> [] \<and> (viaPort file ix out name e \<or> viaGroup file ix out name e)} \<and>
   distinct (side out (partyOf (resolveParties file ix) name))"
proof -
  have "side out (partyOf [] name) = []" by (simp add: side_def partyOf_def no_parties_def)
  then show ?thesis
    using addEvents_side [OF smap.inv_emp, of out name "partyEvents file ix"]
    by (auto simp: resolveParties_events partyEvents_set)
qed

end
