(* ===== verification/RawScanner.thy ===== *)
theory RawScanner
  imports RawTree FsPath
begin

text \<open>
  The raw-byte scanner of the loader (first half of \<open>src/loader.cpp\<close>): which encoding the bytes
  have, one markup unit at an offset, the skipping of comments, processing instructions, CDATA
  sections and declarations, and the search for the next start or end tag. Offsets are natural
  numbers: the code compares every \<open>scanPos\<close> with the size of the buffer before it reads, and a
  buffer cannot be so large that adding a few unit widths wraps a \<open>std::size_t\<close>. A
  \<open>std::runtime_error\<close> is \<open>Inl\<close> with its message. Codes of characters are written as numbers:
  33 \<open>!\<close>, 34 and 39 the quotes, 47 \<open>/\<close>, 60 and 62 the angle brackets, 63 \<open>?\<close>, 91 and 93 the
  square brackets.
\<close>

section \<open>Bytes and encodings\<close>

datatype raw_encoding = SingleByte | Utf16Le | Utf16Be

definition byteAt :: "string \<Rightarrow> nat \<Rightarrow> nat" where
  "byteAt bytes i = of_char (bytes ! i)"

definition unitWidth :: "raw_encoding \<Rightarrow> nat" where
  "unitWidth encoding = (if encoding = SingleByte then 1 else 2)"

fun startsWith_from :: "string \<Rightarrow> nat \<Rightarrow> nat list \<Rightarrow> bool" where
  "startsWith_from bytes idx [] = True"
| "startsWith_from bytes idx (expected # rest) =
    (if byteAt bytes idx \<noteq> expected then False else startsWith_from bytes (Suc idx) rest)"

definition startsWith :: "string \<Rightarrow> nat list \<Rightarrow> bool" where
  "startsWith bytes prefix =
    (if length bytes < length prefix then False else startsWith_from bytes 0 prefix)"

definition bomEncodingClass :: "string \<Rightarrow> string + raw_encoding option" where
  "bomEncodingClass bytes =
    (if startsWith bytes [0xFF, 0xFE, 0x00, 0x00] \<or> startsWith bytes [0x00, 0x00, 0xFE, 0xFF]
     then Inl ''parsex: UTF-32 input is not supported''
     else if startsWith bytes [0xFF, 0xFE] then Inr (Some Utf16Le)
     else if startsWith bytes [0xFE, 0xFF] then Inr (Some Utf16Be)
     else Inr None)"

function sniff_blanks :: "string \<Rightarrow> nat \<Rightarrow> nat" where
  "sniff_blanks bytes idx =
    (if idx < length bytes \<and> (byteAt bytes idx = 0x20 \<or> byteAt bytes idx = 0x09
         \<or> byteAt bytes idx = 0x0D \<or> byteAt bytes idx = 0x0A)
     then sniff_blanks bytes (Suc idx) else idx)"
  by pat_completeness auto
termination by (relation "measure (\<lambda>(bytes, idx). length bytes - idx)") auto

declare sniff_blanks.simps [simp del]

definition sniffLessThanEndianness :: "string \<Rightarrow> raw_encoding" where
  "sniffLessThanEndianness bytes =
    (let idx = sniff_blanks bytes 0 in
     if idx + 1 < length bytes \<and> byteAt bytes idx = 0x3C \<and> byteAt bytes (idx + 1) = 0x00
     then Utf16Le
     else if idx + 1 < length bytes \<and> byteAt bytes idx = 0x00 \<and> byteAt bytes (idx + 1) = 0x3C
     then Utf16Be
     else SingleByte)"

text \<open>\<open>find_first_of\<close> and \<open>find\<close> of one character, from a position on.\<close>

definition find_char_from :: "(char \<Rightarrow> bool) \<Rightarrow> string \<Rightarrow> nat \<Rightarrow> nat option" where
  "find_char_from P s pos =
    (let k = length (takeWhile (\<lambda>c. \<not> P c) (drop pos s)) in
     if pos + k < length s then Some (pos + k) else None)"

definition declarationEncodingClass :: "string \<Rightarrow> raw_encoding" where
  "declarationEncodingClass bytes =
    (let head = take 300 bytes in
     case find_sub ''encoding'' head of
       None \<Rightarrow> SingleByte
     | Some keyPos \<Rightarrow>
        (case find_char_from (\<lambda>c. c = CHR 0x22 \<or> c = CHR 0x27) head keyPos of
           None \<Rightarrow> SingleByte
         | Some quotePos \<Rightarrow>
            (if quotePos + 1 \<ge> length head then SingleByte
             else let rest = drop (quotePos + 1) head;
                      declared = map asciiUpperChar
                        (case find_char_from (\<lambda>c. c = head ! quotePos) head (quotePos + 1) of
                           Some endQuote \<Rightarrow> take (endQuote - quotePos - 1) rest
                         | None \<Rightarrow> rest)
                  in if find_sub ''UTF-16'' declared = None then SingleByte
                     else if find_sub ''LE'' declared \<noteq> None then Utf16Le
                     else if find_sub ''BE'' declared \<noteq> None then Utf16Be
                     else sniffLessThanEndianness bytes)))"

definition detectEncodingClass :: "string \<Rightarrow> string + raw_encoding" where
  "detectEncodingClass bytes =
    (case bomEncodingClass bytes of
       Inl e \<Rightarrow> Inl e
     | Inr (Some enc) \<Rightarrow> Inr enc
     | Inr None \<Rightarrow> Inr (declarationEncodingClass bytes))"

section \<open>Units\<close>

definition unitAscii :: "string \<Rightarrow> raw_encoding \<Rightarrow> nat \<Rightarrow> int" where
  "unitAscii bytes encoding scanPos =
    (if encoding = SingleByte
     then (if scanPos \<ge> length bytes then - 1
           else if byteAt bytes scanPos < 0x80 then int (byteAt bytes scanPos) else - 1)
     else if scanPos + 1 \<ge> length bytes then - 1
     else if encoding = Utf16Le
     then (if byteAt bytes (scanPos + 1) = 0 then int (byteAt bytes scanPos) else - 1)
     else (if byteAt bytes scanPos = 0 then int (byteAt bytes (scanPos + 1)) else - 1))"

text \<open>\<open>static_cast<int>\<close> of a \<open>char\<close>, which is signed.\<close>

definition char_code :: "char \<Rightarrow> int" where
  "char_code c = (let n = of_char c :: int in if n < 128 then n else n - 256)"

definition unitIs :: "string \<Rightarrow> raw_encoding \<Rightarrow> nat \<Rightarrow> char \<Rightarrow> bool" where
  "unitIs bytes encoding scanPos expected \<longleftrightarrow> unitAscii bytes encoding scanPos = char_code expected"

definition unitIsSpace :: "string \<Rightarrow> raw_encoding \<Rightarrow> nat \<Rightarrow> bool" where
  "unitIsSpace bytes encoding scanPos \<longleftrightarrow> unitAscii bytes encoding scanPos \<in> {32, 9, 13, 10}"

fun matchLiteral :: "string \<Rightarrow> raw_encoding \<Rightarrow> nat \<Rightarrow> string \<Rightarrow> bool" where
  "matchLiteral bytes encoding scanPos [] = True"
| "matchLiteral bytes encoding scanPos (c # rest) =
    (if \<not> unitIs bytes encoding scanPos c then False
     else matchLiteral bytes encoding (scanPos + unitWidth encoding) rest)"

definition requireAsciiName :: "string \<Rightarrow> string + unit" where
  "requireAsciiName name =
    (if list_ex (\<lambda>c. of_char c \<ge> (0x80 :: nat)) name
     then Inl (''parsex: non-ASCII tag name is not supported: '' @ name) else Inr ())"

lemma unitWidth_pos [simp]: "0 < unitWidth e"
  by (simp add: unitWidth_def)

section \<open>Skipping\<close>

function skipDelimited :: "string \<Rightarrow> raw_encoding \<Rightarrow> nat \<Rightarrow> string \<Rightarrow> string + nat" where
  "skipDelimited bytes encoding scanPos terminator =
    (if scanPos < length bytes
     then if matchLiteral bytes encoding scanPos terminator
          then Inr (scanPos + length terminator * unitWidth encoding)
          else skipDelimited bytes encoding (scanPos + unitWidth encoding) terminator
     else Inl ''parsex: unterminated markup while scanning raw bytes'')"
  by pat_completeness auto
termination by (relation "measure (\<lambda>(bytes, e, p, t). length bytes - p)") (auto intro: diff_less_mono2)

function quoted_end :: "string \<Rightarrow> raw_encoding \<Rightarrow> int \<Rightarrow> nat \<Rightarrow> string + nat" where
  "quoted_end bytes encoding quote scanPos =
    (if scanPos < length bytes
     then if unitAscii bytes encoding scanPos = quote then Inr (scanPos + unitWidth encoding)
          else quoted_end bytes encoding quote (scanPos + unitWidth encoding)
     else Inl ''parsex: unterminated quoted value while scanning raw bytes'')"
  by pat_completeness auto
termination by (relation "measure (\<lambda>(bytes, e, q, p). length bytes - p)") (auto intro: diff_less_mono2)

definition skipQuoted :: "string \<Rightarrow> raw_encoding \<Rightarrow> nat \<Rightarrow> string + nat" where
  "skipQuoted bytes encoding quotePos =
    quoted_end bytes encoding (unitAscii bytes encoding quotePos) (quotePos + unitWidth encoding)"

declare skipDelimited.simps [simp del] quoted_end.simps [simp del]

lemma quoted_end_after: "quoted_end b e q p = Inr r \<Longrightarrow> p < r"
proof (induction b e q p rule: quoted_end.induct)
  case (1 b e q p)
  show ?case
  proof (cases "p < length b \<and> unitAscii b e p \<noteq> q")
    case True
    with 1 have "p + unitWidth e < r" by (simp add: quoted_end.simps [of b e q p])
    then show ?thesis by simp
  next
    case False
    with 1(2) show ?thesis by (auto simp: quoted_end.simps [of b e q p] split: if_splits)
  qed
qed

lemma skipQuoted_after: "skipQuoted b e p = Inr r \<Longrightarrow> p < r"
  using quoted_end_after by (fastforce simp: skipQuoted_def)

function declaration_end :: "string \<Rightarrow> raw_encoding \<Rightarrow> int \<Rightarrow> nat \<Rightarrow> string + nat" where
  "declaration_end bytes encoding depth scanPos =
    (if scanPos < length bytes
     then let code = unitAscii bytes encoding scanPos; width = unitWidth encoding in
          if code = 34 \<or> code = 39
          then (case skipQuoted bytes encoding scanPos of
                  Inl e \<Rightarrow> Inl e
                | Inr after \<Rightarrow> declaration_end bytes encoding depth after)
          else if code = 91 then declaration_end bytes encoding (depth + 1) (scanPos + width)
          else if code = 93 then declaration_end bytes encoding (depth - 1) (scanPos + width)
          else if code = 62 \<and> depth = 0 then Inr (scanPos + width)
          else declaration_end bytes encoding depth (scanPos + width)
     else Inl ''parsex: unterminated declaration while scanning raw bytes'')"
  by pat_completeness auto
termination
  by (relation "measure (\<lambda>(bytes, e, d, p). length bytes - p)")
    (auto intro: diff_less_mono2 dest: skipQuoted_after)

definition skipDeclaration :: "string \<Rightarrow> raw_encoding \<Rightarrow> nat \<Rightarrow> string + nat" where
  "skipDeclaration bytes encoding openPos =
    declaration_end bytes encoding 0 (openPos + unitWidth encoding)"

declare declaration_end.simps [simp del]

text \<open>\<open>Inr None\<close>: the unit at \<open>openPos\<close> is not one to skip (the code returns \<open>false\<close>).\<close>

definition skipSpecialUnit :: "string \<Rightarrow> raw_encoding \<Rightarrow> nat \<Rightarrow> string + nat option" where
  "skipSpecialUnit bytes encoding openPos =
    (let width = unitWidth encoding in
     if unitIs bytes encoding (openPos + width) (CHR ''?'')
     then map_sum id Some (skipDelimited bytes encoding openPos ''?>'')
     else if \<not> unitIs bytes encoding (openPos + width) (CHR ''!'') then Inr None
     else if matchLiteral bytes encoding openPos ''<!--''
     then map_sum id Some (skipDelimited bytes encoding openPos ''-->'')
     else if matchLiteral bytes encoding openPos ''<![CDATA[''
     then map_sum id Some (skipDelimited bytes encoding openPos '']]>'')
     else map_sum id Some (skipDeclaration bytes encoding openPos))"

lemma skipDelimited_after: "skipDelimited b e p t = Inr r \<Longrightarrow> t \<noteq> [] \<Longrightarrow> p < r"
proof (induction b e p t rule: skipDelimited.induct)
  case (1 b e p t)
  show ?case
  proof (cases "p < length b \<and> \<not> matchLiteral b e p t")
    case True
    with 1 have "p + unitWidth e < r" by (simp add: skipDelimited.simps [of b e p t])
    then show ?thesis by simp
  next
    case False
    with 1(2,3) show ?thesis by (auto simp: skipDelimited.simps [of b e p t] split: if_splits)
  qed
qed

lemma declaration_end_after: "declaration_end b e d p = Inr r \<Longrightarrow> p < r"
proof (induction "length b - p" arbitrary: d p rule: less_induct)
  case less
  have step: "p < r" if "declaration_end b e d' q = Inr r" "p < q" "p < length b" for d' q
    using less(1) [OF _ that(1)] that(2) diff_less_mono2 [OF that(2,3)] by simp
  show ?case
    using less(2)
    by (subst (asm) declaration_end.simps)
      (auto simp: Let_def split: if_splits sum.splits intro: step [OF _ skipQuoted_after] step)
qed

lemma skipSpecialUnit_after: "skipSpecialUnit b e p = Inr (Some r) \<Longrightarrow> p < r"
  by (cases "skipDelimited b e p ''?>''"; cases "skipDelimited b e p ''-->''";
      cases "skipDelimited b e p '']]>''"; cases "skipDeclaration b e p")
    (auto simp: skipSpecialUnit_def Let_def skipDeclaration_def split: if_splits
      dest: skipDelimited_after declaration_end_after intro: add_lessD1)

end
