(* ===== verification/Loader.thy ===== *)
theory Loader
  imports RawScanner ParseErrors
begin

text \<open>
  The loader (second half of \<open>src/loader.cpp\<close>): the scans for start and end tags, the state the SAX
  callbacks share and the callbacks themselves, and the two entry points. libxml2 is the parameter
  \<open>parser\<close>: from the bytes it yields the events it calls back with, in order, the errors it
  reports and its verdict. The C++ state holds pointers into the tree under construction; here the
  stack holds the open elements themselves, innermost first, each with the children already
  closed, and \<open>wholeTree\<close> is the tree the C++ root owns at that moment.
\<close>

section \<open>Tags\<close>

record start_tag_bounds =
  openPos :: nat
  tagEndPos :: nat
  selfClosed :: bool

text \<open>The loop of \<open>scanStartTag\<close> that seeks the end of the tag, and the loop around it.\<close>

function start_tag_end ::
  "string \<Rightarrow> raw_encoding \<Rightarrow> string \<Rightarrow> nat \<Rightarrow> nat \<Rightarrow> string + start_tag_bounds" where
  "start_tag_end bytes encoding tag scanPos tagPos =
    (let width = unitWidth encoding in
     if tagPos < length bytes
     then let code = unitAscii bytes encoding tagPos in
          if code = 34 \<or> code = 39
          then (case skipQuoted bytes encoding tagPos of
                  Inl e \<Rightarrow> Inl e
                | Inr after \<Rightarrow> start_tag_end bytes encoding tag scanPos after)
          else if code = 62
          then Inr \<lparr>openPos = scanPos, tagEndPos = tagPos + width, selfClosed = False\<rparr>
          else if code = 47 \<and> unitIs bytes encoding (tagPos + width) (CHR ''>'')
          then Inr \<lparr>openPos = scanPos, tagEndPos = tagPos + 2 * width, selfClosed = True\<rparr>
          else start_tag_end bytes encoding tag scanPos (tagPos + width)
     else Inl (''parsex: unterminated start tag <'' @ tag @ ''>''))"
  by pat_completeness auto
termination
  by (relation "measure (\<lambda>(bytes, e, t, s, p). length bytes - p)")
    (auto intro: diff_less_mono2 dest: skipQuoted_after)

function seek_start_tag :: "string \<Rightarrow> raw_encoding \<Rightarrow> nat \<Rightarrow> string \<Rightarrow> string + start_tag_bounds" where
  "seek_start_tag bytes encoding scanPos tag =
    (let width = unitWidth encoding;
         unexpected = ''parsex: unexpected markup while seeking <'' @ tag @ ''>'' in
     if scanPos < length bytes
     then if \<not> unitIs bytes encoding scanPos (CHR ''<'')
          then seek_start_tag bytes encoding (scanPos + width) tag
          else (case skipSpecialUnit bytes encoding scanPos of
                  Inl e \<Rightarrow> Inl e
                | Inr (Some skippedPos) \<Rightarrow> seek_start_tag bytes encoding skippedPos tag
                | Inr None \<Rightarrow>
                   (if unitIs bytes encoding (scanPos + width) (CHR ''/'')
                    then Inl (''parsex: unexpected end tag while seeking <'' @ tag @ ''>'')
                    else let namePos = scanPos + width;
                             afterName = namePos + length tag * width
                         in if \<not> matchLiteral bytes encoding namePos tag then Inl unexpected
                            else if \<not> unitIsSpace bytes encoding afterName
                              \<and> \<not> unitIs bytes encoding afterName (CHR ''/'')
                              \<and> \<not> unitIs bytes encoding afterName (CHR ''>'')
                            then Inl unexpected
                            else start_tag_end bytes encoding tag scanPos afterName))
     else Inl (''parsex: end of input while seeking <'' @ tag @ ''>''))"
  by pat_completeness auto
termination
  by (relation "measure (\<lambda>(bytes, e, p, t). length bytes - p)")
    (auto intro: diff_less_mono2 dest: skipSpecialUnit_after)

definition scanStartTag :: "string \<Rightarrow> raw_encoding \<Rightarrow> nat \<Rightarrow> string \<Rightarrow> string + start_tag_bounds" where
  "scanStartTag bytes encoding cursor tag =
    (case requireAsciiName tag of
       Inl e \<Rightarrow> Inl e
     | Inr _ \<Rightarrow> seek_start_tag bytes encoding cursor tag)"

text \<open>The blanks \<open>scanEndTag\<close> allows before the bracket, and its loop.\<close>

function blank_units :: "string \<Rightarrow> raw_encoding \<Rightarrow> nat \<Rightarrow> nat" where
  "blank_units bytes encoding tagPos =
    (if tagPos < length bytes \<and> unitIsSpace bytes encoding tagPos
     then blank_units bytes encoding (tagPos + unitWidth encoding) else tagPos)"
  by pat_completeness auto
termination by (relation "measure (\<lambda>(bytes, e, p). length bytes - p)") (auto intro: diff_less_mono2)

function seek_end_tag :: "string \<Rightarrow> raw_encoding \<Rightarrow> nat \<Rightarrow> string \<Rightarrow> string + nat" where
  "seek_end_tag bytes encoding scanPos tag =
    (let width = unitWidth encoding;
         unexpected = ''parsex: unexpected markup while seeking </'' @ tag @ ''>'' in
     if scanPos < length bytes
     then if \<not> unitIs bytes encoding scanPos (CHR ''<'')
          then seek_end_tag bytes encoding (scanPos + width) tag
          else (case skipSpecialUnit bytes encoding scanPos of
                  Inl e \<Rightarrow> Inl e
                | Inr (Some skippedPos) \<Rightarrow> seek_end_tag bytes encoding skippedPos tag
                | Inr None \<Rightarrow>
                   (let namePos = scanPos + width; afterSlash = namePos + width in
                    if unitIs bytes encoding namePos (CHR ''/'')
                      \<and> matchLiteral bytes encoding afterSlash tag
                    then let tagPos = blank_units bytes encoding (afterSlash + length tag * width) in
                         if unitIs bytes encoding tagPos (CHR ''>'') then Inr (tagPos + width)
                         else Inl unexpected
                    else Inl unexpected))
     else Inl (''parsex: end of input while seeking </'' @ tag @ ''>''))"
  by pat_completeness auto
termination
  by (relation "measure (\<lambda>(bytes, e, p, t). length bytes - p)")
    (auto intro: diff_less_mono2 dest: skipSpecialUnit_after)

definition scanEndTag :: "string \<Rightarrow> raw_encoding \<Rightarrow> nat \<Rightarrow> string \<Rightarrow> string + nat" where
  "scanEndTag bytes encoding cursor tag =
    (case requireAsciiName tag of
       Inl e \<Rightarrow> Inl e
     | Inr _ \<Rightarrow> seek_end_tag bytes encoding cursor tag)"

declare start_tag_end.simps [simp del] seek_start_tag.simps [simp del]
  blank_units.simps [simp del] seek_end_tag.simps [simp del]

section \<open>Line numbers\<close>

function breaks8 :: "string \<Rightarrow> nat \<Rightarrow> nat \<Rightarrow> nat \<Rightarrow> nat" where
  "breaks8 bytes scanEnd idx breaks =
    (if idx < scanEnd
     then breaks8 bytes scanEnd (idx + 1) (if byteAt bytes idx = 0x0A then breaks + 1 else breaks)
     else breaks)"
  by pat_completeness auto
termination by (relation "measure (\<lambda>(bytes, n, i, k). n - i)") auto

function breaks16 :: "string \<Rightarrow> raw_encoding \<Rightarrow> nat \<Rightarrow> nat \<Rightarrow> nat \<Rightarrow> nat" where
  "breaks16 bytes encoding scanEnd idx breaks =
    (if idx + 1 < scanEnd
     then let isBreak = (if encoding = Utf16Le
                         then byteAt bytes idx = 0x0A \<and> byteAt bytes (idx + 1) = 0x00
                         else byteAt bytes idx = 0x00 \<and> byteAt bytes (idx + 1) = 0x0A)
          in breaks16 bytes encoding scanEnd (idx + 2) (if isBreak then breaks + 1 else breaks)
     else breaks)"
  by pat_completeness auto
termination by (relation "measure (\<lambda>(bytes, e, n, i, k). n - i)") auto

declare breaks8.simps [simp del] breaks16.simps [simp del]

definition lineNumberAt :: "string \<Rightarrow> raw_encoding \<Rightarrow> nat \<Rightarrow> nat" where
  "lineNumberAt bytes encoding offset =
    (let scanEnd = min offset (length bytes);
         breaks = (if encoding = SingleByte then breaks8 bytes scanEnd 0 0
                   else breaks16 bytes encoding scanEnd 0 0)
     in breaks + 1)"

section \<open>The callbacks\<close>

definition qualifiedName :: "string option \<Rightarrow> string \<Rightarrow> string" where
  "qualifiedName prefix localName =
    (case prefix of None \<Rightarrow> localName | Some p \<Rightarrow> p @ '':'' @ localName)"

text \<open>
  The arguments of the callbacks. An attribute is its local name, prefix and value (slots 0, 1 and
  3 to 4 of the five); a namespace declaration is its prefix and its address.
\<close>

record start_args =
  localName :: string
  elementPrefix :: "string option"
  namespaceArgs :: "(string option \<times> string option) list"
  attributeArgs :: "(string \<times> string option \<times> string) list"

datatype sax_event = StartElement start_args | Characters string | EndElement

record loader_state =
  fileBytes :: string
  ls_encoding :: raw_encoding
  cursor :: nat
  ls_stack :: "raw_node list"
  ls_root :: "raw_node option"

definition namespaceAttribute :: "string option \<times> string option \<Rightarrow> string \<times> string" where
  "namespaceAttribute ns =
    ((case fst ns of None \<Rightarrow> ''xmlns'' | Some p \<Rightarrow> ''xmlns'' @ '':'' @ p),
     (case snd ns of None \<Rightarrow> [] | Some href \<Rightarrow> href))"

definition eventName :: "start_args \<Rightarrow> string" where
  "eventName args = qualifiedName (elementPrefix args) (localName args)"

definition eventAttributes :: "start_args \<Rightarrow> (string \<times> string) list" where
  "eventAttributes args =
    map (\<lambda>(n, p, v). (qualifiedName p n, v)) (attributeArgs args)
    @ map namespaceAttribute (namespaceArgs args)"

text \<open>
  \<open>onStartElement\<close>. A start tag outside the document element is scanned and dropped; the tree keeps
  its root. The children of a node are attached when they close, which keeps them in order.
\<close>

definition startSpan :: "loader_state \<Rightarrow> start_tag_bounds \<Rightarrow> raw_span" where
  "startSpan st bounds =
    \<lparr>startOffset = of_nat (openPos bounds),
     endOffset = of_nat (if selfClosed bounds then tagEndPos bounds else openPos bounds),
     lineNumber = of_nat (lineNumberAt (fileBytes st) (ls_encoding st) (openPos bounds))\<rparr>"

definition onStartElement :: "start_args \<Rightarrow> loader_state \<Rightarrow> string + loader_state" where
  "onStartElement args st =
    (case scanStartTag (fileBytes st) (ls_encoding st) (cursor st) (eventName args) of
       Inl e \<Rightarrow> Inl e
     | Inr bounds \<Rightarrow>
        (let node = RawNode (eventName args) (eventAttributes args) [] (startSpan st bounds) [];
             st' = st\<lparr>cursor := tagEndPos bounds\<rparr>
         in if ls_stack st = [] \<and> ls_root st \<noteq> None then Inr st'
            else Inr (st'\<lparr>ls_stack := node # ls_stack st\<rparr>)))"

fun appendText :: "string \<Rightarrow> raw_node \<Rightarrow> raw_node" where
  "appendText chars (RawNode t a x s ks) = RawNode t a (x @ chars) s ks"

fun closeSpan :: "nat \<Rightarrow> raw_node \<Rightarrow> raw_node" where
  "closeSpan pos (RawNode t a x s ks) = RawNode t a x (s\<lparr>endOffset := of_nat pos\<rparr>) ks"

fun addChild :: "raw_node \<Rightarrow> raw_node \<Rightarrow> raw_node" where
  "addChild child (RawNode t a x s ks) = RawNode t a x s (ks @ [child])"

definition onCharacters :: "string \<Rightarrow> loader_state \<Rightarrow> loader_state" where
  "onCharacters chars st =
    (if chars = [] then st
     else case ls_stack st of
       [] \<Rightarrow> st
     | node # rest \<Rightarrow> st\<lparr>ls_stack := appendText chars node # rest\<rparr>)"

text \<open>The closed node leaves the stack: a child of the node below it, or the finished root.\<close>

definition attach :: "raw_node \<Rightarrow> raw_node list \<Rightarrow> loader_state \<Rightarrow> loader_state" where
  "attach node rest st =
    (case rest of
       [] \<Rightarrow> st\<lparr>ls_stack := [], ls_root := Some node\<rparr>
     | below # deeper \<Rightarrow> st\<lparr>ls_stack := addChild node below # deeper\<rparr>)"

definition onEndElement :: "loader_state \<Rightarrow> string + loader_state" where
  "onEndElement st =
    (case ls_stack st of
       [] \<Rightarrow> Inr st
     | node # rest \<Rightarrow>
        (if endOffset (nodeSpan node) = startOffset (nodeSpan node)
         then (case scanEndTag (fileBytes st) (ls_encoding st) (cursor st) (tagName node) of
                 Inl e \<Rightarrow> Inl e
               | Inr pos \<Rightarrow> Inr (attach (closeSpan pos node) rest (st\<lparr>cursor := pos\<rparr>)))
         else Inr (attach node rest st)))"

fun onEvent :: "sax_event \<Rightarrow> loader_state \<Rightarrow> string + loader_state" where
  "onEvent (StartElement args) st = onStartElement args st"
| "onEvent (Characters chars) st = Inr (onCharacters chars st)"
| "onEvent EndElement st = onEndElement st"

text \<open>The parse calls back in document order; an exception leaves it.\<close>

fun runEvents :: "sax_event list \<Rightarrow> loader_state \<Rightarrow> string + loader_state" where
  "runEvents [] st = Inr st"
| "runEvents (ev # evs) st =
    (case onEvent ev st of Inl e \<Rightarrow> Inl e | Inr st' \<Rightarrow> runEvents evs st')"

definition wholeTree :: "loader_state \<Rightarrow> raw_node option" where
  "wholeTree st =
    (case ls_stack st of
       [] \<Rightarrow> ls_root st
     | node # rest \<Rightarrow> Some (fold (\<lambda>below inner. addChild inner below) rest node))"

definition initState :: "string \<Rightarrow> raw_encoding \<Rightarrow> loader_state" where
  "initState bytes encoding =
    \<lparr>fileBytes = bytes, ls_encoding = encoding, cursor = 0, ls_stack = [], ls_root = None\<rparr>"

section \<open>Errors of libxml2\<close>

record error_capture =
  cap_message :: string
  cap_line :: int
  cap_column :: int
  hasError :: bool

text \<open>An \<open>xmlError\<close>: its message, when there is one, its line and its column (\<open>int2\<close>).\<close>

type_synonym xml_error = "string option \<times> int \<times> int"

definition onLibxmlError :: "xml_error option \<Rightarrow> error_capture \<Rightarrow> error_capture" where
  "onLibxmlError err capture =
    (if hasError capture then capture
     else case err of
       Some (Some msg, line, column) \<Rightarrow>
         \<lparr>cap_message = msg, cap_line = line, cap_column = column, hasError = True\<rparr>
     | _ \<Rightarrow> capture)"

definition no_capture :: error_capture where
  "no_capture = \<lparr>cap_message = [], cap_line = 0, cap_column = 0, hasError = False\<rparr>"

definition trimTail :: "string \<Rightarrow> string" where
  "trimTail s = rev (dropWhile (\<lambda>c. c = CHR 0x0A \<or> c = CHR 0x0D \<or> c = CHR '' '') (rev s))"

definition syntaxDetail :: "error_capture \<Rightarrow> string" where
  "syntaxDetail capture =
    ''malformed XML''
    @ (if cap_line capture > 0
       then '' at line '' @ int_to_string (cap_line capture)
         @ (if cap_column capture > 0 then '', column '' @ int_to_string (cap_column capture) else [])
       else [])
    @ (let message = trimTail (cap_message capture) in
       if message \<noteq> [] then '': '' @ message else [])"

section \<open>Entry points\<close>

record parse_outcome =
  po_events :: "sax_event list"
  po_errors :: "xml_error option list"
  po_wellFormed :: bool

text \<open>\<open>None\<close>: no parser context. The size is the \<open>int\<close> the code casts the buffer size to.\<close>

type_synonym xml_parser = "string \<Rightarrow> int \<Rightarrow> string \<Rightarrow> parse_outcome option"

definition size_as_int :: "nat \<Rightarrow> int" where
  "size_as_int n = sint (ucast (of_nat n :: size_t) :: 32 word)"

definition loadRawDocumentFromMemory :: "xml_parser \<Rightarrow> string \<Rightarrow> fpath \<Rightarrow> load_error + raw_node" where
  "loadRawDocumentFromMemory parser bytes displayPath =
    (case detectEncodingClass bytes of
       Inl e \<Rightarrow> Inl (RuntimeError e)
     | Inr enc \<Rightarrow>
        (let narrowPath = path_string displayPath in
         case parser bytes (size_as_int (length bytes)) narrowPath of
           None \<Rightarrow> Inl (RuntimeError (''parsex: cannot create parser context for: '' @ narrowPath))
         | Some outcome \<Rightarrow>
            (case runEvents (po_events outcome) (initState bytes enc) of
               Inl e \<Rightarrow> Inl (RuntimeError e)
             | Inr st \<Rightarrow>
                (if \<not> po_wellFormed outcome
                 then Inl (ParseError Syntax displayPath
                        (syntaxDetail (fold onLibxmlError (po_errors outcome) no_capture)))
                 else case wholeTree st of
                   None \<Rightarrow> Inl (RuntimeError (''parsex: no document element in: '' @ narrowPath))
                 | Some root \<Rightarrow> Inr root))))"

text \<open>
  What the file system says of a path: the results of \<open>exists\<close> and \<open>is_regular_file\<close> with whether
  the error code was set, and, for a stream that opens, its bytes and \<open>bad()\<close>.
\<close>

record file_view =
  fv_exists :: "bool \<times> bool"
  fv_regular :: "bool \<times> bool"
  fv_stream :: "(string \<times> bool) option"

definition readFileBytes :: "(fpath \<Rightarrow> file_view) \<Rightarrow> fpath \<Rightarrow> load_error + string" where
  "readFileBytes fs path =
    (if \<not> fst (fv_exists (fs path)) \<or> snd (fv_exists (fs path))
     then Inl (ParseError Io path ''file does not exist'')
     else if \<not> fst (fv_regular (fs path)) \<or> snd (fv_regular (fs path))
     then Inl (ParseError Io path ''not a regular file'')
     else case fv_stream (fs path) of
       None \<Rightarrow> Inl (ParseError Io path ''file cannot be opened for reading'')
     | Some (bytes, bad) \<Rightarrow>
         (if bad then Inl (ParseError Io path ''error while reading file'') else Inr bytes))"

definition loadRawDocument ::
  "xml_parser \<Rightarrow> (fpath \<Rightarrow> file_view) \<Rightarrow> fpath \<Rightarrow> load_error + raw_node" where
  "loadRawDocument parser fs path =
    (case readFileBytes fs path of
       Inl e \<Rightarrow> Inl e
     | Inr bytes \<Rightarrow> loadRawDocumentFromMemory parser bytes path)"

end
