(* ===== verification/LoaderSpans.thy ===== *)
theory LoaderSpans
  imports Loader
begin

text \<open>
  The loader against a reference: a grammar of XML documents as sequences of markup units, the SAX
  events of such a document, and the tree it has, with every span computed from the lengths of what
  stands before and inside the element. The loader, which only sees the bytes and the events,
  recovers exactly that tree.
\<close>

section \<open>The reference grammar\<close>

text \<open>The raw text inside a tag: units, and quoted values.\<close>

datatype piece = Plain int | Quoted int "int list"

fun render_piece :: "piece \<Rightarrow> int list" where
  "render_piece (Plain c) = [c]"
| "render_piece (Quoted q body) = q # body @ [q]"

definition render_pieces :: "piece list \<Rightarrow> int list" where
  "render_pieces ps = concat (map render_piece ps)"

text \<open>Quotes only around values; neither \<open>>\<close> nor \<open>/\<close> outside them.\<close>

fun piece_ok :: "piece \<Rightarrow> bool" where
  "piece_ok (Plain c) \<longleftrightarrow> c \<notin> {34, 39, 47, 62}"
| "piece_ok (Quoted q body) \<longleftrightarrow> q \<in> {34, 39} \<and> q \<notin> set body"

definition blank_codes :: "int set" where
  "blank_codes = {32, 9, 13, 10}"

text \<open>The attributes of a tag are set off from its name by a blank.\<close>

definition attributes_ok :: "piece list \<Rightarrow> bool" where
  "attributes_ok ps \<longleftrightarrow> list_all piece_ok ps
     \<and> (case ps of [] \<Rightarrow> True | Plain c # _ \<Rightarrow> c \<in> blank_codes | _ \<Rightarrow> False)"

text \<open>A declaration closes at a \<open>>\<close> outside quotes and outside brackets.\<close>

fun declaration_ok :: "int \<Rightarrow> piece list \<Rightarrow> bool" where
  "declaration_ok depth [] \<longleftrightarrow> depth = 0"
| "declaration_ok depth (Quoted q body # ps) \<longleftrightarrow> piece_ok (Quoted q body) \<and> declaration_ok depth ps"
| "declaration_ok depth (Plain c # ps) \<longleftrightarrow> c \<notin> {34, 39} \<and> (c = 62 \<longrightarrow> depth \<noteq> 0)
     \<and> declaration_ok (if c = 91 then depth + 1 else if c = 93 then depth - 1 else depth) ps"

text \<open>Everything between two tags: text, comments, instructions, CDATA sections, declarations.\<close>

datatype quiet =
    TextRun "int list"
  | Comment "int list"
  | Instruction "int list"
  | CDataSection "int list"
  | Declaration "piece list"

abbreviation codes :: "string \<Rightarrow> int list" where
  "codes s \<equiv> map char_code s"

text \<open>The terminator \<open>t\<close> does not occur in \<open>opening @ body @ t\<close> before its end.\<close>

definition first_at_end :: "int list \<Rightarrow> int list \<Rightarrow> bool" where
  "first_at_end t body \<longleftrightarrow>
    list_all (\<lambda>i. take (length t) (drop i (body @ t)) \<noteq> t) [0..<length body]"

fun render_quiet :: "quiet \<Rightarrow> int list" where
  "render_quiet (TextRun us) = us"
| "render_quiet (Comment us) = codes ''<!--'' @ us @ codes ''-->''"
| "render_quiet (Instruction us) = codes ''<?'' @ us @ codes ''?>''"
| "render_quiet (CDataSection us) = codes ''<![CDATA['' @ us @ codes '']]>''"
| "render_quiet (Declaration ps) = codes ''<!'' @ render_pieces ps @ codes ''>''"

text \<open>
  A declaration is not a comment and not a CDATA section. A comment must not start with \<open>>\<close> or
  \<open>->\<close>, which XML allows: \<open>comment_bug\<close> below shows what the loader does then.
\<close>

fun quiet_ok :: "quiet \<Rightarrow> bool" where
  "quiet_ok (TextRun us) \<longleftrightarrow> 60 \<notin> set us"
| "quiet_ok (Comment us) \<longleftrightarrow> first_at_end (codes ''-->'') (codes ''<!--'' @ us)"
| "quiet_ok (Instruction us) \<longleftrightarrow> first_at_end (codes ''?>'') (codes ''<?'' @ us)"
| "quiet_ok (CDataSection us) \<longleftrightarrow> first_at_end (codes '']]>'') (codes ''<![CDATA['' @ us)"
| "quiet_ok (Declaration ps) \<longleftrightarrow> declaration_ok 0 ps
     \<and> take 4 (codes ''<!'' @ render_pieces ps @ [62]) \<noteq> codes ''<!--''
     \<and> take 9 (codes ''<!'' @ render_pieces ps @ [62]) \<noteq> codes ''<![CDATA[''"

text \<open>
  A quiet run comes with the texts the parser delivers for it. An element comes with the arguments
  of its start event, the raw text behind its name and the blanks in its end tag.
\<close>

datatype item =
    Quiet quiet "string list"
  | Element start_args "piece list" "item list" "int list"
  | EmptyElement start_args "piece list"

definition name_ok :: "string \<Rightarrow> bool" where
  "name_ok n \<longleftrightarrow> n \<noteq> [] \<and> list_all (\<lambda>c. of_char c < (0x80 :: nat)) n
     \<and> hd n \<notin> {CHR ''?'', CHR ''!'', CHR ''/''}"

fun items_ok :: "item list \<Rightarrow> bool" where
  "items_ok [] \<longleftrightarrow> True"
| "items_ok (Quiet q chunks # rest) \<longleftrightarrow> quiet_ok q \<and> items_ok rest"
| "items_ok (Element args ps kids blanks # rest) \<longleftrightarrow>
     name_ok (eventName args) \<and> attributes_ok ps \<and> items_ok kids \<and> set blanks \<subseteq> blank_codes
     \<and> items_ok rest"
| "items_ok (EmptyElement args ps # rest) \<longleftrightarrow>
     name_ok (eventName args) \<and> attributes_ok ps \<and> items_ok rest"

definition open_tag :: "start_args \<Rightarrow> piece list \<Rightarrow> int list" where
  "open_tag args ps = 60 # codes (eventName args) @ render_pieces ps"

definition close_tag :: "start_args \<Rightarrow> int list \<Rightarrow> int list" where
  "close_tag args blanks = [60, 47] @ codes (eventName args) @ blanks @ [62]"

fun render :: "item list \<Rightarrow> int list" where
  "render [] = []"
| "render (Quiet q chunks # rest) = render_quiet q @ render rest"
| "render (Element args ps kids blanks # rest) =
     open_tag args ps @ [62] @ render kids @ close_tag args blanks @ render rest"
| "render (EmptyElement args ps # rest) = open_tag args ps @ [47, 62] @ render rest"

fun events :: "item list \<Rightarrow> sax_event list" where
  "events [] = []"
| "events (Quiet q chunks # rest) = map Characters chunks @ events rest"
| "events (Element args ps kids blanks # rest) =
     StartElement args # events kids @ EndElement # events rest"
| "events (EmptyElement args ps # rest) = StartElement args # EndElement # events rest"

fun own_text :: "item list \<Rightarrow> string" where
  "own_text [] = []"
| "own_text (Quiet q chunks # rest) = concat chunks @ own_text rest"
| "own_text (_ # rest) = own_text rest"

text \<open>The span of \<open>inside\<close>, when \<open>before\<close> is all that stands before it.\<close>

definition span_of :: "nat \<Rightarrow> int list \<Rightarrow> int list \<Rightarrow> raw_span" where
  "span_of w before inside =
    \<lparr>startOffset = of_nat (length before * w),
     endOffset = of_nat ((length before + length inside) * w),
     lineNumber = of_nat (count_list before 10 + 1)\<rparr>"

fun layout :: "nat \<Rightarrow> int list \<Rightarrow> item list \<Rightarrow> raw_node list" where
  "layout w before [] = []"
| "layout w before (Quiet q chunks # rest) = layout w (before @ render_quiet q) rest"
| "layout w before (Element args ps kids blanks # rest) =
    (let start = open_tag args ps @ [62]; all = start @ render kids @ close_tag args blanks in
     RawNode (eventName args) (eventAttributes args) (own_text kids) (span_of w before all)
       (layout w (before @ start) kids)
     # layout w (before @ all) rest)"
| "layout w before (EmptyElement args ps # rest) =
    (let all = open_tag args ps @ [47, 62] in
     RawNode (eventName args) (eventAttributes args) [] (span_of w before all) []
     # layout w (before @ all) rest)"

section \<open>Segments of units\<close>

fun seg :: "string \<Rightarrow> raw_encoding \<Rightarrow> nat \<Rightarrow> int list \<Rightarrow> bool" where
  "seg b e p [] \<longleftrightarrow> p \<le> length b"
| "seg b e p (u # us) \<longleftrightarrow> unitAscii b e p = u \<and> seg b e (p + unitWidth e) us"

lemma seg_le: "seg b e p us \<Longrightarrow> p + length us * unitWidth e \<le> length b"
proof (induction us arbitrary: p)
  case (Cons u us)
  then have "p + unitWidth e + length us * unitWidth e \<le> length b" by simp
  then show ?case by (simp add: add.assoc)
qed simp

lemma seg_less: "seg b e p (u # us) \<Longrightarrow> p < length b"
  using seg_le [of b e p "u # us"] unitWidth_pos [of e] by (simp add: trans_less_add1 del: unitWidth_pos)

lemma seg_append:
  "seg b e p (us @ vs) \<longleftrightarrow> seg b e p us \<and> seg b e (p + length us * unitWidth e) vs"
proof (induction us arbitrary: p)
  case Nil
  then show ?case using seg_le [of b e p vs] by auto
next
  case (Cons u us)
  then show ?case by (simp add: algebra_simps)
qed

lemma seg_at: "seg b e p (us @ u # vs) \<Longrightarrow> unitAscii b e (p + length us * unitWidth e) = u"
  by (simp add: seg_append)

lemma seg_matchLiteral:
  "seg b e p us \<Longrightarrow> length lit \<le> length us \<Longrightarrow>
    matchLiteral b e p lit \<longleftrightarrow> take (length lit) us = codes lit"
proof (induction lit arbitrary: p us)
  case (Cons c lit)
  then obtain u vs where us: "us = u # vs" by (cases us) auto
  show ?case
    using Cons.IH [of "p + unitWidth e" vs] Cons.prems by (auto simp: us unitIs_def)
qed simp

lemma seg_match_prefix:
  "seg b e p us \<Longrightarrow> matchLiteral b e p lit \<Longrightarrow>
    take (length us) (codes lit) = take (length lit) us"
proof (induction lit arbitrary: p us)
  case (Cons c lit)
  then show ?case by (cases us) (auto simp: unitIs_def split: if_splits)
qed simp

lemma seg_matches: "seg b e p (codes lit @ us) \<Longrightarrow> matchLiteral b e p lit"
  by (subst seg_matchLiteral) auto

lemma first_at_end_Cons:
  "first_at_end t (u # body) \<longleftrightarrow> take (length t) (u # body @ t) \<noteq> t \<and> first_at_end t body"
proof -
  have "[0..<length (u # body)] = 0 # map Suc [0..<length body]"
    by (simp add: map_Suc_upt upt_conv_Cons del: upt_Suc)
  then show ?thesis
    by (simp add: first_at_end_def list.pred_map comp_def del: upt_Suc take_append drop_append)
qed

lemma skipDelimited_seg:
  assumes "seg b e p (body @ codes t)" and "first_at_end (codes t) body" and "t \<noteq> []"
  shows "skipDelimited b e p t = Inr (p + length (body @ codes t) * unitWidth e)"
  using assms(1,2)
proof (induction body arbitrary: p)
  case Nil
  then have "matchLiteral b e p t" using seg_matches [of b e p t "[]"] by simp
  moreover have "p < length b" using Nil(1) assms(3) seg_less [of b e p] by (cases t) auto
  ultimately show ?case by (simp add: skipDelimited.simps [of b e p t])
next
  case (Cons u body)
  from Cons.prems(2) have f: "first_at_end (codes t) body"
    and n: "take (length t) (u # body @ codes t) \<noteq> codes t"
    by (simp_all add: first_at_end_Cons)
  have s: "seg b e (p + unitWidth e) (body @ codes t)" using Cons.prems(1) by simp
  have "\<not> matchLiteral b e p t"
    using seg_matchLiteral [OF Cons.prems(1), of t] n by simp
  moreover have "p < length b" using seg_less [of b e p u "body @ codes t"] Cons.prems(1) by simp
  ultimately show ?case
    using Cons.IH [OF s f] by (simp add: skipDelimited.simps [of b e p t] algebra_simps)
qed

lemma quoted_end_seg:
  "seg b e p (body @ [q]) \<Longrightarrow> q \<notin> set body \<Longrightarrow>
    quoted_end b e q p = Inr (p + length (body @ [q]) * unitWidth e)"
proof (induction body arbitrary: p)
  case Nil
  then show ?case using seg_less [of b e p q "[]"] by (simp add: quoted_end.simps [of b e q p])
next
  case (Cons u body)
  then show ?case
    using seg_less [of b e p u "body @ [q]"]
    by (simp add: quoted_end.simps [of b e q p] algebra_simps)
qed

lemma skipQuoted_seg:
  assumes "seg b e p (render_piece (Quoted q body) @ us)" and "q \<notin> set body"
  shows "skipQuoted b e p = Inr (p + length (render_piece (Quoted q body)) * unitWidth e)"
proof -
  have s: "seg b e (p + unitWidth e) (body @ [q])" and u: "unitAscii b e p = q"
    using assms(1) seg_append [of b e "p + unitWidth e" "body @ [q]" us] by simp_all
  show ?thesis
    using quoted_end_seg [OF s assms(2)] by (simp add: skipQuoted_def u algebra_simps)
qed

lemma render_pieces_simps [simp]:
  "render_pieces [] = []" "render_pieces (x # ps) = render_piece x @ render_pieces ps"
  by (simp_all add: render_pieces_def)

lemma declaration_end_seg:
  "seg b e p (render_pieces ps @ [62]) \<Longrightarrow> declaration_ok d ps \<Longrightarrow>
    declaration_end b e d p = Inr (p + length (render_pieces ps @ [62]) * unitWidth e)"
proof (induction d ps arbitrary: p rule: declaration_ok.induct)
  case (1 depth)
  then show ?case
    using seg_less [of b e p 62 "[]"] by (simp add: declaration_end.simps [of b e 0 p] Let_def)
next
  case (2 depth q body ps)
  have q: "q = 34 \<or> q = 39" "q \<notin> set body" using 2(3) by auto
  have s: "seg b e p (render_piece (Quoted q body) @ render_pieces ps @ [62])" using 2(2) by simp
  then have u: "unitAscii b e p = q" and l: "p < length b"
    using seg_less [of b e p q "body @ q # render_pieces ps @ [62]"] by simp_all
  let ?r = "p + length (render_piece (Quoted q body)) * unitWidth e"
  have "seg b e ?r (render_pieces ps @ [62])" using s by (simp only: seg_append)
  from 2(1) [OF this] have
    "declaration_end b e depth ?r = Inr (?r + length (render_pieces ps @ [62]) * unitWidth e)"
    using 2(3) by simp
  then show ?case
    using skipQuoted_seg [OF s q(2)] q(1) u l
    by (simp add: declaration_end.simps [of b e depth p] algebra_simps)
next
  case (3 depth c ps)
  then have u: "unitAscii b e p = c" and l: "p < length b"
    using seg_less [of b e p c "render_pieces ps @ [62]"] by simp_all
  have s: "seg b e (p + unitWidth e) (render_pieces ps @ [62])" using 3(2) by simp
  show ?case
    using 3(1) [OF s] 3(3) u l
    by (auto simp: declaration_end.simps [of b e depth p] Let_def algebra_simps)
qed

section \<open>What lies between two tags is skipped\<close>

text \<open>Both tag scans do the same from \<open>p\<close> as from \<open>q\<close>.\<close>

definition skips :: "string \<Rightarrow> raw_encoding \<Rightarrow> nat \<Rightarrow> nat \<Rightarrow> bool" where
  "skips b e p q \<longleftrightarrow> (\<forall>tag. seek_start_tag b e p tag = seek_start_tag b e q tag
     \<and> seek_end_tag b e p tag = seek_end_tag b e q tag)"

lemma skips_refl [simp]: "skips b e p p"
  by (simp add: skips_def)

lemma skips_trans: "skips b e p q \<Longrightarrow> skips b e q r \<Longrightarrow> skips b e p r"
  by (simp add: skips_def)

lemma char_codes: "char_code (CHR ''<'') = 60" "char_code (CHR ''>'') = 62" "char_code (CHR ''/'') = 47"
  "char_code (CHR ''?'') = 63" "char_code (CHR ''!'') = 33"
  by (simp_all add: char_code_def)

lemma skips_unit:
  assumes "p < length b" and "unitAscii b e p \<noteq> 60"
  shows "skips b e p (p + unitWidth e)"
  using assms by (simp add: skips_def seek_start_tag.simps [of b e p] seek_end_tag.simps [of b e p]
      unitIs_def char_codes)

lemma skips_text: "seg b e p us \<Longrightarrow> 60 \<notin> set us \<Longrightarrow> skips b e p (p + length us * unitWidth e)"
proof (induction us arbitrary: p)
  case (Cons u us)
  have "skips b e p (p + unitWidth e)"
    using Cons.prems seg_less [of b e p u us] by (intro skips_unit) auto
  moreover have "skips b e (p + unitWidth e) (p + unitWidth e + length us * unitWidth e)"
    using Cons by simp
  ultimately show ?case by (auto dest: skips_trans simp: algebra_simps)
qed simp

lemma skips_special:
  assumes "p < length b" and "unitAscii b e p = 60" and "skipSpecialUnit b e p = Inr (Some r)"
  shows "skips b e p r"
  using assms by (simp add: skips_def seek_start_tag.simps [of b e p] seek_end_tag.simps [of b e p]
      unitIs_def char_codes)

lemma special_delimited:
  assumes "seg b e p (codes start @ us @ codes t)" and "first_at_end (codes t) (codes start @ us)"
    and "t \<noteq> []"
    and "skipSpecialUnit b e p = map_sum id Some (skipDelimited b e p t)" and "take 1 start = ''<''"
  shows "skips b e p (p + length (codes start @ us @ codes t) * unitWidth e)"
proof -
  obtain rest where o: "start = CHR ''<'' # rest" using assms(5) by (cases start) auto
  have "unitAscii b e p = 60" and "p < length b"
    using assms(1) seg_less [of b e p 60 "codes rest @ us @ codes t"] by (simp_all add: o char_codes)
  moreover have "skipDelimited b e p t
      = Inr (p + length (codes start @ us @ codes t) * unitWidth e)"
    using skipDelimited_seg [of b e p "codes start @ us" t] assms by simp
  ultimately show ?thesis using skips_special assms(4) by simp
qed

lemma quiet_skips:
  assumes "quiet_ok q" and "seg b e p (render_quiet q)"
  shows "skips b e p (p + length (render_quiet q) * unitWidth e)"
proof (cases q)
  case (TextRun us)
  then show ?thesis using assms skips_text by simp
next
  case (Comment us)
  have s: "seg b e p (codes ''<!--'' @ us @ codes ''-->'')" using assms(2) Comment by simp
  have m: "matchLiteral b e p ''<!--''" using seg_matches [OF s] .
  have "unitAscii b e (p + unitWidth e) = 33" using s by (simp add: char_code_def)
  then have "skipSpecialUnit b e p = map_sum id Some (skipDelimited b e p ''-->'')"
    by (simp add: skipSpecialUnit_def unitIs_def char_codes m del: matchLiteral.simps)
  then show ?thesis
    using special_delimited [OF s] assms(1) Comment by simp
next
  case (Instruction us)
  have s: "seg b e p (codes ''<?'' @ us @ codes ''?>'')" using assms(2) Instruction by simp
  have "unitAscii b e (p + unitWidth e) = 63" using s by (simp add: char_code_def)
  then have "skipSpecialUnit b e p = map_sum id Some (skipDelimited b e p ''?>'')"
    by (simp add: skipSpecialUnit_def unitIs_def char_codes del: matchLiteral.simps)
  then show ?thesis
    using special_delimited [OF s] assms(1) Instruction by simp
next
  case (CDataSection us)
  have s: "seg b e p (codes ''<![CDATA['' @ us @ codes '']]>'')" using assms(2) CDataSection by simp
  have m: "matchLiteral b e p ''<![CDATA[''" using seg_matches [OF s] .
  have n: "\<not> matchLiteral b e p ''<!--''"
    using seg_matchLiteral [OF s, of "''<!--''"] by (simp add: char_code_def)
  have "unitAscii b e (p + unitWidth e) = 33" using s by (simp add: char_code_def)
  then have "skipSpecialUnit b e p = map_sum id Some (skipDelimited b e p '']]>'')"
    by (simp add: skipSpecialUnit_def unitIs_def char_codes m n del: matchLiteral.simps)
  then show ?thesis
    using special_delimited [OF s] assms(1) CDataSection by simp
next
  case (Declaration ps)
  let ?us = "codes ''<!'' @ render_pieces ps @ [62]"
  have r: "render_quiet q = ?us" by (simp add: Declaration char_codes)
  have s: "seg b e p ?us" using assms(2) by (simp only: r)
  then have u: "unitAscii b e p = 60" "unitAscii b e (p + unitWidth e) = 33" and l: "p < length b"
    using seg_less [of b e p 60 "tl ?us"] by (simp_all add: char_codes)
  have none: "\<not> matchLiteral b e p t" if "take (length t) ?us \<noteq> codes t" "62 \<notin> set (codes t)" for t
  proof
    assume "matchLiteral b e p t"
    from seg_match_prefix [OF s this] have m: "take (length ?us) (codes t) = take (length t) ?us" .
    show False
    proof (cases "length t \<le> length ?us")
      case True
      then show ?thesis using m that(1) by simp
    next
      case False
      then have "?us = take (length ?us) (codes t)" using m by simp
      then have "62 \<in> set (take (length ?us) (codes t))" by (metis in_set_conv_decomp append_assoc)
      then show ?thesis using that(2) by (auto dest: in_set_takeD)
    qed
  qed
  have "\<not> matchLiteral b e p ''<!--''" "\<not> matchLiteral b e p ''<![CDATA[''"
    using none [of "''<!--''"] none [of "''<![CDATA[''"] assms(1) Declaration
    by (simp_all add: char_code_def numeral_eq_Suc del: matchLiteral.simps)
  then have k: "skipSpecialUnit b e p = map_sum id Some (skipDeclaration b e p)"
    using u by (simp add: skipSpecialUnit_def unitIs_def char_codes del: matchLiteral.simps)
  have "seg b e (p + 2 * unitWidth e) (render_pieces ps @ [62])"
    using s by (simp add: char_codes mult_2 add.assoc)
  moreover have "declaration_ok 0 ps" using assms(1) Declaration by simp
  ultimately have "declaration_end b e 0 (p + 2 * unitWidth e)
      = Inr (p + 2 * unitWidth e + length (render_pieces ps @ [62]) * unitWidth e)"
    by (rule declaration_end_seg)
  moreover have "declaration_end b e 0 (p + unitWidth e) = declaration_end b e 0 (p + 2 * unitWidth e)"
    using u seg_less [of b e "p + unitWidth e" 33 "render_pieces ps @ [62]"] s
    by (simp add: declaration_end.simps [of b e 0 "p + unitWidth e"] char_codes Let_def mult_2 add.assoc)
  ultimately have "skipDeclaration b e p = Inr (p + length ?us * unitWidth e)"
    by (simp add: skipDeclaration_def algebra_simps)
  then show ?thesis using skips_special [OF l u(1)] k r by simp
qed

section \<open>Tags\<close>

lemma seg_nonempty: "seg b e p us \<Longrightarrow> us \<noteq> [] \<Longrightarrow> p < length b"
  using seg_less by (cases us) auto

lemma start_tag_end_seg:
  "seg b e p (render_pieces ps @ us) \<Longrightarrow> list_all piece_ok ps \<Longrightarrow>
    start_tag_end b e tag s p = start_tag_end b e tag s (p + length (render_pieces ps) * unitWidth e)"
proof (induction ps arbitrary: p)
  case (Cons x ps)
  let ?r = "p + length (render_piece x) * unitWidth e"
  have s: "seg b e p (render_piece x @ render_pieces ps @ us)" using Cons.prems by simp
  then have "seg b e ?r (render_pieces ps @ us)" by (simp only: seg_append)
  then have ih: "start_tag_end b e tag s ?r
      = start_tag_end b e tag s (?r + length (render_pieces ps) * unitWidth e)"
    using Cons.IH Cons.prems(2) by simp
  obtain u vs where x: "render_piece x = u # vs" by (cases x) auto
  have l: "p < length b" and u: "unitAscii b e p = u"
    using s seg_less [of b e p u "vs @ render_pieces ps @ us"] by (simp_all add: x)
  have "start_tag_end b e tag s p = start_tag_end b e tag s ?r"
  proof (cases x)
    case (Plain c)
    then show ?thesis using l u x Cons.prems(2) by (simp add: start_tag_end.simps [of b e tag s p])
  next
    case (Quoted q body)
    then show ?thesis
      using l u x Cons.prems(2) skipQuoted_seg [of b e p q body "render_pieces ps @ us"] s
      by (auto simp: start_tag_end.simps [of b e tag s p])
  qed
  then show ?case using ih by (simp add: algebra_simps)
qed simp

lemma char_code_eq:
  "of_char c < (128 :: nat) \<Longrightarrow> char_code c = int (of_char c)"
  by (simp add: char_code_def Let_def) (metis of_nat_less_iff of_nat_numeral of_nat_of_char)

lemma name_codes:
  assumes "name_ok n"
  obtains u us where "codes n = u # us" "u \<notin> {63, 33, 47}"
proof -
  obtain c rest where n: "n = c # rest" using assms by (cases n) (auto simp: name_ok_def)
  have c: "of_char c < (128 :: nat)" "c \<noteq> CHR ''?''" "c \<noteq> CHR ''!''" "c \<noteq> CHR ''/''"
    using assms by (auto simp: n name_ok_def)
  have chars: "char_of (63 :: nat) = CHR ''?''" "char_of (33 :: nat) = CHR ''!''"
    "char_of (47 :: nat) = CHR ''/''" by code_simp+
  have "char_code c \<noteq> int k" if "c \<noteq> char_of k" for k :: nat
    using that by (metis c(1) char_code_eq char_of_char of_nat_eq_iff)
  from this [of 63] this [of 33] this [of 47] have "char_code c \<notin> {63, 33, 47}"
    using c by (auto simp: chars)
  with n show thesis by (intro that [of "char_code c" "codes rest"]) simp_all
qed

lemma requireAsciiName_ok: "name_ok n \<Longrightarrow> requireAsciiName n = Inr ()"
  by (auto simp: requireAsciiName_def name_ok_def list_ex_iff list_all_iff not_le)

lemma scan_open:
  assumes s: "seg b e p (open_tag args ps @ us)" and us: "us = [62] \<or> us = [47, 62]"
    and n: "name_ok (eventName args)" and ps: "attributes_ok ps"
  shows "seek_start_tag b e p (eventName args)
    = Inr \<lparr>openPos = p, tagEndPos = p + length (open_tag args ps @ us) * unitWidth e,
           selfClosed = (us = [47, 62])\<rparr>"
proof -
  let ?n = "eventName args" and ?w = "unitWidth e"
  let ?r = "p + ?w + length ?n * ?w" and ?q = "render_pieces ps"
  obtain u vs where u: "codes ?n = u # vs" "u \<notin> {63, 33, 47}" using name_codes [OF n] .
  have s1: "seg b e (p + ?w) (codes ?n @ ?q @ us)" and p: "unitAscii b e p = 60"
    using s by (simp_all add: open_tag_def)
  then have nm: "unitAscii b e (p + ?w) = u" using u by simp
  have l: "p < length b" using seg_nonempty [OF s] by (simp add: open_tag_def)
  have m: "matchLiteral b e (p + ?w) ?n" using seg_matches [OF s1] .
  have s2: "seg b e ?r (?q @ us)" using s1 by (simp only: seg_append length_map)
  have after: "unitIsSpace b e ?r \<or> unitAscii b e ?r = 47 \<or> unitAscii b e ?r = 62"
  proof (cases ps)
    case Nil
    then show ?thesis using s2 us by auto
  next
    case (Cons x rest)
    then obtain c where "x = Plain c" "c \<in> blank_codes"
      using ps by (cases x) (auto simp: attributes_ok_def)
    then show ?thesis using s2 by (simp add: Cons unitIsSpace_def blank_codes_def)
  qed
  have ok: "list_all piece_ok ps" using ps by (simp add: attributes_ok_def)
  let ?t = "?r + length ?q * ?w"
  have s3: "seg b e ?t us" using s2 by (simp only: seg_append)
  have lt: "?t < length b" using us seg_nonempty [OF s3] by auto
  have "start_tag_end b e ?n p ?r = Inr \<lparr>openPos = p, tagEndPos = ?t + length us * ?w,
      selfClosed = (us = [47, 62])\<rparr>"
    using us s3 lt
    by (auto simp: start_tag_end_seg [OF s2 ok] start_tag_end.simps [of b e ?n p ?t] Let_def unitIs_def char_codes)
  moreover have "skipSpecialUnit b e p = Inr None"
    using nm u by (simp add: skipSpecialUnit_def unitIs_def char_codes)
  ultimately show ?thesis
    using l p nm u(2) m after
    by (simp add: seek_start_tag.simps [of b e p ?n] Let_def unitIs_def char_codes)
      (simp add: open_tag_def algebra_simps)
qed

lemma blank_units_seg:
  "seg b e p (blanks @ u # us) \<Longrightarrow> set blanks \<subseteq> blank_codes \<Longrightarrow> u \<notin> blank_codes \<Longrightarrow>
    blank_units b e p = p + length blanks * unitWidth e"
proof (induction blanks arbitrary: p)
  case Nil
  then show ?case by (simp add: blank_units.simps [of b e p] unitIsSpace_def blank_codes_def)
next
  case (Cons v vs)
  then show ?case
    using seg_less [of b e p v "vs @ u # us"]
    by (simp add: blank_units.simps [of b e p] unitIsSpace_def blank_codes_def algebra_simps)
qed

lemma scan_close:
  assumes s: "seg b e p (close_tag args blanks)" and n: "name_ok (eventName args)"
    and bl: "set blanks \<subseteq> blank_codes"
  shows "seek_end_tag b e p (eventName args) = Inr (p + length (close_tag args blanks) * unitWidth e)"
proof -
  let ?n = "eventName args" and ?w = "unitWidth e"
  let ?r = "p + ?w + ?w + length ?n * ?w"
  have s1: "seg b e (p + ?w + ?w) (codes ?n @ blanks @ [62])" and p: "unitAscii b e p = 60"
    and q: "unitAscii b e (p + ?w) = 47"
    using s by (simp_all add: close_tag_def)
  have l: "p < length b" using seg_nonempty [OF s] by (simp add: close_tag_def)
  have m: "matchLiteral b e (p + ?w + ?w) ?n" using seg_matches [OF s1] .
  have s2: "seg b e ?r (blanks @ [62])" using s1 by (simp only: seg_append length_map)
  have t: "blank_units b e ?r = ?r + length blanks * ?w"
    using blank_units_seg [of b e ?r blanks 62 "[]"] s2 bl by (simp add: blank_codes_def)
  have "unitAscii b e (?r + length blanks * ?w) = 62" using seg_at [of b e ?r blanks 62 "[]"] s2 by simp
  moreover have "skipSpecialUnit b e p = Inr None"
    using q by (simp add: skipSpecialUnit_def unitIs_def char_codes)
  ultimately show ?thesis
    using l p q m t
    by (simp add: seek_end_tag.simps [of b e p ?n] Let_def unitIs_def char_codes)
      (simp add: close_tag_def algebra_simps)
qed

section \<open>Line numbers\<close>

lemma unit_break8: "p < length b \<Longrightarrow> unitAscii b SingleByte p = 10 \<longleftrightarrow> byteAt b p = 10"
  by (simp add: unitAscii_def)

lemma breaks8_seg:
  "seg b SingleByte p us \<Longrightarrow> breaks8 b (p + length us) p k = k + count_list us 10"
proof (induction us arbitrary: p k)
  case (Cons u us)
  then have u: "u = 10 \<longleftrightarrow> byteAt b p = 10"
    using seg_less [of b SingleByte p u us] unit_break8 [of p b] by auto
  show ?case
    using Cons.IH [of "Suc p"] Cons.prems u
    by (simp add: breaks8.simps [of b _ p] unitWidth_def)
qed (simp add: breaks8.simps)

lemma breaks16_seg:
  assumes "e \<noteq> SingleByte"
  shows "seg b e p us \<Longrightarrow> breaks16 b e (p + 2 * length us) p k = k + count_list us 10"
proof (induction us arbitrary: p k)
  case (Cons u us)
  have w: "unitWidth e = 2" using assms by (simp add: unitWidth_def)
  have "p + 1 < length b" using seg_le [of b e p "u # us"] Cons.prems w by simp
  then have "u = 10 \<longleftrightarrow> (if e = Utf16Le then byteAt b p = 10 \<and> byteAt b (p + 1) = 0
      else byteAt b p = 0 \<and> byteAt b (p + 1) = 10)"
    using Cons.prems assms by (auto simp: unitAscii_def split: if_splits)
  then show ?case
    using Cons.IH [of "p + 2"] Cons.prems w by (simp add: breaks16.simps [of b e _ p])
qed (simp add: breaks16.simps)

lemma lineNumberAt_seg:
  assumes "seg b e 0 us"
  shows "lineNumberAt b e (length us * unitWidth e) = count_list us 10 + 1"
proof -
  have l: "length us * unitWidth e \<le> length b" using seg_le [OF assms] by simp
  show ?thesis
  proof (cases "e = SingleByte")
    case True
    then show ?thesis
      using l assms breaks8_seg [of b 0 us 0] by (simp add: lineNumberAt_def unitWidth_def min_absorb1)
  next
    case False
    then show ?thesis
      using l assms breaks16_seg [OF False, of b 0 us 0]
      by (simp add: lineNumberAt_def unitWidth_def min_absorb1 mult.commute)
  qed
qed

end
