(* ===== verification/LoaderRun.thy ===== *)
theory LoaderRun
  imports LoaderSpans
begin

text \<open>
  The run of the callbacks over the events of a document of the grammar: by induction on the document,
  the loader always stands where the reference is, up to markup both tag scans skip, and the tree it
  builds is the reference's tree (\<open>loader_spans_exact\<close>).
\<close>

section \<open>The run over a document\<close>

lemma runEvents_append:
  "runEvents (xs @ ys) st = (case runEvents xs st of Inl e \<Rightarrow> Inl e | Inr st' \<Rightarrow> runEvents ys st')"
  by (induction xs arbitrary: st) (auto split: sum.splits)

fun extend :: "string \<Rightarrow> raw_node list \<Rightarrow> raw_node \<Rightarrow> raw_node" where
  "extend chars nodes (RawNode t a x s ks) = RawNode t a (x @ chars) s (ks @ nodes)"

lemma extend_extend [simp]: "extend y ms (extend x ns n) = extend (x @ y) (ns @ ms) n"
  by (cases n) simp

lemma extend_Nil [simp]: "extend [] [] n = n"
  by (cases n) simp

lemma appendText_extend: "appendText chars n = extend chars [] n"
  by (cases n) simp

lemma addChild_extend: "addChild c n = extend [] [c] n"
  by (cases n) simp

lemma run_characters:
  "ls_stack st = node # rest \<Longrightarrow>
    runEvents (map Characters chunks) st = Inr (st\<lparr>ls_stack := extend (concat chunks) [] node # rest\<rparr>)"
proof (induction chunks arbitrary: st node)
  case (Cons x xs)
  have "onCharacters x st = st\<lparr>ls_stack := extend x [] node # rest\<rparr>"
    using Cons.prems by (simp add: onCharacters_def appendText_extend)
  then show ?case using Cons.IH [of "st\<lparr>ls_stack := extend x [] node # rest\<rparr>"] by simp
qed simp

lemma run_characters_outside:
  "ls_stack st = [] \<Longrightarrow> runEvents (map Characters chunks) st = Inr st"
  by (induction chunks) (simp_all add: onCharacters_def)

text \<open>The loader stands behind \<open>before\<close>: what its cursor has not yet passed is skipped by both scans.\<close>

definition stands :: "string \<Rightarrow> raw_encoding \<Rightarrow> int list \<Rightarrow> loader_state \<Rightarrow> bool" where
  "stands b e before st \<longleftrightarrow> fileBytes st = b \<and> ls_encoding st = e
     \<and> skips b e (cursor st) (length before * unitWidth e)"

lemma stands_stack [simp]: "stands b e before (st\<lparr>ls_stack := s\<rparr>) = stands b e before st"
  by (simp add: stands_def)

lemma stands_exact:
  "stands b e before st \<Longrightarrow> stands b e p (st\<lparr>cursor := length p * unitWidth e\<rparr>)"
  by (simp add: stands_def)

lemma stands_quiet:
  assumes "stands b e before st" and "quiet_ok q" and "seg b e 0 (before @ render_quiet q @ us)"
  shows "stands b e (before @ render_quiet q) st"
proof -
  have "seg b e (length before * unitWidth e) (render_quiet q)"
    using assms(3) by (simp add: seg_append)
  from quiet_skips [OF assms(2) this] show ?thesis
    using assms(1) skips_trans by (fastforce simp: stands_def algebra_simps)
qed

text \<open>A start tag: the new element is pushed, with the span the layout gives it.\<close>

definition opened :: "nat \<Rightarrow> int list \<Rightarrow> start_args \<Rightarrow> nat \<Rightarrow> raw_node" where
  "opened w before args endPos = RawNode (eventName args) (eventAttributes args) []
     \<lparr>startOffset = of_nat (length before * w), endOffset = of_nat endPos,
      lineNumber = of_nat (count_list before 10 + 1)\<rparr> []"

lemma run_start:
  assumes st: "stands b e before st" and s: "seg b e 0 (before @ open_tag args ps @ us @ vs)"
    and us: "us = [62] \<or> us = [47, 62]"
    and n: "name_ok (eventName args)" and ps: "attributes_ok ps"
    and top: "ls_stack st \<noteq> [] \<or> ls_root st = None"
  shows "onEvent (StartElement args) st
    = Inr (st\<lparr>cursor := length (before @ open_tag args ps @ us) * unitWidth e,
        ls_stack := opened (unitWidth e) before args
          (length (if us = [62] then before else before @ open_tag args ps @ us) * unitWidth e)
          # ls_stack st\<rparr>)"
proof -
  let ?p = "length before * unitWidth e"
  have s1: "seg b e ?p (open_tag args ps @ us)" and s0: "seg b e 0 before"
    using s by (simp_all add: seg_append)
  have "seek_start_tag b e (cursor st) (eventName args) = seek_start_tag b e ?p (eventName args)"
    using st by (simp add: stands_def skips_def)
  then have "scanStartTag b e (cursor st) (eventName args)
      = Inr \<lparr>openPos = ?p, tagEndPos = ?p + length (open_tag args ps @ us) * unitWidth e,
             selfClosed = (us = [47, 62])\<rparr>"
    by (simp add: scanStartTag_def requireAsciiName_ok [OF n] scan_open [OF s1 us n ps])
  then show ?thesis
    using st top us
    by (auto simp: onStartElement_def Let_def stands_def startSpan_def opened_def
        lineNumberAt_seg [OF s0] algebra_simps)
qed
lemma run_end:
  assumes st: "stands b e before st" and s: "seg b e 0 (before @ close_tag args blanks @ vs)"
    and n: "name_ok (eventName args)" and bl: "set blanks \<subseteq> blank_codes"
    and stack: "ls_stack st = extend x ks (opened w start args (length start * w)) # rest"
  shows "onEvent EndElement st
    = Inr (attach (RawNode (eventName args) (eventAttributes args) x
        \<lparr>startOffset = of_nat (length start * w),
         endOffset = of_nat (length (before @ close_tag args blanks) * unitWidth e),
         lineNumber = of_nat (count_list start 10 + 1)\<rparr> ks) rest
        (st\<lparr>cursor := length (before @ close_tag args blanks) * unitWidth e\<rparr>))"
proof -
  let ?p = "length before * unitWidth e"
  have s1: "seg b e ?p (close_tag args blanks)" using s by (simp add: seg_append)
  have "seek_end_tag b e (cursor st) (eventName args) = seek_end_tag b e ?p (eventName args)"
    using st by (simp add: stands_def skips_def)
  then have "scanEndTag b e (cursor st) (eventName args)
      = Inr (length (before @ close_tag args blanks) * unitWidth e)"
    by (simp add: scanEndTag_def requireAsciiName_ok [OF n] scan_close [OF s1 n bl] algebra_simps)
  then show ?thesis using st stack by (simp add: onEndElement_def stands_def opened_def)
qed

lemma run_empty_end:
  assumes "ls_stack st = opened w before args (length (before @ all) * w) # rest"
    and "all \<noteq> []" and "0 < w" and "length (before @ all) * w < 2 ^ 64"
  shows "onEvent EndElement st = Inr (attach (RawNode (eventName args) (eventAttributes args) []
        (span_of w before all) []) rest st)"
proof -
  have l: "length before * w < length (before @ all) * w" using assms(2,3) by simp
  then have "length before * w < 2 ^ 64" using assms(4) by (rule less_trans)
  then have "(of_nat (length (before @ all) * w) :: size_t) \<noteq> of_nat (length before * w)"
    using assms(4) l by (simp only: word_of_nat_eq_iff len_of_numeral_defs)
      (simp add: take_bit_nat_eq_self del: length_append)
  then show ?thesis using assms(1) by (simp add: onEndElement_def opened_def span_of_def)
qed

lemma seg_small: "seg b e 0 us \<Longrightarrow> length b < 2 ^ 64 \<Longrightarrow> length us * unitWidth e < 2 ^ 64"
  using seg_le [of b e 0 us] by simp

lemma attach_below:
  "attach n (node # rest) st = st\<lparr>ls_stack := extend [] [n] node # rest\<rparr>"
  by (simp add: attach_def addChild_extend)

text \<open>
  The events \<open>evs\<close> take a state in the middle of an element from behind \<open>before\<close> to behind \<open>after\<close>,
  and add the text \<open>x\<close> and the children \<open>ns\<close> to the element.
\<close>

definition moves ::
  "string \<Rightarrow> raw_encoding \<Rightarrow> int list \<Rightarrow> sax_event list \<Rightarrow> string \<Rightarrow> raw_node list \<Rightarrow> int list \<Rightarrow> bool" where
  "moves b e before evs x ns after \<longleftrightarrow>
    (\<forall>st node rest. stands b e before st \<longrightarrow> ls_stack st = node # rest \<longrightarrow>
      (\<exists>c. runEvents evs st = Inr (st\<lparr>cursor := c, ls_stack := extend x ns node # rest\<rparr>)
        \<and> stands b e after (st\<lparr>cursor := c\<rparr>)))"

definition runs_to :: "string \<Rightarrow> raw_encoding \<Rightarrow> int list \<Rightarrow> item list \<Rightarrow> bool" where
  "runs_to b e before items \<longleftrightarrow> moves b e before (events items) (own_text items)
    (layout (unitWidth e) before items) (before @ render items)"

lemma movesE:
  assumes "moves b e before evs x ns after" and "stands b e before st" and "ls_stack st = node # rest"
  obtains c where "runEvents evs st = Inr (st\<lparr>cursor := c, ls_stack := extend x ns node # rest\<rparr>)"
    and "stands b e after (st\<lparr>cursor := c\<rparr>)"
  using assms unfolding moves_def by blast

lemma moves_append:
  assumes "moves b e before evs x ns after" and "moves b e after evs' x' ns' after'"
  shows "moves b e before (evs @ evs') (x @ x') (ns @ ns') after'"
  unfolding moves_def
proof (intro allI impI)
  fix st node rest
  assume st: "stands b e before st" "ls_stack st = node # rest"
  obtain c where r: "runEvents evs st = Inr (st\<lparr>cursor := c, ls_stack := extend x ns node # rest\<rparr>)"
    and "stands b e after (st\<lparr>cursor := c\<rparr>)"
    using movesE [OF assms(1) st] .
  then have st2: "stands b e after (st\<lparr>cursor := c, ls_stack := extend x ns node # rest\<rparr>)"
    by (simp add: stands_def)
  have st3: "ls_stack (st\<lparr>cursor := c, ls_stack := extend x ns node # rest\<rparr>)
      = extend x ns node # rest" by simp
  obtain c' where
    "runEvents evs' (st\<lparr>cursor := c, ls_stack := extend x ns node # rest\<rparr>)
      = Inr (st\<lparr>cursor := c, ls_stack := extend x ns node # rest,
             cursor := c', ls_stack := extend x' ns' (extend x ns node) # rest\<rparr>)"
    "stands b e after' (st\<lparr>cursor := c, ls_stack := extend x ns node # rest, cursor := c'\<rparr>)"
    using movesE [OF assms(2) st2 st3] .
  then show "\<exists>c. runEvents (evs @ evs') st
      = Inr (st\<lparr>cursor := c, ls_stack := extend (x @ x') (ns @ ns') node # rest\<rparr>)
    \<and> stands b e after' (st\<lparr>cursor := c\<rparr>)"
    by (intro exI [of _ c']) (simp add: runEvents_append r stands_def)
qed

lemma element_run:
  assumes st: "stands b e before st"
    and s: "seg b e 0 (before @ render (Element args ps kids blanks # later))"
    and ok: "name_ok (eventName args)" "attributes_ok ps" "set blanks \<subseteq> blank_codes"
    and top: "ls_stack st \<noteq> [] \<or> ls_root st = None"
    and kids: "runs_to b e (before @ open_tag args ps @ [62]) kids"
  shows "runEvents (events [Element args ps kids blanks]) st
    = Inr (attach (hd (layout (unitWidth e) before [Element args ps kids blanks])) (ls_stack st)
        (st\<lparr>cursor := length (before @ render [Element args ps kids blanks]) * unitWidth e\<rparr>))"
proof -
  let ?w = "unitWidth e" and ?b1 = "before @ open_tag args ps @ [62]"
  let ?b2 = "?b1 @ render kids"
  have s1: "seg b e 0 (before @ open_tag args ps @ [62] @ render kids @ close_tag args blanks @ render later)"
    using s by simp
  define new where "new = opened ?w before args (length before * ?w)"
  define st1 where "st1 = st\<lparr>cursor := length ?b1 * ?w, ls_stack := new # ls_stack st\<rparr>"
  have r1: "onEvent (StartElement args) st = Inr st1"
    using run_start [OF st s1 _ ok(1,2) top] by (simp add: st1_def new_def)
  have p1: "stands b e ?b1 st1" using stands_exact [OF st, of ?b1] by (simp add: st1_def)
  have p2: "ls_stack st1 = new # ls_stack st" by (simp add: st1_def)
  obtain c where
    r2: "runEvents (events kids) st1 = Inr (st1\<lparr>cursor := c, ls_stack :=
           extend (own_text kids) (layout ?w ?b1 kids) new # ls_stack st\<rparr>)"
    and st2: "stands b e ?b2 (st1\<lparr>cursor := c\<rparr>)"
    using movesE [OF kids [unfolded runs_to_def] p1 p2] .
  define st2 where "st2 = st1\<lparr>cursor := c, ls_stack :=
           extend (own_text kids) (layout ?w ?b1 kids) new # ls_stack st\<rparr>"
  have "stands b e ?b2 st2" using st2 by (simp add: st2_def stands_def)
  moreover have "seg b e 0 (?b2 @ close_tag args blanks @ render later)" using s1 by simp
  moreover have "ls_stack st2 = extend (own_text kids) (layout ?w ?b1 kids) new # ls_stack st"
    by (simp add: st2_def)
  ultimately have r3: "onEvent EndElement st2
    = Inr (attach (RawNode (eventName args) (eventAttributes args) (own_text kids)
        \<lparr>startOffset = of_nat (length before * ?w),
         endOffset = of_nat (length (?b2 @ close_tag args blanks) * ?w),
         lineNumber = of_nat (count_list before 10 + 1)\<rparr> (layout ?w ?b1 kids)) (ls_stack st)
        (st2\<lparr>cursor := length (?b2 @ close_tag args blanks) * ?w\<rparr>))"
    unfolding new_def by (rule run_end [OF _ _ ok(1,3)])
  have "runEvents (events [Element args ps kids blanks]) st = onEvent EndElement st2"
    by (simp add: r1 runEvents_append r2 st2_def del: onEvent.simps split: sum.splits)
  also note r3
  finally show ?thesis
    by (cases "ls_stack st") (simp_all add: attach_def st2_def st1_def span_of_def Let_def algebra_simps)
qed

lemma empty_run:
  assumes st: "stands b e before st"
    and s: "seg b e 0 (before @ render (EmptyElement args ps # later))"
    and ok: "name_ok (eventName args)" "attributes_ok ps"
    and top: "ls_stack st \<noteq> [] \<or> ls_root st = None" and small: "length b < 2 ^ 64"
  shows "runEvents (events [EmptyElement args ps]) st
    = Inr (attach (hd (layout (unitWidth e) before [EmptyElement args ps])) (ls_stack st)
        (st\<lparr>cursor := length (before @ render [EmptyElement args ps]) * unitWidth e\<rparr>))"
proof -
  let ?w = "unitWidth e" and ?all = "open_tag args ps @ [47, 62]"
  have s1: "seg b e 0 (before @ open_tag args ps @ [47, 62] @ render later)" using s by simp
  have "seg b e 0 (before @ ?all)" using s1 seg_append [of b e 0 "before @ ?all" "render later"] by simp
  then have l: "length (before @ ?all) * ?w < 2 ^ 64" using small by (rule seg_small)
  define new where "new = opened ?w before args (length (before @ ?all) * ?w)"
  define st1 where "st1 = st\<lparr>cursor := length (before @ ?all) * ?w, ls_stack := new # ls_stack st\<rparr>"
  have r1: "onEvent (StartElement args) st = Inr st1"
    using run_start [OF st s1 _ ok top] by (simp add: st1_def new_def)
  have r2: "onEvent EndElement st1 = Inr (attach (RawNode (eventName args) (eventAttributes args) []
        (span_of ?w before ?all) []) (ls_stack st) st1)"
    by (rule run_empty_end [OF _ _ _ l]) (simp_all add: st1_def new_def)
  have "runEvents (events [EmptyElement args ps]) st = onEvent EndElement st1"
    by (simp add: r1 del: onEvent.simps split: sum.splits)
  also note r2
  finally show ?thesis by (cases "ls_stack st") (simp_all add: attach_def st1_def Let_def)
qed

lemma moves_Nil: "moves b e before [] [] [] before"
  unfolding moves_def
proof (intro allI impI)
  fix st node rest
  assume "stands b e before st" "ls_stack st = node # rest"
  then show "\<exists>c. runEvents [] st = Inr (st\<lparr>cursor := c, ls_stack := extend [] [] node # rest\<rparr>)
      \<and> stands b e before (st\<lparr>cursor := c\<rparr>)"
    by (intro exI [of _ "cursor st"]) simp
qed

lemma moves_item:
  assumes "\<And>st node rest. stands b e before st \<Longrightarrow> ls_stack st = node # rest \<Longrightarrow>
      runEvents evs st = Inr (attach n (ls_stack st) (st\<lparr>cursor := length after * unitWidth e\<rparr>))"
  shows "moves b e before evs [] [n] after"
  unfolding moves_def
proof (intro allI impI)
  fix st node rest
  assume st: "stands b e before st" "ls_stack st = node # rest"
  show "\<exists>c. runEvents evs st = Inr (st\<lparr>cursor := c, ls_stack := extend [] [n] node # rest\<rparr>)
      \<and> stands b e after (st\<lparr>cursor := c\<rparr>)"
    using assms [OF st] st stands_exact [OF st(1), of after]
    by (intro exI [of _ "length after * unitWidth e"]) (simp add: attach_below)
qed

lemma moves_quiet:
  assumes "quiet_ok q" and "seg b e 0 (before @ render_quiet q @ us)"
  shows "moves b e before (map Characters chunks) (concat chunks) [] (before @ render_quiet q)"
  unfolding moves_def
proof (intro allI impI)
  fix st node rest
  assume st: "stands b e before st" "ls_stack st = node # rest"
  show "\<exists>c. runEvents (map Characters chunks) st
      = Inr (st\<lparr>cursor := c, ls_stack := extend (concat chunks) [] node # rest\<rparr>)
    \<and> stands b e (before @ render_quiet q) (st\<lparr>cursor := c\<rparr>)"
    using run_characters [OF st(2), of chunks] stands_quiet [OF st(1) assms]
    by (intro exI [of _ "cursor st"]) simp
qed

lemma items_run:
  assumes "length b < 2 ^ 64"
  shows "items_ok items \<Longrightarrow> seg b e 0 (before @ render items @ us) \<Longrightarrow> runs_to b e before items"
proof (induction items arbitrary: before us rule: items_ok.induct)
  case 1
  show ?case using moves_Nil by (simp add: runs_to_def)
next
  case (2 q chunks rest)
  have "runs_to b e (before @ render_quiet q) rest" using 2 by simp
  moreover have "moves b e before (map Characters chunks) (concat chunks) [] (before @ render_quiet q)"
    using 2 by (intro moves_quiet [of _ _ _ _ "render rest @ us"]) simp_all
  ultimately show ?case
    using moves_append unfolding runs_to_def by fastforce
next
  case (3 args ps kids blanks rest)
  let ?i = "Element args ps kids blanks" and ?w = "unitWidth e"
  have s: "seg b e 0 (before @ render (?i # rest) @ us)" using 3(4) .
  have ok: "name_ok (eventName args)" "attributes_ok ps" "set blanks \<subseteq> blank_codes" using 3(3) by simp_all
  have k: "runs_to b e (before @ open_tag args ps @ [62]) kids"
    using 3(1) [of _ "close_tag args blanks @ render rest @ us"] 3(3) s by simp
  have s2: "seg b e 0 (before @ render (?i # rest))"
    using s seg_append [of b e 0 "before @ render (?i # rest)" us] by simp
  have "moves b e before (events [?i]) [] [hd (layout ?w before [?i])] (before @ render [?i])"
    by (rule moves_item) (rule element_run [OF _ s2 ok _ k], simp_all)
  moreover have "runs_to b e (before @ render [?i]) rest"
    using 3(2) [of _ us] 3(3) s by simp
  ultimately show ?case
    using moves_append [of b e before "events [?i]"] unfolding runs_to_def by (fastforce simp: Let_def)
next
  case (4 args ps rest)
  let ?i = "EmptyElement args ps" and ?w = "unitWidth e"
  have s: "seg b e 0 (before @ render (?i # rest) @ us)" using 4(3) .
  have ok: "name_ok (eventName args)" "attributes_ok ps" using 4(2) by simp_all
  have s2: "seg b e 0 (before @ render (?i # rest))"
    using s seg_append [of b e 0 "before @ render (?i # rest)" us] by simp
  have "moves b e before (events [?i]) [] [hd (layout ?w before [?i])] (before @ render [?i])"
    by (rule moves_item) (rule empty_run [OF _ s2 ok _ assms], simp_all)
  moreover have "runs_to b e (before @ render [?i]) rest"
    using 4(1) [of _ us] 4(2) s by simp
  ultimately show ?case
    using moves_append [of b e before "events [?i]"] unfolding runs_to_def by (fastforce simp: Let_def)
qed
section \<open>Whole documents\<close>

fun is_quiet :: "item \<Rightarrow> bool" where
  "is_quiet (Quiet q chunks) \<longleftrightarrow> True"
| "is_quiet _ \<longleftrightarrow> False"

definition document_ok :: "item list \<Rightarrow> item \<Rightarrow> item list \<Rightarrow> bool" where
  "document_ok prolog root epilog \<longleftrightarrow> items_ok (prolog @ root # epilog)
     \<and> list_all is_quiet prolog \<and> \<not> is_quiet root \<and> list_all is_quiet epilog"

text \<open>The markup units of a buffer.\<close>

definition unitsOf :: "string \<Rightarrow> raw_encoding \<Rightarrow> int list" where
  "unitsOf bytes e = map (\<lambda>i. unitAscii bytes e (i * unitWidth e)) [0..<length bytes div unitWidth e]"

lemma segI:
  "p + length us * unitWidth e \<le> length b \<Longrightarrow>
    (\<And>i. i < length us \<Longrightarrow> unitAscii b e (p + i * unitWidth e) = us ! i) \<Longrightarrow> seg b e p us"
proof (induction us arbitrary: p)
  case (Cons u us)
  have "seg b e (p + unitWidth e) us"
    using Cons.prems(1) Cons.prems(2) [of "Suc i" for i] by (intro Cons.IH) (simp_all add: add.assoc)
  then show ?case using Cons.prems(2) [of 0] by simp
qed simp

lemma seg_unitsOf: "seg b e 0 (unitsOf b e)"
  by (rule segI) (simp_all add: unitsOf_def)

lemma items_ok_append: "items_ok (xs @ ys) \<longleftrightarrow> items_ok xs \<and> items_ok ys"
  by (induction xs rule: items_ok.induct) auto

lemma render_append: "render (xs @ ys) = render xs @ render ys"
  by (induction xs rule: render.induct) auto

lemma events_append: "events (xs @ ys) = events xs @ events ys"
  by (induction xs rule: events.induct) auto

lemma layout_append: "layout w before (xs @ ys) = layout w before xs @ layout w (before @ render xs) ys"
  by (induction w before xs rule: layout.induct) (auto simp: Let_def)

lemma layout_quiet: "list_all is_quiet xs \<Longrightarrow> layout w before xs = []"
  by (induction w before xs rule: layout.induct) auto

lemma quiet_outside:
  "list_all is_quiet xs \<Longrightarrow> items_ok xs \<Longrightarrow> ls_stack st = [] \<Longrightarrow> stands b e before st \<Longrightarrow>
    seg b e 0 (before @ render xs @ us) \<Longrightarrow>
    runEvents (events xs) st = Inr st \<and> stands b e (before @ render xs) st"
proof (induction xs arbitrary: before)
  case (Cons x xs)
  then obtain q chunks where x: "x = Quiet q chunks" by (cases x) auto
  have q: "stands b e (before @ render_quiet q) st"
    using Cons.prems by (intro stands_quiet [of b e before st q "render xs @ us"]) (simp_all add: x)
  show ?case
    using Cons.IH [OF _ _ Cons.prems(3) q] Cons.prems
    by (simp add: x runEvents_append run_characters_outside)
qed simp

lemma root_run:
  assumes "stands b e before st" and "items_ok (root # epilog)" and "\<not> is_quiet root"
    and "seg b e 0 (before @ render (root # epilog))" and "length b < 2 ^ 64"
    and "ls_stack st = []" and "ls_root st = None"
  shows "runEvents (events [root]) st = Inr (st\<lparr>cursor := length (before @ render [root]) * unitWidth e,
      ls_stack := [], ls_root := Some (hd (layout (unitWidth e) before [root]))\<rparr>)"
proof (cases root)
  case (Element args ps kids blanks)
  have s: "seg b e 0 (before @ render (Element args ps kids blanks # epilog))"
    using assms(4) by (simp only: Element)
  have ok: "name_ok (eventName args)" "attributes_ok ps" "set blanks \<subseteq> blank_codes" "items_ok kids"
    using assms(2) by (simp_all add: Element)
  have "runs_to b e (before @ open_tag args ps @ [62]) kids"
    using items_run [OF assms(5) ok(4), of e _ "close_tag args blanks @ render epilog"] s by simp
  from element_run [OF assms(1) s ok(1-3) _ this] show ?thesis
    using assms(6,7) by (simp add: attach_def Element)
next
  case (EmptyElement args ps)
  have s: "seg b e 0 (before @ render (EmptyElement args ps # epilog))"
    using assms(4) by (simp only: EmptyElement)
  have ok: "name_ok (eventName args)" "attributes_ok ps" using assms(2) by (simp_all add: EmptyElement)
  from empty_run [OF assms(1) s ok _ assms(5)] show ?thesis
    using assms(6,7) by (simp add: attach_def EmptyElement)
next
  case (Quiet q chunks)
  then show ?thesis using assms(3) by simp
qed

lemma document_run:
  assumes doc: "document_ok prolog root epilog" and u: "seg b e 0 (render (prolog @ root # epilog))"
    and small: "length b < 2 ^ 64"
  shows "\<exists>st. runEvents (events (prolog @ root # epilog)) (initState b e) = Inr st
    \<and> wholeTree st = Some (hd (layout (unitWidth e) [] (prolog @ root # epilog)))"
proof -
  let ?init = "initState b e" and ?p = "render prolog"
  have ok: "items_ok prolog" "items_ok (root # epilog)" "items_ok epilog"
    and q: "list_all is_quiet prolog" "\<not> is_quiet root" "list_all is_quiet epilog"
    using doc items_ok_append [of "[root]" epilog] by (simp_all add: document_ok_def items_ok_append)
  have s: "seg b e 0 (?p @ render (root # epilog))" using u by (simp add: render_append)
  have i: "stands b e [] ?init" "ls_stack ?init = []" "ls_root ?init = None"
    by (simp_all add: stands_def initState_def)
  have p: "runEvents (events prolog) ?init = Inr ?init" "stands b e ?p ?init"
    using quiet_outside [OF q(1) ok(1) i(2,1), of "render (root # epilog)"] s by simp_all
  define n where "n = hd (layout (unitWidth e) ?p [root])"
  define st where "st = ?init\<lparr>cursor := length (?p @ render [root]) * unitWidth e,
      ls_stack := [], ls_root := Some n\<rparr>"
  have r: "runEvents (events [root]) ?init = Inr st"
    unfolding st_def n_def by (rule root_run [OF p(2) ok(2) q(2) s small i(2,3)])
  have "stands b e (?p @ render [root]) st"
    using stands_exact [OF i(1), of "?p @ render [root]"] by (simp add: st_def stands_def)
  moreover have "seg b e 0 ((?p @ render [root]) @ render epilog @ [])"
    using s render_append [of "[root]" epilog] by simp
  moreover have "ls_stack st = []" by (simp add: st_def)
  ultimately have "runEvents (events epilog) st = Inr st"
    using quiet_outside [OF q(3) ok(3)] by blast
  then have "runEvents (events (prolog @ root # epilog)) ?init = Inr st"
    using p(1) r events_append [of "[root]" epilog] by (simp add: events_append runEvents_append)
  moreover have "layout (unitWidth e) [] (prolog @ root # epilog)
      = layout (unitWidth e) ?p [root] @ layout (unitWidth e) (?p @ render [root]) epilog"
    using layout_append [of _ ?p "[root]" epilog] by (simp add: layout_append layout_quiet q(1))
  then have "hd (layout (unitWidth e) [] (prolog @ root # epilog)) = n"
    using q(2) by (cases root) (simp_all add: n_def Let_def)
  ultimately show ?thesis by (intro exI [of _ st]) (simp add: wholeTree_def st_def)
qed

text \<open>C1: the spans are exact. For every document of the grammar, in each of the three encodings, with
  the events a parser reports for it, the loader returns the tree of the document: tags, attributes
  and texts as reported, and every span the byte range of its element, from the \<open><\<close> of the start tag
  to behind the \<open>>\<close> of the end tag, with the number of the line it starts on.\<close>

theorem loader_spans_exact:
  assumes "document_ok prolog root epilog"
    and "detectEncodingClass bytes = Inr enc"
    and "unitsOf bytes enc = render (prolog @ root # epilog)"
    and "length bytes < 2 ^ 64"
    and "parser bytes (size_as_int (length bytes)) (path_string path) = Some outcome"
    and "po_events outcome = events (prolog @ root # epilog)" and "po_wellFormed outcome"
  shows "loadRawDocumentFromMemory parser bytes path
    = Inr (hd (layout (unitWidth enc) [] (prolog @ root # epilog)))"
proof -
  have "seg bytes enc 0 (render (prolog @ root # epilog))"
    using seg_unitsOf [of bytes enc] assms(3) by simp
  from document_run [OF assms(1) this assms(4)] show ?thesis
    using assms(2,5-7) by (auto simp: loadRawDocumentFromMemory_def Let_def)
qed

definition plain_element :: "string \<Rightarrow> start_args" where
  "plain_element n = \<lparr>localName = n, elementPrefix = None, namespaceArgs = [], attributeArgs = []\<rparr>"

definition sample_items :: "item list" where
  "sample_items = [Quiet (Comment (codes ''c'')) [],
     Element (plain_element ''A'') []
       [Quiet (TextRun [10]) [''.''], EmptyElement (plain_element ''B'') [Plain 32]] [32]]"

definition sample_bytes :: string where
  "sample_bytes = ''<!--c--><A>'' @ [CHR 0x0A] @ ''<B /></A >''"

definition sample_parser :: xml_parser where
  "sample_parser bytes len label =
    Some \<lparr>po_events = events sample_items, po_errors = [], po_wellFormed = True\<rparr>"

theorem loader_spans_exact_witness:
  "loadRawDocumentFromMemory sample_parser sample_bytes [''a.arxml''] = Inr
    (RawNode ''A'' [] ''.'' \<lparr>startOffset = 8, endOffset = 22, lineNumber = 1\<rparr>
      [RawNode ''B'' [] [] \<lparr>startOffset = 12, endOffset = 17, lineNumber = 2\<rparr> []])"
proof -
  let ?r = "sample_items ! Suc 0"
  have i: "sample_items = [sample_items ! 0, ?r]" by (simp add: sample_items_def)
  have "document_ok [sample_items ! 0] ?r []"
    by (simp add: document_ok_def sample_items_def plain_element_def name_ok_def eventName_def
        qualifiedName_def attributes_ok_def blank_codes_def first_at_end_def char_code_def upt_rec)
  moreover have "detectEncodingClass sample_bytes = Inr SingleByte"
    by (simp add: sample_bytes_def detectEncodingClass_def bomEncodingClass_def startsWith_def byteAt_def
        declarationEncodingClass_def starts_with_def)
  moreover have "unitsOf sample_bytes SingleByte = render ([sample_items ! 0] @ ?r # [])"
    by (simp add: i [symmetric] sample_items_def sample_bytes_def unitsOf_def unitAscii_def byteAt_def
        unitWidth_def plain_element_def open_tag_def close_tag_def eventName_def qualifiedName_def
        char_code_def upt_rec)
  moreover have "length sample_bytes < 2 ^ 64" by (simp add: sample_bytes_def)
  moreover have "sample_parser sample_bytes (size_as_int (length sample_bytes)) (path_string [''a.arxml''])
      = Some \<lparr>po_events = events sample_items, po_errors = [], po_wellFormed = True\<rparr>"
    by (simp add: sample_parser_def)
  ultimately have "loadRawDocumentFromMemory sample_parser sample_bytes [''a.arxml'']
      = Inr (hd (layout (unitWidth SingleByte) [] ([sample_items ! 0] @ ?r # [])))"
    by (rule loader_spans_exact) (simp_all add: i [symmetric])
  then show ?thesis
    by (simp add: i [symmetric] sample_items_def plain_element_def open_tag_def close_tag_def
        eventName_def qualifiedName_def eventAttributes_def span_of_def unitWidth_def char_code_def Let_def)
qed

end
