(* ===== verification/LoaderSafety.thy ===== *)
theory LoaderSafety
  imports LoaderRun
begin

text \<open>
  What the loader guarantees whatever events it is given: a run that does not throw has recorded only
  spans that start at the named tag and end behind a \<open>>\<close>, in document order
  (\<open>loader_spans_are_tags\<close>). And two inputs it does not handle as its comments say.
\<close>

section \<open>What a successful scan has found\<close>

text \<open>The name at a start tag, up to a delimiter; and a position just behind a \<open>>\<close>.\<close>

definition start_tag_at :: "string \<Rightarrow> raw_encoding \<Rightarrow> nat \<Rightarrow> string \<Rightarrow> bool" where
  "start_tag_at b e p tag \<longleftrightarrow> unitAscii b e p = 60 \<and> matchLiteral b e (p + unitWidth e) tag
     \<and> unitAscii b e (p + unitWidth e + length tag * unitWidth e) \<in> {32, 9, 13, 10, 47, 62}"

definition behind_bracket :: "string \<Rightarrow> raw_encoding \<Rightarrow> nat \<Rightarrow> bool" where
  "behind_bracket b e q \<longleftrightarrow> unitWidth e \<le> q \<and> q \<le> length b \<and> unitAscii b e (q - unitWidth e) = 62"

lemma unit_inside: "0 \<le> unitAscii b e p \<Longrightarrow> p + unitWidth e \<le> length b"
  by (auto simp: unitAscii_def unitWidth_def split: if_splits)

lemma behind: "unitAscii b e p = 62 \<Longrightarrow> behind_bracket b e (p + unitWidth e)"
  using unit_inside [of b e p] by (simp add: behind_bracket_def)

lemma start_tag_end_found:
  "start_tag_end b e tag s p = Inr r \<Longrightarrow>
    openPos r = s \<and> p < tagEndPos r \<and> behind_bracket b e (tagEndPos r)"
proof (induction "length b - p" arbitrary: p rule: less_induct)
  case less
  let ?w = "unitWidth e"
  have l: "p < length b" using less.prems by (auto simp: start_tag_end.simps [of b e tag s p] Let_def split: if_splits)
  have step: ?case if "start_tag_end b e tag s q = Inr r" "p < q" for q
    using less.hyps [OF _ that(1)] that(2) diff_less_mono2 [OF that(2) l] by simp
  consider (quote) "unitAscii b e p = 34 \<or> unitAscii b e p = 39" | (bracket) "unitAscii b e p = 62"
    | (slash) "unitAscii b e p = 47" "unitAscii b e (p + ?w) = 62"
    | (other) "unitAscii b e p \<notin> {34, 39, 62}" "unitAscii b e p = 47 \<longrightarrow> unitAscii b e (p + ?w) \<noteq> 62"
    by auto
  then show ?case
  proof cases
    case quote
    then obtain q where "skipQuoted b e p = Inr q" "start_tag_end b e tag s q = Inr r"
      using less.prems l by (auto simp: start_tag_end.simps [of b e tag s p] Let_def split: sum.splits)
    then show ?thesis using step skipQuoted_after by blast
  next
    case bracket
    then have "r = \<lparr>openPos = s, tagEndPos = p + ?w, selfClosed = False\<rparr>"
      using less.prems l by (simp add: start_tag_end.simps [of b e tag s p] Let_def)
    then show ?thesis using behind [OF bracket] by simp
  next
    case slash
    then have "r = \<lparr>openPos = s, tagEndPos = p + 2 * ?w, selfClosed = True\<rparr>"
      using less.prems l by (simp add: start_tag_end.simps [of b e tag s p] Let_def unitIs_def char_codes)
    then show ?thesis using behind [OF slash(2)] by (simp add: mult_2 add.assoc)
  next
    case other
    then have "start_tag_end b e tag s (p + ?w) = Inr r"
      using less.prems l
      by (auto simp: start_tag_end.simps [of b e tag s p] Let_def unitIs_def char_codes Let_def split: if_splits)
    then show ?thesis by (rule step) simp
  qed
qed

lemma seek_start_found:
  "seek_start_tag b e p tag = Inr r \<Longrightarrow>
    p \<le> openPos r \<and> openPos r < tagEndPos r \<and> start_tag_at b e (openPos r) tag
    \<and> behind_bracket b e (tagEndPos r)"
proof (induction "length b - p" arbitrary: p rule: less_induct)
  case less
  let ?w = "unitWidth e"
  have l: "p < length b"
    using less.prems by (auto simp: seek_start_tag.simps [of b e p tag] Let_def split: if_splits)
  have step: ?case if "seek_start_tag b e q tag = Inr r" "p < q" for q
    using less.hyps [OF _ that(1)] that(2) diff_less_mono2 [OF that(2) l] by simp
  show ?case
  proof (cases "unitAscii b e p = 60")
    case False
    then have "seek_start_tag b e (p + ?w) tag = Inr r"
      using less.prems l by (simp add: seek_start_tag.simps [of b e p tag] Let_def unitIs_def char_codes)
    then show ?thesis by (rule step) simp
  next
    case True
    show ?thesis
    proof (cases "\<exists>q. skipSpecialUnit b e p = Inr (Some q)")
      case True
      then obtain q where "skipSpecialUnit b e p = Inr (Some q)" by blast
      moreover from this have "seek_start_tag b e q tag = Inr r"
        using less.prems l \<open>unitAscii b e p = 60\<close>
        by (simp add: seek_start_tag.simps [of b e p tag] Let_def unitIs_def char_codes)
      ultimately show ?thesis using step skipSpecialUnit_after by blast
    next
      case False
      let ?a = "p + ?w + length tag * ?w"
      have s: "skipSpecialUnit b e p = Inr None"
        and m: "matchLiteral b e (p + ?w) tag" "unitAscii b e ?a \<in> {32, 9, 13, 10, 47, 62}"
        and t: "start_tag_end b e tag p ?a = Inr r"
        using less.prems l True False
        by (auto simp: seek_start_tag.simps [of b e p tag] Let_def unitIs_def char_codes unitIsSpace_def
            split: if_splits sum.splits option.splits)
      have "p < ?a" using unitWidth_pos [of e] by (simp add: trans_less_add1)
      then show ?thesis
        using start_tag_end_found [OF t] True m by (auto simp: start_tag_at_def)
    qed
  qed
qed

lemma seek_end_found:
  "seek_end_tag b e p tag = Inr q \<Longrightarrow> p < q \<and> behind_bracket b e q"
proof (induction "length b - p" arbitrary: p rule: less_induct)
  case less
  let ?w = "unitWidth e"
  have l: "p < length b"
    using less.prems by (auto simp: seek_end_tag.simps [of b e p tag] Let_def split: if_splits)
  have step: ?case if "seek_end_tag b e r tag = Inr q" "p < r" for r
    using less.hyps [OF _ that(1)] that(2) diff_less_mono2 [OF that(2) l] by simp
  show ?case
  proof (cases "unitAscii b e p = 60")
    case False
    then have "seek_end_tag b e (p + ?w) tag = Inr q"
      using less.prems l by (simp add: seek_end_tag.simps [of b e p tag] Let_def unitIs_def char_codes)
    then show ?thesis by (rule step) simp
  next
    case True
    show ?thesis
    proof (cases "\<exists>r. skipSpecialUnit b e p = Inr (Some r)")
      case True
      then obtain r where "skipSpecialUnit b e p = Inr (Some r)" by blast
      moreover from this have "seek_end_tag b e r tag = Inr q"
        using less.prems l \<open>unitAscii b e p = 60\<close>
        by (simp add: seek_end_tag.simps [of b e p tag] Let_def unitIs_def char_codes)
      ultimately show ?thesis using step skipSpecialUnit_after by blast
    next
      case False
      let ?t = "blank_units b e (p + ?w + ?w + length tag * ?w)"
      have u: "unitAscii b e ?t = 62" and q: "q = ?t + ?w"
        using less.prems l True False
        by (auto simp: seek_end_tag.simps [of b e p tag] Let_def unitIs_def char_codes
            split: if_splits sum.splits option.splits)
      have "k \<le> blank_units b e k" for k
        by (induction b e k rule: blank_units.induct) (subst blank_units.simps, auto)
      from this [of "p + ?w + ?w + length tag * ?w"] have "p < q"
        using unitWidth_pos [of e] q by linarith
      then show ?thesis using behind [OF u] q by simp
    qed
  qed
qed

section \<open>The nodes of a state, in document order\<close>

definition flat :: "raw_node list \<Rightarrow> (string \<times> raw_span) list" where
  "flat ns = map (\<lambda>n. (tagName n, nodeSpan n)) (nodes_in ns)"

lemma flat_simps [simp]:
  "flat [] = []" "flat (RawNode t a x s ks # ns) = (t, s) # flat ks @ flat ns"
  "flat (ms @ ns) = flat ms @ flat ns"
  by (simp_all add: flat_def nodes_in_append)

lemma flat_addChild: "flat [addChild c n] = flat [n] @ flat [c]"
  by (cases n) simp

lemma flat_appendText: "flat [appendText x n] = flat [n]"
  by (cases n) simp

lemma flat_Cons: "flat (n # ns) = (tagName n, nodeSpan n) # flat (children n) @ flat ns"
  by (cases n) simp

definition stack_flat :: "raw_node list \<Rightarrow> (string \<times> raw_span) list" where
  "stack_flat stack = concat (map (\<lambda>n. flat [n]) (rev stack))"

lemma stack_flat_simps [simp]:
  "stack_flat [] = []" "stack_flat (n # rest) = stack_flat rest @ flat [n]"
  by (simp_all add: stack_flat_def)

definition state_flat :: "loader_state \<Rightarrow> (string \<times> raw_span) list" where
  "state_flat st = (case wholeTree st of None \<Rightarrow> [] | Some r \<Rightarrow> flat [r])"

lemma state_flat_stack:
  "state_flat st = (if ls_stack st = [] then (case ls_root st of None \<Rightarrow> [] | Some r \<Rightarrow> flat [r])
     else stack_flat (ls_stack st))"
proof (cases "ls_stack st")
  case (Cons node rest)
  have "flat [fold (\<lambda>below inner. addChild inner below) rest n] = stack_flat rest @ flat [n]" for n
    by (induction rest arbitrary: n) (simp_all add: flat_addChild)
  then show ?thesis by (simp add: state_flat_def wholeTree_def Cons)
qed (simp add: state_flat_def wholeTree_def)

section \<open>The invariant of the callbacks\<close>

text \<open>
  A recorded span, with the offsets as numbers: a start tag at \<open>p\<close>, and \<open>q = p\<close> while the end is not
  seen, else \<open>q\<close> behind a bracket.
\<close>

definition recorded :: "string \<Rightarrow> raw_encoding \<Rightarrow> string \<times> raw_span \<Rightarrow> nat \<Rightarrow> nat \<Rightarrow> bool" where
  "recorded b e x p q \<longleftrightarrow>
     snd x = \<lparr>startOffset = of_nat p, endOffset = of_nat q, lineNumber = of_nat (lineNumberAt b e p)\<rparr>
     \<and> start_tag_at b e p (fst x) \<and> (q = p \<or> p < q \<and> behind_bracket b e q)"

definition recorded_list ::
  "string \<Rightarrow> raw_encoding \<Rightarrow> (string \<times> raw_span) list \<Rightarrow> (nat \<times> nat) list \<Rightarrow> bool" where
  "recorded_list b e xs pqs \<longleftrightarrow> list_all2 (\<lambda>x (p, q). recorded b e x p q) xs pqs
     \<and> sorted_wrt (<) (map fst pqs)"

definition closed :: "string \<times> raw_span \<Rightarrow> bool" where
  "closed x \<longleftrightarrow> endOffset (snd x) \<noteq> startOffset (snd x)"

text \<open>Everything but the elements on the stack is closed.\<close>

definition inner_closed :: "loader_state \<Rightarrow> bool" where
  "inner_closed st \<longleftrightarrow> (\<forall>n \<in> set (ls_stack st). \<forall>x \<in> set (flat (children n)). closed x)
     \<and> (\<forall>r. ls_root st = Some r \<longrightarrow> (\<forall>x \<in> set (flat [r]). closed x))"

definition loader_inv :: "string \<Rightarrow> raw_encoding \<Rightarrow> loader_state \<Rightarrow> bool" where
  "loader_inv b e st \<longleftrightarrow> fileBytes st = b \<and> ls_encoding st = e
     \<and> (ls_stack st \<noteq> [] \<longrightarrow> ls_root st = None) \<and> inner_closed st
     \<and> (\<exists>pqs. recorded_list b e (state_flat st) pqs \<and> (\<forall>(p, q) \<in> set pqs. p < cursor st))"

lemma inv_init: "loader_inv b e (initState b e)"
  by (auto simp: loader_inv_def initState_def inner_closed_def recorded_list_def state_flat_stack
      intro!: exI [of _ "[]"])

lemma recorded_snoc:
  assumes "recorded_list b e xs pqs" and "\<forall>(p, q) \<in> set pqs. p < c"
    and "recorded b e x p q" and "c \<le> p" and "p < c'"
  shows "\<exists>pqs. recorded_list b e (xs @ [x]) pqs \<and> (\<forall>(p, q) \<in> set pqs. p < c')"
proof -
  have less: "a < p" if "a \<in> set (map fst pqs)" for a using assms(2,4) that by fastforce
  have "recorded_list b e (xs @ [x]) (pqs @ [(p, q)])"
    using assms(1,3) less unfolding recorded_list_def
    by (auto simp: sorted_wrt_append intro!: list_all2_appendI)
  moreover have "\<forall>(p, q) \<in> set (pqs @ [(p, q)]). p < c'" using less assms(5) by fastforce
  ultimately show ?thesis by blast
qed

lemma recorded_mono:
  "\<forall>(p, q) \<in> set pqs. p < c \<Longrightarrow> c \<le> c' \<Longrightarrow> \<forall>(p :: nat, q) \<in> set pqs. p < c'"
  by fastforce

lemma recorded_update:
  assumes "recorded_list b e (xs @ (t, s) # ys) pqs" and "\<forall>(p, q) \<in> set pqs. p < c"
    and "c < pos" and "behind_bracket b e pos"
  shows "\<exists>pqs. recorded_list b e (xs @ (t, s\<lparr>endOffset := of_nat pos\<rparr>) # ys) pqs
      \<and> (\<forall>(p, q) \<in> set pqs. p < pos)"
    and "length b < 2 ^ 64 \<Longrightarrow> closed (t, s\<lparr>endOffset := of_nat pos\<rparr>)"
proof -
  obtain l p q r where pqs: "pqs = l @ (p, q) # r" "length l = length xs"
    and all: "list_all2 (\<lambda>x (p, q). recorded b e x p q) xs l" "recorded b e (t, s) p q"
      "list_all2 (\<lambda>x (p, q). recorded b e x p q) ys r"
    and sorted: "sorted_wrt (<) (map fst (l @ (p, q) # r))"
    using assms(1)
    by (auto simp: recorded_list_def list_all2_append1 list_all2_Cons1 dest: list_all2_lengthD)
  have p: "p < pos" using assms(2,3) pqs by fastforce
  then have new: "recorded b e (t, s\<lparr>endOffset := of_nat pos\<rparr>) p pos"
    using all(2) assms(4) by (simp add: recorded_def)
  show "\<exists>pqs. recorded_list b e (xs @ (t, s\<lparr>endOffset := of_nat pos\<rparr>) # ys) pqs
      \<and> (\<forall>(p, q) \<in> set pqs. p < pos)"
  proof (intro exI conjI)
    show "recorded_list b e (xs @ (t, s\<lparr>endOffset := of_nat pos\<rparr>) # ys) (l @ (p, pos) # r)"
      using all(1,3) new sorted unfolding recorded_list_def by (simp add: list_all2_appendI)
    show "\<forall>(p, q) \<in> set (l @ (p, pos) # r). p < pos"
      using recorded_mono [OF assms(2) less_imp_le [OF assms(3)]] p unfolding pqs(1)
      by (simp add: case_prod_beta)
  qed
  assume "length b < 2 ^ 64"
  then have "pos < 2 ^ 64" using assms(4) by (simp add: behind_bracket_def)
  then have "(of_nat pos :: size_t) \<noteq> of_nat p"
    using p by (simp add: word_of_nat_eq_iff take_bit_nat_eq_self)
  then show "closed (t, s\<lparr>endOffset := of_nat pos\<rparr>)"
    using all(2) by (simp add: closed_def recorded_def)
qed

lemma inv_start:
  assumes "loader_inv b e st" and "onStartElement args st = Inr st'"
  shows "loader_inv b e st'"
proof -
  from assms(2) obtain r where "scanStartTag (fileBytes st) (ls_encoding st) (cursor st) (eventName args) = Inr r"
    by (auto simp: onStartElement_def split: sum.splits)
  then have r: "seek_start_tag b e (cursor st) (eventName args) = Inr r"
    using assms(1) by (auto simp: scanStartTag_def loader_inv_def split: sum.splits)
  note f = seek_start_found [OF r]
  obtain pqs where pqs: "recorded_list b e (state_flat st) pqs" "\<forall>(p, q) \<in> set pqs. p < cursor st"
    using assms(1) unfolding loader_inv_def by blast
  define q where "q = (if selfClosed r then tagEndPos r else openPos r)"
  have new: "recorded b e (eventName args, startSpan st r) (openPos r) q"
    using f assms(1) by (auto simp: recorded_def startSpan_def q_def loader_inv_def)
  have snoc: "\<exists>pqs. recorded_list b e (state_flat st @ [(eventName args, startSpan st r)]) pqs
      \<and> (\<forall>(p, q) \<in> set pqs. p < tagEndPos r)"
    using f by (intro recorded_snoc [OF pqs new]) auto
  have keep: "\<forall>(p, q) \<in> set pqs. p < tagEndPos r" using recorded_mono [OF pqs(2)] f by auto
  show ?thesis
  proof (cases "ls_stack st = [] \<and> ls_root st \<noteq> None")
    case True
    then have "st' = st\<lparr>cursor := tagEndPos r\<rparr>"
      using assms r by (simp add: onStartElement_def scanStartTag_def loader_inv_def split: sum.splits)
    moreover have "state_flat (st\<lparr>cursor := tagEndPos r\<rparr>) = state_flat st" by (simp add: state_flat_stack)
    ultimately show ?thesis using assms(1) pqs(1) keep by (auto simp: loader_inv_def inner_closed_def)
  next
    case False
    let ?n = "RawNode (eventName args) (eventAttributes args) [] (startSpan st r) []"
    have st': "st' = st\<lparr>cursor := tagEndPos r, ls_stack := ?n # ls_stack st\<rparr>"
      using assms r False by (auto simp: onStartElement_def scanStartTag_def loader_inv_def Let_def split: sum.splits)
    have "state_flat st' = state_flat st @ [(eventName args, startSpan st r)]"
      using False by (auto simp: state_flat_stack st' split: option.splits)
    then show ?thesis using assms(1) snoc False by (auto simp: loader_inv_def inner_closed_def st')
  qed
qed

lemma flat_attach: "state_flat (attach n rest st) = stack_flat rest @ flat [n]"
  by (cases rest) (simp_all add: state_flat_stack attach_def flat_addChild)

lemma inner_attach:
  assumes "\<forall>n \<in> set rest. \<forall>x \<in> set (flat (children n)). closed x" and "\<forall>x \<in> set (flat [n]). closed x"
    and "ls_root st = None"
  shows "inner_closed (attach n rest st)"
proof (cases rest)
  case (Cons m deeper)
  have "flat (children (addChild n m)) = flat (children m) @ flat [n]" by (cases m) simp
  then show ?thesis using assms by (auto simp: inner_closed_def attach_def Cons)
qed (use assms in \<open>auto simp: inner_closed_def attach_def\<close>)

lemma inv_end:
  assumes "loader_inv b e st" and "onEndElement st = Inr st'" and "length b < 2 ^ 64"
  shows "loader_inv b e st'"
proof (cases "ls_stack st")
  case Nil
  then show ?thesis using assms by (simp add: onEndElement_def)
next
  case (Cons node rest)
  obtain t a x s ks where n: "node = RawNode t a x s ks" by (cases node)
  obtain pqs where pqs: "recorded_list b e (stack_flat rest @ (t, s) # flat ks) pqs"
    "\<forall>(p, q) \<in> set pqs. p < cursor st"
    using assms(1) unfolding loader_inv_def by (auto simp: state_flat_stack Cons n)
  have inner: "\<forall>n \<in> set rest. \<forall>x \<in> set (flat (children n)). closed x" "\<forall>x \<in> set (flat ks). closed x"
    and st: "ls_root st = None" "fileBytes st = b" "ls_encoding st = e"
    using assms(1) by (simp_all add: loader_inv_def inner_closed_def Cons n)
  have parts: "fileBytes (attach m rest st1) = fileBytes st1" "ls_encoding (attach m rest st1) = ls_encoding st1"
    "cursor (attach m rest st1) = cursor st1"
    "ls_stack (attach m rest st1) \<noteq> [] \<longrightarrow> ls_root (attach m rest st1) = ls_root st1" for m st1
    by (simp_all add: attach_def split: list.splits)
  show ?thesis
  proof (cases "endOffset s = startOffset s")
    case True
    then obtain pos where sc: "scanEndTag b e (cursor st) t = Inr pos"
      and st': "st' = attach (RawNode t a x (s\<lparr>endOffset := of_nat pos\<rparr>) ks) rest (st\<lparr>cursor := pos\<rparr>)"
      using assms(2) st by (auto simp: onEndElement_def Cons n split: sum.splits)
    have f: "cursor st < pos" "behind_bracket b e pos"
      using sc seek_end_found [of b e "cursor st" t pos] by (auto simp: scanEndTag_def split: sum.splits)
    note u = recorded_update [OF pqs f]
    have "inner_closed st'"
      unfolding st' using inner u(2) [OF assms(3)] st by (intro inner_attach) auto
    then show ?thesis using u(1) st unfolding st' by (simp add: loader_inv_def flat_attach parts)
  next
    case False
    then have st': "st' = attach node rest st" using assms(2) by (simp add: onEndElement_def Cons n)
    have "inner_closed st'"
      unfolding st' using inner False st by (intro inner_attach) (auto simp: n closed_def)
    then show ?thesis
      using pqs st unfolding st' by (auto simp: loader_inv_def flat_attach parts n)
  qed
qed

lemma inv_characters: "loader_inv b e st \<Longrightarrow> loader_inv b e (onCharacters x st)"
proof (cases "ls_stack st")
  case (Cons node rest)
  assume i: "loader_inv b e st"
  let ?st = "st\<lparr>ls_stack := appendText x node # rest\<rparr>"
  have "state_flat ?st = state_flat st" by (simp add: state_flat_stack Cons flat_appendText)
  moreover have "children (appendText x node) = children node" by (cases node) simp
  ultimately have "loader_inv b e ?st" using i by (simp add: loader_inv_def inner_closed_def Cons)
  then show ?thesis using i by (simp add: onCharacters_def Cons)
qed (simp add: onCharacters_def)

lemma inv_run:
  "runEvents evs st = Inr st' \<Longrightarrow> loader_inv b e st \<Longrightarrow> length b < 2 ^ 64 \<Longrightarrow> loader_inv b e st'"
proof (induction evs arbitrary: st)
  case (Cons ev evs)
  then obtain st1 where e: "onEvent ev st = Inr st1" and r: "runEvents evs st1 = Inr st'"
    by (auto split: sum.splits)
  have "loader_inv b e st1"
    using e Cons.prems(2,3) by (cases ev) (auto intro: inv_start inv_end inv_characters)
  then show ?case using Cons.IH r Cons.prems(3) by blast
qed simp

text \<open>C28: for a buffer below \<open>2 ^ 64\<close> bytes and any sequence of events which the loader accepts and which closes every
  element it opens: each span it records starts at the bytes of a start tag of the node's name and ends,
  further on and inside the buffer, just behind a \<open>>\<close>; the line is that of the start, and the nodes start
  at increasing offsets in document order. That the bytes read as a tag does not exclude that they stand in a
  comment (\<open>comment_bug\<close>).\<close>

theorem loader_spans_are_tags:
  assumes "runEvents evs (initState b e) = Inr st" and "wholeTree st = Some root"
    and "ls_stack st = []" and "length b < 2 ^ 64"
  shows "(\<forall>n \<in> set (nodes_in [root]). \<exists>p q.
       nodeSpan n = \<lparr>startOffset = of_nat p, endOffset = of_nat q, lineNumber = of_nat (lineNumberAt b e p)\<rparr>
       \<and> start_tag_at b e p (tagName n) \<and> p < q \<and> behind_bracket b e q)
     \<and> sorted_wrt (<) (map (\<lambda>n. unat (startOffset (nodeSpan n))) (nodes_in [root]))"
proof -
  have inv: "loader_inv b e st" using inv_run [OF assms(1) inv_init assms(4)] .
  have flat: "state_flat st = flat [root]" using assms(2) by (simp add: state_flat_def)
  obtain pqs where all: "list_all2 (\<lambda>x (p, q). recorded b e x p q) (flat [root]) pqs"
    and sorted: "sorted_wrt (<) (map fst pqs)"
    using inv unfolding loader_inv_def recorded_list_def flat by blast
  have closed: "\<forall>x \<in> set (flat [root]). closed x"
    using inv assms(2,3) by (simp add: loader_inv_def inner_closed_def wholeTree_def)
  have nodes: "\<exists>p q. nodeSpan n = \<lparr>startOffset = of_nat p, endOffset = of_nat q,
        lineNumber = of_nat (lineNumberAt b e p)\<rparr>
      \<and> start_tag_at b e p (tagName n) \<and> p < q \<and> behind_bracket b e q"
    if "n \<in> set (nodes_in [root])" for n
  proof -
    have m: "(tagName n, nodeSpan n) \<in> set (flat [root])" using that by (simp add: flat_def del: nodes_in.simps)
    then obtain i where i: "i < length (flat [root])" "flat [root] ! i = (tagName n, nodeSpan n)"
      by (auto simp: in_set_conv_nth)
    obtain p q where "pqs ! i = (p, q)" by (cases "pqs ! i")
    then have "recorded b e (tagName n, nodeSpan n) p q" using list_all2_nthD [OF all i(1)] i(2) by simp
    then show ?thesis using closed m by (fastforce simp: recorded_def closed_def)
  qed
  have "map (\<lambda>n. unat (startOffset (nodeSpan n))) (nodes_in [root]) = map fst pqs"
  proof (rule nth_equalityI)
    show len: "length (map (\<lambda>n. unat (startOffset (nodeSpan n))) (nodes_in [root])) = length (map fst pqs)"
      using list_all2_lengthD [OF all] by (simp add: flat_def del: nodes_in.simps)
    fix i assume i: "i < length (map (\<lambda>n. unat (startOffset (nodeSpan n))) (nodes_in [root]))"
    obtain p q where pq: "pqs ! i = (p, q)" by (cases "pqs ! i")
    have "recorded b e (flat [root] ! i) p q"
      using list_all2_nthD [OF all, of i] i by (simp add: flat_def pq del: nodes_in.simps)
    moreover from this have "p < 2 ^ 64"
      using unit_inside [of b e p] assms(4) by (simp add: recorded_def start_tag_at_def)
    ultimately show "map (\<lambda>n. unat (startOffset (nodeSpan n))) (nodes_in [root]) ! i = map fst pqs ! i"
      using i len pq by (simp add: flat_def recorded_def unat_of_nat take_bit_nat_eq_self del: nodes_in.simps)
  qed
  then show ?thesis using nodes sorted by simp
qed

text \<open>A self-closed element, and the run of its two events.\<close>

lemma self_closed_run:
  "runEvents [StartElement (plain_element ''A''), EndElement] (initState ''<A/>'' SingleByte)
    = Inr ((initState ''<A/>'' SingleByte)\<lparr>cursor := 4, ls_root := Some (RawNode ''A'' [] []
        \<lparr>startOffset = 0, endOffset = 4, lineNumber = 1\<rparr> [])\<rparr>)"
  by (simp add: onStartElement_def scanStartTag_def requireAsciiName_def initState_def
      seek_start_tag.simps start_tag_end.simps skipSpecialUnit_def unitIs_def unitIsSpace_def
      unitAscii_def byteAt_def unitWidth_def char_code_def plain_element_def eventName_def
      qualifiedName_def eventAttributes_def startSpan_def lineNumberAt_def breaks8.simps
      onEndElement_def attach_def)

theorem loader_spans_are_tags_witness:
  "\<exists>p q. (\<lparr>startOffset = 0, endOffset = 4, lineNumber = 1\<rparr> :: raw_span)
       = \<lparr>startOffset = of_nat p, endOffset = of_nat q,
          lineNumber = of_nat (lineNumberAt ''<A/>'' SingleByte p)\<rparr>
     \<and> start_tag_at ''<A/>'' SingleByte p ''A'' \<and> p < q \<and> behind_bracket ''<A/>'' SingleByte q"
  using loader_spans_are_tags [OF self_closed_run] by (simp add: wholeTree_def initState_def)

section \<open>Where the scanner goes wrong\<close>

text \<open>
  A comment may start with \<open>>\<close> (XML allows it: only \<open>--\<close> is excluded inside). The scanner takes
  \<open><!-->\<close> for a whole comment, and what the comment holds for markup: the document element of this
  well-formed document is the second tag, and the recorded span is the one in the comment.
\<close>

definition bug_bytes :: string where
  "bug_bytes = ''<!--><A/>--><A/>''"

lemma comment_bug:
  "runEvents [StartElement (plain_element ''A''), EndElement] (initState bug_bytes SingleByte)
    = Inr ((initState bug_bytes SingleByte)\<lparr>cursor := 9, ls_root := Some (RawNode ''A'' [] []
        \<lparr>startOffset = 5, endOffset = 9, lineNumber = 1\<rparr> [])\<rparr>)"
  by (simp add: bug_bytes_def onStartElement_def scanStartTag_def requireAsciiName_def initState_def
      seek_start_tag.simps start_tag_end.simps skipSpecialUnit_def skipDelimited.simps unitIs_def
      unitIsSpace_def unitAscii_def byteAt_def unitWidth_def char_code_def plain_element_def eventName_def
      qualifiedName_def eventAttributes_def startSpan_def lineNumberAt_def breaks8.simps
      onEndElement_def attach_def)

text \<open>UTF-16 without a byte order mark, little-endian and big-endian, of a text in Latin-1.\<close>

definition utf16le :: "string \<Rightarrow> string" where
  "utf16le s = concat (map (\<lambda>c. [c, CHR 0x00]) s)"

definition utf16be :: "string \<Rightarrow> string" where
  "utf16be s = concat (map (\<lambda>c. [CHR 0x00, c]) s)"

lemma nth_utf16:
  "k < 2 * length s \<Longrightarrow> odd k \<Longrightarrow> utf16le s ! k = CHR 0x00"
  "k < 2 * length s \<Longrightarrow> even k \<Longrightarrow> utf16be s ! k = CHR 0x00"
proof -
  show "k < 2 * length s \<Longrightarrow> odd k \<Longrightarrow> utf16le s ! k = CHR 0x00"
  proof (induction s arbitrary: k)
    case (Cons c s)
    have "k = 1 \<or> k = Suc (Suc (k - 2)) \<and> odd (k - 2)" using Cons.prems(2) by presburger
    then show ?case using Cons.IH [of "k - 2"] Cons.prems by (auto simp: utf16le_def nth_Cons' numeral_2_eq_2)
  qed simp
  show "k < 2 * length s \<Longrightarrow> even k \<Longrightarrow> utf16be s ! k = CHR 0x00"
  proof (induction s arbitrary: k)
    case (Cons c s)
    have "k = 0 \<or> k = Suc (Suc (k - 2)) \<and> even (k - 2)" using Cons.prems(2) by presburger
    then show ?case using Cons.IH [of "k - 2"] Cons.prems by (auto simp: utf16be_def nth_Cons' numeral_2_eq_2)
  qed simp
qed

lemma length_utf16: "length (utf16le s) = 2 * length s" "length (utf16be s) = 2 * length s"
  by (induction s) (simp_all add: utf16le_def utf16be_def)

lemma no_key:
  assumes "\<And>k. k + 1 < length b \<Longrightarrow> b ! k = CHR 0x00 \<or> b ! (k + 1) = CHR 0x00"
  shows "declarationEncodingClass b = SingleByte"
proof -
  have "find_sub ''encoding'' (take 300 b) = None"
  proof (rule ccontr)
    assume "find_sub ''encoding'' (take 300 b) \<noteq> None"
    then obtain k where "starts_with (drop k (take 300 b)) ''encoding''" using find_sub_Some by blast
    from starts_with_nth [OF this, of 0] starts_with_nth [OF this, of 1] show False
      using assms [of k] by auto
  qed
  then show ?thesis by (simp add: declarationEncodingClass_def)
qed

lemma bom_less_utf16_missed:
  "detectEncodingClass (utf16le s) = Inr SingleByte" "detectEncodingClass (utf16be s) = Inr SingleByte"
proof -
  have n: "detectEncodingClass b = Inr SingleByte"
    if z: "\<And>k. k + 1 < length b \<Longrightarrow> b ! k = CHR 0x00 \<or> b ! (k + 1) = CHR 0x00" for b
  proof -
    have "byteAt b k = 0 \<or> byteAt b (k + 1) = 0" if "k + 1 < length b" for k
      using z [OF that] by (auto simp: byteAt_def)
    from this [of 0] this [of 2]
    have "\<not> startsWith b [x, y]" "\<not> startsWith b [0, 0, x, y]" "\<not> startsWith b [x, y, 0, 0]"
      if "x \<noteq> 0" "y \<noteq> 0" for x y
      using that by (auto simp: startsWith_def numeral_eq_Suc not_less_eq split: if_splits intro: ccontr)
    then show ?thesis using no_key [OF z] by (simp add: detectEncodingClass_def bomEncodingClass_def)
  qed
  have "utf16le s ! k = CHR 0x00 \<or> utf16le s ! (k + 1) = CHR 0x00"
      "utf16be s ! k = CHR 0x00 \<or> utf16be s ! (k + 1) = CHR 0x00" if "k + 1 < 2 * length s" for k
    using nth_utf16 [of k s] nth_utf16 [of "k + 1" s] that by (cases "even k"; simp)+
  then show "detectEncodingClass (utf16le s) = Inr SingleByte" "detectEncodingClass (utf16be s) = Inr SingleByte"
    by (intro n; simp add: length_utf16)+
qed
end
