(* ===== verification/NodeHeap.thy ===== *)
theory NodeHeap
  imports Loader
begin

text \<open>
  The raw tree as the C++ program holds it: \<open>RawNode\<close> objects at addresses, owning pointers to the children
  and a non-owning \<open>parent\<close> pointer (\<open>raw_node.hpp\<close>), and the operations that mutate them: the move of a
  node, which copies the children's parent pointers verbatim, \<open>relinkParents\<close> and the moves of
  \<open>RawDocument\<close> (\<open>raw_document.hpp\<close>), which repair them. \<open>placed\<close> is a tree together with the
  addresses of its nodes; \<open>linked_in\<close> says that a heap holds it with every parent pointer at its owner.
\<close>

section \<open>Objects at addresses\<close>

type_synonym addr = nat

record heap_node =
  hn_tagName :: string
  hn_attributes :: "(string \<times> string) list"
  hn_text :: string
  hn_span :: raw_span
  hn_parent :: "addr option"
  hn_children :: "addr list"

type_synonym node_heap = "addr \<rightharpoonup> heap_node"

text \<open>A default-constructed node; \<open>nullptr\<close> is \<open>None\<close>.\<close>

definition empty_node :: heap_node where
  "empty_node = \<lparr>hn_tagName = [], hn_attributes = [], hn_text = [], hn_span = no_span, hn_parent = None,
     hn_children = []\<rparr>"

text \<open>
  The generated move assignment, member by member. The strings and vectors of the source are left in a
  valid state the standard does not fix, apart from owning none of the moved children; here they are empty.
\<close>

definition moveNode :: "addr \<Rightarrow> addr \<Rightarrow> node_heap \<Rightarrow> node_heap option" where
  "moveNode dst src h =
    (case h src of
       None \<Rightarrow> None
     | Some n \<Rightarrow>
        Some (h(src \<mapsto> n\<lparr>hn_tagName := [], hn_attributes := [], hn_text := [], hn_children := []\<rparr>, dst \<mapsto> n)))"

text \<open>
  \<open>relinkParents\<close>, with its loop over the children as the second argument. The recursion follows the
  pointers it finds: \<open>None\<close> is a dangling pointer or a run that does not return.
\<close>

partial_function (option) relink_children :: "addr \<Rightarrow> addr list \<Rightarrow> node_heap \<Rightarrow> node_heap option" where
  "relink_children node cs h =
    (case cs of
       [] \<Rightarrow> Some h
     | child # rest \<Rightarrow>
        (case h child of
           None \<Rightarrow> None
         | Some c \<Rightarrow>
            Option.bind (relink_children child (hn_children c) (h(child \<mapsto> c\<lparr>hn_parent := Some node\<rparr>)))
              (relink_children node rest)))"

definition relinkParents :: "addr \<Rightarrow> node_heap \<Rightarrow> node_heap option" where
  "relinkParents node h = (case h node of None \<Rightarrow> None | Some n \<Rightarrow> relink_children node (hn_children n) h)"

text \<open>
  \<open>RawDocument\<close> has its own \<open>relink\<close>, with the same body. Its move constructor makes the document at \<open>dst\<close>,
  its move assignment leaves a document that is assigned to itself alone. A document is the address of
  its root.
\<close>

definition relink :: "addr \<Rightarrow> node_heap \<Rightarrow> node_heap option" where
  "relink node h = relinkParents node h"

definition moveDocument :: "addr \<Rightarrow> addr \<Rightarrow> node_heap \<Rightarrow> node_heap option" where
  "moveDocument dst src h = Option.bind (moveNode dst src h) (relink dst)"

definition assignDocument :: "addr \<Rightarrow> addr \<Rightarrow> node_heap \<Rightarrow> node_heap option" where
  "assignDocument dst src h = (if dst \<noteq> src then moveDocument dst src h else Some h)"

section \<open>Trees in a heap\<close>

datatype placed = Placed (place: addr) string "(string \<times> string) list" string raw_span "placed list"

fun below :: "placed \<Rightarrow> placed list" where
  "below (Placed a t as x s ks) = ks"

fun at_place :: "addr \<Rightarrow> placed \<Rightarrow> placed" where
  "at_place b (Placed a t as x s ks) = Placed b t as x s ks"

fun places_in :: "placed list \<Rightarrow> addr list" where
  "places_in [] = []"
| "places_in (Placed a t as x s ks # ts) = a # places_in ks @ places_in ts"

fun plain_in :: "placed list \<Rightarrow> raw_node list" where
  "plain_in [] = []"
| "plain_in (Placed a t as x s ks # ts) = RawNode t as x s (plain_in ks) # plain_in ts"

definition plain :: "placed \<Rightarrow> raw_node" where
  "plain t = hd (plain_in [t])"

text \<open>The heap holds these trees, whatever their parent pointers say; and with the right ones.\<close>

definition node_with :: "addr option \<Rightarrow> placed \<Rightarrow> heap_node" where
  "node_with par t = (case t of Placed a tag as x s ks \<Rightarrow>
     \<lparr>hn_tagName = tag, hn_attributes = as, hn_text = x, hn_span = s, hn_parent = par,
      hn_children = map place ks\<rparr>)"

fun owned_in :: "node_heap \<Rightarrow> placed list \<Rightarrow> bool" where
  "owned_in h [] = True"
| "owned_in h (Placed a t as x s ks # ts) \<longleftrightarrow>
    (\<exists>par. h a = Some (node_with par (Placed a t as x s ks))) \<and> owned_in h ks \<and> owned_in h ts"

fun linked_in :: "node_heap \<Rightarrow> addr option \<Rightarrow> placed list \<Rightarrow> bool" where
  "linked_in h par [] = True"
| "linked_in h par (Placed a t as x s ks # ts) \<longleftrightarrow>
    h a = Some (node_with par (Placed a t as x s ks)) \<and> linked_in h (Some a) ks \<and> linked_in h par ts"

text \<open>A document at \<open>d\<close> that stands for the tree \<open>root\<close>: no node is shared, and every link is right.\<close>

definition document_at :: "node_heap \<Rightarrow> addr \<Rightarrow> raw_node \<Rightarrow> bool" where
  "document_at h d root \<longleftrightarrow>
    (\<exists>t. place t = d \<and> plain t = root \<and> linked_in h None [t] \<and> distinct (places_in [t]))"

section \<open>Facts\<close>

lemma places_append: "places_in (ts @ us) = places_in ts @ places_in us"
  by (induction ts rule: places_in.induct) simp_all

lemma plain_append: "plain_in (ts @ us) = plain_in ts @ plain_in us"
  by (induction ts rule: plain_in.induct) simp_all

lemma linked_append: "linked_in h par (ts @ us) \<longleftrightarrow> linked_in h par ts \<and> linked_in h par us"
  by (induction h par ts rule: linked_in.induct) auto

lemma plain_Placed: "plain (Placed a t as x s ks) = RawNode t as x s (plain_in ks)"
  by (simp add: plain_def)

lemma plain_single: "plain_in [t] = [plain t]"
  by (cases t) (simp add: plain_def)

lemma place_in_places: "place ` set ts \<subseteq> set (places_in ts)"
  by (induction ts rule: places_in.induct) auto

lemma linked_owned: "linked_in h par ts \<Longrightarrow> owned_in h ts"
  by (induction h par ts rule: linked_in.induct) auto

text \<open>Both depend on the places of the trees alone.\<close>

lemma linked_frame: "linked_in h par ts \<Longrightarrow> (\<And>a. a \<in> set (places_in ts) \<Longrightarrow> h' a = h a) \<Longrightarrow> linked_in h' par ts"
  by (induction h par ts rule: linked_in.induct) auto

lemma owned_frame: "owned_in h ts \<Longrightarrow> (\<And>a. a \<in> set (places_in ts) \<Longrightarrow> h' a = h a) \<Longrightarrow> owned_in h' ts"
  by (induction h ts rule: owned_in.induct) auto

text \<open>The relinking of a list of children returns, gives every node below its owner as parent, and touches nothing else.\<close>

lemma relink_works:
  assumes "owned_in h ts" and "distinct (places_in ts)" and "node \<notin> set (places_in ts)"
  shows "\<exists>h'. relink_children node (map place ts) h = Some h' \<and> linked_in h' (Some node) ts
    \<and> (\<forall>a. a \<notin> set (places_in ts) \<longrightarrow> h' a = h a)"
  using assms
proof (induction ts arbitrary: h node rule: places_in.induct)
  case 1
  then show ?case by (simp add: relink_children.simps)
next
  case (2 a t as x s ks ts)
  let ?t = "Placed a t as x s ks"
  obtain par where a: "h a = Some (node_with par ?t)" "owned_in h ks" "owned_in h ts" using 2(3) by auto
  let ?h = "h(a \<mapsto> node_with (Some node) ?t)"
  have "owned_in ?h ks" using 2(4) by (intro owned_frame [OF a(2)]) auto
  then obtain h1 where h1: "relink_children a (map place ks) ?h = Some h1" "linked_in h1 (Some a) ks"
      "\<forall>b. b \<notin> set (places_in ks) \<longrightarrow> h1 b = ?h b"
    using 2(1) [of ?h a] 2(4) by (auto simp del: fun_upd_apply)
  have "owned_in h1 ts" using 2(4) h1(3) by (intro owned_frame [OF a(3)]) auto
  then obtain h2 where h2: "relink_children node (map place ts) h1 = Some h2" "linked_in h2 (Some node) ts"
      "\<forall>b. b \<notin> set (places_in ts) \<longrightarrow> h2 b = h1 b"
    using 2(2) [of h1 node] 2(4,5) by auto
  have "relink_children node (map place (?t # ts)) h = Some h2"
    using a(1) h1(1) h2(1) by (subst relink_children.simps) (simp add: node_with_def)
  moreover have "h2 a = Some (node_with (Some node) ?t)" using h1(3) h2(3) 2(4) by auto
  moreover have "linked_in h2 (Some a) ks" using h2(3) 2(4) by (intro linked_frame [OF h1(2)]) auto
  ultimately show ?case using h1(3) h2(2,3) by auto
qed

text \<open>A moved node: its contents at the new address, its children where they were.\<close>

lemma moveNode_Some:
  "moveNode dst src h = Some h' \<Longrightarrow> src \<noteq> dst \<Longrightarrow> h' dst = h src \<and> (\<forall>a. a \<noteq> src \<longrightarrow> a \<noteq> dst \<longrightarrow> h' a = h a)"
  by (auto simp: moveNode_def split: option.splits)

lemma moved_owned:
  assumes "owned_in h [t]" and "distinct (places_in [t])" and "dst \<notin> set (places_in [t])"
    and "moveNode dst (place t) h = Some h'"
  shows "owned_in h' [at_place dst t]"
proof -
  obtain a tag as x s ks where t: "t = Placed a tag as x s ks" by (cases t)
  have h': "h' dst = h a" "\<And>b. b \<noteq> a \<Longrightarrow> b \<noteq> dst \<Longrightarrow> h' b = h b"
    using moveNode_Some [OF assms(4)] assms(3) by (auto simp: t)
  have "owned_in h ks" using assms(1) by (simp add: t)
  moreover have "h' b = h b" if "b \<in> set (places_in ks)" for b
    using that assms(2,3) by (intro h'(2)) (auto simp: t)
  ultimately have "owned_in h' ks" by (rule owned_frame)
  then show ?thesis using assms(1) h'(1) by (auto simp: t node_with_def)
qed

lemma relink_document:
  assumes "owned_in h [t]" and "distinct (places_in [t])" and "h (place t) = Some (node_with None t)"
  shows "\<exists>h'. relinkParents (place t) h = Some h' \<and> linked_in h' None [t]
    \<and> (\<forall>a. a \<notin> set (places_in (below t)) \<longrightarrow> h' a = h a)"
proof -
  obtain a tag as x s ks where t: "t = Placed a tag as x s ks" by (cases t)
  obtain h' where h': "relink_children a (map place ks) h = Some h'" "linked_in h' (Some a) ks"
      "\<forall>b. b \<notin> set (places_in ks) \<longrightarrow> h' b = h b"
    using relink_works [of h ks a] assms(1,2) by (auto simp: t)
  then show ?thesis using assms(2,3) by (auto simp: t relinkParents_def node_with_def)
qed

lemma moved_root:
  assumes "linked_in h None [t]" and "distinct (places_in [t])" and "dst \<notin> set (places_in [t])"
  shows "\<exists>h'. moveDocument dst (place t) h = Some h' \<and> linked_in h' None [at_place dst t]
    \<and> distinct (places_in [at_place dst t])
    \<and> (\<exists>n. h' (place t) = Some n \<and> hn_children n = [])"
proof -
  obtain a tag as x s ks where t: "t = Placed a tag as x s ks" by (cases t)
  have root: "h a = Some (node_with None t)" using assms(1) by (simp add: t)
  then obtain h1 where h1: "moveNode dst a h = Some h1" by (simp add: moveNode_def)
  have "owned_in h1 [at_place dst t]"
    using moved_owned [OF linked_owned [OF assms(1)] assms(2,3)] h1 by (simp add: t)
  moreover have "distinct (places_in [at_place dst t])" using assms(2,3) by (simp add: t)
  moreover have "h1 dst = Some (node_with None (at_place dst t))"
    using h1 root by (auto simp: moveNode_def t node_with_def)
  ultimately obtain h' where h': "relinkParents dst h1 = Some h'" "linked_in h' None [at_place dst t]"
      "\<forall>b. b \<notin> set (places_in ks) \<longrightarrow> h' b = h1 b"
    using relink_document [of h1 "at_place dst t"] by (auto simp: t)
  have "h1 a = Some ((node_with None t)\<lparr>hn_tagName := [], hn_attributes := [], hn_text := [], hn_children := []\<rparr>)"
    using h1 root assms(3) by (auto simp: moveNode_def t)
  then have "h' a = Some ((node_with None t)\<lparr>hn_tagName := [], hn_attributes := [], hn_text := [], hn_children := []\<rparr>)"
    using h'(3) assms(2) by (simp add: t)
  then show ?thesis
    using h1 h'(1,2) assms(2,3) by (auto simp: t moveDocument_def relink_def)
qed

lemma plain_at_place: "plain (at_place d t) = plain t"
  by (cases t) (simp add: plain_Placed)

lemma linked_member: "linked_in h par ts \<Longrightarrow> t \<in> set ts \<Longrightarrow> h (place t) = Some (node_with par t)"
  by (induction h par ts rule: linked_in.induct) auto

text \<open>Without the relinking, the children of a moved node keep pointing at the object it was moved from.\<close>

lemma move_orphans:
  assumes "linked_in h par [t]" and "distinct (places_in [t])" and "dst \<notin> set (places_in [t])"
    and "moveNode dst (place t) h = Some h'" and "k \<in> set (below t)"
  shows "\<exists>n. h' (place k) = Some n \<and> hn_parent n = Some (place t)"
proof -
  obtain a tag as x s ks where t: "t = Placed a tag as x s ks" by (cases t)
  have k: "place k \<in> set (places_in ks)" using place_in_places assms(5) by (auto simp: t)
  have "h (place k) = Some (node_with (Some a) k)" using linked_member [of h "Some a" ks k] assms(1,5) by (simp add: t)
  moreover have "h' (place k) = h (place k)" using moveNode_Some [OF assms(4)] assms(2,3) k by (auto simp: t)
  ultimately show ?thesis by (cases k) (simp add: t node_with_def)
qed

end
