(* ===== verification/PointerLoader.thy ===== *)
theory PointerLoader
  imports NodeHeap
begin

text \<open>
  The loader's callbacks (\<open>src/loader.cpp\<close>) as they run on the heap of nodes: \<open>LoaderState\<close> holds raw pointers
  to the open elements, a start tag appends the new node to the innermost one at once, and the finished
  tree is moved into the document and relinked. The callbacks refine those of \<open>Loader\<close>, whose stack
  holds the open elements themselves, and no pointer they follow dangles.
\<close>

section \<open>The callbacks on pointers\<close>

text \<open>
  \<open>hs_next\<close> is the first address the allocator has not given out. Following a dangling pointer is undefined
  behaviour: the error \<open>BadPointer\<close>. The stack has the innermost open element, \<open>stack.back()\<close>, first.
\<close>

datatype heap_error = Thrown string | BadPointer addr

record heap_loader =
  hs_fileBytes :: string
  hs_encoding :: raw_encoding
  hs_cursor :: nat
  hs_heap :: node_heap
  hs_next :: addr
  hs_stack :: "addr list"
  hs_root :: "addr option"

definition h_initState :: "string \<Rightarrow> raw_encoding \<Rightarrow> heap_loader" where
  "h_initState bytes encoding = \<lparr>hs_fileBytes = bytes, hs_encoding = encoding, hs_cursor = 0,
     hs_heap = Map.empty, hs_next = 0, hs_stack = [], hs_root = None\<rparr>"

definition h_newNode :: "start_args \<Rightarrow> start_tag_bounds \<Rightarrow> heap_loader \<Rightarrow> heap_node" where
  "h_newNode args bounds st = empty_node\<lparr>hn_tagName := eventName args, hn_attributes := eventAttributes args,
     hn_span := \<lparr>startOffset = of_nat (openPos bounds),
       endOffset = of_nat (if selfClosed bounds then tagEndPos bounds else openPos bounds),
       lineNumber = of_nat (lineNumberAt (hs_fileBytes st) (hs_encoding st) (openPos bounds))\<rparr>\<rparr>"

text \<open>A second top-level element is freed again when its owner goes out of scope.\<close>

definition h_onStartElement :: "start_args \<Rightarrow> heap_loader \<Rightarrow> heap_error + heap_loader" where
  "h_onStartElement args st =
    (case scanStartTag (hs_fileBytes st) (hs_encoding st) (hs_cursor st) (eventName args) of
       Inl e \<Rightarrow> Inl (Thrown e)
     | Inr bounds \<Rightarrow>
        (let node = h_newNode args bounds st; fresh = hs_next st; h = hs_heap st;
             st' = st\<lparr>hs_cursor := tagEndPos bounds\<rparr>
         in case hs_stack st of
              [] \<Rightarrow>
               (if hs_root st = None
                then Inr (st'\<lparr>hs_heap := h(fresh \<mapsto> node), hs_next := fresh + 1, hs_root := Some fresh,
                       hs_stack := [fresh]\<rparr>)
                else Inr st')
            | back # _ \<Rightarrow>
               (case h back of
                  None \<Rightarrow> Inl (BadPointer back)
                | Some owner \<Rightarrow>
                   Inr (st'\<lparr>hs_heap := h(fresh \<mapsto> node\<lparr>hn_parent := Some back\<rparr>,
                            back \<mapsto> owner\<lparr>hn_children := hn_children owner @ [fresh]\<rparr>),
                          hs_next := fresh + 1, hs_stack := fresh # hs_stack st\<rparr>))))"

definition h_onCharacters :: "string \<Rightarrow> heap_loader \<Rightarrow> heap_error + heap_loader" where
  "h_onCharacters chars st =
    (if chars = [] then Inr st
     else case hs_stack st of
       [] \<Rightarrow> Inr st
     | back # _ \<Rightarrow>
        (case hs_heap st back of
           None \<Rightarrow> Inl (BadPointer back)
         | Some n \<Rightarrow> Inr (st\<lparr>hs_heap := (hs_heap st)(back \<mapsto> n\<lparr>hn_text := hn_text n @ chars\<rparr>)\<rparr>)))"

definition h_onEndElement :: "heap_loader \<Rightarrow> heap_error + heap_loader" where
  "h_onEndElement st =
    (case hs_stack st of
       [] \<Rightarrow> Inr st
     | node # rest \<Rightarrow>
        (let st' = st\<lparr>hs_stack := rest\<rparr> in
         case hs_heap st node of
           None \<Rightarrow> Inl (BadPointer node)
         | Some n \<Rightarrow>
            (if endOffset (hn_span n) = startOffset (hn_span n)
             then (case scanEndTag (hs_fileBytes st) (hs_encoding st) (hs_cursor st) (hn_tagName n) of
                     Inl e \<Rightarrow> Inl (Thrown e)
                   | Inr pos \<Rightarrow>
                      Inr (st'\<lparr>hs_heap := (hs_heap st)(node \<mapsto>
                               n\<lparr>hn_span := (hn_span n)\<lparr>endOffset := of_nat pos\<rparr>\<rparr>),
                             hs_cursor := pos\<rparr>))
             else Inr st')))"

fun h_onEvent :: "sax_event \<Rightarrow> heap_loader \<Rightarrow> heap_error + heap_loader" where
  "h_onEvent (StartElement args) st = h_onStartElement args st"
| "h_onEvent (Characters chars) st = h_onCharacters chars st"
| "h_onEvent EndElement st = h_onEndElement st"

fun h_runEvents :: "sax_event list \<Rightarrow> heap_loader \<Rightarrow> heap_error + heap_loader" where
  "h_runEvents [] st = Inr st"
| "h_runEvents (ev # evs) st = (case h_onEvent ev st of Inl e \<Rightarrow> Inl e | Inr st' \<Rightarrow> h_runEvents evs st')"

text \<open>
  The end of \<open>loadRawDocumentFromMemory\<close>: a document with an empty root is made at a fresh address, the tree
  is moved into it and relinked. \<open>None\<close> in the result would be a bad pointer on the way.
\<close>

definition h_finish :: "addr \<Rightarrow> heap_loader \<Rightarrow> (node_heap \<times> addr) option" where
  "h_finish source st =
    (let document = hs_next st in
     map_option (\<lambda>h. (h, document))
       (Option.bind (moveNode document source ((hs_heap st)(document \<mapsto> empty_node))) (relinkParents document)))"

definition h_loadRawDocumentFromMemory ::
  "xml_parser \<Rightarrow> string \<Rightarrow> fpath \<Rightarrow> load_error + (node_heap \<times> addr) option" where
  "h_loadRawDocumentFromMemory parser bytes displayPath =
    (case detectEncodingClass bytes of
       Inl e \<Rightarrow> Inl (RuntimeError e)
     | Inr enc \<Rightarrow>
        (let narrowPath = path_string displayPath in
         case parser bytes (size_as_int (length bytes)) narrowPath of
           None \<Rightarrow> Inl (RuntimeError (''parsex: cannot create parser context for: '' @ narrowPath))
         | Some outcome \<Rightarrow>
            (case h_runEvents (po_events outcome) (h_initState bytes enc) of
               Inl (Thrown e) \<Rightarrow> Inl (RuntimeError e)
             | Inl (BadPointer a) \<Rightarrow> Inr None
             | Inr st \<Rightarrow>
                (if \<not> po_wellFormed outcome
                 then Inl (ParseError Syntax displayPath
                        (syntaxDetail (fold onLibxmlError (po_errors outcome) no_capture)))
                 else case hs_root st of
                   None \<Rightarrow> Inl (RuntimeError (''parsex: no document element in: '' @ narrowPath))
                 | Some source \<Rightarrow> Inr (h_finish source st)))))"

section \<open>The open elements\<close>

text \<open>
  A frame is an open element's address with its closed children. \<open>chain\<close> relates the frames to the stack of the
  tree-level loader: the element's node has the closed children and then the address of the next
  inner open element, and its parent is the next outer one.
\<close>

type_synonym frame_at = "addr \<times> placed list"

definition outer :: "frame_at list \<Rightarrow> addr option" where
  "outer fs = (case fs of [] \<Rightarrow> None | f # _ \<Rightarrow> Some (fst f))"

fun chain :: "node_heap \<Rightarrow> addr list \<Rightarrow> frame_at list \<Rightarrow> raw_node list \<Rightarrow> bool" where
  "chain h inner [] [] = True"
| "chain h inner ((a, ts) # fs) (RawNode t as x s ks # ns) \<longleftrightarrow>
    h a = Some \<lparr>hn_tagName = t, hn_attributes = as, hn_text = x, hn_span = s, hn_parent = outer fs,
      hn_children = map place ts @ inner\<rparr>
    \<and> plain_in ts = ks \<and> linked_in h (Some a) ts \<and> chain h [a] fs ns"
| "chain h inner fs ns = False"

fun frame_places :: "frame_at list \<Rightarrow> addr list" where
  "frame_places [] = []"
| "frame_places ((a, ts) # fs) = a # places_in ts @ frame_places fs"

text \<open>What the closed part of the state is: nothing, or the finished tree.\<close>

fun closed_root :: "node_heap \<Rightarrow> addr option \<Rightarrow> placed list \<Rightarrow> raw_node option \<Rightarrow> bool" where
  "closed_root h root [] r \<longleftrightarrow> root = None \<and> r = None"
| "closed_root h root [t] r \<longleftrightarrow> root = Some (place t) \<and> r = Some (plain t) \<and> linked_in h None [t]"
| "closed_root h root ts r = False"

definition simulates :: "heap_loader \<Rightarrow> loader_state \<Rightarrow> bool" where
  "simulates hs ls \<longleftrightarrow> hs_fileBytes hs = fileBytes ls \<and> hs_encoding hs = ls_encoding ls \<and> hs_cursor hs = cursor ls
    \<and> (\<exists>fs ts. hs_stack hs = map fst fs \<and> chain (hs_heap hs) [] fs (ls_stack ls)
        \<and> distinct (frame_places fs @ places_in ts)
        \<and> (\<forall>a \<in> set (frame_places fs @ places_in ts). a < hs_next hs)
        \<and> (if fs = [] then closed_root (hs_heap hs) (hs_root hs) ts (ls_root ls)
           else ts = [] \<and> ls_root ls = None \<and> hs_root hs = Some (fst (last fs))))"

lemma chain_frame:
  "chain h inner fs ns \<Longrightarrow> (\<And>a. a \<in> set (frame_places fs) \<Longrightarrow> h' a = h a) \<Longrightarrow> chain h' inner fs ns"
proof (induction h inner fs ns rule: chain.induct)
  case (2 h inner a ts fs t as x s ks ns)
  have "linked_in h' (Some a) ts" by (rule linked_frame [of h]) (insert 2(2,3), simp_all)
  moreover have "chain h' [a] fs ns" using 2 by simp
  ultimately show ?case using 2(2,3) by simp
qed simp_all

lemma chain_Cons:
  assumes "chain h inner fs (RawNode t as x s ks # ns)"
  obtains a ts gs where "fs = (a, ts) # gs" "plain_in ts = ks" "linked_in h (Some a) ts" "chain h [a] gs ns"
    "h a = Some \<lparr>hn_tagName = t, hn_attributes = as, hn_text = x, hn_span = s, hn_parent = outer gs,
      hn_children = map place ts @ inner\<rparr>"
  using assms by (cases fs) auto

lemma chain_Nil: "chain h inner fs [] \<longleftrightarrow> fs = []"
  by (cases fs) auto

section \<open>Every callback keeps the relation\<close>

lemma simulates_init: "simulates (h_initState bytes enc) (initState bytes enc)"
  unfolding simulates_def h_initState_def initState_def
  by simp (rule exI [of _ "[]"], simp)

text \<open>Replacing the contents of the innermost node, with the same children and parent.\<close>

lemma chain_update:
  assumes "chain h [] ((a, ts) # gs) (RawNode t as x s ks # ns)" and "distinct (frame_places ((a, ts) # gs))"
  shows "chain (h(a \<mapsto> \<lparr>hn_tagName = t', hn_attributes = as', hn_text = x', hn_span = s', hn_parent = outer gs,
      hn_children = map place ts\<rparr>)) [] ((a, ts) # gs) (RawNode t' as' x' s' ks # ns)"
proof -
  let ?h = "h(a \<mapsto> \<lparr>hn_tagName = t', hn_attributes = as', hn_text = x', hn_span = s', hn_parent = outer gs,
      hn_children = map place ts\<rparr>)"
  have "linked_in ?h (Some a) ts" by (rule linked_frame [of h]) (insert assms, auto)
  moreover have "chain ?h [a] gs ns" by (rule chain_frame [of h]) (insert assms, auto)
  ultimately show ?thesis using assms(1) by simp
qed

text \<open>Opening a node under the innermost one.\<close>

lemma chain_open:
  assumes c: "chain h [] ((a, ts) # gs) (RawNode t as x s ks # ns)" and d: "distinct (frame_places ((a, ts) # gs))"
    and fresh: "b \<notin> set (frame_places ((a, ts) # gs))"
    and h': "h' = h(b \<mapsto> \<lparr>hn_tagName = t', hn_attributes = as', hn_text = [], hn_span = s', hn_parent = Some a,
      hn_children = []\<rparr>, a \<mapsto> \<lparr>hn_tagName = t, hn_attributes = as, hn_text = x, hn_span = s, hn_parent = outer gs,
      hn_children = map place ts @ [b]\<rparr>)"
  shows "chain h' [] ((b, []) # (a, ts) # gs) (RawNode t' as' [] s' [] # RawNode t as x s ks # ns)"
proof -
  have "linked_in h' (Some a) ts" by (rule linked_frame [of h]) (insert c d fresh, auto simp: h')
  moreover have "chain h' [a] gs ns" by (rule chain_frame [of h]) (insert c d fresh, auto simp: h')
  ultimately show ?thesis using c fresh by (simp add: h' outer_def)
qed

text \<open>Closing it: the frame becomes a tree among the children of the next one.\<close>

lemma chain_close:
  assumes "chain h [] ((b, us) # (a, ts) # gs) (RawNode t' as' x' s' ks' # RawNode t as x s ks # ns)"
  shows "chain h [] ((a, ts @ [Placed b t' as' x' s' us]) # gs) (RawNode t as x s (ks @ [RawNode t' as' x' s' ks']) # ns)"
  using assms by (simp add: plain_append linked_append node_with_def outer_def)

lemma frame_places_close:
  "mset (frame_places ((a, ts @ [Placed b t as x s us]) # gs)) = mset (frame_places ((b, us) # (a, ts) # gs))"
  by (simp add: places_append)

fun agrees :: "heap_error + heap_loader \<Rightarrow> string + loader_state \<Rightarrow> bool" where
  "agrees (Inl (Thrown e)) (Inl e') \<longleftrightarrow> e = e'"
| "agrees (Inr hs) (Inr ls) \<longleftrightarrow> simulates hs ls"
| "agrees r r' = False"

lemma simulates_Nil:
  "ls_stack ls = [] \<Longrightarrow> simulates hs ls \<longleftrightarrow> hs_fileBytes hs = fileBytes ls \<and> hs_encoding hs = ls_encoding ls
    \<and> hs_cursor hs = cursor ls \<and> hs_stack hs = []
    \<and> (\<exists>ts. distinct (places_in ts) \<and> (\<forall>a \<in> set (places_in ts). a < hs_next hs)
        \<and> closed_root (hs_heap hs) (hs_root hs) ts (ls_root ls))"
  by (auto simp: simulates_def chain_Nil)

lemma simulates_Cons:
  assumes "simulates hs ls" and "ls_stack ls = RawNode t as x s ks # ns"
  obtains a ts gs where "hs_stack hs = a # map fst gs" "chain (hs_heap hs) [] ((a, ts) # gs) (ls_stack ls)"
    "distinct (frame_places ((a, ts) # gs))" "\<forall>b \<in> set (frame_places ((a, ts) # gs)). b < hs_next hs"
    "ls_root ls = None" "hs_root hs = Some (fst (last ((a, ts) # gs)))"
proof -
  obtain fs ts where f: "hs_stack hs = map fst fs" "chain (hs_heap hs) [] fs (ls_stack ls)"
      "distinct (frame_places fs @ places_in ts)" "\<forall>a \<in> set (frame_places fs @ places_in ts). a < hs_next hs"
      "if fs = [] then closed_root (hs_heap hs) (hs_root hs) ts (ls_root ls)
           else ts = [] \<and> ls_root ls = None \<and> hs_root hs = Some (fst (last fs))"
    using assms(1) by (auto simp: simulates_def)
  obtain a us gs where fs: "fs = (a, us) # gs" using f(2) assms(2) by (metis chain_Cons)
  show thesis using f that [of a gs us] by (simp add: fs)
qed

lemma simulatesI:
  assumes "hs_fileBytes hs = fileBytes ls" "hs_encoding hs = ls_encoding ls" "hs_cursor hs = cursor ls"
    and "hs_stack hs = a # map fst gs" "chain (hs_heap hs) [] ((a, ts) # gs) (ls_stack ls)"
    and "distinct (frame_places ((a, ts) # gs))" "\<forall>b \<in> set (frame_places ((a, ts) # gs)). b < hs_next hs"
    and "ls_root ls = None" "hs_root hs = Some (fst (last ((a, ts) # gs)))"
  shows "simulates hs ls"
  unfolding simulates_def using assms
  by (intro conjI exI [of _ "(a, ts) # gs"] exI [of _ "[]"]) simp_all

lemma simulates_fields:
  "simulates hs ls \<Longrightarrow> hs_fileBytes hs = fileBytes ls \<and> hs_encoding hs = ls_encoding ls \<and> hs_cursor hs = cursor ls"
  by (simp add: simulates_def)

lemma characters_agree:
  assumes "simulates hs ls"
  shows "agrees (h_onCharacters chars hs) (Inr (onCharacters chars ls))"
proof (cases "chars = []")
  case True
  then show ?thesis using assms by (simp add: h_onCharacters_def onCharacters_def)
next
  case chars: False
  show ?thesis
  proof (cases "ls_stack ls")
    case Nil
    then show ?thesis using assms chars by (simp add: h_onCharacters_def onCharacters_def simulates_Nil)
  next
    case (Cons n ns)
    obtain t as x s ks where n: "n = RawNode t as x s ks" by (cases n)
    obtain a ts gs where sim: "hs_stack hs = a # map fst gs" "chain (hs_heap hs) [] ((a, ts) # gs) (ls_stack ls)"
        "distinct (frame_places ((a, ts) # gs))" "\<forall>b \<in> set (frame_places ((a, ts) # gs)). b < hs_next hs"
        "ls_root ls = None" "hs_root hs = Some (fst (last ((a, ts) # gs)))"
      by (rule simulates_Cons [OF assms Cons [unfolded n]])
    note c = sim(2) [unfolded Cons n]
    have a: "hs_heap hs a = Some \<lparr>hn_tagName = t, hn_attributes = as, hn_text = x, hn_span = s,
        hn_parent = outer gs, hn_children = map place ts\<rparr>" using c by simp
    have "simulates (hs\<lparr>hs_heap := (hs_heap hs)(a \<mapsto> \<lparr>hn_tagName = t, hn_attributes = as, hn_text = x @ chars,
        hn_span = s, hn_parent = outer gs, hn_children = map place ts\<rparr>)\<rparr>)
      (ls\<lparr>ls_stack := RawNode t as (x @ chars) s ks # ns\<rparr>)"
      using sim simulates_fields [OF assms] chain_update [OF c sim(3)] by (intro simulatesI) simp_all
    then show ?thesis by (simp add: h_onCharacters_def onCharacters_def Cons n chars sim(1) a)
  qed
qed

lemma start_agree:
  assumes "simulates hs ls"
  shows "agrees (h_onStartElement args hs) (onStartElement args ls)"
proof (cases "scanStartTag (fileBytes ls) (ls_encoding ls) (cursor ls) (eventName args)")
  case (Inl e)
  then show ?thesis using simulates_fields [OF assms] by (simp add: h_onStartElement_def onStartElement_def)
next
  case scan: (Inr bounds)
  note fields = simulates_fields [OF assms]
  let ?node = "RawNode (eventName args) (eventAttributes args) [] (startSpan ls bounds) []"
  have new: "h_newNode args bounds hs = \<lparr>hn_tagName = eventName args, hn_attributes = eventAttributes args,
      hn_text = [], hn_span = startSpan ls bounds, hn_parent = None, hn_children = []\<rparr>"
    using fields by (simp add: h_newNode_def empty_node_def startSpan_def)
  show ?thesis
  proof (cases "ls_stack ls")
    case Nil
    then obtain ts where sim: "hs_stack hs = []" "distinct (places_in ts)" "\<forall>a \<in> set (places_in ts). a < hs_next hs"
        "closed_root (hs_heap hs) (hs_root hs) ts (ls_root ls)"
      using assms by (auto simp: simulates_Nil)
    have none: "hs_root hs = None \<longleftrightarrow> ls_root ls = None"
      using sim(4) by (cases "(hs_heap hs, hs_root hs, ts, ls_root ls)" rule: closed_root.cases) auto
    show ?thesis
    proof (cases "ls_root ls")
      case None
      have "simulates (hs\<lparr>hs_cursor := tagEndPos bounds,
          hs_heap := (hs_heap hs)(hs_next hs \<mapsto> h_newNode args bounds hs), hs_next := hs_next hs + 1,
          hs_root := Some (hs_next hs), hs_stack := [hs_next hs]\<rparr>)
        (ls\<lparr>cursor := tagEndPos bounds, ls_stack := [?node]\<rparr>)"
        using fields None
        by (intro simulatesI [where a = "hs_next hs" and gs = "[]" and ts = "[]"]) (simp_all add: new outer_def)
      then show ?thesis
        using none None fields by (simp add: h_onStartElement_def onStartElement_def scan Nil sim(1) Let_def)
    next
      case (Some r)
      have "simulates (hs\<lparr>hs_cursor := tagEndPos bounds\<rparr>) (ls\<lparr>cursor := tagEndPos bounds\<rparr>)"
        using Nil fields sim by (auto simp: simulates_Nil)
      then show ?thesis
        using none Some fields by (auto simp: h_onStartElement_def onStartElement_def scan Nil sim(1) Let_def)
    qed
  next
    case (Cons n ns)
    obtain t as x s ks where n: "n = RawNode t as x s ks" by (cases n)
    obtain a ts gs where sim: "hs_stack hs = a # map fst gs" "chain (hs_heap hs) [] ((a, ts) # gs) (ls_stack ls)"
        "distinct (frame_places ((a, ts) # gs))" "\<forall>b \<in> set (frame_places ((a, ts) # gs)). b < hs_next hs"
        "ls_root ls = None" "hs_root hs = Some (fst (last ((a, ts) # gs)))"
      by (rule simulates_Cons [OF assms Cons [unfolded n]])
    note c = sim(2) [unfolded Cons n]
    have a: "hs_heap hs a = Some \<lparr>hn_tagName = t, hn_attributes = as, hn_text = x, hn_span = s,
        hn_parent = outer gs, hn_children = map place ts\<rparr>" using c by simp
    have fresh: "hs_next hs \<notin> set (frame_places ((a, ts) # gs))" using sim(4) by blast
    have "simulates (hs\<lparr>hs_cursor := tagEndPos bounds,
        hs_heap := (hs_heap hs)(hs_next hs \<mapsto> (h_newNode args bounds hs)\<lparr>hn_parent := Some a\<rparr>,
          a \<mapsto> \<lparr>hn_tagName = t, hn_attributes = as, hn_text = x, hn_span = s, hn_parent = outer gs,
            hn_children = map place ts @ [hs_next hs]\<rparr>),
        hs_next := hs_next hs + 1, hs_stack := hs_next hs # hs_stack hs\<rparr>)
      (ls\<lparr>cursor := tagEndPos bounds, ls_stack := ?node # ls_stack ls\<rparr>)"
    proof (rule simulatesI [where a = "hs_next hs" and gs = "(a, ts) # gs" and ts = "[]"], goal_cases)
      case 5
      show ?case
        using chain_open [OF c sim(3) fresh refl, of "eventName args" "eventAttributes args" "startSpan ls bounds"]
        by (simp add: new Cons n del: chain.simps fun_upd_apply)
    qed (use fields sim fresh in \<open>auto simp: less_Suc_eq\<close>)
    then show ?thesis
      using fields by (simp add: h_onStartElement_def onStartElement_def scan Cons sim(1) a Let_def)
  qed
qed

text \<open>Closing the innermost element, with any span.\<close>

lemma close_simulates:
  assumes "hs_fileBytes hs = fileBytes ls" "hs_encoding hs = ls_encoding ls" "hs_cursor hs = cursor ls"
    and c: "chain (hs_heap hs) [] ((a, ts) # gs) (RawNode t as x s ks # ns)"
    and d: "distinct (frame_places ((a, ts) # gs))" and new: "\<forall>b \<in> set (frame_places ((a, ts) # gs)). b < hs_next hs"
    and "ls_root ls = None" and r: "hs_root hs = Some (fst (last ((a, ts) # gs)))"
    and st: "hs_stack hs = map fst gs"
  shows "simulates hs (attach (RawNode t as x s ks) ns ls)"
proof (cases ns)
  case Nil
  then have "gs = []" using c by (simp add: chain_Nil)
  then show ?thesis
    using assms Nil
    by (auto simp: attach_def simulates_Nil plain_Placed outer_def node_with_def intro!: exI [of _ "[Placed a t as x s ts]"])
next
  case (Cons n ms)
  obtain t' as' x' s' ks' where n: "n = RawNode t' as' x' s' ks'" by (cases n)
  obtain b us hs' where gs: "gs = (b, us) # hs'" using c by (auto simp: Cons n elim: chain_Cons)
  have "mset (frame_places ((b, us @ [Placed a t as x s ts]) # hs')) = mset (frame_places ((a, ts) # gs))"
    unfolding gs by (rule frame_places_close)
  then have "distinct (frame_places ((b, us @ [Placed a t as x s ts]) # hs'))"
      "set (frame_places ((b, us @ [Placed a t as x s ts]) # hs')) = set (frame_places ((a, ts) # gs))"
    using d mset_eq_imp_distinct_iff mset_eq_setD by blast+
  then show ?thesis
    using assms chain_close [of "hs_heap hs" a ts b us hs' t as x s ks t' as' x' s' ks' ms]
    by (intro simulatesI [where a = b and gs = hs' and ts = "us @ [Placed a t as x s ts]"])
      (simp_all add: attach_def Cons n gs)
qed

lemma end_agree:
  assumes "simulates hs ls"
  shows "agrees (h_onEndElement hs) (onEndElement ls)"
proof (cases "ls_stack ls")
  case Nil
  then show ?thesis using assms by (simp add: h_onEndElement_def onEndElement_def simulates_Nil)
next
  case (Cons n ns)
  note fields = simulates_fields [OF assms]
  obtain t as x s ks where n: "n = RawNode t as x s ks" by (cases n)
  obtain a ts gs where sim: "hs_stack hs = a # map fst gs" "chain (hs_heap hs) [] ((a, ts) # gs) (ls_stack ls)"
      "distinct (frame_places ((a, ts) # gs))" "\<forall>b \<in> set (frame_places ((a, ts) # gs)). b < hs_next hs"
      "ls_root ls = None" "hs_root hs = Some (fst (last ((a, ts) # gs)))"
    by (rule simulates_Cons [OF assms Cons [unfolded n]])
  note c = sim(2) [unfolded Cons n]
  have a: "hs_heap hs a = Some \<lparr>hn_tagName = t, hn_attributes = as, hn_text = x, hn_span = s,
      hn_parent = outer gs, hn_children = map place ts\<rparr>" using c by simp
  show ?thesis
  proof (cases "endOffset s = startOffset s")
    case False
    have "simulates (hs\<lparr>hs_stack := map fst gs\<rparr>) (attach (RawNode t as x s ks) ns ls)"
      using fields sim c by (intro close_simulates [where a = a and ts = ts and gs = gs]) simp_all
    then show ?thesis using False by (simp add: h_onEndElement_def onEndElement_def Cons n sim(1) a)
  next
    case True
    show ?thesis
    proof (cases "scanEndTag (fileBytes ls) (ls_encoding ls) (cursor ls) t")
      case (Inl e)
      then show ?thesis using True fields by (simp add: h_onEndElement_def onEndElement_def Cons n sim(1) a)
    next
      case (Inr pos)
      let ?h = "(hs_heap hs)(a \<mapsto> \<lparr>hn_tagName = t, hn_attributes = as, hn_text = x,
          hn_span = s\<lparr>endOffset := of_nat pos\<rparr>, hn_parent = outer gs, hn_children = map place ts\<rparr>)"
      have "simulates (hs\<lparr>hs_stack := map fst gs, hs_heap := ?h, hs_cursor := pos\<rparr>)
          (attach (RawNode t as x (s\<lparr>endOffset := of_nat pos\<rparr>) ks) ns (ls\<lparr>cursor := pos\<rparr>))"
        using fields sim chain_update [OF c sim(3), of t as x "s\<lparr>endOffset := of_nat pos\<rparr>"]
        by (intro close_simulates [where a = a and ts = ts and gs = gs]) simp_all
      then show ?thesis using True Inr fields by (simp add: h_onEndElement_def onEndElement_def Cons n sim(1) a)
    qed
  qed
qed

lemma event_agree: "simulates hs ls \<Longrightarrow> agrees (h_onEvent ev hs) (onEvent ev ls)"
  by (cases ev) (simp_all add: start_agree characters_agree end_agree)

lemma run_agree: "simulates hs ls \<Longrightarrow> agrees (h_runEvents evs hs) (runEvents evs ls)"
proof (induction evs arbitrary: hs ls)
  case Nil
  then show ?case by simp
next
  case (Cons ev evs)
  show ?case
    using event_agree [OF Cons.prems, of ev] Cons.IH
    by (cases "(h_onEvent ev hs, onEvent ev ls)" rule: agrees.cases) auto
qed

section \<open>The finished tree\<close>

lemma chain_whole:
  assumes "linked_in h (outer fs) [t]" and "chain h [place t] fs ns"
  shows "\<exists>t'. linked_in h None [t'] \<and> plain t' = fold (\<lambda>below inner. addChild inner below) ns (plain t)
    \<and> place t' = (if fs = [] then place t else fst (last fs))
    \<and> mset (places_in [t']) = mset (places_in [t]) + mset (frame_places fs)"
  using assms
proof (induction fs arbitrary: t ns)
  case Nil
  then have "ns = []" by (cases ns) auto
  then show ?case using Nil by (intro exI [of _ t]) (simp add: outer_def)
next
  case (Cons f fs)
  obtain a ts where f: "f = (a, ts)" by (cases f)
  obtain tag as x s ks ms where ns: "ns = RawNode tag as x s ks # ms"
    using Cons.prems(2) by (cases "(h, [place t], f # fs, ns)" rule: chain.cases) (auto simp: f)
  let ?u = "Placed a tag as x s (ts @ [t])"
  have c: "h a = Some (node_with (outer fs) ?u)" "plain_in ts = ks" "linked_in h (Some a) ts" "chain h [a] fs ms"
    using Cons.prems(2) by (simp_all add: f ns node_with_def)
  have "linked_in h (outer fs) [?u]" using c Cons.prems(1) by (simp add: linked_append outer_def f)
  moreover have "chain h [place ?u] fs ms" using c(4) by simp
  ultimately obtain t' where t': "linked_in h None [t']"
      "plain t' = fold (\<lambda>below inner. addChild inner below) ms (plain ?u)"
      "place t' = (if fs = [] then place ?u else fst (last fs))"
      "mset (places_in [t']) = mset (places_in [?u]) + mset (frame_places fs)"
    using Cons.IH [of ?u ms] by blast
  have "plain ?u = addChild (plain t) (RawNode tag as x s ks)"
    using c(2) by (simp add: plain_Placed plain_append plain_single)
  moreover have "mset (places_in [?u]) + mset (frame_places fs) = mset (places_in [t]) + mset (frame_places (f # fs))"
    by (simp add: f places_append)
  ultimately show ?case using t' by (intro exI [of _ t']) (simp add: ns f)
qed

lemma whole_tree:
  assumes "simulates hs ls"
  shows "case wholeTree ls of None \<Rightarrow> hs_root hs = None
    | Some root \<Rightarrow> \<exists>t. hs_root hs = Some (place t) \<and> plain t = root \<and> linked_in (hs_heap hs) None [t]
        \<and> distinct (places_in [t]) \<and> hs_next hs \<notin> set (places_in [t])"
proof (cases "ls_stack ls")
  case Nil
  obtain ts where "distinct (places_in ts)" "\<forall>a \<in> set (places_in ts). a < hs_next hs"
      "closed_root (hs_heap hs) (hs_root hs) ts (ls_root ls)"
    using assms Nil by (auto simp: simulates_Nil)
  then show ?thesis
    using Nil by (cases "(hs_heap hs, hs_root hs, ts, ls_root ls)" rule: closed_root.cases) (auto simp: wholeTree_def)
next
  case (Cons n ns)
  obtain t as x s ks where n: "n = RawNode t as x s ks" by (cases n)
  obtain a ts gs where sim: "hs_stack hs = a # map fst gs" "chain (hs_heap hs) [] ((a, ts) # gs) (ls_stack ls)"
      "distinct (frame_places ((a, ts) # gs))" "\<forall>b \<in> set (frame_places ((a, ts) # gs)). b < hs_next hs"
      "ls_root ls = None" "hs_root hs = Some (fst (last ((a, ts) # gs)))"
    by (rule simulates_Cons [OF assms Cons [unfolded n]])
  let ?u = "Placed a t as x s ts"
  have "linked_in (hs_heap hs) (outer gs) [?u]" "chain (hs_heap hs) [place ?u] gs ns" "plain ?u = n"
    using sim(2) by (simp_all add: Cons n node_with_def plain_Placed)
  then obtain t' where t': "linked_in (hs_heap hs) None [t']"
      "plain t' = fold (\<lambda>below inner. addChild inner below) ns n"
      "place t' = (if gs = [] then a else fst (last gs))"
      "mset (places_in [t']) = mset (places_in [?u]) + mset (frame_places gs)"
    using chain_whole [of "hs_heap hs" gs ?u ns] by auto
  have m: "mset (places_in [t']) = mset (frame_places ((a, ts) # gs))" using t'(4) by simp
  have "distinct (places_in [t'])" using sim(3) mset_eq_imp_distinct_iff [OF m] by blast
  moreover have "hs_next hs \<notin> set (places_in [t'])" using sim(4) mset_eq_setD [OF m] by blast
  moreover have "wholeTree ls = Some (plain t')" using t'(2) by (simp add: wholeTree_def Cons)
  moreover have "hs_root hs = Some (place t')" using t'(3) sim(6) by simp
  ultimately show ?thesis using t'(1) by auto
qed

lemma finish_document:
  assumes "linked_in (hs_heap hs) None [t]" "distinct (places_in [t])" "hs_next hs \<notin> set (places_in [t])"
  shows "\<exists>h d. h_finish (place t) hs = Some (h, d) \<and> document_at h d (plain t)"
proof -
  let ?d = "hs_next hs" and ?h = "(hs_heap hs)(hs_next hs \<mapsto> empty_node)"
  have "linked_in ?h None [t]" by (rule linked_frame [OF assms(1)]) (use assms(3) in auto)
  then obtain h' where h': "moveDocument ?d (place t) ?h = Some h'" "linked_in h' None [at_place ?d t]"
      "distinct (places_in [at_place ?d t])"
    using moved_root assms(2,3) by blast
  then have "document_at h' ?d (plain t)"
    unfolding document_at_def by (intro exI [of _ "at_place ?d t"]) (cases t, simp add: plain_Placed)
  then show ?thesis using h'(1) by (simp add: h_finish_def moveDocument_def relink_def [abs_def] Let_def)
qed

lemma linked_dom: "linked_in h par ts \<Longrightarrow> a \<in> set (places_in ts) \<Longrightarrow> h a \<noteq> None"
  by (induction h par ts rule: linked_in.induct) auto

text \<open>The last step, for related states.\<close>

lemma finish_refines:
  assumes "simulates hs ls"
  shows "rel_sum (=) (\<lambda>result root. \<exists>h d. result = Some (h, d) \<and> document_at h d root)
    (case hs_root hs of None \<Rightarrow> Inl e | Some source \<Rightarrow> Inr (h_finish source hs))
    (case wholeTree ls of None \<Rightarrow> Inl e | Some root \<Rightarrow> Inr root)"
proof (cases "wholeTree ls")
  case None
  then show ?thesis using whole_tree [OF assms] by simp
next
  case (Some root)
  then obtain t where t: "hs_root hs = Some (place t)" "plain t = root" "linked_in (hs_heap hs) None [t]"
      "distinct (places_in [t])" "hs_next hs \<notin> set (places_in [t])"
    using whole_tree [OF assms] by auto
  then show ?thesis using finish_document [OF t(3-5)] Some by auto
qed

section \<open>Properties\<close>

text \<open>C4: the loader on pointers returns exactly what the loader on trees returns: the same error, or a
  document whose nodes form the same tree, each node owned once and each parent pointer at the owner;
  and no pointer it follows dangles.\<close>

theorem pointer_loader_refines:
  "rel_sum (=) (\<lambda>result root. \<exists>h d. result = Some (h, d) \<and> document_at h d root)
    (h_loadRawDocumentFromMemory parser bytes displayPath) (loadRawDocumentFromMemory parser bytes displayPath)"
proof (cases "detectEncodingClass bytes")
  case (Inl e)
  then show ?thesis by (simp add: h_loadRawDocumentFromMemory_def loadRawDocumentFromMemory_def)
next
  case enc: (Inr enc)
  show ?thesis
  proof (cases "parser bytes (size_as_int (length bytes)) (path_string displayPath)")
    case None
    then show ?thesis by (simp add: h_loadRawDocumentFromMemory_def loadRawDocumentFromMemory_def enc)
  next
    case outcome: (Some outcome)
    note run = run_agree [OF simulates_init [of bytes enc], of "po_events outcome"]
    note defs = h_loadRawDocumentFromMemory_def loadRawDocumentFromMemory_def enc outcome
    show ?thesis
    proof (cases "runEvents (po_events outcome) (initState bytes enc)")
      case (Inl e)
      then show ?thesis
        using run by (cases "h_runEvents (po_events outcome) (h_initState bytes enc)")
          (auto simp: defs split: heap_error.splits elim: agrees.elims)
    next
      case ls: (Inr ls)
      then obtain hs where hs: "h_runEvents (po_events outcome) (h_initState bytes enc) = Inr hs" "simulates hs ls"
        using run by (cases "h_runEvents (po_events outcome) (h_initState bytes enc)") (auto elim: agrees.elims)
      show ?thesis by (auto simp: defs ls hs(1) intro!: finish_refines [OF hs(2)])
    qed
  qed
qed

text \<open>C25: moving a document, as handing it to its shared owner does, keeps the tree and every link, and
  leaves the source without children.\<close>

theorem document_move_keeps_links:
  assumes "document_at h src root" and "h dst = None"
  shows "\<exists>h'. moveDocument dst src h = Some h' \<and> document_at h' dst root
    \<and> (\<exists>n. h' src = Some n \<and> hn_children n = [])"
proof -
  obtain t where t: "place t = src" "plain t = root" "linked_in h None [t]" "distinct (places_in [t])"
    using assms(1) by (auto simp: document_at_def)
  have "dst \<notin> set (places_in [t])" using linked_dom [OF t(3)] assms(2) by blast
  then obtain h' where h': "moveDocument dst src h = Some h'" "linked_in h' None [at_place dst t]"
      "distinct (places_in [at_place dst t])" "\<exists>n. h' src = Some n \<and> hn_children n = []"
    using moved_root [OF t(3,4)] t(1) by blast
  have "place (at_place dst t) = dst" by (cases t) simp
  then have "document_at h' dst root"
    using h'(2,3) t(2) by (auto simp: document_at_def plain_at_place intro!: exI [of _ "at_place dst t"])
  then show ?thesis using h'(1,4) by blast
qed

definition two_nodes :: placed where
  "two_nodes = Placed 0 ''A'' [] [] no_span [Placed 1 ''B'' [(''k'', ''v'')] ''x'' no_span []]"

definition two_heap :: node_heap where
  "two_heap = [0 \<mapsto> node_with None two_nodes,
     1 \<mapsto> node_with (Some 0) (Placed 1 ''B'' [(''k'', ''v'')] ''x'' no_span [])]"

theorem document_move_keeps_links_witness:
  "\<exists>h'. moveDocument 2 0 two_heap = Some h'
    \<and> document_at h' 2 (RawNode ''A'' [] [] no_span [RawNode ''B'' [(''k'', ''v'')] ''x'' no_span []])"
proof -
  have "document_at two_heap 0 (RawNode ''A'' [] [] no_span [RawNode ''B'' [(''k'', ''v'')] ''x'' no_span []])"
    unfolding document_at_def
    by (rule exI [of _ two_nodes]) (simp add: two_heap_def two_nodes_def plain_Placed)
  moreover have "two_heap 2 = None" by (simp add: two_heap_def)
  ultimately show ?thesis using document_move_keeps_links by blast
qed

text \<open>The move of the node alone leaves the child's parent pointer at the old object.\<close>

lemma bare_move_orphans:
  "map_option (\<lambda>h. map_option hn_parent (h 1)) (moveNode 2 0 two_heap) = Some (Some (Some 0))"
  by (simp add: moveNode_def two_heap_def two_nodes_def node_with_def)

end
