(* ===== verification/SecureReader.thy ===== *)
theory SecureReader
  imports FsPath
begin

unbundle bit_operations_syntax

text \<open>
  The hardened reader (\<open>parser/secure_reader.hpp\<close>, \<open>secure_reader.cpp\<close>): the options every reader is opened
  with. libxml2's \<open>xmlReaderForFile\<close> is the parameter \<open>reader\<close>, from a file name, an encoding to force and the
  options to a handle or \<open>nullptr\<close>; the bits are the ones libxml2 documents for its options.
\<close>

definition XML_PARSE_NOENT :: "32 word" where
  "XML_PARSE_NOENT = push_bit 1 1"

definition XML_PARSE_DTDLOAD :: "32 word" where
  "XML_PARSE_DTDLOAD = push_bit 2 1"

definition XML_PARSE_NONET :: "32 word" where
  "XML_PARSE_NONET = push_bit 11 1"

definition kSecureReaderOptions :: "32 word" where
  "kSecureReaderOptions = XML_PARSE_NONET"

definition openSecureReader :: "(string \<Rightarrow> string option \<Rightarrow> 32 word \<Rightarrow> 'r option) \<Rightarrow> fpath \<Rightarrow> 'r option" where
  "openSecureReader reader path = reader (path_string path) None kSecureReaderOptions"

text \<open>The two static assertions.\<close>

lemma secure_options:
  "kSecureReaderOptions AND XML_PARSE_NONET \<noteq> 0"
  "kSecureReaderOptions AND (XML_PARSE_NOENT OR XML_PARSE_DTDLOAD) = 0"
  by (simp_all add: kSecureReaderOptions_def XML_PARSE_NONET_def XML_PARSE_NOENT_def XML_PARSE_DTDLOAD_def push_bit_eq_mult)

text \<open>Whatever reader is used, it never sees an option that substitutes entities or loads a DTD.\<close>

lemma reader_never_resolves:
  "openSecureReader (\<lambda>name enc options. if options AND (XML_PARSE_NOENT OR XML_PARSE_DTDLOAD) = 0
      \<and> options AND XML_PARSE_NONET \<noteq> 0 then reader name enc options else None) path
    = openSecureReader reader path"
  by (simp add: openSecureReader_def secure_options)

end
