(* ===== verification/Json.thy ===== *)
theory Json
  imports StdMap Binary64
begin

text \<open>
  The JSON values the program exchanges, as the library documents them: \<open>nlohmann::json\<close> is null,
  a boolean, an integer (signed or unsigned, 64 bits), a double, a string, an array or an object, and
  an object is a \<open>std::map\<close> from keys to values. Only what the sources do with a value is here:
  building, looking up, converting. Parsing, printing and schema validation are parameters of the
  theories that use them. An exception of the library is \<open>None\<close> or \<open>Inl\<close>, without its text.
\<close>

datatype json =
    JNull
  | JBool bool
  | JInt int
  | JFloat double
  | JString string
  | JArray "json list"
  | JObject "(string, json) omap"

section \<open>Building\<close>

text \<open>An initializer list of pairs; and \<open>j[key] = value\<close>, which makes an object of a null value.\<close>

definition jobj :: "(string \<times> json) list \<Rightarrow> json" where
  "jobj kvs = JObject (fold (\<lambda>(k, v). m_try_emplace k v) kvs [])"

fun jset :: "string \<Rightarrow> json \<Rightarrow> json \<Rightarrow> json" where
  "jset k v (JObject m) = JObject (m_modify JNull k (\<lambda>_. v) m)"
| "jset k v JNull = JObject [(k, v)]"
| "jset k v j = j"

definition jassign :: "(string \<times> json) list \<Rightarrow> json" where
  "jassign kvs = fold (\<lambda>(k, v). jset k v) kvs JNull"

definition jstring_array :: "string list \<Rightarrow> json" where
  "jstring_array ss = JArray (map JString ss)"

definition jnat :: "nat \<Rightarrow> json" where
  "jnat n = JInt (int n)"

section \<open>Reading\<close>

fun is_object :: "json \<Rightarrow> bool" where
  "is_object (JObject m) \<longleftrightarrow> True" | "is_object _ \<longleftrightarrow> False"

fun is_string :: "json \<Rightarrow> bool" where
  "is_string (JString s) \<longleftrightarrow> True" | "is_string _ \<longleftrightarrow> False"

text \<open>\<open>find\<close> and \<open>contains\<close>: nothing in a value that is not an object.\<close>

fun jfind :: "string \<Rightarrow> json \<Rightarrow> json option" where
  "jfind k (JObject m) = map_of m k" | "jfind k _ = None"

definition jcontains :: "json \<Rightarrow> string \<Rightarrow> bool" where
  "jcontains j k \<longleftrightarrow> jfind k j \<noteq> None"

text \<open>\<open>at\<close> throws when there is no such key, and on a value that is not an object.\<close>

definition jat :: "string \<Rightarrow> json \<Rightarrow> json option" where
  "jat k j = jfind k j"

text \<open>\<open>get<std::string>\<close>, \<open>get<std::size_t>\<close>.\<close>

fun jget_string :: "json \<Rightarrow> string option" where
  "jget_string (JString s) = Some s" | "jget_string _ = None"

fun jget_size :: "json \<Rightarrow> size_t option" where
  "jget_size (JInt i) = Some (word_of_int i)"
| "jget_size (JFloat d) = map_option word_of_int (dbl_trunc d)"
| "jget_size _ = None"

text \<open>\<open>value(key, fallback)\<close> converts what it finds; on a value that is not an object it throws.\<close>

definition jvalue :: "(json \<Rightarrow> 'a option) \<Rightarrow> string \<Rightarrow> 'a \<Rightarrow> json \<Rightarrow> 'a option" where
  "jvalue conv k fallback j =
    (if \<not> is_object j then None
     else case jfind k j of None \<Rightarrow> Some fallback | Some v \<Rightarrow> conv v)"

text \<open>A range-based \<open>for\<close>: the elements, the values of an object, nothing in null, else the value.\<close>

fun jitems :: "json \<Rightarrow> json list" where
  "jitems (JArray xs) = xs"
| "jitems (JObject m) = map snd m"
| "jitems JNull = []"
| "jitems j = [j]"

section \<open>Facts\<close>

named_theorems json_simps \<open>looking up what was built\<close>

text \<open>A value whose objects are maps: what every operation of the library yields.\<close>

definition jmap :: "json \<Rightarrow> bool" where
  "jmap j \<longleftrightarrow> (case j of JNull \<Rightarrow> True | JObject m \<Rightarrow> m_inv m | _ \<Rightarrow> False)"

lemma jmap_jset [json_simps]: "jmap j \<Longrightarrow> jmap (jset k v j)"
  by (cases j) (auto simp: jmap_def sgroup.inv_modify m_inv_Nil m_inv_Cons)

lemma jfind_jset [json_simps]: "jmap j \<Longrightarrow> jfind k' (jset k v j) = (if k' = k then Some v else jfind k' j)"
  by (cases j) (auto simp: jmap_def sgroup.find_modify)

lemma is_object_jset [json_simps]: "jmap j \<Longrightarrow> is_object (jset k v j)"
  by (cases j) (auto simp: jmap_def)

lemma jmap_fold: "jmap j \<Longrightarrow> jmap (fold (\<lambda>(k, v). jset k v) kvs j)"
  by (induction kvs arbitrary: j) (auto simp: json_simps)

lemma jfind_fold:
  "jmap j \<Longrightarrow> jfind k (fold (\<lambda>(k, v). jset k v) kvs j)
    = (case map_of (rev kvs) k of Some v \<Rightarrow> Some v | None \<Rightarrow> jfind k j)"
  by (induction kvs arbitrary: j) (auto simp: json_simps map_add_def split: option.splits)

lemma jfind_jassign [json_simps]: "jfind k (jassign kvs) = map_of (rev kvs) k"
  using jfind_fold [of JNull k kvs] by (auto simp: jassign_def jmap_def split: option.splits)

lemma jmap_jassign [json_simps]: "jmap (jassign kvs)"
  using jmap_fold [of JNull kvs] by (simp add: jassign_def jmap_def)

lemma is_object_jassign [json_simps]: "is_object (jassign (kv # kvs))"
proof (cases kvs rule: rev_cases)
  case Nil
  then show ?thesis by (cases kv) (simp add: jassign_def)
next
  case (snoc ys y)
  have "jmap (fold (\<lambda>(k, v). jset k v) (kv # ys) JNull)" by (rule jmap_fold) (simp add: jmap_def)
  then show ?thesis by (cases y) (simp add: jassign_def snoc is_object_jset)
qed

lemma jfind_jobj [json_simps]: "jfind k (jobj kvs) = map_of kvs k"
  by (simp add: jobj_def smap.first_wins)

lemma is_object_jobj [json_simps]: "is_object (jobj kvs)"
  by (simp add: jobj_def)

lemma jcontains_find [json_simps]: "jcontains j k \<longleftrightarrow> jfind k j \<noteq> None"
  by (simp add: jcontains_def)

end
