(* ===== verification/McpProtocol.thy ===== *)
theory McpProtocol
  imports Json
begin

text \<open>
  The JSON-RPC envelope checks of the MCP server (\<open>parsex-mcp/protocol.hpp\<close>): error objects, the depth
  guard that runs before a line is parsed, the recovery of an \<open>id\<close> from a line that does not parse,
  and the validity of an envelope.
\<close>

section \<open>Error objects\<close>

definition makeProtocolError :: "json \<Rightarrow> int \<Rightarrow> string \<Rightarrow> json" where
  "makeProtocolError id_value code message = jassign
    [(''jsonrpc'', JString ''2.0''), (''id'', id_value),
     (''error'', jobj [(''code'', JInt code), (''message'', JString message)])]"

definition makeParseError :: "json \<Rightarrow> json" where
  "makeParseError id_value = makeProtocolError id_value (- 32700) ''Parse error''"

definition makeInvalidRequest :: "json \<Rightarrow> json" where
  "makeInvalidRequest id_value = makeProtocolError id_value (- 32600) ''Invalid Request''"

definition makeMethodNotFound :: "json \<Rightarrow> json" where
  "makeMethodNotFound id_value = makeProtocolError id_value (- 32601) ''Method not found''"

definition kMaxJsonDepth :: nat where
  "kMaxJsonDepth = 128"

section \<open>The depth guard\<close>

text \<open>The loop of \<open>exceedsMaxDepth\<close>: the depth, and whether it is in a string and behind a backslash.\<close>

fun depth_scan :: "nat \<Rightarrow> nat \<Rightarrow> bool \<Rightarrow> bool \<Rightarrow> string \<Rightarrow> bool" where
  "depth_scan maxDepth depth inString escaped [] = False"
| "depth_scan maxDepth depth inString escaped (chr # line) =
    (if inString
     then if escaped then depth_scan maxDepth depth True False line
          else if chr = CHR 0x5C then depth_scan maxDepth depth True True line
          else if chr = CHR 0x22 then depth_scan maxDepth depth False False line
          else depth_scan maxDepth depth True False line
     else if chr = CHR 0x22 then depth_scan maxDepth depth True escaped line
     else if chr = CHR ''['' \<or> chr = CHR ''{''
     then if depth + 1 > maxDepth then True else depth_scan maxDepth (depth + 1) False escaped line
     else if (chr = CHR '']'' \<or> chr = CHR ''}'') \<and> depth > 0
     then depth_scan maxDepth (depth - 1) False escaped line
     else depth_scan maxDepth depth False escaped line)"

definition exceedsMaxDepth :: "string \<Rightarrow> nat \<Rightarrow> bool" where
  "exceedsMaxDepth line maxDepth = depth_scan maxDepth 0 False False line"

definition makeNestingTooDeep :: "json \<Rightarrow> json" where
  "makeNestingTooDeep id_value =
    (let response = makeProtocolError id_value (- 32600)
           (''Invalid Request: JSON nesting exceeds the maximum depth of '' @ nat_to_string kMaxJsonDepth);
         err = (case jfind ''error'' response of Some e \<Rightarrow> e | None \<Rightarrow> JNull)
     in jset ''error'' (jset ''data'' (jobj [(''maxDepth'', jnat kMaxJsonDepth)]) err) response)"

section \<open>Recovering an id\<close>

definition isJsonSpace :: "char \<Rightarrow> bool" where
  "isJsonSpace chr \<longleftrightarrow> chr = CHR '' '' \<or> chr = CHR 0x09 \<or> chr = CHR 0x0A \<or> chr = CHR 0x0D
     \<or> chr = CHR 0x0C \<or> chr = CHR 0x0B"

function skipJsonSpace :: "string \<Rightarrow> nat \<Rightarrow> nat" where
  "skipJsonSpace line pos =
    (if pos < length line \<and> isJsonSpace (line ! pos) then skipJsonSpace line (Suc pos) else pos)"
  by pat_completeness auto
termination by (relation "measure (\<lambda>(line, pos). length line - pos)") auto

text \<open>The loop over the digits; \<open>isAsciiDigit\<close> is \<open>is_digit\<close>.\<close>

function digits_end :: "string \<Rightarrow> nat \<Rightarrow> nat" where
  "digits_end line pos =
    (if pos < length line \<and> is_digit (line ! pos) then digits_end line (Suc pos) else pos)"
  by pat_completeness auto
termination by (relation "measure (\<lambda>(line, pos). length line - pos)") auto

declare skipJsonSpace.simps [simp del] digits_end.simps [simp del]

datatype id_scan = Found json | GiveUp | KeepLooking

definition readIdValue :: "string \<Rightarrow> nat \<Rightarrow> id_scan" where
  "readIdValue line pos =
    (let p = skipJsonSpace line pos in
     if p \<ge> length line \<or> line ! p \<noteq> CHR '':'' then KeepLooking
     else let q = skipJsonSpace line (p + 1) in
       if q \<ge> length line then KeepLooking
       else if take 4 (drop q line) = ''null'' then Found JNull
       else if line ! q = CHR 0x22
       then (case find_from line [CHR 0x22] (q + 1) of
               None \<Rightarrow> KeepLooking
             | Some close \<Rightarrow> Found (JString (take (close - q - 1) (drop (q + 1) line))))
       else let digitsStart = (if line ! q = CHR ''-'' then q + 1 else q);
                stop = digits_end line digitsStart
            in if stop = digitsStart then KeepLooking
               else case stoll 10 (take (stop - q) (drop q line)) of
                 Inl _ \<Rightarrow> GiveUp
               | Inr (n, _) \<Rightarrow> Found (JInt n))"

definition kKey :: string where
  "kKey = [CHR 0x22] @ ''id'' @ [CHR 0x22]"

lemma find_from_bounds: "find_from s p pos = Some i \<Longrightarrow> pos \<le> i \<and> i + length p \<le> length s"
  using find_from_Some(2,3) by blast

text \<open>The \<open>for\<close> loop of \<open>tryRecoverId\<close>: every occurrence of the key, from \<open>start\<close> on.\<close>

function recover_from :: "string \<Rightarrow> nat \<Rightarrow> json option" where
  "recover_from line start =
    (case find_from line kKey start of
       None \<Rightarrow> None
     | Some from \<Rightarrow>
        (case readIdValue line (from + length kKey) of
           Found v \<Rightarrow> Some v
         | GiveUp \<Rightarrow> None
         | KeepLooking \<Rightarrow> recover_from line (from + 1)))"
  by pat_completeness auto
termination
  by (relation "measure (\<lambda>(line, start). Suc (length line) - start)")
    (auto dest!: find_from_bounds simp: kKey_def)

declare recover_from.simps [simp del]

definition tryRecoverId :: "string \<Rightarrow> json option" where
  "tryRecoverId line = recover_from line 0"

section \<open>Envelopes\<close>

definition isValidEnvelope :: "json \<Rightarrow> bool" where
  "isValidEnvelope message =
    (if \<not> is_object message then False
     else if jfind ''jsonrpc'' message \<noteq> Some (JString ''2.0'') then False
     else if jcontains message ''id'' then True
     else case jfind ''method'' message of
       Some (JString m) \<Rightarrow> starts_with m ''notifications/''
     | _ \<Rightarrow> False)"

definition idOrNull :: "json \<Rightarrow> json" where
  "idOrNull message = (case jfind ''id'' message of Some v \<Rightarrow> v | None \<Rightarrow> JNull)"

section \<open>What the depth guard measures\<close>

text \<open>
  The shape of a JSON text, as far as nesting goes: runs without quotes and brackets (numbers, names,
  commas, colons, blanks), strings as a sequence of plain and escaped characters, and bracketed
  groups. Every JSON text is the rendering of such a list; its depth is the depth of its groups.
\<close>

datatype jpiece = Plain char | Escaped char

datatype jtext = Run string | Quotation "jpiece list" | Group bool "jtext list"

fun render_jpiece :: "jpiece \<Rightarrow> string" where
  "render_jpiece (Plain c) = [c]"
| "render_jpiece (Escaped c) = [CHR 0x5C, c]"

fun jpiece_ok :: "jpiece \<Rightarrow> bool" where
  "jpiece_ok (Plain c) \<longleftrightarrow> c \<noteq> CHR 0x22 \<and> c \<noteq> CHR 0x5C"
| "jpiece_ok (Escaped c) \<longleftrightarrow> True"

definition structural :: "char set" where
  "structural = {CHR 0x22, CHR ''['', CHR '']'', CHR ''{'', CHR ''}''}"

fun render_jtext :: "jtext list \<Rightarrow> string" where
  "render_jtext [] = []"
| "render_jtext (Run s # ts) = s @ render_jtext ts"
| "render_jtext (Quotation ps # ts) =
     CHR 0x22 # concat (map render_jpiece ps) @ CHR 0x22 # render_jtext ts"
| "render_jtext (Group obj us # ts) =
     (if obj then CHR ''{'' else CHR ''['') # render_jtext us
       @ (if obj then CHR ''}'' else CHR '']'') # render_jtext ts"

fun jtext_ok :: "jtext list \<Rightarrow> bool" where
  "jtext_ok [] \<longleftrightarrow> True"
| "jtext_ok (Run s # ts) \<longleftrightarrow> set s \<inter> structural = {} \<and> jtext_ok ts"
| "jtext_ok (Quotation ps # ts) \<longleftrightarrow> list_all jpiece_ok ps \<and> jtext_ok ts"
| "jtext_ok (Group obj us # ts) \<longleftrightarrow> jtext_ok us \<and> jtext_ok ts"

fun jtext_depth :: "jtext list \<Rightarrow> nat" where
  "jtext_depth [] = 0"
| "jtext_depth (Run s # ts) = jtext_depth ts"
| "jtext_depth (Quotation ps # ts) = jtext_depth ts"
| "jtext_depth (Group obj us # ts) = max (Suc (jtext_depth us)) (jtext_depth ts)"

lemma scan_run:
  "set s \<inter> structural = {} \<Longrightarrow> depth_scan m d False e (s @ rest) = depth_scan m d False e rest"
  by (induction s) (auto simp: structural_def)

lemma scan_string:
  "list_all jpiece_ok ps \<Longrightarrow>
    depth_scan m d True False (concat (map render_jpiece ps) @ rest) = depth_scan m d True False rest"
proof (induction ps)
  case (Cons p ps)
  then show ?case by (cases p) auto
qed simp

lemma scan_text:
  "jtext_ok ts \<Longrightarrow> d \<le> m \<Longrightarrow>
    depth_scan m d False False (render_jtext ts @ rest)
      = (d + jtext_depth ts > m \<or> depth_scan m d False False rest)"
proof (induction ts arbitrary: d rest rule: render_jtext.induct)
  case (4 obj us ts)
  show ?case
  proof (cases "d = m")
    case True
    then show ?thesis by (cases obj) (simp_all add: less_max_iff_disj)
  next
    case False
    then have d: "Suc d \<le> m" using 4(4) by simp
    show ?thesis
      using 4(1) [OF _ d] 4(2) [OF _ 4(4)] 4(3) d by (cases obj) auto
  qed
qed (auto simp: scan_run scan_string)

text \<open>C27: the depth guard measures JSON nesting: on every JSON text it holds exactly when the text
  nests arrays and objects more than the limit deep, whatever its strings contain.\<close>

theorem depth_guard_exact:
  assumes "jtext_ok ts"
  shows "exceedsMaxDepth (render_jtext ts) maxDepth \<longleftrightarrow> jtext_depth ts > maxDepth"
  using scan_text [OF assms, of 0 maxDepth "[]"] by (simp add: exceedsMaxDepth_def)

theorem depth_guard_exact_witness:
  "exceedsMaxDepth (''['' @ [CHR 0x22, CHR ''['', CHR 0x5C, CHR 0x22, CHR 0x22] @ '',[1]]'') 1
   \<and> \<not> exceedsMaxDepth (''['' @ [CHR 0x22, CHR ''['', CHR 0x5C, CHR 0x22, CHR 0x22] @ '',[1]]'') 2"
  using depth_guard_exact [of "[Group False [Quotation [Plain (CHR ''[''), Escaped (CHR 0x22)],
      Run '','', Group False [Run ''1'']]]" 1]
    depth_guard_exact [of "[Group False [Quotation [Plain (CHR ''[''), Escaped (CHR 0x22)],
      Run '','', Group False [Run ''1'']]]" 2]
  by (simp add: structural_def)

end
