(* ===== verification/McpServer.thy ===== *)
theory McpServer
  imports McpProtocol
begin

text \<open>
  The MCP server (\<open>parsex-mcp/tool_schemas.hpp\<close>, \<open>tool_registry.hpp\<close>, \<open>dispatch.hpp\<close>,
  \<open>server.hpp\<close>, \<open>transport.hpp\<close>, \<open>main.cpp\<close>). The JSON library is the parameter \<open>lib\<close>; a tool is a
  function on the arguments and on a world \<open>'w\<close> it may change. What a handler prints is a list of
  \<open>Stdout\<close> and \<open>Stderr\<close> lines; the text of an exception (\<open>what()\<close>) is \<open>Inl\<close>.
\<close>

section \<open>The library and the tools\<close>

text \<open>
  \<open>parse\<close> and \<open>dump\<close>, validation of arguments against a schema (\<open>Inr True\<close>: no error reported), and
  the text of the exception \<open>value(key, ...)\<close> throws on a value.
\<close>

record json_lib =
  lib_parse :: "string \<Rightarrow> string + json"
  lib_dump :: "json \<Rightarrow> string + string"
  lib_check :: "json \<Rightarrow> json \<Rightarrow> string + bool"
  lib_value_error :: "string \<Rightarrow> json \<Rightarrow> string"

datatype thrown = StdException string | OtherException

record 'w tool_definition =
  td_name :: string
  td_title :: string
  td_description :: string
  td_inputSchema :: json
  td_outputSchema :: "json option"
  td_annotations :: json
  td_handler :: "json \<Rightarrow> 'w \<Rightarrow> (thrown + json) \<times> 'w"

record 'w tool_registry =
  tr_tools :: "(string, 'w tool_definition) omap"
  tr_order :: "string list"

section \<open>Schemas\<close>

definition typed :: "string \<Rightarrow> json" where
  "typed t = jobj [(''type'', JString t)]"

definition described :: "string \<Rightarrow> string \<Rightarrow> json" where
  "described t d = jobj [(''type'', JString t), (''description'', JString d)]"

definition objectSchema :: "(string \<times> json) list \<Rightarrow> string list \<Rightarrow> json" where
  "objectSchema props required = jobj
    [(''type'', JString ''object''), (''properties'', jobj props),
     (''required'', jstring_array required), (''additionalProperties'', JBool False)]"

definition parseInputSchema :: json where
  "parseInputSchema = objectSchema [(''path'', described ''string'' ''Input ARXML file path'')] [''path'']"

definition parseOutputSchema :: json where
  "parseOutputSchema = objectSchema
    [(''sourcePath'', typed ''string''), (''autosarRelease'', typed ''string''),
     (''counts'', typed ''object''), (''warnings'', typed ''array'')] [''sourcePath'']"

definition validateInputSchema :: json where
  "validateInputSchema =
    (let strict = jassign [(''type'', JString ''boolean''),
                           (''description'', JString ''Strict mode: warnings fail the verdict''),
                           (''default'', JBool False)];
         path = jassign [(''type'', JString ''string''), (''description'', JString ''Input ARXML file path'')]
     in objectSchema [(''path'', path), (''strict'', strict)] [''path''])"

definition validateOutputSchema :: json where
  "validateOutputSchema = objectSchema
    [(''passed'', typed ''boolean''), (''errors'', typed ''array'')] [''passed'', ''errors'']"

definition diffInputSchema :: json where
  "diffInputSchema = objectSchema
    [(''basePath'', described ''string'' ''Base ARXML file''),
     (''targetPath'', described ''string'' ''Target ARXML file'')] [''basePath'', ''targetPath'']"

definition diffOutputSchema :: json where
  "diffOutputSchema = objectSchema
    [(''entries'', typed ''array''), (''diagnostics'', typed ''array'')] [''entries'']"

definition writeInputSchema :: json where
  "writeInputSchema =
    (let path = jassign [(''type'', JString ''string''), (''description'', JString ''Input ARXML file path'')];
         outputPath = jassign [(''type'', JString ''string''), (''description'', JString ''Output ARXML file path'')];
         applyArg = jassign [(''type'', JString ''boolean''),
                           (''description'', JString ''Write to disk; otherwise preview only''),
                           (''default'', JBool False)]
     in objectSchema [(''path'', path), (''outputPath'', outputPath), (''apply'', applyArg)]
          [''path'', ''outputPath''])"

definition writeOutputSchema :: json where
  "writeOutputSchema = objectSchema
    [(''input'', typed ''string''), (''output'', typed ''string''), (''applied'', typed ''boolean''),
     (''success'', typed ''boolean'')] [''input'', ''output'', ''applied'', ''success'']"

definition exportInputSchema :: json where
  "exportInputSchema =
    (let path = jassign [(''type'', JString ''string''), (''description'', JString ''Input ARXML file path'')];
         format = jassign [(''type'', JString ''string''), (''enum'', jstring_array [''dbc'', ''csv'']),
                           (''description'', JString ''Export format'')]
     in objectSchema [(''path'', path), (''format'', format)] [''path'', ''format''])"

definition exportOutputSchema :: json where
  "exportOutputSchema = jobj
    [(''type'', JString ''object''),
     (''properties'', jobj
       [(''kind'', jobj [(''const'', JString ''exportResult'')]),
        (''payload'', jobj
          [(''type'', JString ''object''),
           (''properties'', jobj
             [(''sourcePath'', typed ''string''),
              (''format'', jobj [(''type'', JString ''string''), (''enum'', jstring_array [''dbc'', ''csv''])]),
              (''output'', jobj [(''type'', jstring_array [''string'', ''null''])]),
              (''counts'', typed ''object''), (''warnings'', typed ''array''), (''content'', typed ''string'')]),
           (''required'', jstring_array [''sourcePath'', ''format'', ''output'', ''counts'', ''warnings''])])]),
     (''required'', jstring_array [''kind'', ''payload''])]"

section \<open>The registry\<close>

definition name_char :: "char \<Rightarrow> bool" where
  "name_char c \<longleftrightarrow> CHR ''A'' \<le> c \<and> c \<le> CHR ''Z'' \<or> CHR ''a'' \<le> c \<and> c \<le> CHR ''z''
     \<or> is_digit c \<or> c = CHR ''_'' \<or> c = CHR ''.'' \<or> c = CHR ''-''"

definition isValidToolName :: "string \<Rightarrow> bool" where
  "isValidToolName name =
    (if name = [] \<or> length name > 128 then False else list_all name_char name)"

definition emptyRegistry :: "'w tool_registry" where
  "emptyRegistry = \<lparr>tr_tools = [], tr_order = []\<rparr>"

text \<open>The \<open>assert\<close> on the name holds for every name the program registers (\<open>names_valid\<close>).\<close>

definition registerTool :: "'w tool_definition \<Rightarrow> 'w tool_registry \<Rightarrow> 'w tool_registry" where
  "registerTool def registry =
    (let order = (if map_of (tr_tools registry) (td_name def) = None
                  then tr_order registry @ [td_name def] else tr_order registry)
     in \<lparr>tr_tools = m_modify def (td_name def) (\<lambda>_. def) (tr_tools registry), tr_order = order\<rparr>)"

definition findTool :: "'w tool_registry \<Rightarrow> string \<Rightarrow> 'w tool_definition option" where
  "findTool registry name = map_of (tr_tools registry) name"

definition setHandler ::
  "string \<Rightarrow> (json \<Rightarrow> 'w \<Rightarrow> (thrown + json) \<times> 'w) \<Rightarrow> 'w tool_registry \<Rightarrow> 'w tool_registry" where
  "setHandler name handler registry =
    (case map_of (tr_tools registry) name of
       None \<Rightarrow> registry
     | Some def \<Rightarrow>
         registry\<lparr>tr_tools := m_modify def name (\<lambda>d. d\<lparr>td_handler := handler\<rparr>) (tr_tools registry)\<rparr>)"

definition orderedTools :: "'w tool_registry \<Rightarrow> 'w tool_definition list" where
  "orderedTools registry =
    concat (map (\<lambda>name. case map_of (tr_tools registry) name of None \<Rightarrow> [] | Some d \<Rightarrow> [d])
      (tr_order registry))"

definition placeholder :: "json \<Rightarrow> 'w \<Rightarrow> (thrown + json) \<times> 'w" where
  "placeholder args w = (Inr (jobj []), w)"

definition newTool :: "string \<Rightarrow> string \<Rightarrow> json \<Rightarrow> json option \<Rightarrow> json \<Rightarrow> 'w tool_definition" where
  "newTool name description input output annotations =
    \<lparr>td_name = name, td_title = name, td_description = description, td_inputSchema = input,
     td_outputSchema = output, td_annotations = annotations, td_handler = placeholder\<rparr>"

definition withPlaceholders :: "'w tool_registry" where
  "withPlaceholders =
    fold (\<lambda>name. registerTool (newTool name [] (typed ''object'') None (jobj [])))
      [''parse_arxml'', ''validate_arxml'', ''diff_arxml'', ''write_arxml''] emptyRegistry"

definition hints :: "bool \<Rightarrow> bool \<Rightarrow> bool \<Rightarrow> json" where
  "hints readOnly destructive idempotent = jobj
    [(''readOnlyHint'', JBool readOnly), (''destructiveHint'', JBool destructive),
     (''idempotentHint'', JBool idempotent), (''openWorldHint'', JBool False)]"

definition builtinTools :: "'w tool_definition list" where
  "builtinTools =
    [newTool ''parse_arxml'' ''Parse an ARXML file and report its structure''
       parseInputSchema (Some parseOutputSchema) (hints True False True),
     newTool ''validate_arxml'' ''Validate an ARXML file''
       validateInputSchema (Some validateOutputSchema) (hints True False True),
     newTool ''diff_arxml'' ''Diff two ARXML files''
       diffInputSchema (Some diffOutputSchema) (hints True False True),
     newTool ''write_arxml''
       (''Edits an ARXML file safely. Previews changes by default without writing ''
        @ ''to disk. Show the user the preview and get explicit confirmation, then ''
        @ ''retry with apply:true to write.'')
       writeInputSchema (Some writeOutputSchema) (hints False True False),
     newTool ''export_arxml''
       (''Export an ARXML file's CAN network as DBC or CSV text (returned inline, ''
        @ ''nothing is written to disk)'')
       exportInputSchema (Some exportOutputSchema) (hints True False True)]"

definition withSchemas :: "'w tool_registry" where
  "withSchemas = fold registerTool builtinTools emptyRegistry"

section \<open>Calling a tool\<close>

definition argumentsMatchSchema :: "json_lib \<Rightarrow> json \<Rightarrow> json \<Rightarrow> string option" where
  "argumentsMatchSchema lib arguments schema =
    (case lib_check lib schema arguments of
       Inl what \<Rightarrow> Some what
     | Inr ok \<Rightarrow> if ok then None else Some ''arguments do not match tool schema'')"

definition makeUnknownToolError :: "json \<Rightarrow> string \<Rightarrow> json" where
  "makeUnknownToolError id_value name = makeProtocolError id_value (- 32602) (''Unknown tool: '' @ name)"

definition makeInvalidParamsError :: "json \<Rightarrow> string \<Rightarrow> json" where
  "makeInvalidParamsError id_value detail =
    makeProtocolError id_value (- 32602) (''Invalid params: '' @ detail)"

definition textContent :: "string \<Rightarrow> json" where
  "textContent text = JArray [jobj [(''type'', JString ''text''), (''text'', JString text)]]"

definition wrapToolSuccess :: "json \<Rightarrow> string \<Rightarrow> json" where
  "wrapToolSuccess structured summary = jassign
    [(''resultType'', JString ''complete''), (''content'', textContent summary),
     (''structuredContent'', structured)]"

definition wrapToolError :: "string \<Rightarrow> json" where
  "wrapToolError message = jassign [(''content'', textContent message), (''isError'', JBool True)]"

definition resultResponse :: "json \<Rightarrow> json \<Rightarrow> json" where
  "resultResponse id_value result = jassign
    [(''jsonrpc'', JString ''2.0''), (''id'', id_value), (''result'', result)]"

definition errorResponse :: "json \<Rightarrow> json \<Rightarrow> json" where
  "errorResponse id_value failure = jassign
    [(''jsonrpc'', JString ''2.0''), (''id'', id_value),
     (''error'', case jfind ''error'' failure of Some e \<Rightarrow> e | None \<Rightarrow> JNull)]"

text \<open>What the handler packed, unpacked: the payload and the summary, or the exception of \<open>value\<close>.\<close>

definition unpackResult :: "json_lib \<Rightarrow> json \<Rightarrow> string + json \<times> string" where
  "unpackResult lib structured =
    (if \<not> is_object structured then Inl (lib_value_error lib ''structuredContent'' structured)
     else let payload = (case jfind ''structuredContent'' structured of None \<Rightarrow> structured | Some p \<Rightarrow> p) in
       case jvalue jget_string ''summary'' ''ok'' structured of
         None \<Rightarrow> Inl (lib_value_error lib ''summary'' structured)
       | Some summary \<Rightarrow> Inr (payload, summary))"

definition dispatchToolsCall ::
  "json_lib \<Rightarrow> json \<Rightarrow> json \<Rightarrow> 'w tool_registry \<Rightarrow> 'w \<Rightarrow> json \<times> 'w" where
  "dispatchToolsCall lib id_value params registry w =
    (let name = (case jfind ''name'' params of Some (JString n) \<Rightarrow> n | _ \<Rightarrow> []);
         arguments = (case jfind ''arguments'' params of
                        None \<Rightarrow> Some (jobj [])
                      | Some a \<Rightarrow> if is_object a then Some a else None)
     in case arguments of
          None \<Rightarrow> (makeInvalidParamsError id_value ''arguments must be an object'', w)
        | Some args \<Rightarrow>
           (case findTool registry name of
              None \<Rightarrow> (errorResponse id_value (makeUnknownToolError id_value name), w)
            | Some tool \<Rightarrow>
               (case argumentsMatchSchema lib args (td_inputSchema tool) of
                  Some schemaError \<Rightarrow>
                    (errorResponse id_value (makeInvalidParamsError id_value schemaError), w)
                | None \<Rightarrow>
                   (case td_handler tool args w of
                      (Inr structured, w') \<Rightarrow>
                        (resultResponse id_value
                          (case unpackResult lib structured of
                             Inl what \<Rightarrow> wrapToolError what
                           | Inr (payload, summary) \<Rightarrow> wrapToolSuccess payload summary), w')
                    | (Inl (StdException what), w') \<Rightarrow> (resultResponse id_value (wrapToolError what), w')
                    | (Inl OtherException, w') \<Rightarrow>
                        (resultResponse id_value (wrapToolError ''tool failed''), w')))))"

section \<open>Identity, versions, listing\<close>

definition kProtocolVersion :: string where
  "kProtocolVersion = ''2026-07-28''"

definition kServerName :: string where
  "kServerName = ''parsex-mcp''"

definition extractProtocolVersion :: "json \<Rightarrow> string option" where
  "extractProtocolVersion message =
    (case jfind ''_meta'' message of
       None \<Rightarrow> None
     | Some meta \<Rightarrow>
        (if \<not> is_object meta then None
         else case jfind ''io.modelcontextprotocol/protocolVersion'' meta of
           Some (JString v) \<Rightarrow> Some v
         | _ \<Rightarrow> None))"

definition isSupportedVersion :: "string \<Rightarrow> bool" where
  "isSupportedVersion version \<longleftrightarrow> list_ex (\<lambda>supported. version = supported) [kProtocolVersion]"

definition buildDiscoverResult :: "string \<Rightarrow> json" where
  "buildDiscoverResult toolVersion = jassign
    [(''resultType'', JString ''complete''),
     (''supportedVersions'', jstring_array [kProtocolVersion]),
     (''capabilities'', jobj [(''tools'', jobj [(''listChanged'', JBool False)])]),
     (''_meta'', jobj [(''io.modelcontextprotocol/serverInfo'',
        jobj [(''name'', JString kServerName), (''version'', JString toolVersion)])])]"

definition toolToWire :: "'w tool_definition \<Rightarrow> json" where
  "toolToWire tool = jassign
    ([(''name'', JString (td_name tool)), (''title'', JString (td_title tool)),
      (''description'', JString (td_description tool)), (''inputSchema'', td_inputSchema tool)]
     @ (case td_outputSchema tool of None \<Rightarrow> [] | Some s \<Rightarrow> [(''outputSchema'', s)])
     @ [(''annotations'', td_annotations tool)])"

definition buildToolsListResult :: "'w tool_registry \<Rightarrow> json" where
  "buildToolsListResult registry =
    jassign [(''tools'', JArray (map toolToWire (orderedTools registry)))]"

section \<open>One message\<close>

datatype sent = Stdout string | Stderr string

text \<open>\<open>dump\<close> may throw; then nothing has been written.\<close>

definition writeMessage :: "json_lib \<Rightarrow> json \<Rightarrow> string + sent list" where
  "writeMessage lib message =
    (case lib_dump lib message of Inl what \<Rightarrow> Inl what | Inr text \<Rightarrow> Inr [Stdout text])"

definition orLog :: "string \<Rightarrow> string + sent list \<Rightarrow> sent list" where
  "orLog prefix r = (case r of Inl what \<Rightarrow> [Stderr (prefix @ what)] | Inr out \<Rightarrow> out)"

definition readMethod :: "json \<Rightarrow> string" where
  "readMethod message = (case jfind ''method'' message of Some (JString m) \<Rightarrow> m | _ \<Rightarrow> [])"

definition readParams :: "json \<Rightarrow> json" where
  "readParams message =
    (case jfind ''params'' message of
       Some p \<Rightarrow> if is_object p then p else jobj []
     | None \<Rightarrow> jobj [])"

definition unsupported :: "json \<Rightarrow> string \<Rightarrow> json" where
  "unsupported id_value message = jassign
    [(''jsonrpc'', JString ''2.0''), (''id'', id_value),
     (''error'', jobj [(''code'', JInt (- 32600)), (''message'', JString message),
        (''data'', jobj [(''supportedVersions'', jstring_array [''2026-07-28''])])])]"

definition sendVersionMismatch :: "json_lib \<Rightarrow> json \<Rightarrow> string \<Rightarrow> string + sent list" where
  "sendVersionMismatch lib id_value version = writeMessage lib (unsupported id_value
    (''Unsupported protocol version: '' @ version @ ''. Supported versions: 2026-07-28''))"

definition sendLegacyInitialize :: "json_lib \<Rightarrow> json \<Rightarrow> string + sent list" where
  "sendLegacyInitialize lib id_value = writeMessage lib (unsupported id_value
    (''Legacy initialize handshake is not supported. This server requires protocol ''
     @ ''version 2026-07-28 with per-request _meta.''))"

definition handleNotification :: "json_lib \<Rightarrow> json \<Rightarrow> sent list option" where
  "handleNotification lib message =
    (if readMethod message = ''notifications/cancelled''
     then Some [Stderr
       (case jfind ''requestId'' (readParams message) of
          None \<Rightarrow> ''cancellation ignored for unknown''
        | Some r \<Rightarrow> (case lib_dump lib r of
             Inr text \<Rightarrow> ''cancellation ignored for '' @ text
           | Inl what \<Rightarrow> ''cancellation ignored (unreadable ref): '' @ what))]
     else None)"

definition routeRequest ::
  "json_lib \<Rightarrow> string \<Rightarrow> json \<Rightarrow> string \<Rightarrow> json \<Rightarrow> 'w tool_registry \<Rightarrow> 'w \<Rightarrow> (string + sent list) \<times> 'w" where
  "routeRequest lib toolVersion id_value method params registry w =
    (if method = ''server/discover''
     then (writeMessage lib (resultResponse id_value (buildDiscoverResult toolVersion)), w)
     else if method = ''tools/list''
     then (writeMessage lib (resultResponse id_value (buildToolsListResult registry)), w)
     else if method = ''tools/call''
     then (let (response, w') = dispatchToolsCall lib id_value params registry w
           in (writeMessage lib response, w'))
     else if method = ''initialize'' then (sendLegacyInitialize lib id_value, w)
     else (writeMessage lib (makeMethodNotFound id_value), w))"

definition dispatchMessage ::
  "json_lib \<Rightarrow> string \<Rightarrow> json \<Rightarrow> 'w tool_registry \<Rightarrow> 'w \<Rightarrow> sent list \<times> 'w" where
  "dispatchMessage lib toolVersion message registry w =
    (if \<not> is_object message then ([], w)
     else case jfind ''id'' message of
       None \<Rightarrow>
        (if readMethod message = ''initialize'' then ([], w)
         else ((case handleNotification lib message of
                  Some out \<Rightarrow> out
                | None \<Rightarrow> [Stderr ''skipping notification without id'']), w))
     | Some requestId \<Rightarrow>
        (let mismatch = (case extractProtocolVersion message of
               None \<Rightarrow> None
             | Some v \<Rightarrow> if isSupportedVersion v then None else Some (sendVersionMismatch lib requestId v))
         in case mismatch of
              Some (Inr out) \<Rightarrow> (out, w)
            | _ \<Rightarrow>
               (let skipped = (case mismatch of
                      Some (Inl what) \<Rightarrow> [Stderr (''skipping version check: '' @ what)] | _ \<Rightarrow> []);
                    (r, w') = routeRequest lib toolVersion requestId (readMethod message)
                                (readParams message) registry w
                in (skipped @ orLog ''dispatch failed: '' r, w'))))"

section \<open>The read loop\<close>

definition rejectOverDeepLine :: "json_lib \<Rightarrow> string \<Rightarrow> sent list option" where
  "rejectOverDeepLine lib line =
    (if \<not> exceedsMaxDepth line kMaxJsonDepth then None
     else case tryRecoverId line of
       None \<Rightarrow> Some [Stderr (''skipping over-deep line (max depth '' @ nat_to_string kMaxJsonDepth
                     @ '', no recoverable id)'')]
     | Some recovered \<Rightarrow>
         Some (orLog ''failed to send nesting error: '' (writeMessage lib (makeNestingTooDeep recovered))))"

definition handleLine ::
  "json_lib \<Rightarrow> string \<Rightarrow> 'w tool_registry \<Rightarrow> string \<Rightarrow> 'w \<Rightarrow> sent list \<times> 'w" where
  "handleLine lib toolVersion registry line w =
    (if line = [] then ([], w)
     else case rejectOverDeepLine lib line of
       Some out \<Rightarrow> (out, w)
     | None \<Rightarrow>
        (case lib_parse lib line of
           Inl what \<Rightarrow>
             ((case tryRecoverId line of
                 Some recovered \<Rightarrow>
                   orLog ''failed to send parse error: '' (writeMessage lib (makeParseError recovered))
               | None \<Rightarrow> [Stderr (''skipping malformed line: '' @ what)]), w)
         | Inr message \<Rightarrow>
             (if \<not> isValidEnvelope message
              then (orLog ''failed to send request error: ''
                      (writeMessage lib (makeInvalidRequest (idOrNull message))), w)
              else dispatchMessage lib toolVersion message registry w)))"

fun serveLines ::
  "json_lib \<Rightarrow> string \<Rightarrow> 'w tool_registry \<Rightarrow> string list \<Rightarrow> 'w \<Rightarrow> sent list \<times> 'w" where
  "serveLines lib toolVersion registry [] w = ([], w)"
| "serveLines lib toolVersion registry (line # lines) w =
    (let (out, w1) = handleLine lib toolVersion registry line w;
         (outs, w2) = serveLines lib toolVersion registry lines w1
     in (out @ outs, w2))"

section \<open>Replies\<close>

text \<open>
  The specification: which lines are answered, and under which \<open>id\<close>. A line that is too deep or does
  not parse is answered when an \<open>id\<close> can be recovered from it, an invalid envelope under its \<open>id\<close> or
  null, a valid one when it has an \<open>id\<close>.
\<close>

definition answered :: "json_lib \<Rightarrow> string \<Rightarrow> json option" where
  "answered lib line =
    (if line = [] then None
     else if exceedsMaxDepth line kMaxJsonDepth then tryRecoverId line
     else case lib_parse lib line of
       Inl _ \<Rightarrow> tryRecoverId line
     | Inr message \<Rightarrow>
         (if isValidEnvelope message then jfind ''id'' message else Some (idOrNull message)))"

text \<open>A response: version 2.0, an \<open>id\<close>, and either a result or an error.\<close>

definition is_response :: "json \<Rightarrow> json \<Rightarrow> bool" where
  "is_response id_value m \<longleftrightarrow> jfind ''jsonrpc'' m = Some (JString ''2.0'')
     \<and> jfind ''id'' m = Some id_value \<and> (jfind ''result'' m = None) \<noteq> (jfind ''error'' m = None)"

definition replies :: "sent list \<Rightarrow> string list" where
  "replies out = concat (map (\<lambda>s. case s of Stdout t \<Rightarrow> [t] | Stderr _ \<Rightarrow> []) out)"

lemma replies_simps [simp]:
  "replies [] = []" "replies (Stdout t # out) = t # replies out" "replies (Stderr t # out) = replies out"
  "replies (xs @ ys) = replies xs @ replies ys"
  by (simp_all add: replies_def)

lemma response_protocolError: "is_response i (makeProtocolError i c m)"
  by (simp add: is_response_def makeProtocolError_def json_simps)

lemma response_nesting: "is_response i (makeNestingTooDeep i)"
  by (simp add: is_response_def makeNestingTooDeep_def makeProtocolError_def Let_def json_simps)

lemma response_result: "is_response i (resultResponse i r)"
  by (simp add: is_response_def resultResponse_def json_simps)

lemma response_error: "is_response i (errorResponse i f)"
  by (simp add: is_response_def errorResponse_def json_simps)

lemma response_unsupported: "is_response i (unsupported i m)"
  by (simp add: is_response_def unsupported_def json_simps)

lemmas responses = response_protocolError response_nesting response_result response_error
  response_unsupported

lemma response_call: "is_response i (fst (dispatchToolsCall lib i params reg w))"
  by (auto simp: dispatchToolsCall_def Let_def responses makeInvalidParamsError_def
      split: option.splits json.splits sum.splits thrown.splits prod.splits)

text \<open>
  What a line that asks for an answer gets: one response under the given \<open>id\<close>, which is printed when the JSON
  library can print it (\<open>dump\<close> throws on text that is not UTF-8), and is otherwise lost, with the text of the
  exception at the end of a log line.
\<close>

definition delivered :: "json_lib \<Rightarrow> json \<Rightarrow> sent list \<Rightarrow> bool" where
  "delivered lib i out \<longleftrightarrow> (\<exists>m. is_response i m \<and>
     (case lib_dump lib m of
        Inr text \<Rightarrow> replies out = [text]
      | Inl what \<Rightarrow> replies out = [] \<and> (\<exists>before prefix. out = before @ [Stderr (prefix @ what)])))"

lemma write_delivered: "is_response i m \<Longrightarrow> delivered lib i (orLog p (writeMessage lib m))"
  unfolding delivered_def by (rule exI [of _ m]) (auto simp: writeMessage_def orLog_def split: sum.splits)

lemma delivered_log: "delivered lib i out \<Longrightarrow> delivered lib i (Stderr s # out)"
  unfolding delivered_def by (fastforce split: sum.splits intro: append_Cons [symmetric])

lemma route_delivered: "delivered lib i (orLog p (fst (routeRequest lib v i method params reg w)))"
proof -
  obtain r w' where c: "dispatchToolsCall lib i params reg w = (r, w')" by fastforce
  then have r: "is_response i r" using response_call [of i lib params reg w] by simp
  define m where "m = (if method = ''server/discover'' then resultResponse i (buildDiscoverResult v)
     else if method = ''tools/list'' then resultResponse i (buildToolsListResult reg)
     else if method = ''tools/call'' then r
     else if method = ''initialize'' then unsupported i
       (''Legacy initialize handshake is not supported. This server requires protocol ''
        @ ''version 2026-07-28 with per-request _meta.'')
     else makeMethodNotFound i)"
  have "fst (routeRequest lib v i method params reg w) = writeMessage lib m"
    by (simp add: routeRequest_def m_def c sendLegacyInitialize_def)
  moreover have "is_response i m" by (simp add: m_def r responses makeMethodNotFound_def)
  ultimately show ?thesis using write_delivered by simp
qed

lemma dispatch_answers:
  assumes "is_object message"
  shows "case jfind ''id'' message of
      None \<Rightarrow> replies (fst (dispatchMessage lib v message reg w)) = []
    | Some i \<Rightarrow> delivered lib i (fst (dispatchMessage lib v message reg w))"
proof (cases "jfind ''id'' message")
  case None
  then show ?thesis
    using assms by (auto simp: dispatchMessage_def handleNotification_def)
next
  case (Some i)
  define routed where "routed = orLog ''dispatch failed: ''
      (fst (routeRequest lib v i (readMethod message) (readParams message) reg w))"
  have route: "delivered lib i routed" unfolding routed_def by (rule route_delivered)
  show ?thesis
  proof (cases "\<exists>ver. extractProtocolVersion message = Some ver \<and> \<not> isSupportedVersion ver")
    case True
    then obtain ver where ver: "extractProtocolVersion message = Some ver" "\<not> isSupportedVersion ver"
      by blast
    show ?thesis
    proof (cases "sendVersionMismatch lib i ver")
      case (Inl what)
      then have "fst (dispatchMessage lib v message reg w) = Stderr (''skipping version check: '' @ what) # routed"
        using assms Some ver by (simp add: dispatchMessage_def case_prod_beta routed_def)
      then show ?thesis using Some delivered_log [OF route] by simp
    next
      case (Inr out)
      then have "fst (dispatchMessage lib v message reg w) = orLog [] (sendVersionMismatch lib i ver)"
        using assms Some ver by (simp add: dispatchMessage_def orLog_def)
      then show ?thesis using Some by (simp add: sendVersionMismatch_def write_delivered response_unsupported)
    qed
  next
    case False
    then have "(case extractProtocolVersion message of None \<Rightarrow> None
        | Some ver \<Rightarrow> if isSupportedVersion ver then None else Some (sendVersionMismatch lib i ver)) = None"
      by (auto split: option.splits)
    then have "fst (dispatchMessage lib v message reg w) = routed"
      using assms Some by (simp add: dispatchMessage_def case_prod_beta routed_def)
    then show ?thesis using route Some by simp
  qed
qed

lemma line_answers:
  "case answered lib line of
      None \<Rightarrow> replies (fst (handleLine lib v reg line w)) = []
    | Some i \<Rightarrow> delivered lib i (fst (handleLine lib v reg line w))"
proof -
  have obj: "isValidEnvelope m \<Longrightarrow> is_object m" for m by (simp add: isValidEnvelope_def split: if_splits)
  show ?thesis
  proof (cases "line = [] \<or> exceedsMaxDepth line kMaxJsonDepth")
    case True
    then show ?thesis
      by (cases "tryRecoverId line")
        (auto simp: handleLine_def answered_def rejectOverDeepLine_def responses intro!: write_delivered)
  next
    case False
    show ?thesis
    proof (cases "lib_parse lib line")
      case (Inl what)
      then show ?thesis
        using False by (cases "tryRecoverId line")
          (auto simp: handleLine_def answered_def rejectOverDeepLine_def makeParseError_def responses
            intro!: write_delivered)
    next
      case (Inr m)
      show ?thesis
      proof (cases "isValidEnvelope m")
        case True
        then have "handleLine lib v reg line w = dispatchMessage lib v m reg w"
          and "answered lib line = jfind ''id'' m"
          using False Inr by (simp_all add: handleLine_def answered_def rejectOverDeepLine_def)
        then show ?thesis
          using dispatch_answers [OF obj [OF True], of lib v reg w] by (simp only:)
      next
        case invalid: False
        then show ?thesis
          using False Inr by (auto simp: handleLine_def answered_def rejectOverDeepLine_def
              makeInvalidRequest_def responses intro!: write_delivered)
      qed
    qed
  qed
qed

text \<open>C7: what the server prints is, in order, what each line gets: a line that asks for an answer (\<open>answered\<close>:
  a valid request with an \<open>id\<close>, an invalid envelope, or an over-deep or malformed line from which an \<open>id\<close> can be
  recovered) gets exactly one response, under its id and with either a result or an error; it is printed
  when the JSON library can print it, and when the library throws (on text that is not UTF-8) nothing is
  printed for the line and a log line ends with the exception's text. A line that asks for none gets no
  output. No input line, tool failure or failed print stops the loop or costs another line its answer.\<close>

theorem every_request_answered_once:
  "\<exists>outs. fst (serveLines lib v reg lines w) = concat outs
    \<and> list_all2 (\<lambda>line out.
        case answered lib line of
          None \<Rightarrow> replies out = []
        | Some i \<Rightarrow> (\<exists>m. is_response i m \<and>
            (case lib_dump lib m of
               Inr text \<Rightarrow> replies out = [text]
             | Inl what \<Rightarrow> replies out = [] \<and> (\<exists>before prefix. out = before @ [Stderr (prefix @ what)])))) lines outs"
  (is "\<exists>outs. _ \<and> list_all2 ?answer lines outs")
proof (induction lines arbitrary: w)
  case (Cons line lines)
  obtain out w1 where h: "handleLine lib v reg line w = (out, w1)" by fastforce
  obtain outs w2 where s: "serveLines lib v reg lines w1 = (outs, w2)" by fastforce
  from Cons.IH [of w1] obtain parts where "outs = concat parts" and "list_all2 ?answer lines parts"
    by (auto simp: s)
  moreover have "?answer line out"
    using line_answers [of lib v reg line w] by (simp only: h fst_conv delivered_def)
  ultimately show ?case by (intro exI [of _ "out # parts"]) (simp add: h s)
qed simp

definition sample_lib :: json_lib where
  "sample_lib =
    \<lparr>lib_parse = (\<lambda>s. if s = ''ping''
        then Inr (jobj [(''jsonrpc'', JString ''2.0''), (''id'', JInt 7), (''method'', JString ''ping'')])
        else Inl ''bad''),
     lib_dump = (\<lambda>j. Inr (case jfind ''id'' j of Some (JInt i) \<Rightarrow> int_to_string i | _ \<Rightarrow> [])),
     lib_check = (\<lambda>_ _. Inr True), lib_value_error = (\<lambda>_ _. [])\<rparr>"

text \<open>A response can be lost: the \<open>id\<close> recovered from a malformed line may be text no printer accepts.\<close>

definition unprintable_line :: string where
  "unprintable_line = CHR ''{'' # kKey @ [CHR '':'', CHR 0x22, CHR 0xFF, CHR 0x22]"

lemma unprintable_id:
  "tryRecoverId unprintable_line = Some (JString [CHR 0xFF])" "\<not> exceedsMaxDepth unprintable_line kMaxJsonDepth"
  by code_simp+

lemma lost_reply:
  assumes "lib_parse lib unprintable_line = Inl what"
    and "\<And>m. jfind ''id'' m = Some (JString [CHR 0xFF]) \<Longrightarrow> lib_dump lib m = Inl ''invalid UTF-8''"
  shows "answered lib unprintable_line = Some (JString [CHR 0xFF])
    \<and> fst (handleLine lib v reg unprintable_line w) = [Stderr ''failed to send parse error: invalid UTF-8'']"
proof -
  have line: "unprintable_line \<noteq> []" by (simp add: unprintable_line_def)
  have "jfind ''id'' (makeParseError (JString [CHR 0xFF])) = Some (JString [CHR 0xFF])"
    by (simp add: makeParseError_def makeProtocolError_def json_simps)
  then show ?thesis
    using assms unprintable_id line
    by (simp add: handleLine_def answered_def rejectOverDeepLine_def writeMessage_def orLog_def)
qed

text \<open>The names the program registers follow the rule it asserts.\<close>

lemma names_valid: "list_all (\<lambda>t. isValidToolName (td_name t)) builtinTools"
  by (simp add: builtinTools_def newTool_def isValidToolName_def name_char_def is_digit_def less_eq_char_def)

end
