(* ===== verification/JsonReports.thy ===== *)
theory JsonReports
  imports Json ValidationResult DiffReport
begin

text \<open>
  The JSON renderings of the two reports and their readers (\<open>src/json_contract/envelope.cpp\<close>, the
  end of \<open>src/validator/validation_result.cpp\<close> and of \<open>src/diff/diff_render.cpp\<close>). The version is
  written into a header by the build, so it is an argument. A reader's \<open>None\<close> is an exception of the
  JSON library.
\<close>

section \<open>The envelope\<close>

definition wrapEnvelope :: "string \<Rightarrow> string \<Rightarrow> json \<Rightarrow> json" where
  "wrapEnvelope version kind payload = jassign
    [(''$schema'', JString ''https://parsex.dev/schemas/v1/envelope.json''),
     (''contractVersion'', JString version),
     (''toolVersion'', JString version),
     (''kind'', JString kind),
     (''payload'', payload)]"

definition unwrapEnvelope :: "json \<Rightarrow> json" where
  "unwrapEnvelope doc =
    (if is_object doc then case jfind ''payload'' doc of Some p \<Rightarrow> p | None \<Rightarrow> doc else doc)"

lemma unwrap_wrap: "unwrapEnvelope (wrapEnvelope version kind payload) = payload"
  by (simp add: unwrapEnvelope_def wrapEnvelope_def json_simps)

section \<open>The interface of a JSON rendering\<close>

text \<open>An optional member: absent when the key is, otherwise converted. The outer \<open>None\<close> throws.\<close>

definition optionalFrom :: "(json \<Rightarrow> 'a option) \<Rightarrow> string \<Rightarrow> json \<Rightarrow> 'a option option" where
  "optionalFrom conv key j =
    (case jfind key j of None \<Rightarrow> Some None | Some v \<Rightarrow> map_option Some (conv v))"

text \<open>A rendering whose reader gets every value back, as a member, an optional member or an item.\<close>

locale json_codec = codec "\<lambda>_. True" to_json from_json
  for to_json :: "'a \<Rightarrow> json" and from_json :: "json \<Rightarrow> 'a option"
begin

lemma optional_read: "jfind key j = map_option to_json l \<Longrightarrow> optionalFrom from_json key j = Some l"
  by (cases l) (simp_all add: optionalFrom_def dec_enc)

lemma items_read: "map_opt from_json (jitems (JArray (map to_json xs))) = Some xs"
  using dec_items [of xs] by (simp add: list_all_iff)

end

interpretation text_json: json_codec JString jget_string
  by unfold_locales simp

section \<open>Validation results\<close>

definition jsize :: "size_t \<Rightarrow> json" where
  "jsize w = JInt (uint w)"

definition spanToJson :: "raw_span \<Rightarrow> json" where
  "spanToJson s = jobj
    [(''startOffset'', jsize (startOffset s)), (''endOffset'', jsize (endOffset s)),
     (''lineNumber'', jsize (lineNumber s))]"

definition optionalText :: "string \<Rightarrow> string option \<Rightarrow> (string \<times> json) list" where
  "optionalText key text = (case text of None \<Rightarrow> [] | Some s \<Rightarrow> [(key, JString s)])"

definition errorToJson :: "validation_error \<Rightarrow> json" where
  "errorToJson err = jassign
    ([(''severity'', JString (if ve_severity err = Warning then ''warning'' else ''error'')),
      (''code'', JString (ve_code err)),
      (''message'', JString (ve_message err))]
     @ (case ve_location err of None \<Rightarrow> [] | Some s \<Rightarrow> [(''location'', spanToJson s)])
     @ optionalText ''path'' (ve_path err)
     @ optionalText ''expectedType'' (ve_expectedType err)
     @ optionalText ''actualType'' (ve_actualType err))"

definition spanFromJson :: "json \<Rightarrow> raw_span option" where
  "spanFromJson loc =
    (case (jvalue jget_size ''startOffset'' 0 loc, jvalue jget_size ''endOffset'' 0 loc,
           jvalue jget_size ''lineNumber'' 0 loc) of
       (Some a, Some b, Some c) \<Rightarrow> Some \<lparr>startOffset = a, endOffset = b, lineNumber = c\<rparr>
     | _ \<Rightarrow> None)"

definition errorFromJson :: "json \<Rightarrow> validation_error option" where
  "errorFromJson j =
    (case (jvalue jget_string ''severity'' ''error'' j, jvalue jget_string ''code'' [] j,
           jvalue jget_string ''message'' [] j, optionalFrom spanFromJson ''location'' j,
           optionalFrom jget_string ''path'' j, optionalFrom jget_string ''expectedType'' j,
           optionalFrom jget_string ''actualType'' j) of
       (Some sev, Some code, Some msg, Some loc, Some path, Some expected, Some actual) \<Rightarrow>
         Some \<lparr>ve_severity = (if sev = ''warning'' then Warning else Error), ve_code = code,
               ve_message = msg, ve_location = loc, ve_path = path, ve_expectedType = expected,
               ve_actualType = actual\<rparr>
     | _ \<Rightarrow> None)"

definition resultToJson :: "string \<Rightarrow> validation_result \<Rightarrow> json" where
  "resultToJson version r = wrapEnvelope version ''validationResult''
    (jassign [(''passed'', JBool (\<not> hasErrors r)), (''errors'', JArray (map errorToJson r))])"

definition resultFromJson :: "json \<Rightarrow> validation_result option" where
  "resultFromJson doc =
    (case jfind ''errors'' (unwrapEnvelope doc) of
       None \<Rightarrow> Some []
     | Some errs \<Rightarrow> map_opt errorFromJson (jitems errs))"

lemma jget_jsize: "jget_size (jsize w) = Some w"
  by (simp add: jsize_def)

interpretation span_json: json_codec spanToJson spanFromJson
  by unfold_locales (simp add: spanFromJson_def spanToJson_def jvalue_def json_simps jget_jsize)

lemma error_roundtrip: "errorFromJson (errorToJson err) = Some err"
proof -
  have "is_object (errorToJson err)" by (simp add: errorToJson_def json_simps)
  moreover have
    "jfind ''severity'' (errorToJson err)
      = Some (JString (if ve_severity err = Warning then ''warning'' else ''error''))"
    "jfind ''code'' (errorToJson err) = Some (JString (ve_code err))"
    "jfind ''message'' (errorToJson err) = Some (JString (ve_message err))"
    "jfind ''location'' (errorToJson err) = map_option spanToJson (ve_location err)"
    "jfind ''path'' (errorToJson err) = map_option JString (ve_path err)"
    "jfind ''expectedType'' (errorToJson err) = map_option JString (ve_expectedType err)"
    "jfind ''actualType'' (errorToJson err) = map_option JString (ve_actualType err)"
    unfolding atomize_conj
    by (cases "ve_location err"; cases "ve_path err"; cases "ve_expectedType err";
        cases "ve_actualType err"; simp add: errorToJson_def json_simps optionalText_def)
  moreover have "(if (if ve_severity err = Warning then ''warning'' else ''error'') = ''warning''
      then Warning else Error) = ve_severity err" by (cases "ve_severity err") simp_all
  ultimately show ?thesis
    by (simp add: errorFromJson_def jvalue_def text_json.optional_read span_json.optional_read)
qed

interpretation error_json: json_codec errorToJson errorFromJson
  by unfold_locales (rule error_roundtrip)

section \<open>Diff reports\<close>

fun kindToJson :: "diff_kind \<Rightarrow> string" where
  "kindToJson Added = ''added''"
| "kindToJson Removed = ''removed''"
| "kindToJson Moved = ''moved''"
| "kindToJson Modified = ''modified''"

definition kindFromJson :: "string \<Rightarrow> diff_kind" where
  "kindFromJson kindName =
    (if kindName = ''added'' then Added
     else if kindName = ''removed'' then Removed
     else if kindName = ''moved'' then Moved
     else Modified)"

definition fieldToJson :: "field_diff \<Rightarrow> json" where
  "fieldToJson f = jassign
    [(''field'', JString (fieldName f)), (''oldValue'', JString (oldValue f)),
     (''newValue'', JString (newValue f))]"

definition entryToJson :: "diff_entry \<Rightarrow> json" where
  "entryToJson e = jassign
    ([(''kind'', JString (kindToJson (de_kind e))), (''elementType'', JString (elementType e))]
     @ (if oldPath e \<noteq> [] then [(''oldPath'', JString (oldPath e))] else [])
     @ (if newPath e \<noteq> [] then [(''newPath'', JString (newPath e))] else [])
     @ [(''fieldDiffs'', JArray (map fieldToJson (fieldDiffs e)))])"

definition diagToJson :: "diff_diagnostic \<Rightarrow> json" where
  "diagToJson d = jassign
    [(''elementType'', JString (dd_elementType d)), (''message'', JString (dd_message d))]"

definition reportToJson :: "string \<Rightarrow> diff_report \<Rightarrow> json" where
  "reportToJson version r = wrapEnvelope version ''diffReport''
    (jassign [(''entries'', JArray (map entryToJson (entries r))),
              (''diagnostics'', JArray (map diagToJson (diagnostics r)))])"

text \<open>\<open>j.at(key).get<std::string>()\<close>.\<close>

definition textAt :: "string \<Rightarrow> json \<Rightarrow> string option" where
  "textAt key j = Option.bind (jat key j) jget_string"

definition fieldFromJson :: "json \<Rightarrow> field_diff option" where
  "fieldFromJson j =
    (case (textAt ''field'' j, textAt ''oldValue'' j, textAt ''newValue'' j) of
       (Some f, Some a, Some b) \<Rightarrow> Some \<lparr>fieldName = f, oldValue = a, newValue = b\<rparr>
     | _ \<Rightarrow> None)"

definition entryFromJson :: "json \<Rightarrow> diff_entry option" where
  "entryFromJson j =
    (case (textAt ''kind'' j, textAt ''elementType'' j, jvalue jget_string ''oldPath'' [] j,
           jvalue jget_string ''newPath'' [] j,
           Option.bind (jat ''fieldDiffs'' j) (\<lambda>fs. map_opt fieldFromJson (jitems fs))) of
       (Some k, Some t, Some a, Some b, Some fs) \<Rightarrow>
         Some \<lparr>de_kind = kindFromJson k, elementType = t, oldPath = a, newPath = b, fieldDiffs = fs\<rparr>
     | _ \<Rightarrow> None)"

definition diagFromJson :: "json \<Rightarrow> diff_diagnostic option" where
  "diagFromJson j =
    (case (textAt ''message'' j, textAt ''elementType'' j) of
       (Some m, Some t) \<Rightarrow> Some \<lparr>dd_message = m, dd_elementType = t\<rparr>
     | _ \<Rightarrow> None)"

definition reportFromJson :: "json \<Rightarrow> diff_report option" where
  "reportFromJson doc =
    (let payload = unwrapEnvelope doc in
     case Option.bind (jat ''entries'' payload) (\<lambda>es. map_opt entryFromJson (jitems es)) of
       None \<Rightarrow> None
     | Some es \<Rightarrow>
        (case jfind ''diagnostics'' payload of
           None \<Rightarrow> Some \<lparr>entries = es, diagnostics = []\<rparr>
         | Some ds \<Rightarrow> map_option (\<lambda>ds. \<lparr>entries = es, diagnostics = ds\<rparr>)
             (map_opt diagFromJson (jitems ds))))"

lemma kind_roundtrip: "kindFromJson (kindToJson k) = k"
  by (cases k) (simp_all add: kindFromJson_def)

interpretation field_json: json_codec fieldToJson fieldFromJson
  by unfold_locales (simp add: fieldFromJson_def fieldToJson_def textAt_def jat_def json_simps)

lemma entry_roundtrip: "entryFromJson (entryToJson e) = Some e"
proof -
  have f: "jfind ''kind'' (entryToJson e) = Some (JString (kindToJson (de_kind e)))"
    "jfind ''elementType'' (entryToJson e) = Some (JString (elementType e))"
    "jfind ''oldPath'' (entryToJson e) = (if oldPath e = [] then None else Some (JString (oldPath e)))"
    "jfind ''newPath'' (entryToJson e) = (if newPath e = [] then None else Some (JString (newPath e)))"
    "jfind ''fieldDiffs'' (entryToJson e) = Some (JArray (map fieldToJson (fieldDiffs e)))"
    "is_object (entryToJson e)"
    unfolding atomize_conj by (cases "oldPath e = []"; cases "newPath e = []"; simp add: entryToJson_def json_simps)
  show ?thesis
    using field_json.items_read by (simp add: entryFromJson_def textAt_def jat_def jvalue_def f kind_roundtrip)
qed

interpretation entry_json: json_codec entryToJson entryFromJson
  by unfold_locales (rule entry_roundtrip)

interpretation diag_json: json_codec diagToJson diagFromJson
  by unfold_locales (simp add: diagFromJson_def diagToJson_def textAt_def jat_def json_simps)

text \<open>C26: both reports survive JSON: reading what \<open>toJson\<close> wrote gives back the same findings, and the
  same entries and diagnostics, with every optional member present or absent as it was.\<close>

theorem json_reports_roundtrip:
  "resultFromJson (resultToJson version r) = Some r
   \<and> reportFromJson (reportToJson version d) = Some d"
proof
  show "resultFromJson (resultToJson version r) = Some r"
    using error_json.items_read by (simp add: resultFromJson_def resultToJson_def unwrap_wrap json_simps)
  show "reportFromJson (reportToJson version d) = Some d"
    using entry_json.items_read diag_json.items_read
    by (simp add: reportFromJson_def reportToJson_def unwrap_wrap json_simps jat_def)
qed

end
