(* ===== verification/CsvWriter.thy ===== *)
theory CsvWriter
  imports ExportDb ShortestDouble
begin

text \<open>
  The CSV writer (\<open>src/export/csv_writer.cpp\<close>), a reference reader for RFC 4180 and the theorem that
  the reader recovers every cell of every row.
\<close>

section \<open>Cells\<close>

definition crlf :: string where
  "crlf = [CHR 0x0D, CHR 0x0A]"

definition kHeader :: string where
  "kHeader = ''frame,frame_id,extended,can_fd,length,transmitters,signal,start_bit,bit_length,byte_order,signed,''
     @ ''factor,offset,min,max,unit,init_value,receivers,value_table''"

definition kSignalColumns :: nat where
  "kSignalColumns = 13"

definition breaks_row :: "char \<Rightarrow> bool" where
  "breaks_row c \<longleftrightarrow> c = CHR '','' \<or> c = CHR 0x22 \<or> c = CHR 0x0D \<or> c = CHR 0x0A"

definition appendField :: "string \<Rightarrow> string \<Rightarrow> string" where
  "appendField out field =
    (if \<not> list_ex breaks_row field then out @ field
     else out @ [CHR 0x22] @ concat (map (\<lambda>c. if c = CHR 0x22 then [CHR 0x22, c] else [c]) field) @ [CHR 0x22])"

definition formatNumber :: "double \<Rightarrow> string" where
  "formatNumber v = to_chars v"

definition formatOptional :: "double option \<Rightarrow> string" where
  "formatOptional v = (case v of None \<Rightarrow> [] | Some d \<Rightarrow> formatNumber d)"

text \<open>The separator is written only when something has been written before it.\<close>

definition joinSemicolon :: "string list \<Rightarrow> string" where
  "joinSemicolon items = foldl (\<lambda>out item. (if out = [] then [] else out @ '';'') @ item) [] items"

definition formatValueTable :: "value_table_entry list \<Rightarrow> string" where
  "formatValueTable es =
    foldl (\<lambda>out e. (if out = [] then [] else out @ '';'') @ i64_to_string (vte_value e) @ ''='' @ vte_label e) [] es"

fun appendCells :: "string \<Rightarrow> bool \<Rightarrow> string list \<Rightarrow> string" where
  "appendCells out first [] = out"
| "appendCells out first (c # cs) =
    appendCells (appendField (if first then out else out @ '','') c) False cs"

definition appendRow :: "string \<Rightarrow> string list \<Rightarrow> string" where
  "appendRow out cells = appendCells out True cells @ crlf"

definition boolText :: "bool \<Rightarrow> string" where
  "boolText b = (if b then ''true'' else ''false'')"

text \<open>\<open>std::format("{:X}")\<close>\<close>

definition hex_char :: "nat \<Rightarrow> char" where
  "hex_char d = (if d < 10 then char_of (48 + d) else char_of (55 + d))"

fun hex_upper :: "nat \<Rightarrow> string" where
  "hex_upper n = (if n < 16 then [hex_char n] else hex_upper (n div 16) @ [hex_char (n mod 16)])"

declare hex_upper.simps [simp del]

section \<open>Rows\<close>

definition frameCells :: "export_frame \<Rightarrow> string list" where
  "frameCells f =
    [ef_name f, ''0x'' @ hex_upper (unat (ef_id f)), boolText (ef_extended f), boolText (ef_canFd f),
     u32_to_string (ef_length f), joinSemicolon (ef_transmitters f)]"

definition signalCells :: "export_signal \<Rightarrow> string list" where
  "signalCells s =
    [es_name s, u32_to_string (es_startBit s), u32_to_string (es_bitLength s),
     if es_byteOrder s = MostSignificantByteFirst then ''big_endian'' else ''little_endian'',
     boolText (es_isSigned s), formatNumber (es_factor s), formatNumber (es_offset s),
     formatOptional (es_min s), formatOptional (es_max s), es_unit s, formatOptional (es_initValue s),
     joinSemicolon (es_receivers s), formatValueTable (es_valueTable s)]"

definition csvFrame :: "export_frame \<Rightarrow> string \<Rightarrow> string" where
  "csvFrame f out =
    (if ef_signals f = [] then appendRow out (frameCells f @ replicate kSignalColumns [])
     else fold (\<lambda>s out. appendRow out (frameCells f @ signalCells s)) (ef_signals f) out)"

definition toCsv :: "export_database \<Rightarrow> string" where
  "toCsv db = fold csvFrame (ed_frames db) (kHeader @ crlf)"

section \<open>Reading RFC 4180\<close>

text \<open>
  Records end with CRLF, fields are separated by commas; a field that starts with a quote runs to the
  quote that is not doubled. \<open>None\<close>: the text is not of this form.
\<close>

fun read_quoted :: "string \<Rightarrow> (string \<times> string) option" where
  "read_quoted [] = None"
| "read_quoted (c # cs) =
    (if c = CHR 0x22
     then (case cs of
             d # ds \<Rightarrow> if d = CHR 0x22 then map_option (\<lambda>(f, r). (CHR 0x22 # f, r)) (read_quoted ds) else Some ([], cs)
           | [] \<Rightarrow> Some ([], []))
     else map_option (\<lambda>(f, r). (c # f, r)) (read_quoted cs))"

definition read_field :: "string \<Rightarrow> (string \<times> string) option" where
  "read_field s =
    (case s of
       c # cs \<Rightarrow> if c = CHR 0x22 then read_quoted cs
                 else Some (takeWhile (\<lambda>x. \<not> breaks_row x) s, dropWhile (\<lambda>x. \<not> breaks_row x) s)
     | [] \<Rightarrow> Some ([], []))"

lemma read_quoted_shorter: "read_quoted s = Some (f, r) \<Longrightarrow> length r < length s"
  by (induction s arbitrary: f r rule: read_quoted.induct) (fastforce split: if_splits list.splits)+

lemma read_field_shorter: "read_field s = Some (f, r) \<Longrightarrow> length r \<le> length s"
  by (auto simp: read_field_def intro: le_SucI length_dropWhile_le split: list.splits if_splits
      dest: read_quoted_shorter)

function read_record :: "string \<Rightarrow> (string list \<times> string) option" where
  "read_record s =
    (case read_field s of
       Some (f, c # r) \<Rightarrow>
         if c = CHR '','' then map_option (\<lambda>(fs, r'). (f # fs, r')) (read_record r)
         else if c = CHR 0x0D \<and> take 1 r = [CHR 0x0A] then Some ([f], drop 1 r)
         else None
     | _ \<Rightarrow> None)"
  by pat_completeness auto
termination
  by (relation "measure length") (auto dest!: read_field_shorter)

declare read_record.simps [simp del]

lemma read_record_shorter: "read_record s = Some (fs, r) \<Longrightarrow> length r < length s"
proof (induction s arbitrary: fs r rule: read_record.induct)
  case (1 s)
  from 1(2) obtain f c cs where s: "read_field s = Some (f, c # cs)"
    by (subst (asm) read_record.simps) (auto split: option.splits list.splits)
  show ?case
  proof (cases "c = CHR '',''")
    case True
    then obtain fs' where "read_record cs = Some (fs', r)"
      using 1(2) s by (subst (asm) read_record.simps) auto
    then show ?thesis using 1(1) [OF s refl refl True] read_field_shorter [OF s] by simp
  next
    case False
    then show ?thesis
      using 1(2) s read_field_shorter [OF s] by (subst (asm) read_record.simps) (auto split: if_splits)
  qed
qed

function read_csv :: "string \<Rightarrow> string list list option" where
  "read_csv s =
    (if s = [] then Some []
     else case read_record s of
            None \<Rightarrow> None
          | Some (fs, r) \<Rightarrow> map_option (\<lambda>rs. fs # rs) (read_csv r))"
  by pat_completeness auto
termination
  by (relation "measure length") (auto dest: read_record_shorter)

declare read_csv.simps [simp del]

section \<open>Reading what is written\<close>

definition field_text :: "string \<Rightarrow> string" where
  "field_text x = appendField [] x"

definition escaped :: "string \<Rightarrow> string" where
  "escaped x = concat (map (\<lambda>c. if c = CHR 0x22 then [CHR 0x22, c] else [c]) x)"

lemma appendField_text: "appendField out x = out @ field_text x"
  by (simp add: appendField_def field_text_def)

lemma read_escaped: "c \<noteq> CHR 0x22 \<Longrightarrow> read_quoted (escaped x @ CHR 0x22 # c # rest) = Some (x, c # rest)"
  by (induction x) (auto simp: escaped_def)

lemma read_field_text:
  assumes "c = CHR '','' \<or> c = CHR 0x0D"
  shows "read_field (field_text x @ c # rest) = Some (x, c # rest)"
proof (cases "list_ex breaks_row x")
  case True
  then show ?thesis
    using assms read_escaped [of c x rest]
    by (auto simp: field_text_def appendField_def read_field_def escaped_def)
next
  case False
  have c: "breaks_row c" using assms by (auto simp: breaks_row_def)
  have x: "\<forall>y \<in> set x. \<not> breaks_row y" using False by (simp add: list_ex_iff)
  have plain: "takeWhile (\<lambda>y. \<not> breaks_row y) (x @ c # rest) = x"
    "dropWhile (\<lambda>y. \<not> breaks_row y) (x @ c # rest) = c # rest"
    using x c by (simp_all add: takeWhile_append2 dropWhile_append2)
  have "hd (x @ c # rest) \<noteq> CHR 0x22"
    using x assms by (cases x) (auto simp: breaks_row_def)
  then show ?thesis
    using False plain by (cases x) (auto simp: field_text_def appendField_def read_field_def)
qed

fun row_text :: "string list \<Rightarrow> string" where
  "row_text [] = []"
| "row_text [x] = field_text x"
| "row_text (x # y # ys) = field_text x @ CHR '','' # row_text (y # ys)"

lemma row_text_Cons: "row_text (x # cs) = field_text x @ (if cs = [] then [] else CHR '','' # row_text cs)"
  by (cases cs) simp_all

lemma appendCells_text:
  "appendCells out False cells = out @ (if cells = [] then [] else CHR '','' # row_text cells)"
  by (induction cells arbitrary: out) (simp_all add: appendField_text row_text_Cons)

lemma appendRow_text: "appendRow out cells = out @ row_text cells @ crlf"
  by (cases cells) (simp_all add: appendRow_def appendField_text appendCells_text row_text_Cons)

lemma read_row: "cells \<noteq> [] \<Longrightarrow> read_record (row_text cells @ crlf @ rest) = Some (cells, rest)"
proof (induction cells rule: row_text.induct)
  case (2 x)
  have "read_field (row_text [x] @ crlf @ rest) = Some (x, crlf @ rest)"
    using read_field_text [of "CHR 0x0D" x "CHR 0x0A # rest"] by (simp add: crlf_def)
  then show ?case by (subst read_record.simps) (simp add: crlf_def)
next
  case (3 x y ys)
  have "read_field (row_text (x # y # ys) @ crlf @ rest) = Some (x, CHR '','' # row_text (y # ys) @ crlf @ rest)"
    using read_field_text [of "CHR '',''" x "row_text (y # ys) @ crlf @ rest"] by simp
  then show ?case using 3 by (subst read_record.simps) simp
qed simp

lemma read_rows: "[] \<notin> set rows \<Longrightarrow> read_csv (concat (map (\<lambda>r. row_text r @ crlf) rows)) = Some rows"
proof (induction rows)
  case Nil
  then show ?case by (simp add: read_csv.simps)
next
  case (Cons r rows)
  have "read_record (concat (map (\<lambda>r. row_text r @ crlf) (r # rows))) = Some (r, concat (map (\<lambda>r. row_text r @ crlf) rows))"
    using read_row [of r] Cons.prems by (cases r) simp_all
  then show ?case using Cons by (subst read_csv.simps) (simp add: crlf_def)
qed

section \<open>Properties\<close>

definition headerCells :: "string list" where
  "headerCells = [''frame'', ''frame_id'', ''extended'', ''can_fd'', ''length'', ''transmitters'', ''signal'',
     ''start_bit'', ''bit_length'', ''byte_order'', ''signed'', ''factor'', ''offset'', ''min'', ''max'',
     ''unit'', ''init_value'', ''receivers'', ''value_table'']"

definition frameRows :: "export_frame \<Rightarrow> string list list" where
  "frameRows f =
    (if ef_signals f = [] then [frameCells f @ replicate kSignalColumns []]
     else map (\<lambda>s. frameCells f @ signalCells s) (ef_signals f))"

lemma header_text: "kHeader = row_text headerCells"
  by (simp add: kHeader_def headerCells_def field_text_def appendField_def breaks_row_def)

lemma csvFrame_text: "csvFrame f out = out @ concat (map (\<lambda>r. row_text r @ crlf) (frameRows f))"
proof -
  have "fold (\<lambda>s out. appendRow out (g s)) ss out = out @ concat (map (\<lambda>r. row_text r @ crlf) (map g ss))"
    for g :: "export_signal \<Rightarrow> string list" and ss out
    by (induction ss arbitrary: out) (simp_all add: appendRow_text)
  then show ?thesis by (simp add: csvFrame_def frameRows_def appendRow_text)
qed

lemma toCsv_text:
  "toCsv db = concat (map (\<lambda>r. row_text r @ crlf) (headerCells # concat (map frameRows (ed_frames db))))"
proof -
  have "fold csvFrame fs out = out @ concat (map (\<lambda>r. row_text r @ crlf) (concat (map frameRows fs)))" for fs out
    by (induction fs arbitrary: out) (simp_all add: csvFrame_text)
  then show ?thesis by (simp add: toCsv_def header_text)
qed

lemma frameRows_width: "r \<in> set (frameRows f) \<Longrightarrow> length r = length headerCells"
  by (auto simp: frameRows_def frameCells_def signalCells_def headerCells_def kSignalColumns_def split: if_splits)

text \<open>C15: reading the CSV by RFC 4180 gives the header and then, frame by frame and signal by signal,
  exactly the cells of the database, every row with as many cells as the header, whatever commas,
  quotes and line breaks the names and labels contain.\<close>

theorem csv_roundtrip:
  "read_csv (toCsv db) = Some (headerCells # concat (map frameRows (ed_frames db))) \<and>
   list_all (\<lambda>r. length r = length headerCells) (concat (map frameRows (ed_frames db)))"
proof
  have "[] \<notin> set (headerCells # concat (map frameRows (ed_frames db)))"
    using frameRows_width by (force simp: headerCells_def)
  then show "read_csv (toCsv db) = Some (headerCells # concat (map frameRows (ed_frames db)))"
    unfolding toCsv_text by (rule read_rows)
qed (auto simp: list_all_iff frameRows_width)

end
