(* ===== verification/DbcWriter.thy ===== *)
theory DbcWriter
  imports ExportDb ShortestDouble
begin

text \<open>
  The DBC writer (\<open>src/export/dbc_writer.cpp\<close>): identifiers, quoted strings, message identifiers
  and the sections of the file. A reference reader recovers quoted strings and signal lines.
\<close>

section \<open>Tokens\<close>

definition kExtendedFlag :: uint32 where
  "kExtendedFlag = 0x80000000"

definition kNoNode :: string where
  "kNoNode = ''Vector__XXX''"

definition kNewSymbols :: "string list" where
  "kNewSymbols =
    [''NS_DESC_'', ''CM_'', ''BA_DEF_'', ''BA_'', ''VAL_'', ''CAT_DEF_'',
     ''CAT_'', ''FILTER'', ''BA_DEF_DEF_'', ''EV_DATA_'', ''ENVVAR_DATA_'', ''SGTYPE_'',
     ''SGTYPE_VAL_'', ''BA_DEF_SGTYPE_'', ''BA_SGTYPE_'', ''SIG_TYPE_REF_'', ''VAL_TABLE_'', ''SIG_GROUP_'',
     ''SIG_VALTYPE_'', ''SIGTYPE_VALTYPE_'', ''BO_TX_BU_'', ''BA_DEF_REL_'', ''BA_REL_'', ''BA_DEF_DEF_REL_'',
     ''BU_SG_REL_'', ''BU_EV_REL_'', ''BU_BO_REL_'', ''SG_MUL_VAL_'']"

definition num :: "double \<Rightarrow> string" where
  "num v = to_chars v"

definition ident_char :: "char \<Rightarrow> bool" where
  "ident_char c \<longleftrightarrow> (CHR ''a'' \<le> c \<and> c \<le> CHR ''z'') \<or> (CHR ''A'' \<le> c \<and> c \<le> CHR ''Z'') \<or>
     (CHR ''0'' \<le> c \<and> c \<le> CHR ''9'') \<or> c = CHR ''_''"

definition ident :: "string \<Rightarrow> string" where
  "ident name =
    (let out = map (\<lambda>c. if ident_char c then c else CHR ''_'') name
     in if out = [] \<or> (CHR ''0'' \<le> hd out \<and> hd out \<le> CHR ''9'') then CHR ''_'' # out else out)"

definition dbcQuoted :: "string \<Rightarrow> string" where
  "dbcQuoted txt =
    [CHR 0x22] @ concat (map (\<lambda>c. if c = CHR 0x22 \<or> c = CHR 0x5C then [CHR 0x5C, c] else [c]) txt) @ [CHR 0x22]"

definition joinIdents :: "string list \<Rightarrow> char \<Rightarrow> string" where
  "joinIdents names separator =
    (let out = foldl (\<lambda>out n. (if out = [] then [] else out @ [separator]) @ ident n) [] names
     in if out = [] then kNoNode else out)"

definition dbcId :: "export_frame \<Rightarrow> uint32" where
  "dbcId f = (if ef_extended f then or (ef_id f) kExtendedFlag else ef_id f)"

definition frameFormat :: "export_frame \<Rightarrow> nat" where
  "frameFormat f =
    (if ef_canFd f then (if ef_extended f then 15 else 14) else if ef_extended f then 1 else 0)"

section \<open>Sections\<close>

definition optNum :: "double option \<Rightarrow> string" where
  "optNum v = num (case v of None \<Rightarrow> dbl_zero | Some d \<Rightarrow> d)"

definition signalLine :: "export_signal \<Rightarrow> string" where
  "signalLine s =
    '' SG_ '' @ ident (es_name s) @ '' : '' @ u32_to_string (es_startBit s) @ ''|''
    @ u32_to_string (es_bitLength s) @ ''@''
    @ (if es_byteOrder s = LeastSignificantByteFirst then ''1'' else ''0'')
    @ (if es_isSigned s then ''-'' else ''+'')
    @ '' ('' @ num (es_factor s) @ '','' @ num (es_offset s) @ '') ['' @ optNum (es_min s) @ ''|''
    @ optNum (es_max s) @ ''] '' @ dbcQuoted (es_unit s) @ '' '' @ joinIdents (es_receivers s) (CHR '','') @ newline"

definition formatLine :: "export_frame \<Rightarrow> string" where
  "formatLine f =
    (if frameFormat f \<noteq> 0
     then ''BA_ '' @ dbcQuoted ''VFrameFormat'' @ '' BO_ '' @ u32_to_string (dbcId f) @ '' ''
       @ nat_to_string (frameFormat f) @ '';'' @ newline
     else [])"

definition fdAttributes :: "export_database \<Rightarrow> string" where
  "fdAttributes db =
    ''BA_DEF_ BO_ '' @ dbcQuoted ''VFrameFormat'' @ '' ENUM '' @ dbcQuoted ''StandardCAN'' @ '','' @ dbcQuoted ''ExtendedCAN''
    @ concat (replicate 12 ('','' @ dbcQuoted ''reserved''))
    @ '','' @ dbcQuoted ''StandardCAN_FD'' @ '','' @ dbcQuoted ''ExtendedCAN_FD'' @ '';'' @ newline
    @ ''BA_DEF_ '' @ dbcQuoted ''BusType'' @ '' STRING ;'' @ newline
    @ ''BA_DEF_DEF_ '' @ dbcQuoted ''VFrameFormat'' @ '' '' @ dbcQuoted ''StandardCAN'' @ '';'' @ newline
    @ ''BA_DEF_DEF_ '' @ dbcQuoted ''BusType'' @ '' '' @ dbcQuoted ''CAN'' @ '';'' @ newline
    @ ''BA_ '' @ dbcQuoted ''BusType'' @ '' '' @ dbcQuoted ''CAN FD'' @ '';'' @ newline
    @ concat (map formatLine (ed_frames db)) @ newline"

definition frameSection :: "export_frame \<Rightarrow> string" where
  "frameSection f =
    ''BO_ '' @ u32_to_string (dbcId f) @ '' '' @ ident (ef_name f) @ '': '' @ u32_to_string (ef_length f) @ '' ''
    @ (case ef_transmitters f of [] \<Rightarrow> kNoNode | t # _ \<Rightarrow> ident t) @ newline
    @ concat (map signalLine (ef_signals f)) @ newline"

definition multiTx :: "export_frame \<Rightarrow> bool" where
  "multiTx f \<longleftrightarrow> length (ef_transmitters f) > 1"

definition transmittersLine :: "export_frame \<Rightarrow> string" where
  "transmittersLine f =
    (if multiTx f
     then ''BO_TX_BU_ '' @ u32_to_string (dbcId f) @ '' : '' @ joinIdents (ef_transmitters f) (CHR '','') @ '';'' @ newline
     else [])"

definition valuesLine :: "export_frame \<Rightarrow> export_signal \<Rightarrow> string" where
  "valuesLine f s =
    (if es_valueTable s = [] then []
     else ''VAL_ '' @ u32_to_string (dbcId f) @ '' '' @ ident (es_name s)
       @ concat (map (\<lambda>e. '' '' @ i64_to_string (vte_value e) @ '' '' @ dbcQuoted (vte_label e)) (es_valueTable s))
       @ '' ;'' @ newline)"

definition toDbc :: "export_database \<Rightarrow> string" where
  "toDbc db =
    ''VERSION '' @ [CHR 0x22, CHR 0x22] @ newline @ newline @ ''NS_ :'' @ newline
    @ concat (map (\<lambda>k. [CHR 0x09] @ k @ newline) kNewSymbols)
    @ newline @ ''BS_:'' @ newline @ newline @ ''BU_:''
    @ concat (map (\<lambda>n. '' '' @ ident n) (ed_nodes db)) @ newline @ newline
    @ concat (map frameSection (ed_frames db))
    @ concat (map transmittersLine (ed_frames db))
    @ (if list_ex multiTx (ed_frames db) then newline else [])
    @ (if list_ex ef_canFd (ed_frames db) then fdAttributes db else [])
    @ concat (map (\<lambda>f. concat (map (valuesLine f) (ef_signals f))) (ed_frames db))"

section \<open>Identifiers\<close>

definition valid_ident :: "string \<Rightarrow> bool" where
  "valid_ident s \<longleftrightarrow> s \<noteq> [] \<and> list_all ident_char s \<and> \<not> (CHR ''0'' \<le> hd s \<and> hd s \<le> CHR ''9'')"

lemma ident_underscore: "ident_char (CHR ''_'')"
  by (simp add: ident_char_def)

lemma ident_ok: "valid_ident (ident name)"
proof -
  have "list_all ident_char (map (\<lambda>c. if ident_char c then c else CHR ''_'') name)"
    by (induction name) (auto simp: ident_underscore)
  then show ?thesis
    by (auto simp: ident_def valid_ident_def Let_def ident_underscore less_eq_char_def)
qed

lemma ident_id: "valid_ident s \<Longrightarrow> ident s = s"
proof -
  assume s: "valid_ident s"
  then have "map (\<lambda>c. if ident_char c then c else CHR ''_'') s = s"
    by (intro map_idI) (auto simp: valid_ident_def list_all_iff)
  then show ?thesis using s by (simp add: ident_def valid_ident_def Let_def)
qed

lemma joinIdents_chars: "c \<in> set (joinIdents names sep) \<Longrightarrow> ident_char c \<or> c = sep"
proof -
  have chars: "\<forall>c \<in> set (ident n). ident_char c" for n
    using ident_ok [of n] by (simp add: valid_ident_def list_all_iff)
  have "\<forall>c \<in> set out. ident_char c \<or> c = sep \<Longrightarrow>
    \<forall>c \<in> set (foldl (\<lambda>out n. (if out = [] then [] else out @ [sep]) @ ident n) out names). ident_char c \<or> c = sep" for out
  proof (induction names arbitrary: out)
    case (Cons n names)
    have "\<forall>c \<in> set ((if out = [] then [] else out @ [sep]) @ ident n). ident_char c \<or> c = sep"
      using chars Cons.prems by auto
    from Cons.IH [OF this] show ?case by simp
  qed simp
  from this [of "[]"] show "c \<in> set (joinIdents names sep) \<Longrightarrow> ident_char c \<or> c = sep"
    by (auto simp: joinIdents_def Let_def kNoNode_def ident_char_def less_eq_char_def split: if_splits)
qed

section \<open>Reading strings and signal lines\<close>

text \<open>A quoted string: the text and what follows the closing quote.\<close>

fun read_string_body :: "string \<Rightarrow> (string \<times> string) option" where
  "read_string_body [] = None"
| "read_string_body (c # cs) =
    (if c = CHR 0x22 then Some ([], cs)
     else if c = CHR 0x5C
     then (case cs of d # ds \<Rightarrow> map_option (\<lambda>(t, r). (d # t, r)) (read_string_body ds) | [] \<Rightarrow> None)
     else map_option (\<lambda>(t, r). (c # t, r)) (read_string_body cs))"

definition read_string :: "string \<Rightarrow> (string \<times> string) option" where
  "read_string s = (case s of c # cs \<Rightarrow> if c = CHR 0x22 then read_string_body cs else None | [] \<Rightarrow> None)"

lemma read_string_quoted: "read_string (dbcQuoted t @ rest) = Some (t, rest)"
proof -
  have "read_string_body (concat (map (\<lambda>c. if c = CHR 0x22 \<or> c = CHR 0x5C then [CHR 0x5C, c] else [c]) t)
      @ CHR 0x22 # rest) = Some (t, rest)"
    by (induction t) auto
  then show ?thesis by (simp add: read_string_def dbcQuoted_def)
qed

text \<open>The characters before a stop character, and what follows it.\<close>

definition take_upto :: "char \<Rightarrow> string \<Rightarrow> (string \<times> string) option" where
  "take_upto stop s =
    (case dropWhile (\<lambda>c. c \<noteq> stop) s of [] \<Rightarrow> None | _ # r \<Rightarrow> Some (takeWhile (\<lambda>c. c \<noteq> stop) s, r))"

lemma upto_found: "stop \<notin> set t \<Longrightarrow> take_upto stop (t @ stop # r) = Some (t, r)"
proof -
  assume "stop \<notin> set t"
  then have "\<And>c. c \<in> set t \<Longrightarrow> c \<noteq> stop" by metis
  then show ?thesis by (simp add: take_upto_def takeWhile_append2 dropWhile_append2)
qed

definition skip_text :: "string \<Rightarrow> string \<Rightarrow> string option" where
  "skip_text p s = (if starts_with s p then Some (drop (length p) s) else None)"

lemma skip_text_found: "skip_text p (p @ s) = Some s"
  by (simp add: skip_text_def)

record signal_tokens =
  tk_name :: string
  tk_start :: string
  tk_length :: string
  tk_order :: char
  tk_sign :: char
  tk_factor :: string
  tk_offset :: string
  tk_min :: string
  tk_max :: string
  tk_unit :: string
  tk_receivers :: string

definition read_two :: "string \<Rightarrow> (char \<times> char \<times> string) option" where
  "read_two s = (case s of a # b # r \<Rightarrow> Some (a, b, r) | _ \<Rightarrow> None)"

definition read_signal :: "string \<Rightarrow> (signal_tokens \<times> string) option" where
  "read_signal s0 =
    Option.bind (skip_text '' SG_ '' s0) (\<lambda>s1.
    Option.bind (take_upto (CHR '' '') s1) (\<lambda>(nm, s2).
    Option.bind (skip_text '': '' s2) (\<lambda>s3.
    Option.bind (take_upto (CHR ''|'') s3) (\<lambda>(st, s4).
    Option.bind (take_upto (CHR ''@'') s4) (\<lambda>(ln, s5).
    Option.bind (read_two s5) (\<lambda>(bo, sg, s6).
    Option.bind (skip_text '' ('' s6) (\<lambda>s7.
    Option.bind (take_upto (CHR '','') s7) (\<lambda>(fa, s8).
    Option.bind (take_upto (CHR '')'') s8) (\<lambda>(off, s9).
    Option.bind (skip_text '' ['' s9) (\<lambda>s10.
    Option.bind (take_upto (CHR ''|'') s10) (\<lambda>(mi, s11).
    Option.bind (take_upto (CHR '']'') s11) (\<lambda>(ma, s12).
    Option.bind (skip_text '' '' s12) (\<lambda>s13.
    Option.bind (read_string s13) (\<lambda>(un, s14).
    Option.bind (skip_text '' '' s14) (\<lambda>s15.
    Option.bind (take_upto (CHR 0x0A) s15) (\<lambda>(rc, s16).
      Some (\<lparr>tk_name = nm, tk_start = st, tk_length = ln, tk_order = bo, tk_sign = sg, tk_factor = fa,
             tk_offset = off, tk_min = mi, tk_max = ma, tk_unit = un, tk_receivers = rc\<rparr>, s16)))))))))))))))))"

definition tokens_of :: "export_signal \<Rightarrow> signal_tokens" where
  "tokens_of s =
    \<lparr>tk_name = ident (es_name s), tk_start = u32_to_string (es_startBit s), tk_length = u32_to_string (es_bitLength s),
     tk_order = (if es_byteOrder s = LeastSignificantByteFirst then CHR ''1'' else CHR ''0''),
     tk_sign = (if es_isSigned s then CHR ''-'' else CHR ''+''), tk_factor = num (es_factor s),
     tk_offset = num (es_offset s), tk_min = optNum (es_min s), tk_max = optNum (es_max s),
     tk_unit = es_unit s, tk_receivers = joinIdents (es_receivers s) (CHR '','')\<rparr>"

lemma stops: "\<not> number_char (CHR ''|'')" "\<not> number_char (CHR ''@'')" "\<not> number_char (CHR '','')"
  "\<not> number_char (CHR '')'')" "\<not> number_char (CHR '']'')"
  by (simp_all add: number_char_def is_digit_def less_eq_char_def)

lemma read_signalLine: "read_signal (signalLine s @ rest) = Some (tokens_of s, rest)"
proof -
  have name: "CHR '' '' \<notin> set (ident (es_name s))"
    using ident_ok [of "es_name s"] by (auto simp: valid_ident_def list_all_iff ident_char_def less_eq_char_def)
  have recs: "CHR 0x0A \<notin> set (joinIdents (es_receivers s) (CHR '',''))"
    using joinIdents_chars [of "CHR 0x0A"] by (auto simp: ident_char_def less_eq_char_def)
  note free = to_chars_free digits_free
  show ?thesis
    unfolding read_signal_def signalLine_def
    by (simp add: skip_text_def starts_with_def upto_found name recs free stops u32_to_string_def num_def optNum_def
        read_two_def read_string_quoted newline_def tokens_of_def)
qed

section \<open>Message identifiers\<close>

lemma no_flag_bit: "w < 0x80000000 \<Longrightarrow> \<not> bit w 31"
  for w :: uint32
proof -
  assume "w < 0x80000000"
  then have "unat w < 2 ^ 31" by (simp add: word_less_nat_alt)
  then have "\<not> bit (unat w) 31" by (simp add: bit_iff_odd)
  then show ?thesis by (simp add: bit_unsigned_iff)
qed

lemma flag_bit: "bit kExtendedFlag n \<longleftrightarrow> n = 31"
proof -
  have "kExtendedFlag = 2 ^ 31" by (simp add: kExtendedFlag_def)
  then show ?thesis unfolding \<open>kExtendedFlag = 2 ^ 31\<close> bit_exp_iff by auto
qed

section \<open>Properties\<close>

text \<open>Every name goes into the file as a valid DBC identifier, and a name that is one already is
  written unchanged.\<close>

theorem dbc_identifiers:
  "valid_ident (ident name) \<and> (ident name = name \<longleftrightarrow> valid_ident name)"
  using ident_ok ident_id by metis

text \<open>C36: a signal line is unambiguous: the reference reader gets back every token of the signal, the
  unit with its quotes and backslashes, and stops right behind the line.\<close>

theorem dbc_signal_line_roundtrip: "read_signal (signalLine s @ rest) = Some (tokens_of s, rest)"
  by (rule read_signalLine)

text \<open>As long as the identifiers leave bit 31 clear, the message identifier of the file tells
  frames apart by identifier and addressing mode.\<close>

theorem dbc_id_injective:
  assumes "ef_id f < 0x80000000" and "ef_id g < 0x80000000"
  shows "dbcId f = dbcId g \<longleftrightarrow> ef_id f = ef_id g \<and> ef_extended f = ef_extended g"
proof
  assume eq: "dbcId f = dbcId g"
  have bits: "bit (dbcId h) n \<longleftrightarrow> (if n = 31 then ef_extended h else bit (ef_id h) n)" if "ef_id h < 0x80000000" for h n
    using no_flag_bit [OF that] by (auto simp: dbcId_def bit_or_iff flag_bit)
  have ext: "ef_extended f = ef_extended g" using bits [OF assms(1), of 31] bits [OF assms(2), of 31] eq by simp
  have "bit (ef_id f) n = bit (ef_id g) n" for n
    using bits [OF assms(1), of n] bits [OF assms(2), of n] eq no_flag_bit [OF assms(1)] no_flag_bit [OF assms(2)]
    by (cases "n = 31") simp_all
  then show "ef_id f = ef_id g \<and> ef_extended f = ef_extended g" using ext by (simp add: bit_eq_iff)
qed (simp add: dbcId_def)

definition sample_export_frame :: "uint32 \<Rightarrow> bool \<Rightarrow> export_frame" where
  "sample_export_frame w ext = \<lparr>ef_name = ''F'', ef_id = w, ef_extended = ext, ef_canFd = False, ef_length = 8,
     ef_transmitters = [], ef_signals = []\<rparr>"

theorem dbc_id_injective_witness:
  "dbcId (sample_export_frame 291 True) \<noteq> dbcId (sample_export_frame 291 False)"
  using dbc_id_injective [of "sample_export_frame 291 True" "sample_export_frame 291 False"]
  by (simp add: sample_export_frame_def)

text \<open>Without the bound the flag collides: a standard frame whose identifier carries bit 31 (the
  parser accepts one) and an extended frame get the same message identifier.\<close>

lemma dbcId_collision: "dbcId (sample_export_frame 0x80000001 False) = dbcId (sample_export_frame 1 True)"
  by (simp add: dbcId_def sample_export_frame_def kExtendedFlag_def)

text \<open>Different names can become one identifier.\<close>

lemma ident_collision: "ident ''a b'' = ident ''a_b''"
  by (simp add: ident_def ident_char_def less_eq_char_def)

end
