(* ===== verification/SchemaCache.thy ===== *)
theory SchemaCache
  imports FsPath
begin

unbundle bit_operations_syntax

text \<open>
  The schema registry with its cache (\<open>src/schema_registry.cpp\<close>, \<open>src/cache_layout.cpp\<close>,
  \<open>src/atomic_write.cpp\<close>). The file system is the content of the regular files; how the system calls
  turn out is given per write, and libxml2's schema parser is a parameter that sees the files. A
  release string is a file name: it comes from the table of releases, without separators.
\<close>

type_synonym disk = "fpath \<Rightarrow> string option"

text \<open>\<open>p / name\<close>; a trailing separator of \<open>p\<close> is the same one.\<close>

definition path_append :: "fpath \<Rightarrow> string \<Rightarrow> fpath" where
  "path_append p name = (if p \<noteq> [] \<and> last p = [] then butlast p else p) @ [name]"

section \<open>The cache directory\<close>

text \<open>The override, the two environment variables (unset or empty is \<open>None\<close> or \<open>[]\<close>), the temporary
  directory.\<close>

record cache_env =
  overridePath :: "fpath option"
  xdgCacheHome :: "fpath option"
  homeDir :: "fpath option"
  tempDirectory :: fpath

definition setCacheDirectoryOverride :: "fpath \<Rightarrow> cache_env \<Rightarrow> cache_env" where
  "setCacheDirectoryOverride dir e = e\<lparr>overridePath := Some dir\<rparr>"

definition clearCacheDirectoryOverride :: "cache_env \<Rightarrow> cache_env" where
  "clearCacheDirectoryOverride e = e\<lparr>overridePath := None\<rparr>"

definition getCacheDirectory :: "cache_env \<Rightarrow> fpath" where
  "getCacheDirectory e =
    (case overridePath e of
       Some dir \<Rightarrow> dir
     | None \<Rightarrow>
        (let base = (case xdgCacheHome e of
               Some (x # xs) \<Rightarrow> x # xs
             | _ \<Rightarrow> (case homeDir e of
                 Some (x # xs) \<Rightarrow> path_append (x # xs) ''.cache''
               | _ \<Rightarrow> tempDirectory e))
         in path_append (path_append base ''parsex'') ''schemas''))"

definition cachePathFor :: "cache_env \<Rightarrow> string \<Rightarrow> fpath" where
  "cachePathFor e release = path_append (getCacheDirectory e) (release @ ''.xsd.cache'')"

section \<open>Atomic writes\<close>

text \<open>
  How the system calls of one write turn out: errors by their text, the 32 bits drawn from
  \<open>std::random_device\<close>, and the results of the calls of \<open>write\<close> before one that takes all that is left.
\<close>

datatype write_call = Wrote nat | Interrupted | WriteFault

record io_call =
  ic_dirs :: "string option"
  ic_random :: "32 word"
  ic_open :: "string option"
  ic_writes :: "write_call list"
  ic_writeError :: string
  ic_sync :: "string option"
  ic_rename :: "string option"
  ic_removes :: bool

definition hex_digit :: "nat \<Rightarrow> char" where
  "hex_digit d = (if d < 10 then char_of (48 + d) else char_of (87 + d))"

text \<open>
  \<open>std::mt19937_64\<close> as the standard defines it, as far as its first number: words 0, 1 and 156 of the
  state seeded with \<open>x\<close>, one word of the next state, tempered.
\<close>

fun mtSeed :: "nat \<Rightarrow> 64 word \<Rightarrow> 64 word" where
  "mtSeed 0 x = x"
| "mtSeed (Suc i) x = (let p = mtSeed i x in 6364136223846793005 * (p XOR drop_bit 62 p) + of_nat (Suc i))"

definition mtFirst :: "64 word \<Rightarrow> 64 word" where
  "mtFirst x =
    (let y = (x AND 0xFFFFFFFF80000000) OR (mtSeed 1 x AND 0x7FFFFFFF);
         z0 = mtSeed 156 x XOR drop_bit 1 y XOR (if bit y 0 then 0xB5026F5AA96619E9 else 0);
         z1 = z0 XOR (drop_bit 29 z0 AND 0x5555555555555555);
         z2 = z1 XOR (push_bit 17 z1 AND 0x71D67FFFEDA60000);
         z3 = z2 XOR (push_bit 37 z2 AND 0xFFF7EEE000000000)
     in z3 XOR drop_bit 43 z3)"

text \<open>The first number of the default seed, and two numbers a temporary name may carry.\<close>

lemma mtFirst_default: "mtFirst 5489 = 14514284786278117030"
  by code_simp

lemma mtFirst_differs: "mtFirst 0 \<noteq> mtFirst 1"
  by code_simp

text \<open>Sixteen hexadecimal digits of the first number of a generator seeded with one 32-bit draw.\<close>

definition hexText :: "64 word \<Rightarrow> string" where
  "hexText w = map (\<lambda>i. hex_digit (unat w div 16 ^ (15 - i) mod 16)) [0..<16]"

definition randomHexSuffix :: "32 word \<Rightarrow> string" where
  "randomHexSuffix draw = hexText (mtFirst (ucast draw))"

definition makeTmpPath :: "fpath \<Rightarrow> string \<Rightarrow> 32 word \<Rightarrow> fpath" where
  "makeTmpPath dir filename draw = path_append dir (filename @ ''.tmp.'' @ randomHexSuffix draw)"

text \<open>Whether everything was written, and how much of the data was.\<close>

fun portableWriteFull :: "write_call list \<Rightarrow> nat \<Rightarrow> nat \<Rightarrow> bool \<times> nat" where
  "portableWriteFull [] n written = (True, max n written)"
| "portableWriteFull (call # rest) n written =
    (if written < n
     then (case call of
             Wrote k \<Rightarrow> portableWriteFull rest n (written + min k (n - written))
           | Interrupted \<Rightarrow> portableWriteFull rest n written
           | WriteFault \<Rightarrow> (False, written))
     else (True, written))"

definition failure :: "string \<Rightarrow> fpath \<Rightarrow> string \<Rightarrow> string" where
  "failure what path err = what @ '': '' @ path_string path @ '': '' @ err"

definition writeTmpFileSync :: "io_call \<Rightarrow> fpath \<Rightarrow> string \<Rightarrow> disk \<Rightarrow> string option \<times> disk" where
  "writeTmpFileSync io tmp data fs =
    (case ic_open io of
       Some err \<Rightarrow> (Some (failure ''writeTmpFileSync: open'' tmp err), fs)
     | None \<Rightarrow>
        (let (complete, written) = portableWriteFull (ic_writes io) (length data) 0;
             fs1 = fs(tmp := Some (take written data))
         in if \<not> complete then (Some (failure ''writeTmpFileSync: write'' tmp (ic_writeError io)), fs1)
            else case ic_sync io of
              Some err \<Rightarrow> (Some (failure ''writeTmpFileSync: fsync'' tmp err), fs1)
            | None \<Rightarrow> (None, fs1)))"

text \<open>\<open>TmpCleanup\<close> removes the temporary file on every way out but the last.\<close>

definition dropTmp :: "io_call \<Rightarrow> fpath \<Rightarrow> disk \<Rightarrow> disk" where
  "dropTmp io tmp fs = (if ic_removes io then fs(tmp := None) else fs)"

definition cacheDir :: "fpath \<Rightarrow> fpath" where
  "cacheDir path = (let dir = parent_path path in if dir = [] then [''.''] else dir)"

definition tmpOf :: "io_call \<Rightarrow> fpath \<Rightarrow> fpath" where
  "tmpOf io path = makeTmpPath (cacheDir path) (last path) (ic_random io)"

definition writeCacheAtomically :: "io_call \<Rightarrow> fpath \<Rightarrow> string \<Rightarrow> disk \<Rightarrow> string option \<times> disk" where
  "writeCacheAtomically io path data fs =
    (case ic_dirs io of
       Some err \<Rightarrow> (Some (failure ''writeCacheAtomically: create_directories'' (cacheDir path) err), fs)
     | None \<Rightarrow>
        (let tmp = tmpOf io path in
         case writeTmpFileSync io tmp data fs of
           (Some err, fs1) \<Rightarrow> (Some err, dropTmp io tmp fs1)
         | (None, fs1) \<Rightarrow>
            (case ic_rename io of
               Some err \<Rightarrow> (Some (failure ''writeCacheAtomically: rename'' tmp err), dropTmp io tmp fs1)
             | None \<Rightarrow> (None, fs1(path := fs1 tmp, tmp := None)))))"

section \<open>The registry\<close>

datatype schema_reason = UnsupportedRelease | SchemaFileMissing | SchemaFileCorrupt | CacheWriteFailed

fun schemaReasonName :: "schema_reason \<Rightarrow> string" where
  "schemaReasonName UnsupportedRelease = ''UnsupportedRelease''"
| "schemaReasonName SchemaFileMissing = ''SchemaFileMissing''"
| "schemaReasonName SchemaFileCorrupt = ''SchemaFileCorrupt''"
| "schemaReasonName CacheWriteFailed = ''CacheWriteFailed''"

record schema_error =
  se_release :: string
  se_reason :: schema_reason
  se_detail :: string

definition schemaErrorMessage :: "schema_error \<Rightarrow> string" where
  "schemaErrorMessage err = ''SchemaResolutionError['' @ schemaReasonName (se_reason err) @ ''] release ''
    @ quoted (se_release err) @ '': '' @ se_detail err"

text \<open>
  What libxml2 makes of the schema file at a path, given the files: no context, an error with the
  formatted messages in order, or a schema.
\<close>

datatype 's schema_parse = NoContext | SchemaErrors "string list" | Schema 's

record 's registry_env =
  re_cache :: cache_env
  re_schemaDir :: "fpath option"
  re_defaultDir :: fpath
  re_sourceDir :: fpath
  re_unreadable :: "fpath \<Rightarrow> bool"
  re_entry :: io_call
  re_sibling :: io_call
  re_drops :: bool
  re_parse :: "disk \<Rightarrow> fpath \<Rightarrow> 's schema_parse"

definition is_regular_file :: "disk \<Rightarrow> fpath \<Rightarrow> bool" where
  "is_regular_file fs p \<longleftrightarrow> fs p \<noteq> None"

definition readSchemaBytes :: "'s registry_env \<Rightarrow> disk \<Rightarrow> fpath \<Rightarrow> string \<Rightarrow> schema_error + string" where
  "readSchemaBytes e fs path release =
    (case fs path of
       None \<Rightarrow> Inl \<lparr>se_release = release, se_reason = SchemaFileMissing,
                 se_detail = ''cannot open file: '' @ path_string path\<rparr>
     | Some bytes \<Rightarrow>
        (if re_unreadable e path
         then Inl \<lparr>se_release = release, se_reason = SchemaFileMissing,
                 se_detail = ''error reading file: '' @ path_string path\<rparr>
         else Inr bytes))"

text \<open>The callback keeps the first message, cut to the buffer of 1024 bytes with its final zero.\<close>

definition firstError :: "string list \<Rightarrow> string" where
  "firstError messages = (case messages of [] \<Rightarrow> [] | m # _ \<Rightarrow> take 1023 m)"

definition parseSchemaFile :: "'s registry_env \<Rightarrow> disk \<Rightarrow> fpath \<Rightarrow> string \<Rightarrow> schema_error + 's" where
  "parseSchemaFile e fs xsdPath release =
    (case re_parse e fs xsdPath of
       NoContext \<Rightarrow> Inl \<lparr>se_release = release, se_reason = SchemaFileCorrupt,
         se_detail = ''cannot create schema parser context for: '' @ path_string xsdPath\<rparr>
     | SchemaErrors messages \<Rightarrow> Inl \<lparr>se_release = release, se_reason = SchemaFileCorrupt,
         se_detail = ''cannot parse schema: '' @ path_string xsdPath
           @ (if firstError messages = [] then [] else '' ('' @ firstError messages @ '')'')\<rparr>
     | Schema s \<Rightarrow> Inr s)"

definition findSourceFile :: "'s registry_env \<Rightarrow> disk \<Rightarrow> string \<Rightarrow> schema_error + fpath" where
  "findSourceFile e fs release =
    (let filename = release @ ''.xsd'';
         dirs = (case re_schemaDir e of Some (x # xs) \<Rightarrow> [x # xs] | _ \<Rightarrow> [])
           @ [re_defaultDir e, re_sourceDir e]
     in case List.find (is_regular_file fs) (map (\<lambda>d. path_append d filename) dirs) of
          Some candidate \<Rightarrow> Inr candidate
        | None \<Rightarrow> Inl \<lparr>se_release = release, se_reason = UnsupportedRelease,
            se_detail = ''no '' @ filename
              @ '' in schema sources ($PARSEX_SCHEMA_DIR, install default, source tree); ''
              @ ''see resources/schemas/README.md''\<rparr>)"

text \<open>
  The body of the \<open>try\<close>: the entry, then its sibling import. \<open>None\<close> is any exception, which the handler
  treats alike.
\<close>

definition populateCache :: "'s registry_env \<Rightarrow> string \<Rightarrow> fpath \<Rightarrow> fpath \<Rightarrow> disk \<Rightarrow> bool \<times> disk" where
  "populateCache e release cachePath sourcePath fs =
    (case readSchemaBytes e fs sourcePath release of
       Inl _ \<Rightarrow> (False, fs)
     | Inr bytes \<Rightarrow>
        (case writeCacheAtomically (re_entry e) cachePath bytes fs of
           (Some _, fs1) \<Rightarrow> (False, fs1)
         | (None, fs1) \<Rightarrow>
            (let siblingSource = path_append (parent_path sourcePath) ''xml.xsd'' in
             if is_regular_file fs1 siblingSource
             then (case readSchemaBytes e fs1 siblingSource release of
                     Inl _ \<Rightarrow> (False, fs1)
                   | Inr sib \<Rightarrow>
                      (case writeCacheAtomically (re_sibling e)
                              (path_append (parent_path cachePath) ''xml.xsd'') sib fs1 of
                         (Some _, fs2) \<Rightarrow> (False, fs2)
                       | (None, fs2) \<Rightarrow> (True, fs2)))
             else (True, fs1))))"

record 's resolution =
  rs_release :: string
  rs_origin :: fpath
  rs_schema :: 's
  wasCacheHit :: bool

text \<open>The path that is parsed, where its bytes came from, whether it was a hit, and the files.\<close>

definition choosePath ::
  "'s registry_env \<Rightarrow> string \<Rightarrow> disk \<Rightarrow> schema_error + (fpath \<times> fpath \<times> bool \<times> disk)" where
  "choosePath e release fs =
    (let cachePath = cachePathFor (re_cache e) release in
     if is_regular_file fs cachePath then Inr (cachePath, cachePath, True, fs)
     else case findSourceFile e fs release of
       Inl err \<Rightarrow> Inl err
     | Inr sourcePath \<Rightarrow>
        (case populateCache e release cachePath sourcePath fs of
           (True, fs1) \<Rightarrow> Inr (cachePath, sourcePath, False, fs1)
         | (False, fs1) \<Rightarrow> Inr (sourcePath, sourcePath, False,
             if re_drops e then fs1(cachePath := None) else fs1)))"

definition resolveSchema ::
  "'s registry_env \<Rightarrow> string \<Rightarrow> disk \<Rightarrow> (schema_error + 's resolution) \<times> disk" where
  "resolveSchema e release fs =
    (case choosePath e release fs of
       Inl err \<Rightarrow> (Inl err, fs)
     | Inr (parsePath, originPath, hit, fs1) \<Rightarrow>
        ((case parseSchemaFile e fs1 parsePath release of
            Inl err \<Rightarrow> Inl err
          | Inr s \<Rightarrow> Inr \<lparr>rs_release = release, rs_origin = originPath, rs_schema = s, wasCacheHit = hit\<rparr>),
         fs1))"

section \<open>Atomicity\<close>

lemma write_full_complete: "portableWriteFull calls n k = (True, w) \<Longrightarrow> k \<le> n \<Longrightarrow> w = n"
  by (induction calls n k rule: portableWriteFull.induct) (auto split: if_splits write_call.splits)

lemma last_append [simp]: "last (path_append p name) = name" "path_append p name \<noteq> []"
  by (simp_all add: path_append_def)

lemma tmp_differs: "tmpOf io path \<noteq> path"
proof
  assume "tmpOf io path = path"
  then have "last path @ ''.tmp.'' @ randomHexSuffix (ic_random io) = last path"
    by (metis last_append(1) makeTmpPath_def tmpOf_def)
  then show False by simp
qed

lemma writeTmp_other: "writeTmpFileSync io tmp data fs = (r, fs') \<Longrightarrow> p \<noteq> tmp \<Longrightarrow> fs' p = fs p"
  by (auto simp: writeTmpFileSync_def Let_def split: option.splits prod.splits if_splits)

lemma writeTmp_done: "writeTmpFileSync io tmp data fs = (None, fs') \<Longrightarrow> fs' = fs(tmp := Some data)"
  using write_full_complete [of "ic_writes io" "length data" 0]
  by (auto simp: writeTmpFileSync_def Let_def split: option.splits prod.splits if_splits)

lemma atomic_success:
  "writeCacheAtomically io path data fs = (None, fs') \<Longrightarrow> fs' = fs(path := Some data, tmpOf io path := None)"
  by (auto simp: writeCacheAtomically_def Let_def dest!: writeTmp_done split: option.splits prod.splits)

lemma atomic_failure:
  "writeCacheAtomically io path data fs = (Some err, fs') \<Longrightarrow> p \<noteq> tmpOf io path \<Longrightarrow> fs' p = fs p"
  by (auto simp: writeCacheAtomically_def Let_def dropTmp_def dest: writeTmp_other
      split: option.splits prod.splits if_splits)

text \<open>The write is atomic: when it fails, at whatever system call, every file but its temporary one
  is as before; when it succeeds, the target holds all the data, however often \<open>write\<close> was
  interrupted or came up short, and the temporary file is gone.\<close>

theorem cache_write_atomic:
  "case writeCacheAtomically io path data fs of
     (None, fs') \<Rightarrow> fs' = fs(path := Some data, tmpOf io path := None) \<and> tmpOf io path \<noteq> path
   | (Some err, fs') \<Rightarrow> fs' = fs(tmpOf io path := fs' (tmpOf io path))"
  using atomic_success atomic_failure tmp_differs by (fastforce split: prod.splits option.splits)

section \<open>Coherence of the cache\<close>

lemma hex_digit_not_h: "d < 16 \<Longrightarrow> hex_digit d \<noteq> CHR ''h''"
proof
  assume "d < 16" "hex_digit d = CHR ''h''"
  then have "(of_char (hex_digit d) :: nat) = 104" by simp
  with \<open>d < 16\<close> show False by (simp add: hex_digit_def split: if_splits)
qed

lemma tmp_not_entry: "tmpOf io path \<noteq> cachePathFor e release"
proof
  assume "tmpOf io path = cachePathFor e release"
  then have eq: "last path @ ''.tmp.'' @ randomHexSuffix (ic_random io) = release @ ''.xsd.cache''"
    by (metis last_append(1) makeTmpPath_def tmpOf_def cachePathFor_def)
  obtain w where w: "randomHexSuffix (ic_random io) = hexText w" by (simp add: randomHexSuffix_def)
  have r: "hexText w = map (\<lambda>i. hex_digit (unat w div 16 ^ (15 - i) mod 16)) [0..<14]
      @ [hex_digit (unat w div 16 mod 16), hex_digit (unat w mod 16)]"
    by (simp add: hexText_def upt_rec)
  have "hex_digit (unat w div 16 mod 16) = CHR ''h''"
    using arg_cong [OF eq, of rev] by (simp add: w r)
  then show False using hex_digit_not_h [of "unat w div 16 mod 16"] by simp
qed

lemma entry_not_sibling: "path_append p ''xml.xsd'' \<noteq> cachePathFor e release"
proof
  assume "path_append p ''xml.xsd'' = cachePathFor e release"
  then have "''xml.xsd'' = release @ ''.xsd.cache''" by (metis last_append(1) cachePathFor_def)
  from arg_cong [OF this, of rev] show False by simp
qed

lemma populate_entry:
  assumes "populateCache e release (cachePathFor c release) src fs = (ok, fs')"
  shows "if ok then fs src \<noteq> None \<and> fs' (cachePathFor c release) = fs src
    else fs' (cachePathFor c release) \<in> {fs (cachePathFor c release), fs src}"
proof -
  let ?cp = "cachePathFor c release"
  show ?thesis
  proof (cases "readSchemaBytes e fs src release")
    case (Inl x)
    then show ?thesis using assms by (auto simp: populateCache_def)
  next
    case (Inr bytes)
    then have b: "fs src = Some bytes" by (auto simp: readSchemaBytes_def split: option.splits if_splits)
    obtain err fs1 where w: "writeCacheAtomically (re_entry e) ?cp bytes fs = (err, fs1)" by fastforce
    show ?thesis
    proof (cases err)
      case (Some x)
      then have "fs1 ?cp = fs ?cp" using atomic_failure w tmp_differs by metis
      then show ?thesis using assms Inr w Some by (auto simp: populateCache_def)
    next
      case None
      then have e1: "fs1 ?cp = Some bytes"
        using atomic_success w tmp_differs by (metis fun_upd_apply)
      define sib where "sib = path_append (parent_path ?cp) ''xml.xsd''"
      have keep: "fs2 ?cp = fs1 ?cp" if "writeCacheAtomically io sib data fs1 = (r, fs2)" for io data r fs2
        using that atomic_success [of io sib data fs1 fs2] atomic_failure [of io sib data fs1 _ fs2 ?cp]
          tmp_not_entry [of io sib c release] entry_not_sibling [of "parent_path ?cp" c release]
        by (cases r) (auto simp: sib_def)
      show ?thesis
        using assms Inr w None b e1 keep
        by (auto simp: populateCache_def Let_def sib_def [symmetric]
            split: if_splits sum.splits prod.splits option.splits)
    qed
  qed
qed

text \<open>C24: the schema cache is coherent, given that a failed entry can be removed: whatever else fails, a resolution
  leaves the entry of its release as it was or replaces it by a complete copy of the source file, never by a
  part of one; and a successful resolution after which the entry exists is repeated by the next one as a hit,
  with the same schema and without touching a file.\<close>

theorem schema_cache_coherent:
  assumes "re_drops e" and "resolveSchema e release fs = (out, fs')"
  shows "(fs' (cachePathFor (re_cache e) release) = fs (cachePathFor (re_cache e) release)
      \<or> (\<exists>src. findSourceFile e fs release = Inr src
            \<and> fs' (cachePathFor (re_cache e) release) = fs src))
    \<and> (\<forall>r. out = Inr r \<longrightarrow> fs' (cachePathFor (re_cache e) release) \<noteq> None \<longrightarrow>
         resolveSchema e release fs'
           = (Inr (r\<lparr>rs_origin := cachePathFor (re_cache e) release, wasCacheHit := True\<rparr>), fs'))"
proof -
  let ?cp = "cachePathFor (re_cache e) release"
  have hit: "resolveSchema e release fs'
      = (Inr (r\<lparr>rs_origin := ?cp, wasCacheHit := True\<rparr>), fs')"
    if "fs' ?cp \<noteq> None" "parseSchemaFile e fs' ?cp release = Inr (rs_schema r)" "rs_release r = release" for r
    using that by (auto simp: resolveSchema_def choosePath_def is_regular_file_def Let_def)
  show ?thesis
  proof (cases "fs ?cp = None")
    case False
    then show ?thesis
      using assms hit by (auto simp: resolveSchema_def choosePath_def is_regular_file_def Let_def split: sum.splits)
  next
    case miss: True
    show ?thesis
    proof (cases "findSourceFile e fs release")
      case (Inl err)
      then show ?thesis using assms miss by (auto simp: resolveSchema_def choosePath_def is_regular_file_def Let_def)
    next
      case (Inr src)
      obtain ok fs1 where p: "populateCache e release ?cp src fs = (ok, fs1)" by fastforce
      note pe = populate_entry [OF p]
      show ?thesis
      proof (cases ok)
        case True
        then have "fs' = fs1" using assms Inr miss p
          by (simp add: resolveSchema_def choosePath_def is_regular_file_def Let_def)
        moreover have "parseSchemaFile e fs' ?cp release = Inr (rs_schema r) \<and> rs_release r = release"
          if "out = Inr r" for r
          using assms that Inr miss p True
          by (auto simp: resolveSchema_def choosePath_def is_regular_file_def Let_def split: sum.splits)
        ultimately show ?thesis using pe True Inr hit by auto
      next
        case False
        then have "fs' ?cp = None" using assms Inr miss p
          by (auto simp: resolveSchema_def choosePath_def is_regular_file_def Let_def)
        then show ?thesis using miss by simp
      qed
    qed
  qed
qed

text \<open>An entry that does not parse stays: nothing replaces it, whatever the sources hold by now.\<close>

lemma corrupt_entry_sticks:
  assumes "fs (cachePathFor (re_cache e) release) \<noteq> None"
  shows "snd (resolveSchema e release fs) = fs"
    and "parseSchemaFile e fs (cachePathFor (re_cache e) release) release = Inl err
      \<Longrightarrow> resolveSchema e release fs = (Inl err, fs)"
  using assms by (auto simp: resolveSchema_def choosePath_def is_regular_file_def Let_def)

section \<open>What a resolution may change\<close>

definition only_changes :: "'k set \<Rightarrow> ('k \<Rightarrow> 'v) \<Rightarrow> ('k \<Rightarrow> 'v) \<Rightarrow> bool" where
  "only_changes ps f g \<longleftrightarrow> (\<forall>p. p \<notin> ps \<longrightarrow> g p = f p)"

lemma only_changes_refl [simp]: "only_changes ps f f"
  by (simp add: only_changes_def)

text \<open>The entry of a release, the import beside it, and their temporary files.\<close>

definition cacheFiles :: "'s registry_env \<Rightarrow> fpath set" where
  "cacheFiles e = (\<Union>release. let cp = cachePathFor (re_cache e) release; sib = path_append (parent_path cp) ''xml.xsd''
     in {cp, sib, tmpOf (re_entry e) cp, tmpOf (re_sibling e) sib})"

lemma atomic_changes: "writeCacheAtomically io path data fs = (r, fs') \<Longrightarrow>
    only_changes {path, tmpOf io path} fs fs' \<and> fs' path \<in> {fs path, Some data}"
  using atomic_success [of io path data fs fs'] atomic_failure [of io path data fs _ fs'] tmp_differs [of io path]
  by (cases r) (auto simp: only_changes_def)

lemma only_changes_trans:
  "only_changes ps f g \<Longrightarrow> only_changes qs g h \<Longrightarrow> ps \<subseteq> rs \<Longrightarrow> qs \<subseteq> rs \<Longrightarrow> only_changes rs f h"
  unfolding only_changes_def by (metis subsetD)

lemma only_changes_mono: "only_changes ps f g \<Longrightarrow> ps \<subseteq> qs \<Longrightarrow> only_changes qs f g"
  by (auto simp: only_changes_def)

lemma populate_changes:
  assumes "populateCache e release (cachePathFor (re_cache e) release) src fs = (ok, fs')"
  shows "only_changes (cacheFiles e) fs fs'"
proof -
  let ?cp = "cachePathFor (re_cache e) release"
  let ?sib = "path_append (parent_path ?cp) ''xml.xsd''"
  have sub: "{?cp, tmpOf (re_entry e) ?cp} \<subseteq> cacheFiles e" "{?sib, tmpOf (re_sibling e) ?sib} \<subseteq> cacheFiles e"
    by (auto simp: cacheFiles_def Let_def)
  have entry: "only_changes (cacheFiles e) fs fs1" if "writeCacheAtomically (re_entry e) ?cp b fs = (r, fs1)" for b r fs1
    by (rule only_changes_mono [OF conjunct1 [OF atomic_changes [OF that]] sub(1)])
  have sibling: "only_changes (cacheFiles e) fs1 fs2"
    if "writeCacheAtomically (re_sibling e) ?sib b fs1 = (r, fs2)" for b r fs1 fs2
    by (rule only_changes_mono [OF conjunct1 [OF atomic_changes [OF that]] sub(2)])
  show ?thesis
    using assms entry only_changes_trans [OF entry sibling order_refl order_refl]
    by (auto simp: populateCache_def Let_def split: sum.splits prod.splits option.splits if_splits)
qed

lemma resolve_changes:
  assumes "resolveSchema e release fs = (r, fs')"
  shows "only_changes (cacheFiles e) fs fs'"
proof -
  have cp: "cachePathFor (re_cache e) release \<in> cacheFiles e" by (auto simp: cacheFiles_def Let_def)
  have "only_changes (cacheFiles e) fs fs1" if "choosePath e release fs = Inr (p, o0, hit, fs1)" for p o0 hit fs1
    using that cp
    by (auto simp: choosePath_def Let_def only_changes_def split: sum.splits prod.splits bool.splits if_splits
        dest!: populate_changes)
  then show ?thesis using assms by (auto simp: resolveSchema_def split: sum.splits prod.splits)
qed

section \<open>A registry to try things on\<close>

definition quiet_call :: io_call where
  "quiet_call = \<lparr>ic_dirs = None, ic_random = 0, ic_open = None, ic_writes = [Interrupted, Wrote 1],
     ic_writeError = [], ic_sync = None, ic_rename = None, ic_removes = True\<rparr>"

definition sample_registry :: "string registry_env" where
  "sample_registry =
    \<lparr>re_cache = \<lparr>overridePath = Some [''/'', ''c''], xdgCacheHome = None, homeDir = None, tempDirectory = [''/'']\<rparr>,
     re_schemaDir = None, re_defaultDir = [''/'', ''d''], re_sourceDir = [''/'', ''s''],
     re_unreadable = (\<lambda>_. False), re_entry = quiet_call, re_sibling = quiet_call, re_drops = True,
     re_parse = (\<lambda>fs p. case fs p of Some b \<Rightarrow> if b = ''xsd'' then Schema b else SchemaErrors [''bad'']
                 | None \<Rightarrow> NoContext)\<rparr>"

definition sample_disk :: "string \<Rightarrow> disk" where
  "sample_disk bytes = (\<lambda>p. if p = [''/'', ''s'', ''R.xsd''] then Some bytes else None)"

lemma sample_entry: "cachePathFor (re_cache sample_registry) ''R'' = [''/'', ''c'', ''R.xsd.cache'']"
  by (simp add: cachePathFor_def getCacheDirectory_def sample_registry_def path_append_def)

lemma quiet_call_fields:
  "ic_dirs quiet_call = None" "ic_open quiet_call = None" "ic_writes quiet_call = [Interrupted, Wrote 1]"
  "ic_sync quiet_call = None" "ic_rename quiet_call = None"
  by (simp_all add: quiet_call_def)

lemma sample_resolution:
  assumes "bytes \<in> {''xsd'', ''bad''}"
  shows "resolveSchema sample_registry ''R'' (sample_disk bytes)
     = (if bytes = ''xsd''
        then Inr \<lparr>rs_release = ''R'', rs_origin = [''/'', ''s'', ''R.xsd''], rs_schema = ''xsd'', wasCacheHit = False\<rparr>
        else Inl \<lparr>se_release = ''R'', se_reason = SchemaFileCorrupt,
               se_detail = ''cannot parse schema: /c/R.xsd.cache (bad)''\<rparr>,
        (sample_disk bytes)([''/'', ''c'', ''R.xsd.cache''] := Some bytes))"
proof -
  define tmp where "tmp = tmpOf quiet_call [''/'', ''c'', ''R.xsd.cache'']"
  have "sample_disk bytes tmp = None" and "tmp \<noteq> [''/'', ''c'', ''R.xsd.cache'']"
    by (simp_all add: tmp_def tmpOf_def cacheDir_def parent_path_def makeTmpPath_def path_append_def sample_disk_def)
  have src: "findSourceFile sample_registry (sample_disk bytes) ''R'' = Inr [''/'', ''s'', ''R.xsd'']"
    by (simp add: findSourceFile_def sample_registry_def sample_disk_def path_append_def
        is_regular_file_def)
  have w: "writeCacheAtomically quiet_call [''/'', ''c'', ''R.xsd.cache''] bytes (sample_disk bytes)
      = (None, (sample_disk bytes)([''/'', ''c'', ''R.xsd.cache''] := Some bytes))"
    using assms \<open>sample_disk bytes tmp = None\<close> \<open>tmp \<noteq> _\<close>
    by (auto simp: writeCacheAtomically_def writeTmpFileSync_def quiet_call_fields fun_eq_iff simp flip: tmp_def)
  let ?fs = "(sample_disk bytes)([''/'', ''c'', ''R.xsd.cache''] := Some bytes)"
  have "populateCache sample_registry ''R'' [''/'', ''c'', ''R.xsd.cache''] [''/'', ''s'', ''R.xsd'']
      (sample_disk bytes) = (True, ?fs)"
    using w by (simp add: populateCache_def readSchemaBytes_def is_regular_file_def path_append_def
        parent_path_def sample_registry_def sample_disk_def)
  then have "choosePath sample_registry ''R'' (sample_disk bytes)
      = Inr ([''/'', ''c'', ''R.xsd.cache''], [''/'', ''s'', ''R.xsd''], False, ?fs)"
    using src by (simp add: choosePath_def Let_def sample_entry is_regular_file_def sample_disk_def)
  then show ?thesis
    using assms by (auto simp: resolveSchema_def parseSchemaFile_def sample_registry_def path_string_def
        is_absolute_def firstError_def)
qed

text \<open>A corrupt source file becomes such an entry.\<close>

lemma corrupt_source_is_cached:
  "snd (resolveSchema sample_registry ''R'' (sample_disk ''bad'')) [''/'', ''c'', ''R.xsd.cache''] = Some ''bad''"
  using sample_resolution [of "''bad''"] by simp

theorem schema_cache_coherent_witness:
  "resolveSchema sample_registry ''R'' ((sample_disk ''xsd'')([''/'', ''c'', ''R.xsd.cache''] := Some ''xsd''))
    = (Inr \<lparr>rs_release = ''R'', rs_origin = [''/'', ''c'', ''R.xsd.cache''], rs_schema = ''xsd'', wasCacheHit = True\<rparr>,
       (sample_disk ''xsd'')([''/'', ''c'', ''R.xsd.cache''] := Some ''xsd''))"
  using schema_cache_coherent [OF _ sample_resolution [of "''xsd''"]]
  by (simp add: sample_entry, simp add: sample_registry_def)

end
