(* ===== verification/McpTools.thy ===== *)
theory McpTools
  imports McpServer JsonReports WriteEngine ValidatorSchema DiffEngine CsvWriter DbcWriter ProjectDiscovery SchemaCache
begin

text \<open>
  The five tools of the MCP server (\<open>parsex-mcp/tools.hpp\<close>) over the models of the engines, and the
  whole server (\<open>runServer\<close>). The world a tool may change is the file store of the writer and the disk
  with the schema cache; what the parser and a write see of the system are parameters.
\<close>

section \<open>Surroundings\<close>

text \<open>
  \<open>tl_env\<close> is the parser's view of the files, \<open>tl_registry\<close> what the schema registry sees: the sources,
  where its cache is and how its system calls turn out; \<open>tl_write\<close> is the outcome of the writer's system calls,
  each in the \<open>n\<close>-th call of a tool that makes such calls; \<open>tl_content\<close> libxml2's
  \<open>xmlNewChild\<close> content, \<open>tl_error\<close> the text of the JSON library's exception for a key.
\<close>

record tool_lib =
  tl_env :: "tree_files \<Rightarrow> env"
  tl_registry :: "nat \<Rightarrow> schema_lib registry_env"
  tl_write :: "nat \<Rightarrow> write_env"
  tl_content :: "string \<Rightarrow> xml list"
  tl_error :: "string \<Rightarrow> json \<Rightarrow> string"
  tl_version :: string

text \<open>
  The files: the ARXML documents, and the other files, among which is the schema cache. As in the writer
  and the registry, the two are separate stores: no document is read from or written into the cache. \<open>sw_turn\<close>
  counts the calls of tools that made system calls which may fail, whose outcomes differ from call to call.
\<close>

record server_world =
  sw_files :: tree_files
  sw_disk :: disk
  sw_turn :: nat

text \<open>The elements of a path written without repeated separators.\<close>

fun split_slash :: "string \<Rightarrow> string list" where
  "split_slash [] = [[]]"
| "split_slash (c # s) =
    (if c = CHR ''/'' then [] # split_slash s
     else case split_slash s of [] \<Rightarrow> [[c]] | e # es \<Rightarrow> (c # e) # es)"

definition path_of :: "string \<Rightarrow> fpath" where
  "path_of s = (case s of [] \<Rightarrow> [] | c # r \<Rightarrow> if c = CHR ''/'' then ''/'' # (if r = [] then [] else split_slash r) else split_slash s)"

text \<open>A project of some files, as \<open>push_back\<close> makes it.\<close>

definition project_of :: "parsed_file list \<Rightarrow> parsed_project" where
  "project_of fs = \<lparr>files = fs, resolvedRefs = []\<rparr>"

section \<open>Texts of exceptions\<close>

definition writeWhat :: "write_exn \<Rightarrow> string" where
  "writeWhat x =
    (case x of
       WriteError problems \<Rightarrow> writeErrorMessage problems
     | WhitespaceNode \<Rightarrow> ''parsex: whitespace-only text node found (would defeat the pretty-printer)''
     | WriteFailed what \<Rightarrow> what)"

section \<open>Arguments\<close>

fun jget_bool :: "json \<Rightarrow> bool option" where
  "jget_bool (JBool b) = Some b" | "jget_bool _ = None"

text \<open>\<open>args.at(key).get<std::string>()\<close> and \<open>args.value(key, false)\<close>; \<open>Inl\<close> is an exception.\<close>

definition textArg :: "tool_lib \<Rightarrow> string \<Rightarrow> json \<Rightarrow> thrown + string" where
  "textArg rt key args =
    (case textAt key args of None \<Rightarrow> Inl (StdException (tl_error rt key args)) | Some s \<Rightarrow> Inr s)"

definition flagArg :: "tool_lib \<Rightarrow> string \<Rightarrow> json \<Rightarrow> thrown + bool" where
  "flagArg rt key args =
    (case jvalue jget_bool key False args of
       None \<Rightarrow> Inl (StdException (tl_error rt key args)) | Some b \<Rightarrow> Inr b)"

definition packed :: "json \<Rightarrow> string \<Rightarrow> json" where
  "packed structured summary =
    jassign [(''structuredContent'', structured), (''summary'', JString summary)]"

definition warningsToJson :: "string list \<Rightarrow> json" where
  "warningsToJson messages = JArray (map (\<lambda>m. jobj [(''message'', JString m)]) messages)"

section \<open>Parse\<close>

definition humanParseSummary :: "parsed_file \<Rightarrow> string" where
  "humanParseSummary file =
    ''Parsed '' @ path_string (sourcePath file) @ newline
    @ ''  release: '' @ (if autosarRelease file = [] then ''(unknown)'' else autosarRelease file) @ newline
    @ ''  clusters: '' @ nat_to_string (length (clusters file)) @ newline
    @ ''  ecuInstances: '' @ nat_to_string (length (ecuInstances file)) @ newline
    @ ''  frames: '' @ nat_to_string (length (frames file)) @ newline
    @ ''  pdus: '' @ nat_to_string (length (pdus file)) @ newline
    @ ''  signals: '' @ nat_to_string (length (signals file)) @ newline
    @ ''  signalGroups: '' @ nat_to_string (length (signalGroups file)) @ newline"

definition parseEnvelope :: "string \<Rightarrow> parsed_file \<Rightarrow> json" where
  "parseEnvelope version file = wrapEnvelope version ''parseReport'' (jassign
    [(''sourcePath'', JString (path_string (sourcePath file))),
     (''autosarRelease'', JString (autosarRelease file)),
     (''counts'', jobj
       [(''clusters'', jnat (length (clusters file))),
        (''ecuInstances'', jnat (length (ecuInstances file))),
        (''frames'', jnat (length (frames file))),
        (''pdus'', jnat (length (pdus file))),
        (''signals'', jnat (length (signals file))),
        (''signalGroups'', jnat (length (signalGroups file)))]),
     (''warnings'', warningsToJson (map warning_message (file_warnings file)))])"

definition parseAt :: "tool_lib \<Rightarrow> tree_files \<Rightarrow> string \<Rightarrow> string + parsed_file" where
  "parseAt rt fs path =
    (case parseFile (tl_env rt fs) (path_of path) of Inl x \<Rightarrow> Inl (exn_message x) | Inr f \<Rightarrow> Inr f)"

text \<open>\<open>r\<close> is thrown or passed on.\<close>

definition andThen :: "string + 'a \<Rightarrow> ('a \<Rightarrow> thrown + 'b) \<Rightarrow> thrown + 'b" where
  "andThen r f = (case r of Inl what \<Rightarrow> Inl (StdException what) | Inr x \<Rightarrow> f x)"

definition parseTool :: "tool_lib \<Rightarrow> json \<Rightarrow> server_world \<Rightarrow> (thrown + json) \<times> server_world" where
  "parseTool rt args w =
    ((case textArg rt ''path'' args of
        Inl x \<Rightarrow> Inl x
      | Inr path \<Rightarrow> andThen (parseAt rt (sw_files w) path) (\<lambda>file.
          Inr (packed (parseEnvelope (tl_version rt) file) (humanParseSummary file)))), w)"

section \<open>Validate\<close>

definition humanValidateSummary :: "validation_result \<Rightarrow> bool \<Rightarrow> string" where
  "humanValidateSummary result strict =
    (if overallPassed result (if strict then Strict else Lenient)
     then ''Validation passed'' else ''Validation failed'')
    @ '' ('' @ nat_to_string (length result) @ '' issues)'' @ newline
    @ concat (map (\<lambda>e. ''  ['' @ (if ve_severity e = Warning then ''warning'' else ''error'') @ ''] ''
         @ ve_code e @ '': '' @ ve_message e @ newline
         @ (case ve_path e of None \<Rightarrow> [] | Some p \<Rightarrow> ''    path: '' @ p @ newline)) result)"

definition validateEnvelope :: "string \<Rightarrow> validation_result \<Rightarrow> bool \<Rightarrow> json" where
  "validateEnvelope version result strict =
    (let envelope = resultToJson version result;
         passed = overallPassed result (if strict then Strict else Lenient);
         payload = (case jfind ''payload'' envelope of Some p \<Rightarrow> p | None \<Rightarrow> JNull)
     in jset ''payload'' (jset ''passed'' (JBool passed) payload) envelope)"

text \<open>
  The findings: what parsing, schema resolution and the checks say, all exceptions caught. The registry may
  write its cache.
\<close>

definition validateFindings :: "tool_lib \<Rightarrow> string \<Rightarrow> server_world \<Rightarrow> validation_result \<times> server_world" where
  "validateFindings rt path w =
    (case parseAt rt (sw_files w) path of
       Inl what \<Rightarrow> ([new_error Error ''parse.failed'' what], w)
     | Inr file \<Rightarrow>
        (let release = autosarRelease file in
         if release \<noteq> []
         then (case resolveSchema (tl_registry rt (sw_turn w)) release (sw_disk w) of
                 (Inl err, d) \<Rightarrow>
                   ([new_error Error ''validator.error'' (schemaErrorMessage err)], w\<lparr>sw_disk := d, sw_turn := Suc (sw_turn w)\<rparr>)
               | (Inr resolved, d) \<Rightarrow>
                   (merge [] (validateAll (Some (rs_schema resolved)) (project_of [file])), w\<lparr>sw_disk := d, sw_turn := Suc (sw_turn w)\<rparr>))
         else ([new_error Error ''schema.no_release'' ''cannot determine AUTOSAR release for validation''], w)))"

definition validateTool :: "tool_lib \<Rightarrow> json \<Rightarrow> server_world \<Rightarrow> (thrown + json) \<times> server_world" where
  "validateTool rt args w =
    (case textArg rt ''path'' args of
       Inl x \<Rightarrow> (Inl x, w)
     | Inr path \<Rightarrow> (case flagArg rt ''strict'' args of
         Inl x \<Rightarrow> (Inl x, w)
       | Inr strict \<Rightarrow>
          (let (result, w') = validateFindings rt path w in
           (Inr (packed (validateEnvelope (tl_version rt) result strict)
                  (humanValidateSummary result strict)), w'))))"

section \<open>Diff\<close>

definition humanDiffSummary :: "diff_report \<Rightarrow> string" where
  "humanDiffSummary report =
    (if entries report = [] \<and> diagnostics report = [] then ''No differences'' @ newline
     else toText report)"

definition diffTool :: "tool_lib \<Rightarrow> json \<Rightarrow> server_world \<Rightarrow> (thrown + json) \<times> server_world" where
  "diffTool rt args w =
    ((case textArg rt ''basePath'' args of
        Inl x \<Rightarrow> Inl x
      | Inr base \<Rightarrow> (case textArg rt ''targetPath'' args of
          Inl x \<Rightarrow> Inl x
        | Inr target \<Rightarrow>
            andThen (parseAt rt (sw_files w) base) (\<lambda>old. andThen (parseAt rt (sw_files w) target) (\<lambda>new.
              let report = diff (project_of [old]) (project_of [new]) in
              Inr (packed (reportToJson (tl_version rt) report) (humanDiffSummary report)))))), w)"

section \<open>Write\<close>

definition writeEnvelope :: "string \<Rightarrow> string \<Rightarrow> string \<Rightarrow> bool \<Rightarrow> bool \<Rightarrow> json" where
  "writeEnvelope version input outFile applied success = wrapEnvelope version ''writeResult'' (jassign
    [(''input'', JString input), (''output'', JString outFile), (''applied'', JBool applied),
     (''success'', JBool success)])"

definition humanWriteSummary :: "string \<Rightarrow> string \<Rightarrow> bool \<Rightarrow> string" where
  "humanWriteSummary input outFile applied =
    (if applied then ''Wrote '' @ outFile @ '' from '' @ input @ newline
     else ''DRY RUN '' @ [CHR 0xE2, CHR 0x80, CHR 0x94] @ '' no changes written. Would write '' @ outFile
       @ '' from '' @ input @ '' (use apply:true to apply)'' @ newline)"

definition writeTool :: "tool_lib \<Rightarrow> json \<Rightarrow> server_world \<Rightarrow> (thrown + json) \<times> server_world" where
  "writeTool rt args w =
    (case textArg rt ''path'' args of
       Inl x \<Rightarrow> (Inl x, w)
     | Inr path \<Rightarrow> (case textArg rt ''outputPath'' args of
         Inl x \<Rightarrow> (Inl x, w)
       | Inr out \<Rightarrow> (case flagArg rt ''apply'' args of
           Inl x \<Rightarrow> (Inl x, w)
         | Inr applied \<Rightarrow> (case parseAt rt (sw_files w) path of
             Inl what \<Rightarrow> (Inl (StdException what), w)
           | Inr file \<Rightarrow>
              (let project = project_of [file] in
               if applied
               then (case writeProject (tl_write rt (sw_turn w)) (tl_content rt) project out (sw_files w) of
                       (Some x, fs) \<Rightarrow> (Inl (StdException (writeWhat x)), w\<lparr>sw_files := fs, sw_turn := Suc (sw_turn w)\<rparr>)
                     | (None, fs) \<Rightarrow> (Inr (packed (writeEnvelope (tl_version rt) path out True True)
                                             (humanWriteSummary path out True)), w\<lparr>sw_files := fs, sw_turn := Suc (sw_turn w)\<rparr>))
               else let success = \<not> hasErrors (validate project) in
                    (Inr (packed (writeEnvelope (tl_version rt) path out False success)
                           (humanWriteSummary path out False)), w))))))"

section \<open>Export\<close>

definition exportSignalCount :: "export_database \<Rightarrow> nat" where
  "exportSignalCount database = sum_list (map (\<lambda>f. length (ef_signals f)) (ed_frames database))"

definition exportTool :: "tool_lib \<Rightarrow> json \<Rightarrow> server_world \<Rightarrow> (thrown + json) \<times> server_world" where
  "exportTool rt args w =
    ((case textArg rt ''path'' args of
        Inl x \<Rightarrow> Inl x
      | Inr path \<Rightarrow> (case textArg rt ''format'' args of
          Inl x \<Rightarrow> Inl x
        | Inr format \<Rightarrow>
           (if format \<noteq> ''dbc'' \<and> format \<noteq> ''csv''
            then Inl (StdException (''format must be '' @ dquoted ''dbc'' @ '' or '' @ dquoted ''csv''))
            else andThen (parseAt rt (sw_files w) path) (\<lambda>file.
              let database = buildExportDatabase file;
                  signalCount = exportSignalCount database;
                  nframes = length (ed_frames database);
                  payload = jassign
                    [(''sourcePath'', JString path), (''format'', JString format), (''output'', JNull),
                     (''counts'', jobj [(''frames'', jnat nframes), (''signals'', jnat signalCount)]),
                     (''warnings'', warningsToJson (map warning_message (ed_warnings database))),
                     (''content'', JString (if format = ''dbc'' then toDbc database else toCsv database))];
                  summary = ''Exported '' @ nat_to_string nframes @ '' frames, ''
                    @ nat_to_string signalCount @ '' signals as '' @ format @ '' from '' @ path
                    @ (if ed_warnings database \<noteq> []
                       then '' ('' @ nat_to_string (length (ed_warnings database)) @ '' warnings)'' else [])
              in Inr (packed (wrapEnvelope (tl_version rt) ''exportResult'' payload) summary))))), w)"

section \<open>The server\<close>

definition serverRegistry :: "tool_lib \<Rightarrow> server_world tool_registry" where
  "serverRegistry rt =
    setHandler ''export_arxml'' (exportTool rt)
      (setHandler ''write_arxml'' (writeTool rt)
        (setHandler ''diff_arxml'' (diffTool rt)
          (setHandler ''validate_arxml'' (validateTool rt)
            (setHandler ''parse_arxml'' (parseTool rt) withSchemas))))"

definition runServer :: "json_lib \<Rightarrow> tool_lib \<Rightarrow> string list \<Rightarrow> server_world \<Rightarrow> sent list \<times> server_world" where
  "runServer lib rt lines w = serveLines lib (tl_version rt) (serverRegistry rt) lines w"

section \<open>What may touch the files\<close>

lemma lookup_set: "m_inv (tr_tools r) \<Longrightarrow> map_of (tr_tools (setHandler n h r)) k =
    (if k = n then map_option (\<lambda>d. d\<lparr>td_handler := h\<rparr>) (map_of (tr_tools r) n) else map_of (tr_tools r) k)"
  by (auto simp: setHandler_def sgroup.find_modify split: option.splits)

lemma inv_set: "m_inv (tr_tools r) \<Longrightarrow> m_inv (tr_tools (setHandler n h r))"
  by (auto simp: setHandler_def sgroup.inv_modify split: option.splits)

lemma inv_register: "m_inv (tr_tools r) \<Longrightarrow> m_inv (tr_tools (registerTool d r))"
  by (simp add: registerTool_def Let_def sgroup.inv_modify)

lemma inv_withSchemas: "m_inv (tr_tools withSchemas)"
proof -
  have "m_inv (tr_tools r) \<Longrightarrow> m_inv (tr_tools (fold registerTool ds r))" for ds and r :: "'a tool_registry"
    by (induction ds arbitrary: r) (auto intro: inv_register)
  then show ?thesis by (simp add: withSchemas_def emptyRegistry_def m_inv_Nil)
qed

lemma lookup_register: "m_inv (tr_tools r) \<Longrightarrow> map_of (tr_tools (registerTool d r)) k =
    (if k = td_name d then Some d else map_of (tr_tools r) k)"
  by (simp add: registerTool_def Let_def sgroup.find_modify)

lemma lookup_withSchemas:
  "map_of (tr_tools withSchemas) k = List.find (\<lambda>d. td_name d = k) (rev builtinTools)"
proof -
  have "m_inv (tr_tools r) \<Longrightarrow> map_of (tr_tools (fold registerTool ds r)) k
      = (case List.find (\<lambda>d. td_name d = k) (rev ds) of Some d \<Rightarrow> Some d | None \<Rightarrow> map_of (tr_tools r) k)"
    for ds and r :: "'a tool_registry"
  proof (induction ds arbitrary: r)
    case (Cons d ds)
    have "List.find P (xs @ [x]) = (case List.find P xs of Some y \<Rightarrow> Some y | None \<Rightarrow> if P x then Some x else None)"
      for P and xs :: "'a tool_definition list" and x by (induction xs) auto
    then show ?case
      using Cons by (auto simp: inv_register lookup_register split: option.splits)
  qed simp
  then show ?thesis by (simp add: withSchemas_def emptyRegistry_def m_inv_Nil split: option.splits)
qed

text \<open>The handler the server calls under each name.\<close>

lemma server_handler:
  assumes "findTool (serverRegistry rt) name = Some tool"
  shows "name = ''parse_arxml'' \<and> td_handler tool = parseTool rt
    \<or> name = ''validate_arxml'' \<and> td_handler tool = validateTool rt
    \<or> name = ''diff_arxml'' \<and> td_handler tool = diffTool rt
    \<or> name = ''write_arxml'' \<and> td_handler tool = writeTool rt
    \<or> name = ''export_arxml'' \<and> td_handler tool = exportTool rt"
proof -
  have names: "name \<in> {''parse_arxml'', ''validate_arxml'', ''diff_arxml'', ''write_arxml'', ''export_arxml''}"
    if "map_of (tr_tools withSchemas) name = Some (d :: server_world tool_definition)" for d
    using that by (auto simp: lookup_withSchemas find_Some_iff builtinTools_def newTool_def less_Suc_eq
        nth_Cons' split: if_splits)
  show ?thesis
    using assms names
    by (auto simp: findTool_def serverRegistry_def lookup_set inv_set inv_withSchemas split: if_splits)
qed

text \<open>What each tool may change: the writer the documents, when told to; the validator the cache.\<close>

lemma write_changes:
  "sw_disk (snd (writeTool rt args w)) = sw_disk w"
  "sw_files (snd (writeTool rt args w)) \<noteq> sw_files w \<Longrightarrow> jfind ''apply'' args = Some (JBool True)"
proof -
  show "sw_disk (snd (writeTool rt args w)) = sw_disk w"
    by (simp add: writeTool_def Let_def split: sum.splits prod.splits option.splits)
  have "jfind ''apply'' args = Some (JBool True)" if "flagArg rt ''apply'' args = Inr True"
    using that by (auto simp: flagArg_def jvalue_def split: option.splits if_splits json.splits
        elim!: jget_bool.elims)
  then show "sw_files (snd (writeTool rt args w)) \<noteq> sw_files w \<Longrightarrow> jfind ''apply'' args = Some (JBool True)"
    by (auto simp: writeTool_def Let_def split: sum.splits if_splits prod.splits option.splits)
qed

text \<open>The cache of a server: the files any of its calls may write.\<close>

definition server_cache :: "tool_lib \<Rightarrow> fpath set" where
  "server_cache rt = (\<Union>n. cacheFiles (tl_registry rt n))"

lemma in_server_cache: "only_changes (cacheFiles (tl_registry rt n)) f g \<Longrightarrow> only_changes (server_cache rt) f g"
  by (rule only_changes_mono) (auto simp: server_cache_def)

lemma findings_change:
  assumes "validateFindings rt path w = (result, w')"
  shows "sw_files w' = sw_files w \<and> only_changes (server_cache rt) (sw_disk w) (sw_disk w')"
  using assms by (auto simp: validateFindings_def Let_def split: sum.splits prod.splits if_splits dest!: resolve_changes in_server_cache)

lemma validate_changes:
  "sw_files (snd (validateTool rt args w)) = sw_files w
    \<and> only_changes (server_cache rt) (sw_disk w) (sw_disk (snd (validateTool rt args w)))"
  by (auto simp: validateTool_def split: sum.splits prod.splits dest: findings_change)

lemma read_tools:
  "snd (parseTool rt args w) = w" "snd (diffTool rt args w) = w" "snd (exportTool rt args w) = w"
  by (simp_all add: parseTool_def diffTool_def exportTool_def)

text \<open>A request to call the tool of a name, with its arguments.\<close>

definition calls_tool :: "json_lib \<Rightarrow> string \<Rightarrow> string \<Rightarrow> json option" where
  "calls_tool lib name line =
    (case lib_parse lib line of
       Inl _ \<Rightarrow> None
     | Inr message \<Rightarrow>
        (if readMethod message = ''tools/call'' \<and> jfind ''name'' (readParams message) = Some (JString name)
         then Some (case jfind ''arguments'' (readParams message) of None \<Rightarrow> jobj [] | Some args \<Rightarrow> args)
         else None))"

text \<open>A request to write with \<open>apply: true\<close>, and a request to validate.\<close>

definition asks_write :: "json_lib \<Rightarrow> string \<Rightarrow> bool" where
  "asks_write lib line \<longleftrightarrow>
    (case calls_tool lib ''write_arxml'' line of None \<Rightarrow> False | Some args \<Rightarrow> jfind ''apply'' args = Some (JBool True))"

definition asks_validate :: "json_lib \<Rightarrow> string \<Rightarrow> bool" where
  "asks_validate lib line \<longleftrightarrow> calls_tool lib ''validate_arxml'' line \<noteq> None"

text \<open>What a line, or a run, leaves alone; the two conditions say what was asked for.\<close>

definition keeps :: "tool_lib \<Rightarrow> bool \<Rightarrow> bool \<Rightarrow> server_world \<Rightarrow> server_world \<Rightarrow> bool" where
  "keeps rt writes validates w w' \<longleftrightarrow> (\<not> writes \<longrightarrow> sw_files w' = sw_files w)
     \<and> only_changes (server_cache rt) (sw_disk w) (sw_disk w')
     \<and> (\<not> validates \<longrightarrow> sw_disk w' = sw_disk w)"

lemma keeps_refl [simp]: "keeps rt a b w w"
  by (simp add: keeps_def)

lemma keeps_trans: "keeps rt a b w1 w2 \<Longrightarrow> keeps rt c d w2 w3 \<Longrightarrow> keeps rt (a \<or> c) (b \<or> d) w1 w3"
  unfolding keeps_def using only_changes_trans [OF _ _ order_refl order_refl] by metis

lemma call_keeps:
  "keeps rt
    (jfind ''name'' params = Some (JString ''write_arxml'')
      \<and> (case jfind ''arguments'' params of None \<Rightarrow> False | Some args \<Rightarrow> jfind ''apply'' args = Some (JBool True)))
    (jfind ''name'' params = Some (JString ''validate_arxml''))
    w (snd (dispatchToolsCall lib i params (serverRegistry rt) w))"
proof (cases "snd (dispatchToolsCall lib i params (serverRegistry rt) w) = w")
  case False
  then obtain name args tool where n: "name = (case jfind ''name'' params of Some (JString n) \<Rightarrow> n | _ \<Rightarrow> [])"
    and a: "(case jfind ''arguments'' params of None \<Rightarrow> Some (jobj [])
        | Some a \<Rightarrow> if is_object a then Some a else None) = Some args"
    and t: "findTool (serverRegistry rt) name = Some tool"
    and w: "snd (dispatchToolsCall lib i params (serverRegistry rt) w) = snd (td_handler tool args w)"
    by (auto simp: dispatchToolsCall_def Let_def split: option.splits prod.splits sum.splits thrown.splits)
  have name: "jfind ''name'' params = Some (JString name)" if "name \<noteq> []"
    using n that by (auto split: option.splits json.splits)
  from server_handler [OF t] False w consider
    "name = ''write_arxml''" "td_handler tool = writeTool rt" | "name = ''validate_arxml''" "td_handler tool = validateTool rt"
    by (auto simp: read_tools)
  then show ?thesis
  proof cases
    case 1
    have "sw_files (snd (writeTool rt args w)) = sw_files w \<or> jfind ''apply'' args = Some (JBool True)"
      using write_changes(2) by blast
    then show ?thesis
      using 1 name a write_changes(1) [of rt args w] w
      by (auto simp: keeps_def json_simps split: option.splits if_splits)
  next
    case 2
    then show ?thesis using name validate_changes [of rt args w] w by (simp add: keeps_def)
  qed
qed simp

lemma dispatch_world:
  "snd (dispatchMessage lib v m reg w) = w
    \<or> (\<exists>i. readMethod m = ''tools/call''
        \<and> snd (dispatchMessage lib v m reg w) = snd (dispatchToolsCall lib i (readParams m) reg w))"
proof -
  have "snd (routeRequest lib v i meth params reg w) = w
      \<or> meth = ''tools/call'' \<and> snd (routeRequest lib v i meth params reg w) = snd (dispatchToolsCall lib i params reg w)"
    for i meth params
    by (simp add: routeRequest_def Let_def case_prod_beta)
  moreover have "snd (dispatchMessage lib v m reg w) = w
      \<or> (\<exists>i. snd (dispatchMessage lib v m reg w) = snd (routeRequest lib v i (readMethod m) (readParams m) reg w))"
  proof (cases "is_object m \<and> jfind ''id'' m \<noteq> None")
    case True
    then obtain i where i: "is_object m" "jfind ''id'' m = Some i" by auto
    define mismatch where "mismatch = (case extractProtocolVersion m of
      None \<Rightarrow> None | Some ver \<Rightarrow> if isSupportedVersion ver then None else Some (sendVersionMismatch lib i ver))"
    have "snd (dispatchMessage lib v m reg w) = (case mismatch of Some (Inr out) \<Rightarrow> w
        | _ \<Rightarrow> snd (routeRequest lib v i (readMethod m) (readParams m) reg w))"
      by (simp add: dispatchMessage_def i Let_def case_prod_beta mismatch_def [symmetric] split: option.split sum.split)
    then show ?thesis by (cases "\<exists>out. mismatch = Some (Inr out)") (auto split: option.splits sum.splits)
  qed (auto simp: dispatchMessage_def)
  ultimately show ?thesis by metis
qed

lemma line_keeps: "keeps rt (asks_write lib line) (asks_validate lib line) w (snd (handleLine lib v (serverRegistry rt) line w))"
proof (cases "snd (handleLine lib v (serverRegistry rt) line w) = w")
  case False
  then obtain m where m: "lib_parse lib line = Inr m"
    and d: "snd (handleLine lib v (serverRegistry rt) line w) = snd (dispatchMessage lib v m (serverRegistry rt) w)"
    by (auto simp: handleLine_def split: option.splits sum.splits if_splits)
  then obtain i where call: "readMethod m = ''tools/call''"
    and r: "snd (dispatchMessage lib v m (serverRegistry rt) w)
      = snd (dispatchToolsCall lib i (readParams m) (serverRegistry rt) w)"
    using False dispatch_world [of lib v m "serverRegistry rt" w] by auto
  have "asks_write lib line \<longleftrightarrow> jfind ''name'' (readParams m) = Some (JString ''write_arxml'')
      \<and> (case jfind ''arguments'' (readParams m) of None \<Rightarrow> False | Some args \<Rightarrow> jfind ''apply'' args = Some (JBool True))"
    and "asks_validate lib line \<longleftrightarrow> jfind ''name'' (readParams m) = Some (JString ''validate_arxml'')"
    using m call by (auto simp: asks_write_def asks_validate_def calls_tool_def json_simps split: option.splits)
  then show ?thesis using call_keeps [of rt "readParams m" w lib i] by (simp only: d r)
qed simp

lemma run_keeps:
  "keeps rt (list_ex (asks_write lib) lines) (list_ex (asks_validate lib) lines) w (snd (runServer lib rt lines w))"
  unfolding runServer_def
proof (induction lines arbitrary: w)
  case (Cons line lines)
  then show ?case
    using keeps_trans [OF line_keeps [of rt lib line w "tl_version rt"]] by (simp add: case_prod_beta)
qed simp

text \<open>C6: previewing is safe: whatever lines the server is fed, well-formed or not, and however its system calls turn
  out, the ARXML files stay as they
  are unless one of the lines is a call of the write tool with \<open>apply: true\<close>; and of the other files only
  those of the schema cache (entries, their imports and temporary files) can change, and none of them
  unless one of the lines is a call of the validate tool.\<close>

theorem server_writes_only_on_apply:
  "(list_ex (asks_write lib) lines \<or> sw_files (snd (runServer lib rt lines w)) = sw_files w)
    \<and> only_changes (server_cache rt) (sw_disk w) (sw_disk (snd (runServer lib rt lines w)))
    \<and> (list_ex (asks_validate lib) lines \<or> sw_disk (snd (runServer lib rt lines w)) = sw_disk w)"
  using run_keeps [of rt lib lines w] unfolding keeps_def by blast

text \<open>
  The output schema the server lists for the parse tool demands a member \<open>sourcePath\<close>, but the tool
  returns the envelope, which has none; the other tools' schemas differ from their results the same way.
\<close>

lemma parse_output_schema_mismatch:
  "jfind ''sourcePath'' (parseEnvelope v file) = None
   \<and> jfind ''required'' parseOutputSchema = Some (JArray [JString ''sourcePath''])"
  by (simp add: parseEnvelope_def wrapEnvelope_def parseOutputSchema_def objectSchema_def
      jstring_array_def json_simps)

end
