(* ===== verification/Telemetry.thy ===== *)
theory Telemetry
  imports JsonReports
begin

text \<open>
  The telemetry component (\<open>src/telemetry/\<close>): the switch, the span counter, the stack of open spans,
  the RAII span with its constructor and destructor, the trace with its JSON. One thread: the stack of
  the source is thread-local, the rest shared. The clock's readings are arguments. A span an allocation
  failure drops is not modelled, nor is the build with telemetry compiled out.
\<close>

section \<open>Spans\<close>

type_synonym span_id = "64 word"

datatype span_status = SpanUnset | SpanOk | SpanError

fun statusName :: "span_status \<Rightarrow> string" where
  "statusName SpanUnset = ''unset''"
| "statusName SpanOk = ''ok''"
| "statusName SpanError = ''error''"

datatype attribute_value = AttrString string | AttrInt "64 word" | AttrDouble double | AttrBool bool

record span_attribute =
  at_key :: string
  at_value :: attribute_value

record tele_span =
  sp_name :: string
  sp_id :: span_id
  sp_parent :: "span_id option"
  sp_start :: "64 word"
  sp_end :: "64 word"
  sp_attributes :: "span_attribute list"
  sp_status :: span_status

text \<open>The process's state. The innermost open span comes first in \<open>tm_stack\<close>.\<close>

record telemetry =
  tm_enabled :: bool
  tm_counter :: span_id
  tm_origin :: "int option"
  tm_stack :: "span_id list"
  tm_trace :: "tele_span list"

definition startTelemetry :: telemetry where
  "startTelemetry = \<lparr>tm_enabled = False, tm_counter = 1, tm_origin = None, tm_stack = [], tm_trace = []\<rparr>"

definition setEnabled :: "bool \<Rightarrow> telemetry \<Rightarrow> telemetry" where
  "setEnabled on tm = tm\<lparr>tm_enabled := on\<rparr>"

definition resetTrace :: "telemetry \<Rightarrow> telemetry" where
  "resetTrace tm = tm\<lparr>tm_trace := []\<rparr>"

definition nextSpanId :: "telemetry \<Rightarrow> span_id \<times> telemetry" where
  "nextSpanId tm = (tm_counter tm, tm\<lparr>tm_counter := tm_counter tm + 1\<rparr>)"

text \<open>The first call fixes the origin at the clock's reading.\<close>

definition processStartTimePoint :: "int \<Rightarrow> telemetry \<Rightarrow> int \<times> telemetry" where
  "processStartTimePoint reading tm =
    (case tm_origin tm of Some o0 \<Rightarrow> (o0, tm) | None \<Rightarrow> (reading, tm\<lparr>tm_origin := Some reading\<rparr>))"

definition nanosSince :: "int \<Rightarrow> int \<Rightarrow> 64 word" where
  "nanosSince point origin = word_of_int (point - origin)"

section \<open>The scoped span\<close>

record scoped_span =
  ss_active :: bool
  ss_name :: string
  ss_id :: span_id
  ss_parent :: "span_id option"
  ss_start :: int
  ss_attributes :: "span_attribute list"
  ss_status :: span_status
  ss_explicit :: bool
  ss_uncaught :: nat

definition idleSpan :: scoped_span where
  "idleSpan = \<lparr>ss_active = False, ss_name = [], ss_id = 0, ss_parent = None, ss_start = 0, ss_attributes = [],
     ss_status = SpanUnset, ss_explicit = False, ss_uncaught = 0\<rparr>"

text \<open>The constructor; \<open>first\<close> and \<open>now\<close> are the clock's readings, \<open>uncaught\<close> the exceptions in flight.\<close>

definition openScopedSpan :: "string \<Rightarrow> int \<times> int \<Rightarrow> nat \<Rightarrow> telemetry \<Rightarrow> scoped_span \<times> telemetry" where
  "openScopedSpan name readings uncaught tm =
    (if \<not> tm_enabled tm then (idleSpan, tm)
     else let (first, now) = readings;
              (i, tm1) = nextSpanId tm;
              parent = (case tm_stack tm1 of [] \<Rightarrow> None | p # _ \<Rightarrow> Some p);
              tm2 = snd (processStartTimePoint first tm1)
          in (idleSpan\<lparr>ss_active := True, ss_name := name, ss_id := i, ss_parent := parent, ss_start := now,
                ss_uncaught := uncaught\<rparr>,
              tm2\<lparr>tm_stack := i # tm_stack tm2\<rparr>))"

definition setAttribute :: "string \<Rightarrow> attribute_value \<Rightarrow> scoped_span \<Rightarrow> scoped_span" where
  "setAttribute k v s =
    (if \<not> ss_active s then s else s\<lparr>ss_attributes := ss_attributes s @ [\<lparr>at_key = k, at_value = v\<rparr>]\<rparr>)"

definition setStatus :: "span_status \<Rightarrow> scoped_span \<Rightarrow> scoped_span" where
  "setStatus status s = (if \<not> ss_active s then s else s\<lparr>ss_status := status, ss_explicit := True\<rparr>)"

definition finalStatus :: "scoped_span \<Rightarrow> nat \<Rightarrow> span_status" where
  "finalStatus s uncaught =
    (if ss_explicit s then ss_status s else if uncaught > ss_uncaught s then SpanError else SpanOk)"

text \<open>The innermost id goes, or the first equal one below it; without one the assertion would fail.\<close>

fun dropId :: "span_id \<Rightarrow> span_id list \<Rightarrow> span_id list" where
  "dropId i [] = []"
| "dropId i (x # xs) = (if x = i then xs else x # dropId i xs)"

text \<open>The destructor with \<open>finalize\<close>.\<close>

definition closeScopedSpan :: "int \<Rightarrow> nat \<Rightarrow> scoped_span \<Rightarrow> telemetry \<Rightarrow> telemetry" where
  "closeScopedSpan endPoint uncaught s tm =
    (if \<not> ss_active s then tm
     else let (origin, tm1) = processStartTimePoint endPoint tm;
              finished = \<lparr>sp_name = ss_name s, sp_id = ss_id s, sp_parent = ss_parent s,
                sp_start = nanosSince (ss_start s) origin, sp_end = nanosSince endPoint origin,
                sp_attributes = ss_attributes s, sp_status = finalStatus s uncaught\<rparr>
          in tm1\<lparr>tm_stack := dropId (ss_id s) (tm_stack tm1), tm_trace := tm_trace tm1 @ [finished]\<rparr>)"

section \<open>The trace\<close>

definition spanChildren :: "tele_span list \<Rightarrow> span_id \<Rightarrow> tele_span list" where
  "spanChildren trace parent = filter (\<lambda>s. sp_parent s = Some parent) trace"

fun attributeValueToJson :: "attribute_value \<Rightarrow> json" where
  "attributeValueToJson (AttrString s) = JString s"
| "attributeValueToJson (AttrInt w) = JInt (sint w)"
| "attributeValueToJson (AttrDouble d) = JFloat d"
| "attributeValueToJson (AttrBool b) = JBool b"

definition durationNanos :: "tele_span \<Rightarrow> 64 word" where
  "durationNanos s = (if sp_end s \<ge> sp_start s then sp_end s - sp_start s else 0)"

definition traceSpanToJson :: "tele_span \<Rightarrow> json" where
  "traceSpanToJson s = jassign
    ([(''spanId'', JInt (uint (sp_id s)))]
     @ (case sp_parent s of None \<Rightarrow> [] | Some p \<Rightarrow> [(''parentSpanId'', JInt (uint p))])
     @ [(''name'', JString (sp_name s)),
        (''startNanos'', JInt (uint (sp_start s))),
        (''endNanos'', JInt (uint (sp_end s))),
        (''durationNanos'', JInt (uint (durationNanos s))),
        (''status'', JString (statusName (sp_status s))),
        (''attributes'', fold (\<lambda>a. jset (at_key a) (attributeValueToJson (at_value a)))
           (sp_attributes s) (JObject []))])"

definition traceToJson :: "string \<Rightarrow> tele_span list \<Rightarrow> json" where
  "traceToJson version trace = wrapEnvelope version ''telemetryReport''
    (jassign [(''spans'', JArray (map traceSpanToJson trace))])"

definition currentTraceAsJson :: "string \<Rightarrow> telemetry \<Rightarrow> json" where
  "currentTraceAsJson version tm = traceToJson version (tm_trace tm)"

section \<open>Nested scopes\<close>

text \<open>
  What a block of the program does with its span: its name, the readings when it opens and when it
  closes, whether an exception leaves it, the calls on the span, and the blocks inside. The destructor
  runs on every way out, so spans nest like the blocks.
\<close>

datatype span_call = Attr string attribute_value | Status span_status

datatype scope = Scope string "int \<times> int" int bool "span_call list" "scope list"

fun callSpan :: "span_call \<Rightarrow> scoped_span \<Rightarrow> scoped_span" where
  "callSpan (Attr k v) s = setAttribute k v s"
| "callSpan (Status st) s = setStatus st s"

fun runScope :: "nat \<Rightarrow> scope \<Rightarrow> telemetry \<Rightarrow> telemetry" where
  "runScope uncaught (Scope name readings endPoint thrown calls inner) tm =
    (let (s, tm1) = openScopedSpan name readings uncaught tm;
         tm2 = fold (runScope uncaught) inner tm1
     in closeScopedSpan endPoint (if thrown then Suc uncaught else uncaught) (fold callSpan calls s) tm2)"

section \<open>The trace of nested scopes\<close>

text \<open>
  The specification: spans are numbered in the order in which they open and listed in the order in
  which they close, each with its number, the number of the span around it, and its own data.
\<close>

fun scopeSize :: "scope \<Rightarrow> nat" where
  "scopeSize (Scope name readings endPoint thrown calls inner) = Suc (sum_list (map scopeSize inner))"

fun callAttributes :: "span_call list \<Rightarrow> span_attribute list" where
  "callAttributes [] = []"
| "callAttributes (Attr k v # cs) = \<lparr>at_key = k, at_value = v\<rparr> # callAttributes cs"
| "callAttributes (Status st # cs) = callAttributes cs"

definition scopeStatus :: "bool \<Rightarrow> span_call list \<Rightarrow> span_status" where
  "scopeStatus thrown calls =
    fold (\<lambda>c st. case c of Attr _ _ \<Rightarrow> st | Status st' \<Rightarrow> st') calls (if thrown then SpanError else SpanOk)"

fun rootSpan :: "int \<Rightarrow> span_id option \<Rightarrow> nat \<Rightarrow> scope \<Rightarrow> tele_span" where
  "rootSpan origin parent n (Scope name readings endPoint thrown calls inner) =
    \<lparr>sp_name = name, sp_id = of_nat n, sp_parent = parent,
     sp_start = nanosSince (snd readings) origin, sp_end = nanosSince endPoint origin,
     sp_attributes = callAttributes calls, sp_status = scopeStatus thrown calls\<rparr>"

fun spansOf :: "int \<Rightarrow> span_id option \<Rightarrow> nat \<Rightarrow> scope \<Rightarrow> tele_span list"
  and spansOfAll :: "int \<Rightarrow> span_id option \<Rightarrow> nat \<Rightarrow> scope list \<Rightarrow> tele_span list" where
  "spansOf origin parent n (Scope name readings endPoint thrown calls inner) =
    spansOfAll origin (Some (of_nat n)) (Suc n) inner
    @ [rootSpan origin parent n (Scope name readings endPoint thrown calls inner)]"
| "spansOfAll origin parent n [] = []"
| "spansOfAll origin parent n (s # ss) =
    spansOf origin parent n s @ spansOfAll origin parent (n + scopeSize s) ss"

lemma callSpan_active: "ss_active s \<Longrightarrow>
  fold callSpan calls s = s\<lparr>ss_attributes := ss_attributes s @ callAttributes calls,
    ss_status := ss_status (fold callSpan calls s), ss_explicit := ss_explicit (fold callSpan calls s)\<rparr>"
proof (induction calls arbitrary: s)
  case (Cons c cs)
  show ?case
  proof (cases c)
    case (Attr k v)
    show ?thesis
      using Cons.IH [of "setAttribute k v s"] Cons.prems Attr by (simp add: setAttribute_def)
  next
    case (Status st)
    show ?thesis
      using Cons.IH [of "setStatus st s"] Cons.prems Status by (simp add: setStatus_def)
  qed
qed simp

lemma callSpan_status: "ss_active s \<Longrightarrow> finalStatus (fold callSpan calls s) u
  = fold (\<lambda>c st. case c of Attr _ _ \<Rightarrow> st | Status st' \<Rightarrow> st') calls (finalStatus s u)"
proof (induction calls arbitrary: s)
  case (Cons c cs)
  show ?case
    using Cons.IH [of "callSpan c s"] Cons.prems
    by (cases c) (simp_all add: setAttribute_def setStatus_def finalStatus_def)
qed simp

text \<open>What \<open>runScope\<close> adds to the state when telemetry is on.\<close>

lemma runScope_spans:
  "tm_enabled tm \<Longrightarrow> tm_origin tm = Some o0 \<Longrightarrow> tm_counter tm = of_nat n \<Longrightarrow>
    parent = (case tm_stack tm of [] \<Rightarrow> None | p # _ \<Rightarrow> Some p) \<Longrightarrow>
    runScope u t tm = tm\<lparr>tm_counter := of_nat (n + scopeSize t), tm_trace := tm_trace tm @ spansOf o0 parent n t\<rparr>"
  "tm_enabled tm \<Longrightarrow> tm_origin tm = Some o0 \<Longrightarrow> tm_counter tm = of_nat n \<Longrightarrow>
    parent = (case tm_stack tm of [] \<Rightarrow> None | p # _ \<Rightarrow> Some p) \<Longrightarrow>
    fold (runScope u) ts tm
      = tm\<lparr>tm_counter := of_nat (n + sum_list (map scopeSize ts)),
           tm_trace := tm_trace tm @ spansOfAll o0 parent n ts\<rparr>"
proof (induction o0 parent n t and o0 parent n ts arbitrary: tm and tm rule: spansOf_spansOfAll.induct)
  case (1 origin parent n name readings endPoint thrown calls inner)
  define s0 where "s0 = fst (openScopedSpan name readings u tm)"
  define tm1 where "tm1 = snd (openScopedSpan name readings u tm)"
  have s0: "s0 = idleSpan\<lparr>ss_active := True, ss_name := name, ss_id := of_nat n, ss_parent := parent,
      ss_start := snd readings, ss_uncaught := u\<rparr>"
    and tm1: "tm1 = tm\<lparr>tm_counter := of_nat (Suc n), tm_stack := of_nat n # tm_stack tm\<rparr>"
    using 1 by (auto simp: s0_def tm1_def openScopedSpan_def nextSpanId_def processStartTimePoint_def Let_def
        add.commute split: prod.splits list.splits)
  define s1 where "s1 = fold callSpan calls s0"
  have s1: "ss_active s1" "ss_id s1 = of_nat n" "ss_name s1 = name" "ss_parent s1 = parent"
      "ss_start s1 = snd readings" "ss_attributes s1 = callAttributes calls"
    using callSpan_active [of s0 calls] by (simp_all add: s1_def s0 idleSpan_def) (metis scoped_span.simps)+
  have st: "finalStatus s1 (if thrown then Suc u else u) = scopeStatus thrown calls"
    using callSpan_status [of s0 calls] by (simp add: s1_def s0 idleSpan_def finalStatus_def scopeStatus_def)
  have ih: "fold (runScope u) inner tm1 = tm1\<lparr>tm_counter := of_nat (Suc n + sum_list (map scopeSize inner)),
      tm_trace := tm_trace tm1 @ spansOfAll origin (Some (of_nat n)) (Suc n) inner\<rparr>"
    using 1 by (intro "1.IH") (simp_all add: tm1)
  have "runScope u (Scope name readings endPoint thrown calls inner) tm
      = closeScopedSpan endPoint (if thrown then Suc u else u) s1 (fold (runScope u) inner tm1)"
    by (simp add: s0_def tm1_def s1_def split: prod.splits)
  also have "\<dots> = tm\<lparr>tm_counter := of_nat (Suc n + sum_list (map scopeSize inner)),
      tm_trace := tm_trace tm @ spansOf origin parent n (Scope name readings endPoint thrown calls inner)\<rparr>"
    unfolding ih using 1(3) by (simp add: closeScopedSpan_def s1 st tm1 processStartTimePoint_def del: of_nat_Suc)
  finally show ?case by simp
next
  case (2 origin parent n)
  then show ?case by simp
next
  case (3 origin parent n s ss)
  have "tm_stack (runScope u s tm) = tm_stack tm"
    using 3 by simp
  then show ?case using 3 by (simp add: add.assoc)
qed

lemma runScope_origin: "tm_enabled tm \<Longrightarrow> tm_origin tm = None \<Longrightarrow>
    runScope u (Scope name readings endPoint thrown calls inner) tm
      = runScope u (Scope name readings endPoint thrown calls inner) (tm\<lparr>tm_origin := Some (fst readings)\<rparr>)"
proof -
  assume "tm_enabled tm" "tm_origin tm = None"
  then have "openScopedSpan name readings u tm = openScopedSpan name readings u (tm\<lparr>tm_origin := Some (fst readings)\<rparr>)"
    by (cases tm) (simp add: openScopedSpan_def processStartTimePoint_def nextSpanId_def split: prod.splits)
  then show ?thesis by simp
qed

section \<open>Rebuilding the nesting\<close>

text \<open>The reader of a trace: below a span hang the spans that \<open>children\<close> finds for its number.\<close>

datatype span_tree = SpanTree tele_span "span_tree list"

fun rebuild :: "nat \<Rightarrow> tele_span list \<Rightarrow> tele_span \<Rightarrow> span_tree" where
  "rebuild 0 trace s = SpanTree s []"
| "rebuild (Suc k) trace s = SpanTree s (map (rebuild k trace) (spanChildren trace (sp_id s)))"

fun treeOf :: "int \<Rightarrow> span_id option \<Rightarrow> nat \<Rightarrow> scope \<Rightarrow> span_tree"
  and treesOf :: "int \<Rightarrow> span_id option \<Rightarrow> nat \<Rightarrow> scope list \<Rightarrow> span_tree list" where
  "treeOf origin parent n (Scope name readings endPoint thrown calls inner) =
    SpanTree (rootSpan origin parent n (Scope name readings endPoint thrown calls inner))
      (treesOf origin (Some (of_nat n)) (Suc n) inner)"
| "treesOf origin parent n [] = []"
| "treesOf origin parent n (s # ss) = treeOf origin parent n s # treesOf origin parent (n + scopeSize s) ss"

fun rootSpans :: "int \<Rightarrow> span_id option \<Rightarrow> nat \<Rightarrow> scope list \<Rightarrow> tele_span list" where
  "rootSpans origin parent n [] = []"
| "rootSpans origin parent n (s # ss) = rootSpan origin parent n s # rootSpans origin parent (n + scopeSize s) ss"

lemma scopeSize_pos: "0 < scopeSize t"
  by (cases t) simp

text \<open>The parent is \<open>p\<close> or a number from \<open>a\<close> to below \<open>b\<close>.\<close>

definition parent_in :: "span_id option \<Rightarrow> nat \<Rightarrow> nat \<Rightarrow> tele_span \<Rightarrow> bool" where
  "parent_in p a b s \<longleftrightarrow> sp_parent s = p \<or> (\<exists>m. a \<le> m \<and> m < b \<and> sp_parent s = Some (of_nat m))"

lemma parent_in_mono: "parent_in p a b s \<Longrightarrow> a' \<le> a \<Longrightarrow> b \<le> b' \<Longrightarrow> parent_in p a' b' s"
  unfolding parent_in_def by (meson le_trans less_le_trans)

lemma parent_in_inner: "parent_in (Some (of_nat n)) (Suc n) b s \<Longrightarrow> n < b \<Longrightarrow> parent_in p n b s"
  unfolding parent_in_def by (meson Suc_leD order_refl)

lemma parents_of_spans:
  "s \<in> set (spansOf o0 p n t) \<Longrightarrow> parent_in p n (n + scopeSize t) s"
  "s \<in> set (spansOfAll o0 p n ts) \<Longrightarrow> parent_in p n (n + sum_list (map scopeSize ts)) s"
proof (induction o0 p n t and o0 p n ts rule: spansOf_spansOfAll.induct)
  case (1 origin parent n name readings endPoint thrown calls inner)
  then show ?case
    by (auto dest!: parent_in_inner [where p = parent]) (simp add: parent_in_def)
next
  case (3 origin parent n t ts)
  then show ?case by (auto elim!: parent_in_mono)
qed simp

text \<open>No span of the list has its parent among the numbers from \<open>a\<close> to below \<open>b\<close>.\<close>

definition no_parent_in :: "tele_span list \<Rightarrow> nat \<Rightarrow> nat \<Rightarrow> bool" where
  "no_parent_in L a b \<longleftrightarrow> (\<forall>s\<in>set L. \<forall>m. a \<le> m \<and> m < b \<longrightarrow> sp_parent s \<noteq> Some (of_nat m))"

lemma no_parent_append: "no_parent_in (xs @ ys) a b \<longleftrightarrow> no_parent_in xs a b \<and> no_parent_in ys a b"
  by (auto simp: no_parent_in_def)

lemma no_parent_mono: "no_parent_in L a b \<Longrightarrow> a \<le> a' \<Longrightarrow> b' \<le> b \<Longrightarrow> no_parent_in L a' b'"
  by (auto simp: no_parent_in_def)

lemma id_eq: "m < 2 ^ 64 \<Longrightarrow> k < 2 ^ 64 \<Longrightarrow> (of_nat m :: span_id) = of_nat k \<longleftrightarrow> m = k"
  by (simp add: word_of_nat_eq_iff take_bit_nat_eq_self)

definition outside :: "span_id option \<Rightarrow> nat \<Rightarrow> nat \<Rightarrow> bool" where
  "outside p a b \<longleftrightarrow> (\<forall>m. a \<le> m \<and> m < b \<longrightarrow> p \<noteq> Some (of_nat m))"

lemma outside_mono: "outside p a b \<Longrightarrow> a \<le> a' \<Longrightarrow> b' \<le> b \<Longrightarrow> outside p a' b'"
  by (auto simp: outside_def)

lemma outside_id: "x < a \<or> b \<le> x \<Longrightarrow> x < 2 ^ 64 \<Longrightarrow> b \<le> 2 ^ 64 \<Longrightarrow> outside (Some (of_nat x)) a b"
proof -
  assume a: "x < a \<or> b \<le> x" "x < 2 ^ 64" "b \<le> 2 ^ 64"
  have "m = x" if "a \<le> m \<and> m < b" "(of_nat x :: span_id) = of_nat m" for m
    using that a id_eq [of x m] by simp
  with a show ?thesis unfolding outside_def by fastforce
qed

lemma no_parent_range:
  assumes "\<forall>s\<in>set L. parent_in p n e s" and "outside p a b"
    and "b \<le> 2 ^ 64" "e \<le> 2 ^ 64" "b \<le> n \<or> e \<le> a"
  shows "no_parent_in L a b"
  unfolding no_parent_in_def
proof (intro ballI allI impI notI)
  fix s m
  assume s: "s \<in> set L" and m: "a \<le> m \<and> m < b" "sp_parent s = Some (of_nat m)"
  obtain k where k: "n \<le> k" "k < e" "(of_nat m :: span_id) = of_nat k"
    using assms(1) s m assms(2) unfolding parent_in_def outside_def by force
  then have "m = k" using assms m id_eq [of m k] by simp
  then show False using k assms(5) m by linarith
qed

lemmas no_parent_spans =
  no_parent_range [OF ballI, OF parents_of_spans(1)] no_parent_range [OF ballI, OF parents_of_spans(2)]

lemma children_none: "no_parent_in L m (Suc m) \<Longrightarrow> spanChildren L (of_nat m) = []"
  by (auto simp: spanChildren_def filter_empty_conv no_parent_in_def)

lemma children_roots:
  "x < n \<Longrightarrow> n + sum_list (map scopeSize ts) \<le> 2 ^ 64 \<Longrightarrow>
    spanChildren (spansOfAll o0 (Some (of_nat x)) n ts) (of_nat x) = rootSpans o0 (Some (of_nat x)) n ts"
proof (induction ts arbitrary: n)
  case (Cons t ts)
  obtain name readings endPoint thrown calls inner where t: "t = Scope name readings endPoint thrown calls inner"
    by (cases t)
  have "no_parent_in (spansOfAll o0 (Some (of_nat n)) (Suc n) inner) x (Suc x)"
    using Cons.prems by (intro no_parent_spans(2)) (auto simp: t intro!: outside_id)
  then have "spanChildren (spansOf o0 (Some (of_nat x)) n t) (of_nat x) = [rootSpan o0 (Some (of_nat x)) n t]"
    by (simp add: t children_none [unfolded spanChildren_def] spanChildren_def)
  then show ?case using Cons by (simp add: spanChildren_def)
qed (simp add: spanChildren_def)

lemma children_append: "spanChildren (xs @ ys) x = spanChildren xs x @ spanChildren ys x"
  by (simp add: spanChildren_def)

lemma rebuild_tree:
  "trace = pre @ spansOf o0 p n t @ post \<Longrightarrow> no_parent_in (pre @ post) n (n + scopeSize t) \<Longrightarrow>
    n + scopeSize t \<le> 2 ^ 64 \<Longrightarrow> outside p n (n + scopeSize t) \<Longrightarrow> scopeSize t \<le> k \<Longrightarrow>
    rebuild k trace (rootSpan o0 p n t) = treeOf o0 p n t"
  "trace = pre @ spansOfAll o0 p n ts @ post \<Longrightarrow>
    no_parent_in (pre @ post) n (n + sum_list (map scopeSize ts)) \<Longrightarrow>
    n + sum_list (map scopeSize ts) \<le> 2 ^ 64 \<Longrightarrow> outside p n (n + sum_list (map scopeSize ts)) \<Longrightarrow>
    sum_list (map scopeSize ts) \<le> k \<Longrightarrow>
    map (rebuild k trace) (rootSpans o0 p n ts) = treesOf o0 p n ts"
proof (induction o0 p n t and o0 p n ts arbitrary: k pre post and k pre post rule: spansOf_spansOfAll.induct)
  case (1 origin parent n name readings endPoint thrown calls inner)
  let ?t = "Scope name readings endPoint thrown calls inner"
  obtain k' where k: "k = Suc k'" using 1(6) by (cases k) auto
  let ?e = "Suc n + sum_list (map scopeSize inner)"
  have here: "no_parent_in (pre @ [rootSpan origin parent n ?t] @ post) n ?e"
    using 1(3,5) by (auto simp: no_parent_in_def outside_def)
  then have none: "spanChildren pre (of_nat n) = []" "spanChildren [rootSpan origin parent n ?t] (of_nat n) = []"
      "spanChildren post (of_nat n) = []"
    by (auto intro!: children_none simp: no_parent_append no_parent_in_def less_Suc_eq_le)
  have "spanChildren trace (of_nat n) = rootSpans origin (Some (of_nat n)) (Suc n) inner"
    using children_roots [of n "Suc n" inner origin] 1(4) none
    by (simp only: 1(2) spansOf.simps children_append append_assoc append_Nil append_Nil2 scopeSize.simps
        lessI add_Suc add_Suc_right)
  moreover have "map (rebuild k' trace) (rootSpans origin (Some (of_nat n)) (Suc n) inner)
      = treesOf origin (Some (of_nat n)) (Suc n) inner"
    using 1(2,4,6) k here
    by (intro "1.IH" [of pre "[rootSpan origin parent n ?t] @ post"] outside_id)
      (auto elim: no_parent_mono)
  ultimately show ?case by (simp add: k)
next
  case (3 origin parent n t ts)
  have e: "n + scopeSize t + sum_list (map scopeSize ts) \<le> 2 ^ 64" using 3(5) by simp
  have out: "outside parent n (n + scopeSize t)"
      "outside parent (n + scopeSize t) (n + scopeSize t + sum_list (map scopeSize ts))"
    using 3(6) by (auto elim: outside_mono)
  have "no_parent_in (spansOfAll origin parent (n + scopeSize t) ts) n (n + scopeSize t)"
    using e out by (intro no_parent_spans(2)) auto
  then have 1: "rebuild k trace (rootSpan origin parent n t) = treeOf origin parent n t"
    using 3(3-7) e out
    by (intro "3.IH"(1) [of pre "spansOfAll origin parent (n + scopeSize t) ts @ post"])
      (auto simp: no_parent_append elim: no_parent_mono)
  have "no_parent_in (spansOf origin parent n t) (n + scopeSize t)
      (n + scopeSize t + sum_list (map scopeSize ts))"
    using e out by (intro no_parent_spans(1)) auto
  then have "map (rebuild k trace) (rootSpans origin parent (n + scopeSize t) ts)
      = treesOf origin parent (n + scopeSize t) ts"
    using 3(3-7) e out
    by (intro "3.IH"(2) [of "pre @ spansOf origin parent n t" post])
      (auto simp: no_parent_append elim: no_parent_mono)
  with 1 show ?case by simp
qed simp

lemma spans_length:
  "length (spansOf o0 p n t) = scopeSize t" "length (spansOfAll o0 p n ts) = sum_list (map scopeSize ts)"
  by (induction o0 p n t and o0 p n ts rule: spansOf_spansOfAll.induct) simp_all

text \<open>C23: with telemetry on, a block of the program with all its nested blocks, however they are left,
  closes every span it opens, and adds one span each to the trace; a reader that has only the flat
  trace rebuilds the nesting with \<open>children\<close>, every span in its place with its name, times,
  attributes and status.\<close>

theorem trace_rebuilds_nesting:
  assumes "tm_enabled tm" and "tm_stack tm = []" and "tm_counter tm = of_nat n" and "n + scopeSize t \<le> 2 ^ 64"
    and "tm' = runScope u t (resetTrace tm)"
  shows "tm_stack tm' = [] \<and> length (tm_trace tm') = scopeSize t
    \<and> (\<exists>origin. rebuild (scopeSize t) (tm_trace tm') (last (tm_trace tm')) = treeOf origin None n t)"
proof -
  obtain name readings endPoint thrown calls inner where t: "t = Scope name readings endPoint thrown calls inner"
    by (cases t)
  obtain o0 tm0 where start: "runScope u t (resetTrace tm) = runScope u t tm0"
    and tm0: "tm_enabled tm0" "tm_origin tm0 = Some o0" "tm_counter tm0 = of_nat n" "tm_stack tm0 = []"
      "tm_trace tm0 = []"
  proof (cases "tm_origin tm")
    case None
    then have "runScope u t (resetTrace tm) = runScope u t ((resetTrace tm)\<lparr>tm_origin := Some (fst readings)\<rparr>)"
      unfolding t using assms(1) by (intro runScope_origin) (simp_all add: resetTrace_def)
    then show ?thesis using that assms by (simp add: resetTrace_def)
  next
    case (Some o0)
    then show ?thesis using that [of "resetTrace tm" o0] assms by (simp add: resetTrace_def)
  qed
  have run: "tm' = tm0\<lparr>tm_counter := of_nat (n + scopeSize t), tm_trace := spansOf o0 None n t\<rparr>"
    using runScope_spans(1) [OF tm0(1-3), of None u t] tm0 start assms(5) by simp
  have "rebuild (scopeSize t) (spansOf o0 None n t) (rootSpan o0 None n t) = treeOf o0 None n t"
    using assms(4) by (intro rebuild_tree(1) [of _ "[]" _ _ _ _ "[]"]) (auto simp: no_parent_in_def outside_def)
  moreover have "last (spansOf o0 None n t) = rootSpan o0 None n t" by (simp add: t)
  ultimately show ?thesis by (auto simp: run tm0 spans_length)
qed

definition sample_scope :: scope where
  "sample_scope = Scope ''parsex-cli.parse'' (5, 6) 90 False [Attr ''file'' (AttrString ''a.arxml'')]
     [Scope ''parser.load'' (0, 10) 40 False [] [],
      Scope ''parser.buildModel'' (0, 50) 80 True [] [Scope ''inner'' (0, 60) 70 False [Status SpanUnset] []]]"

theorem trace_rebuilds_nesting_witness:
  "\<exists>origin. rebuild 4 (tm_trace (runScope 0 sample_scope (resetTrace (setEnabled True startTelemetry))))
      (last (tm_trace (runScope 0 sample_scope (resetTrace (setEnabled True startTelemetry)))))
    = treeOf origin None 1 sample_scope"
proof -
  have "scopeSize sample_scope = 4" by (simp add: sample_scope_def)
  then show ?thesis
    using trace_rebuilds_nesting [of "setEnabled True startTelemetry" 1 sample_scope, OF _ _ _ _ refl]
    by (simp add: setEnabled_def startTelemetry_def del: runScope.simps)
qed

end
