(* ===== verification/Cli.thy ===== *)
theory Cli
  imports McpTools SchemaCache Telemetry
begin

text \<open>
  The command line (\<open>parsex-cli/main.cpp\<close>, \<open>exit_code.hpp\<close>, \<open>color.hpp\<close>): the five commands over the
  models of the engines, the schema registry and the telemetry, the error boundary and the exit codes.
  The parser of the command line (CLI11) is a parameter: it refuses the arguments with an output and
  an exit code of its own, or yields the options and the one command to run.
\<close>

section \<open>Surroundings\<close>

record cli_options =
  jsonOutput :: bool
  noColor :: bool
  traceFlag :: bool

datatype command =
    ParseCmd string
  | ValidateCmd string bool
  | DiffCmd string string
  | WriteCmd string string bool
  | ExportCmd string string string

record cli_call =
  cc_options :: cli_options
  cc_schemaCacheDir :: string
  cc_command :: command

text \<open>
  \<open>ce_dump\<close> is \<open>dump(2)\<close> of the JSON library, which throws on text that is not UTF-8; \<open>ce_inner\<close> the
  spans the engines open below the command's own, whose instants are \<open>ce_opened\<close> and \<open>ce_closed\<close>;
  \<open>ce_write\<close> the outcome of the system calls of an export to a file.
\<close>

record cli_env =
  ce_cli11 :: "string list \<Rightarrow> (sent list \<times> int) + cli_call"
  ce_lib :: tool_lib
  ce_dump :: "json \<Rightarrow> string + string"
  ce_cacheVariable :: "string option"
  ce_write :: io_call
  ce_opened :: "int \<times> int"
  ce_closed :: int
  ce_inner :: "scope list"

text \<open>
  The state of the process and what it can reach: the ARXML files, the other files, where the cache
  is, whether that was settled, the telemetry. The schema registry is the library's (\<open>tl_registry\<close>; a run
  makes one call), with the cache where the command line wants it.
\<close>

record cli_world =
  cw_files :: tree_files
  cw_disk :: disk
  cw_cache :: cache_env
  cw_applied :: bool
  cw_telemetry :: telemetry

definition cliRegistry :: "cli_env \<Rightarrow> cli_world \<Rightarrow> schema_lib registry_env" where
  "cliRegistry e w = (tl_registry (ce_lib e) 0)\<lparr>re_cache := cw_cache w\<rparr>"

section \<open>Exit codes\<close>

datatype exit_code = ExitOk | Usage | DataErr | IoErr | Software

fun exitNumber :: "exit_code \<Rightarrow> int" where
  "exitNumber ExitOk = 0"
| "exitNumber Usage = 64"
| "exitNumber DataErr = 65"
| "exitNumber IoErr = 74"
| "exitNumber Software = 70"

text \<open>What can reach the boundary, by the type of the exception.\<close>

datatype cli_exn =
    CliParseError string
  | ParserExn parse_exn
  | SchemaExn schema_error
  | WriteExn write_exn
  | IosFailure string
  | SystemError string
  | JsonError string

fun cliWhat :: "cli_exn \<Rightarrow> string" where
  "cliWhat (CliParseError m) = m"
| "cliWhat (ParserExn x) = exn_message x"
| "cliWhat (SchemaExn err) = schemaErrorMessage err"
| "cliWhat (WriteExn x) = writeWhat x"
| "cliWhat (IosFailure m) = m"
| "cliWhat (SystemError m) = m"
| "cliWhat (JsonError m) = m"

definition messageHeuristic :: "string \<Rightarrow> exit_code" where
  "messageHeuristic msg =
    (if find_sub ''failed to write'' msg \<noteq> None \<or> find_sub ''failed to move'' msg \<noteq> None then IoErr else Software)"

fun classify :: "cli_exn \<Rightarrow> exit_code" where
  "classify (CliParseError m) = Usage"
| "classify (ParserExn (LoadFailure (ParseError reason path detail))) = (if reason = Io then IoErr else DataErr)"
| "classify (SchemaExn err) = (if se_reason err = SchemaFileMissing then IoErr else DataErr)"
| "classify (ParserExn (UnsupportedReleaseError f)) = DataErr"
| "classify (ParserExn (DanglingFileReferenceError names dirs ctx)) = DataErr"
| "classify (WriteExn (WriteError problems)) = DataErr"
| "classify (ParserExn (FilesystemError m)) = IoErr"
| "classify (IosFailure m) = IoErr"
| "classify x = messageHeuristic (cliWhat x)"

section \<open>Colour\<close>

definition colorEnabled :: "bool \<Rightarrow> bool \<Rightarrow> bool \<Rightarrow> bool" where
  "colorEnabled noColorFlag isTty hasNoColorEnv =
    (if noColorFlag then False else if hasNoColorEnv then False else if \<not> isTty then False else True)"

section \<open>Where the schema cache is\<close>

definition cacheFlag :: string where
  "cacheFlag = ''--schema-cache-dir''"

text \<open>The directory and the name of its source; \<open>args\<close> are the arguments after the program's name.\<close>

definition resolveSchemaCacheDir :: "string option \<Rightarrow> string list \<Rightarrow> string \<Rightarrow> string \<times> string" where
  "resolveSchemaCacheDir variable args boundValue =
    (if list_ex (\<lambda>arg. arg = cacheFlag \<or> starts_with arg (cacheFlag @ ''='')) args
     then (boundValue, ''flag'')
     else case variable of
       Some (c # cs) \<Rightarrow> (c # cs, ''env'')
     | _ \<Rightarrow> if boundValue \<noteq> [] then (boundValue, ''config'') else ([], ''default''))"

definition applySchemaCacheDir :: "cli_env \<Rightarrow> string list \<Rightarrow> string \<Rightarrow> cli_world \<Rightarrow> sent list \<times> cli_world" where
  "applySchemaCacheDir e args boundValue w =
    (if cw_applied w then ([], w)
     else let w1 = w\<lparr>cw_applied := True\<rparr>;
              (effective, source) = resolveSchemaCacheDir (ce_cacheVariable e) args boundValue
          in if effective \<noteq> []
             then ([Stderr (''[debug] schema-cache-dir='' @ effective @ '' ('' @ source @ '')'' @ newline)],
                   w1\<lparr>cw_cache := setCacheDirectoryOverride (path_of effective) (cw_cache w1)\<rparr>)
             else ([Stderr (''[debug] schema-cache-dir='' @ path_string (getCacheDirectory (cw_cache w1))
                      @ '' ('' @ source @ '')'' @ newline)], w1))"

section \<open>Rendering\<close>

definition formatHumanParse :: "parsed_file \<Rightarrow> string" where
  "formatHumanParse parsed =
    ''Parsed '' @ path_string (sourcePath parsed) @ newline
    @ ''  release: '' @ (if autosarRelease parsed = [] then ''(unknown)'' else autosarRelease parsed) @ newline
    @ ''  clusters: '' @ nat_to_string (length (clusters parsed)) @ newline
    @ ''  ecuInstances: '' @ nat_to_string (length (ecuInstances parsed)) @ newline
    @ ''  frames: '' @ nat_to_string (length (frames parsed)) @ newline
    @ ''  pdus: '' @ nat_to_string (length (pdus parsed)) @ newline
    @ ''  signals: '' @ nat_to_string (length (signals parsed)) @ newline
    @ ''  signalGroups: '' @ nat_to_string (length (signalGroups parsed)) @ newline
    @ (if file_warnings parsed = [] then []
       else ''  warnings: '' @ nat_to_string (length (file_warnings parsed)) @ newline
         @ concat (map (\<lambda>w. ''    - '' @ warning_message w @ newline) (file_warnings parsed)))"

definition formatHumanValidate :: "validation_result \<Rightarrow> bool \<Rightarrow> string" where
  "formatHumanValidate result strict =
    (if overallPassed result (if strict then Strict else Lenient)
     then ''Validation passed'' else ''Validation failed'')
    @ '' ('' @ nat_to_string (length result) @ '' issues)'' @ newline
    @ concat (map (\<lambda>err. ''  ['' @ (if ve_severity err = Warning then ''warning'' else ''error'') @ ''] ''
         @ ve_code err @ '': '' @ ve_message err @ newline
         @ (case ve_path err of None \<Rightarrow> [] | Some p \<Rightarrow> ''    path: '' @ p @ newline)) result)"

definition formatHumanDiff :: "diff_report \<Rightarrow> string" where
  "formatHumanDiff report =
    (if entries report = [] \<and> diagnostics report = [] then ''No differences'' @ newline else toText report)"

definition formatHumanWrite :: "string \<Rightarrow> string \<Rightarrow> bool \<Rightarrow> string" where
  "formatHumanWrite input outFile applied =
    (if applied then ''Wrote '' @ outFile @ '' from '' @ input @ newline
     else ''Dry-run: would write '' @ outFile @ '' from '' @ input @ '' (use --apply to apply)'' @ newline)"

definition buildJsonParse :: "string \<Rightarrow> parsed_file \<Rightarrow> json" where
  "buildJsonParse version parsed = wrapEnvelope version ''parseReport'' (jassign
    [(''sourcePath'', JString (path_string (sourcePath parsed))),
     (''autosarRelease'', JString (autosarRelease parsed)),
     (''counts'', jobj
       [(''clusters'', jnat (length (clusters parsed))),
        (''ecuInstances'', jnat (length (ecuInstances parsed))),
        (''frames'', jnat (length (frames parsed))),
        (''pdus'', jnat (length (pdus parsed))),
        (''signals'', jnat (length (signals parsed))),
        (''signalGroups'', jnat (length (signalGroups parsed)))]),
     (''warnings'', JArray (map (\<lambda>w. jobj [(''message'', JString (warning_message w))]) (file_warnings parsed)))])"

definition buildJsonValidate :: "string \<Rightarrow> validation_result \<Rightarrow> bool \<Rightarrow> json" where
  "buildJsonValidate version result strict =
    (let envelope = resultToJson version result;
         passed = overallPassed result (if strict then Strict else Lenient)
     in jset ''payload''
          (jset ''passed'' (JBool passed) (case jfind ''payload'' envelope of Some p \<Rightarrow> p | None \<Rightarrow> JNull))
          envelope)"

definition buildJsonDiff :: "string \<Rightarrow> diff_report \<Rightarrow> json" where
  "buildJsonDiff version report = reportToJson version report"

definition buildJsonWrite :: "string \<Rightarrow> string \<Rightarrow> string \<Rightarrow> bool \<Rightarrow> bool \<Rightarrow> json" where
  "buildJsonWrite version input outFile applied success = wrapEnvelope version ''writeResult'' (jassign
    [(''input'', JString input), (''output'', JString outFile), (''applied'', JBool applied),
     (''success'', JBool success)])"

text \<open>Without an output path the text itself is part of the report.\<close>

definition buildJsonExport :: "string \<Rightarrow> string \<Rightarrow> string \<Rightarrow> string \<Rightarrow> export_database \<Rightarrow> string \<Rightarrow> json" where
  "buildJsonExport version input format outputPath database text = wrapEnvelope version ''exportResult'' (jassign
    ([(''sourcePath'', JString input), (''format'', JString format),
      (''output'', if outputPath = [] then JNull else JString outputPath),
      (''counts'', jobj [(''frames'', jnat (length (ed_frames database))),
                         (''signals'', jnat (exportSignalCount database))]),
      (''warnings'', JArray (map (\<lambda>w. jobj [(''message'', JString (warning_message w))]) (ed_warnings database)))]
     @ (if outputPath = [] then [(''content'', JString text)] else [])))"

section \<open>The commands\<close>

definition cliVersion :: "cli_env \<Rightarrow> string" where
  "cliVersion e = tl_version (ce_lib e)"

text \<open>What a block of a command does to the telemetry: the span closes after every exception was caught.\<close>

definition commandSpan :: "cli_env \<Rightarrow> cli_options \<Rightarrow> string \<Rightarrow> telemetry \<Rightarrow> telemetry" where
  "commandSpan e opts name tm =
    (let tm1 = setEnabled (traceFlag opts) tm;
         tm2 = (if traceFlag opts then resetTrace tm1 else tm1)
     in runScope 0 (Scope name (ce_opened e) (ce_closed e) False [] (ce_inner e)) tm2)"

definition dumpTo :: "(string \<Rightarrow> sent) \<Rightarrow> cli_env \<Rightarrow> json \<Rightarrow> cli_exn + sent list" where
  "dumpTo stream e j = (case ce_dump e j of Inl what \<Rightarrow> Inl (JsonError what) | Inr s \<Rightarrow> Inr [stream (s @ newline)])"

definition emitTraceIfEnabled :: "cli_env \<Rightarrow> cli_options \<Rightarrow> telemetry \<Rightarrow> cli_exn + sent list" where
  "emitTraceIfEnabled e opts tm =
    (if traceFlag opts then dumpTo Stderr e (currentTraceAsJson (cliVersion e) tm) else Inr [])"

text \<open>
  The end every command has: the trace and the pending exception, or the report and the trace. The
  result is what was printed and the exception that leaves the command.
\<close>

definition finishCommand ::
  "cli_env \<Rightarrow> cli_options \<Rightarrow> telemetry \<Rightarrow> cli_exn + 'a \<Rightarrow> ('a \<Rightarrow> cli_exn + sent list) \<Rightarrow> sent list \<times> cli_exn option"
  where
  "finishCommand e opts tm result render =
    (case result of
       Inl pending \<Rightarrow>
        (case emitTraceIfEnabled e opts tm of Inl x \<Rightarrow> ([], Some x) | Inr trace \<Rightarrow> (trace, Some pending))
     | Inr r \<Rightarrow>
        (case render r of
           Inl x \<Rightarrow> ([], Some x)
         | Inr out \<Rightarrow>
            (case emitTraceIfEnabled e opts tm of Inl x \<Rightarrow> (out, Some x) | Inr trace \<Rightarrow> (out @ trace, None))))"

text \<open>The frame of a command around its engines.\<close>

definition runFrame ::
  "cli_env \<Rightarrow> cli_options \<Rightarrow> string list \<Rightarrow> string \<Rightarrow> string \<Rightarrow> (cli_world \<Rightarrow> (cli_exn + 'a) \<times> cli_world)
    \<Rightarrow> ('a \<Rightarrow> cli_exn + sent list) \<Rightarrow> cli_world \<Rightarrow> sent list \<times> cli_exn option \<times> cli_world" where
  "runFrame e opts args dirArg name engines render w =
    (let (debug, w1) = applySchemaCacheDir e args dirArg w;
         (result, w2) = engines w1;
         w3 = w2\<lparr>cw_telemetry := commandSpan e opts name (cw_telemetry w2)\<rparr>;
         (out, x) = finishCommand e opts (cw_telemetry w3) result render
     in (debug @ out, x, w3))"

definition parseInput :: "cli_env \<Rightarrow> cli_world \<Rightarrow> string \<Rightarrow> cli_exn + parsed_file" where
  "parseInput e w input =
    (case parseFile (tl_env (ce_lib e) (cw_files w)) (path_of input) of
       Inl x \<Rightarrow> Inl (ParserExn x) | Inr parsed \<Rightarrow> Inr parsed)"

definition runParseCommand ::
  "cli_env \<Rightarrow> cli_options \<Rightarrow> string list \<Rightarrow> string \<Rightarrow> string \<Rightarrow> cli_world \<Rightarrow> sent list \<times> cli_exn option \<times> cli_world" where
  "runParseCommand e opts args dirArg input =
    runFrame e opts args dirArg ''parsex-cli.parse''
      (\<lambda>w. (parseInput e w input, w))
      (\<lambda>parsed. if jsonOutput opts then dumpTo Stdout e (buildJsonParse (cliVersion e) parsed)
         else Inr [Stdout (formatHumanParse parsed)])"

text \<open>The findings, all exceptions caught; the schema registry may write its cache.\<close>

definition cliFindings :: "cli_env \<Rightarrow> string \<Rightarrow> cli_world \<Rightarrow> validation_result \<times> cli_world" where
  "cliFindings e input w =
    (case parseInput e w input of
       Inl x \<Rightarrow> ([new_error Error ''parse.failed'' (cliWhat x)], w)
     | Inr parsed \<Rightarrow>
        (let release = autosarRelease parsed in
         if release \<noteq> []
         then (case resolveSchema (cliRegistry e w) release (cw_disk w) of
                 (Inl err, d) \<Rightarrow>
                   ([new_error Error ''validator.error'' (schemaErrorMessage err)], w\<lparr>cw_disk := d\<rparr>)
               | (Inr resolved, d) \<Rightarrow>
                   (merge [] (validateAll (Some (rs_schema resolved)) (project_of [parsed])), w\<lparr>cw_disk := d\<rparr>))
         else ([new_error Error ''schema.no_release'' ''cannot determine AUTOSAR release for validation''], w)))"

definition runValidateCommand ::
  "cli_env \<Rightarrow> cli_options \<Rightarrow> string list \<Rightarrow> string \<Rightarrow> string \<Rightarrow> bool \<Rightarrow> cli_world
    \<Rightarrow> sent list \<times> cli_exn option \<times> cli_world" where
  "runValidateCommand e opts args dirArg input strict =
    runFrame e opts args dirArg ''parsex-cli.validate''
      (\<lambda>w. case cliFindings e input w of (result, w') \<Rightarrow> (Inr result, w'))
      (\<lambda>result. if jsonOutput opts then dumpTo Stdout e (buildJsonValidate (cliVersion e) result strict)
         else Inr [Stdout (formatHumanValidate result strict)])"

definition runDiffCommand ::
  "cli_env \<Rightarrow> cli_options \<Rightarrow> string list \<Rightarrow> string \<Rightarrow> string \<Rightarrow> string \<Rightarrow> cli_world
    \<Rightarrow> sent list \<times> cli_exn option \<times> cli_world" where
  "runDiffCommand e opts args dirArg base target =
    runFrame e opts args dirArg ''parsex-cli.diff''
      (\<lambda>w. ((case parseInput e w base of
               Inl x \<Rightarrow> Inl x
             | Inr old \<Rightarrow> (case parseInput e w target of
                 Inl x \<Rightarrow> Inl x
               | Inr new \<Rightarrow> Inr (diff (project_of [old]) (project_of [new])))), w))
      (\<lambda>report. if jsonOutput opts then dumpTo Stdout e (buildJsonDiff (cliVersion e) report)
         else Inr [Stdout (formatHumanDiff report)])"

text \<open>The result of a write: whether it was applied, and whether the project passed the check.\<close>

definition runWriteCommand ::
  "cli_env \<Rightarrow> cli_options \<Rightarrow> string list \<Rightarrow> string \<Rightarrow> string \<Rightarrow> string \<Rightarrow> bool \<Rightarrow> cli_world
    \<Rightarrow> sent list \<times> cli_exn option \<times> cli_world" where
  "runWriteCommand e opts args dirArg input outFile applied =
    runFrame e opts args dirArg ''parsex-cli.write''
      (\<lambda>w. case parseInput e w input of
             Inl x \<Rightarrow> (Inl x, w)
           | Inr parsed \<Rightarrow>
              (if applied
               then (case writeProject (tl_write (ce_lib e) 0) (tl_content (ce_lib e)) (project_of [parsed]) outFile
                        (cw_files w) of
                       (Some x, fs) \<Rightarrow> (Inl (WriteExn x), w\<lparr>cw_files := fs\<rparr>)
                     | (None, fs) \<Rightarrow> (Inr True, w\<lparr>cw_files := fs\<rparr>))
               else (Inr (\<not> hasErrors (validate (project_of [parsed]))), w)))
      (\<lambda>success. if jsonOutput opts
         then dumpTo Stdout e (buildJsonWrite (cliVersion e) input outFile applied success)
         else Inr ([Stdout (formatHumanWrite input outFile applied)]
           @ (if \<not> applied \<and> \<not> success
              then [Stdout (''  (would fail: project has write validation errors)'' @ newline)] else [])))"

definition exportEngines ::
  "cli_env \<Rightarrow> string \<Rightarrow> string \<Rightarrow> string \<Rightarrow> cli_world \<Rightarrow> (cli_exn + export_database \<times> string) \<times> cli_world" where
  "exportEngines e input format outFile w =
    (case parseInput e w input of
       Inl x \<Rightarrow> (Inl x, w)
     | Inr parsed \<Rightarrow>
        (let database = buildExportDatabase parsed;
             text = (if format = ''dbc'' then toDbc database else toCsv database)
         in if outFile = [] then (Inr (database, text), w)
            else case writeCacheAtomically (ce_write e) (path_of outFile) text (cw_disk w) of
                   (Some what, d) \<Rightarrow> (Inl (SystemError what), w\<lparr>cw_disk := d\<rparr>)
                 | (None, d) \<Rightarrow> (Inr (database, text), w\<lparr>cw_disk := d\<rparr>)))"

definition runExportCommand ::
  "cli_env \<Rightarrow> cli_options \<Rightarrow> string list \<Rightarrow> string \<Rightarrow> string \<Rightarrow> string \<Rightarrow> string \<Rightarrow> cli_world
    \<Rightarrow> sent list \<times> cli_exn option \<times> cli_world" where
  "runExportCommand e opts args dirArg input format outFile =
    runFrame e opts args dirArg ''parsex-cli.export''
      (exportEngines e input format outFile)
      (\<lambda>(database, text). if jsonOutput opts
         then dumpTo Stdout e (buildJsonExport (cliVersion e) input format outFile database text)
         else Inr (map (\<lambda>w. Stderr (''parsex: warning: '' @ warning_message w @ newline)) (ed_warnings database)
           @ (if outFile = [] then [Stdout text]
              else [Stdout (''Exported '' @ nat_to_string (length (ed_frames database)) @ '' frames, ''
                @ nat_to_string (exportSignalCount database) @ '' signals to '' @ outFile @ '' (''
                @ format @ '')'' @ newline)])))"

section \<open>The error boundary\<close>

definition runCommand :: "cli_env \<Rightarrow> string list \<Rightarrow> cli_call \<Rightarrow> cli_world \<Rightarrow> sent list \<times> cli_exn option \<times> cli_world" where
  "runCommand e args call =
    (let opts = cc_options call; dirArg = cc_schemaCacheDir call in
     case cc_command call of
       ParseCmd input \<Rightarrow> runParseCommand e opts args dirArg input
     | ValidateCmd input strict \<Rightarrow> runValidateCommand e opts args dirArg input strict
     | DiffCmd base target \<Rightarrow> runDiffCommand e opts args dirArg base target
     | WriteCmd input outFile applied \<Rightarrow> runWriteCommand e opts args dirArg input outFile applied
     | ExportCmd input format outFile \<Rightarrow> runExportCommand e opts args dirArg input format outFile)"

definition oneLine :: "string \<Rightarrow> string" where
  "oneLine msg = map (\<lambda>c. if c = CHR 0x0A \<or> c = CHR 0x0D then CHR '' '' else c) msg"

definition cliMain :: "cli_env \<Rightarrow> string list \<Rightarrow> cli_world \<Rightarrow> sent list \<times> int \<times> cli_world" where
  "cliMain e args w =
    (case ce_cli11 e args of
       Inl (out, code) \<Rightarrow> (out, code, w)
     | Inr call \<Rightarrow>
        (case runCommand e args call w of
           (out, None, w') \<Rightarrow> (out, 0, w')
         | (out, Some x, w') \<Rightarrow>
            (out @ [Stderr (''parsex: '' @ oneLine (cliWhat x) @ newline)], exitNumber (classify x), w')))"

end
