(* ===== verification/CliTheorems.thy ===== *)
theory CliTheorems
  imports Cli
begin

text \<open>
  What the command line promises: clean failures, which files a command may change, the exit codes,
  and that it says the same as the server.
\<close>

section \<open>The frame\<close>

definition on_stdout :: "sent list \<Rightarrow> string list" where
  "on_stdout out = concat (map (\<lambda>s. case s of Stdout t \<Rightarrow> [t] | Stderr _ \<Rightarrow> []) out)"

lemma on_stdout_simps [simp]:
  "on_stdout [] = []" "on_stdout (Stdout t # out) = t # on_stdout out" "on_stdout (Stderr t # out) = on_stdout out"
  "on_stdout (xs @ ys) = on_stdout xs @ on_stdout ys"
  by (simp_all add: on_stdout_def)

lemma on_stdout_warnings [simp]: "on_stdout (map (\<lambda>w. Stderr (f w)) ws) = []"
  by (induction ws) simp_all

lemma apply_silent: "applySchemaCacheDir e args dir w = (out, w') \<Longrightarrow>
    on_stdout out = [] \<and> cw_files w' = cw_files w \<and> cw_disk w' = cw_disk w"
  by (auto simp: applySchemaCacheDir_def Let_def split: if_splits prod.splits)

lemma trace_silent: "emitTraceIfEnabled e opts tm = Inr out \<Longrightarrow> on_stdout out = []"
  by (auto simp: emitTraceIfEnabled_def dumpTo_def split: if_splits sum.splits)

text \<open>The exception a command ends with when its trace is to be printed: that of the print, or the pending one.\<close>

definition traced :: "cli_env \<Rightarrow> cli_options \<Rightarrow> telemetry \<Rightarrow> cli_exn option \<Rightarrow> cli_exn option" where
  "traced e opts tm pending = (case emitTraceIfEnabled e opts tm of Inl x \<Rightarrow> Some x | Inr _ \<Rightarrow> pending)"

lemma trace_off [simp]: "\<not> traceFlag opts \<Longrightarrow> traced e opts tm pending = pending"
  by (simp add: traced_def emitTraceIfEnabled_def)

text \<open>The trace cannot be printed: with \<open>--trace\<close>, the JSON library refuses its text.\<close>

definition trace_lost :: "cli_env \<Rightarrow> cli_options \<Rightarrow> telemetry \<Rightarrow> cli_exn option \<Rightarrow> bool" where
  "trace_lost e opts tm x \<longleftrightarrow> traceFlag opts
     \<and> (\<exists>what. ce_dump e (currentTraceAsJson (cliVersion e) tm) = Inl what \<and> x = Some (JsonError what))"

lemma traced_cases: "traced e opts tm pending = pending \<or> trace_lost e opts tm (traced e opts tm pending)"
  by (auto simp: traced_def trace_lost_def emitTraceIfEnabled_def dumpTo_def split: sum.splits if_splits)

lemma traced_Some: "traced e opts tm (Some p) = Some y \<Longrightarrow> y = p \<or> trace_lost e opts tm (Some y)"
  using traced_cases [of e opts tm "Some p"] by auto

lemma traced_None: "traced e opts tm None = Some y \<Longrightarrow> trace_lost e opts tm (Some y)"
  using traced_cases [of e opts tm None] by auto

text \<open>
  A run of the frame: the engines ran once, between the choice of the cache and the telemetry, and what
  was printed to the standard output is the report or nothing.
\<close>

lemma runFrame_result:
  assumes "runFrame e opts args dir name engines render w = (out, x, w')"
  obtains debug w1 result w2 where
    "applySchemaCacheDir e args dir w = (debug, w1)" "engines w1 = (result, w2)"
    "cw_files w1 = cw_files w" "cw_disk w1 = cw_disk w"
    "cw_files w' = cw_files w2" "cw_disk w' = cw_disk w2" "cw_cache w' = cw_cache w2"
    "case result of
       Inl p \<Rightarrow> x = traced e opts (cw_telemetry w') (Some p) \<and> on_stdout out = []
     | Inr r \<Rightarrow> (case render r of
         Inl y \<Rightarrow> x = Some y \<and> on_stdout out = []
       | Inr report \<Rightarrow> x = traced e opts (cw_telemetry w') None \<and> on_stdout out = on_stdout report)"
proof -
  obtain debug w1 where a: "applySchemaCacheDir e args dir w = (debug, w1)" by fastforce
  obtain result w2 where b: "engines w1 = (result, w2)" by fastforce
  define w3 where "w3 = w2\<lparr>cw_telemetry := commandSpan e opts name (cw_telemetry w2)\<rparr>"
  obtain out1 y where f: "finishCommand e opts (cw_telemetry w3) result render = (out1, y)" by fastforce
  have eq: "out = debug @ out1" "x = y" "w' = w3"
    using assms(1) a b f by (simp_all add: runFrame_def w3_def)
  have "case result of
       Inl p \<Rightarrow> y = traced e opts (cw_telemetry w3) (Some p) \<and> on_stdout out1 = []
     | Inr r \<Rightarrow> (case render r of
         Inl z \<Rightarrow> y = Some z \<and> on_stdout out1 = []
       | Inr report \<Rightarrow> y = traced e opts (cw_telemetry w3) None \<and> on_stdout out1 = on_stdout report)"
    using f by (auto simp: finishCommand_def traced_def dest: trace_silent split: sum.splits)
  then show ?thesis
    using that [OF a b] apply_silent [OF a] eq by (auto simp: w3_def split: sum.splits)
qed

text \<open>
  The same command without \<open>--trace\<close>: it says the same on the standard output, and nothing there when it fails;
  with the flag the outcome differs only when the trace cannot be printed.
\<close>

definition untraced :: "cli_options \<Rightarrow> cli_options" where
  "untraced opts = opts\<lparr>traceFlag := False\<rparr>"

lemma untraced_simps [simp]: "\<not> traceFlag (untraced opts)" "jsonOutput (untraced opts) = jsonOutput opts"
  by (simp_all add: untraced_def)

definition same_untraced ::
  "cli_env \<Rightarrow> cli_options \<Rightarrow> (sent list \<times> cli_exn option \<times> cli_world) \<Rightarrow> (sent list \<times> cli_exn option \<times> cli_world) \<Rightarrow> bool"
  where
  "same_untraced e opts run run0 \<longleftrightarrow>
    (case (run, run0) of ((out, x, w'), (out0, x0, w0)) \<Rightarrow>
      on_stdout out = on_stdout out0 \<and> (x0 = None \<or> on_stdout out0 = [])
      \<and> (x = x0 \<or> trace_lost e opts (cw_telemetry w') x))"

lemma frame_untraced:
  "same_untraced e opts (runFrame e opts args dir name engines render w)
    (runFrame e (untraced opts) args dir name engines render w)"
proof -
  obtain out x w' where r: "runFrame e opts args dir name engines render w = (out, x, w')" by (metis prod_cases3)
  obtain out0 x0 w0 where r0: "runFrame e (untraced opts) args dir name engines render w = (out0, x0, w0)"
    by (metis prod_cases3)
  from r show ?thesis
  proof (rule runFrame_result)
    fix debug w1 result w2
    assume a: "applySchemaCacheDir e args dir w = (debug, w1)" "engines w1 = (result, w2)"
      and res: "case result of
       Inl p \<Rightarrow> x = traced e opts (cw_telemetry w') (Some p) \<and> on_stdout out = []
     | Inr r \<Rightarrow> (case render r of
         Inl y \<Rightarrow> x = Some y \<and> on_stdout out = []
       | Inr report \<Rightarrow> x = traced e opts (cw_telemetry w') None \<and> on_stdout out = on_stdout report)"
    from r0 show ?thesis
    proof (rule runFrame_result)
      fix debug0 v1 result0 v2
      assume b: "applySchemaCacheDir e args dir w = (debug0, v1)" "engines v1 = (result0, v2)"
        and res0: "case result0 of
           Inl p \<Rightarrow> x0 = traced e (untraced opts) (cw_telemetry w0) (Some p) \<and> on_stdout out0 = []
         | Inr r \<Rightarrow> (case render r of
             Inl y \<Rightarrow> x0 = Some y \<and> on_stdout out0 = []
           | Inr report \<Rightarrow> x0 = traced e (untraced opts) (cw_telemetry w0) None \<and> on_stdout out0 = on_stdout report)"
      have "result0 = result" using a b by simp
      with res res0 show ?thesis
        using traced_cases [of e opts "cw_telemetry w'"]
        by (auto simp: same_untraced_def r r0 split: sum.splits)
    qed
  qed
qed

lemma command_untraced:
  "same_untraced e (cc_options call) (runCommand e args call w)
    (runCommand e args (call\<lparr>cc_options := untraced (cc_options call)\<rparr>) w)"
proof -
  have "same_untraced e opts (runParseCommand e opts args dir input w) (runParseCommand e (untraced opts) args dir input w)"
    "same_untraced e opts (runValidateCommand e opts args dir input b w)
      (runValidateCommand e (untraced opts) args dir input b w)"
    "same_untraced e opts (runDiffCommand e opts args dir input out w) (runDiffCommand e (untraced opts) args dir input out w)"
    "same_untraced e opts (runWriteCommand e opts args dir input out b w)
      (runWriteCommand e (untraced opts) args dir input out b w)"
    "same_untraced e opts (runExportCommand e opts args dir input form out w)
      (runExportCommand e (untraced opts) args dir input form out w)" for opts dir input out b form
    unfolding runParseCommand_def runValidateCommand_def runDiffCommand_def runWriteCommand_def runExportCommand_def
      untraced_simps by (rule frame_untraced)+
  then show ?thesis by (cases "cc_command call") (simp_all add: runCommand_def)
qed

section \<open>Exceptions of the commands\<close>

lemma parseInput_exn: "parseInput e w input = Inl x \<Longrightarrow> \<exists>y. x = ParserExn y"
  by (auto simp: parseInput_def split: sum.splits)

lemma dumpTo_exn: "dumpTo s e j = Inl x \<Longrightarrow> \<exists>m. x = JsonError m"
  by (auto simp: dumpTo_def split: sum.splits)

text \<open>The command line's own errors never reach the boundary: CLI11 keeps them.\<close>

lemma frame_exn:
  assumes "runFrame e opts args dir name engines render w = (out, Some y, w')"
    and "\<And>w1 p w2. engines w1 = (Inl p, w2) \<Longrightarrow> \<forall>m. p \<noteq> CliParseError m"
    and "\<And>r p. render r = Inl p \<Longrightarrow> \<forall>m. p \<noteq> CliParseError m"
  shows "\<forall>m. y \<noteq> CliParseError m"
proof -
  have lost: "\<forall>m. y \<noteq> CliParseError m" if "trace_lost e opts tm (Some y)" for tm
    using that by (auto simp: trace_lost_def)
  from assms(1) show ?thesis
  proof (rule runFrame_result)
    fix debug w1 result w2
    assume "engines w1 = (result, w2)" and "case result of
       Inl p \<Rightarrow> Some y = traced e opts (cw_telemetry w') (Some p) \<and> on_stdout out = []
     | Inr r \<Rightarrow> (case render r of
         Inl z \<Rightarrow> Some y = Some z \<and> on_stdout out = []
       | Inr report \<Rightarrow> Some y = traced e opts (cw_telemetry w') None \<and> on_stdout out = on_stdout report)"
    then show ?thesis
      using assms(2,3) lost traced_Some [OF sym] traced_None [OF sym] by (auto split: sum.splits) metis+
  qed
qed

lemma runCommand_exn:
  assumes "runCommand e args call w = (out, Some y, w')"
  shows "\<forall>m. y \<noteq> CliParseError m"
proof (cases "cc_command call")
  case (ParseCmd input)
  with assms have "runParseCommand e (cc_options call) args (cc_schemaCacheDir call) input w = (out, Some y, w')"
    by (simp add: runCommand_def)
  then show ?thesis unfolding runParseCommand_def
    by (rule frame_exn) (auto dest!: parseInput_exn dumpTo_exn split: if_splits)
next
  case (ValidateCmd input strict)
  with assms have "runValidateCommand e (cc_options call) args (cc_schemaCacheDir call) input strict w = (out, Some y, w')"
    by (simp add: runCommand_def)
  then show ?thesis unfolding runValidateCommand_def
    by (rule frame_exn) (auto dest!: dumpTo_exn split: if_splits prod.splits)
next
  case (DiffCmd base target)
  with assms have "runDiffCommand e (cc_options call) args (cc_schemaCacheDir call) base target w = (out, Some y, w')"
    by (simp add: runCommand_def)
  then show ?thesis unfolding runDiffCommand_def
    by (rule frame_exn) (auto dest!: parseInput_exn dumpTo_exn split: if_splits sum.splits)
next
  case (WriteCmd input outFile applied)
  with assms have "runWriteCommand e (cc_options call) args (cc_schemaCacheDir call) input outFile applied w = (out, Some y, w')"
    by (simp add: runCommand_def)
  then show ?thesis unfolding runWriteCommand_def
    by (rule frame_exn) (auto dest!: parseInput_exn dumpTo_exn split: if_splits sum.splits prod.splits option.splits)
next
  case (ExportCmd input format outFile)
  with assms have "runExportCommand e (cc_options call) args (cc_schemaCacheDir call) input format outFile w = (out, Some y, w')"
    by (simp add: runCommand_def)
  then show ?thesis unfolding runExportCommand_def
    by (rule frame_exn) (auto simp: exportEngines_def Let_def dest!: parseInput_exn dumpTo_exn
        split: if_splits sum.splits prod.splits option.splits)
qed

section \<open>A command line to try things on\<close>

definition sample_schemas :: "schema_lib registry_env" where
  "sample_schemas =
    \<lparr>re_cache = \<lparr>overridePath = None, xdgCacheHome = None, homeDir = None, tempDirectory = [''/'']\<rparr>,
     re_schemaDir = None, re_defaultDir = [''/'', ''d''], re_sourceDir = [''/'', ''s''],
     re_unreadable = (\<lambda>_. False), re_entry = quiet_call, re_sibling = quiet_call, re_drops = True,
     re_parse = (\<lambda>_ _. NoContext)\<rparr>"

definition sample_tools :: tool_lib where
  "sample_tools = \<lparr>tl_env = (\<lambda>_. sample_env), tl_registry = (\<lambda>_. sample_schemas),
     tl_write = (\<lambda>_. \<lparr>save_fails = False, partial_save = None, rename_error = None, remove_fails = False\<rparr>),
     tl_content = (\<lambda>t. [Text t]), tl_error = (\<lambda>_ _. ''type error''), tl_version = ''1.0''\<rparr>"

definition sample_cli :: "command \<Rightarrow> cli_env" where
  "sample_cli c =
    \<lparr>ce_cli11 = (\<lambda>_. Inr \<lparr>cc_options = \<lparr>jsonOutput = False, noColor = False, traceFlag = False\<rparr>,
        cc_schemaCacheDir = [], cc_command = c\<rparr>),
     ce_lib = sample_tools, ce_dump = (\<lambda>_. Inr ''{}''),
     ce_cacheVariable = None, ce_write = quiet_call, ce_opened = (0, 1), ce_closed = 2, ce_inner = []\<rparr>"

definition sample_world :: cli_world where
  "sample_world = \<lparr>cw_files = (\<lambda>_. None), cw_disk = (\<lambda>_. None),
     cw_cache = \<lparr>overridePath = None, xdgCacheHome = None, homeDir = None, tempDirectory = [''/'']\<rparr>,
     cw_applied = True, cw_telemetry = startTelemetry\<rparr>"

lemma sample_parse:
  "parseInput (sample_cli c) w ''/b.arxml'' = Inl (ParserExn (LoadFailure (RuntimeError ''broken'')))"
  by (simp add: parseInput_def sample_cli_def sample_tools_def parseFile_def sample_env_def path_of_def)

lemma sample_failure:
  "fst (cliMain (sample_cli (ParseCmd ''/b.arxml'')) [] sample_world) = [Stderr (''parsex: '' @ ''broken'' @ newline)]"
  "fst (snd (cliMain (sample_cli (ParseCmd ''/b.arxml'')) [] sample_world)) = 70"
proof -
  let ?e = "sample_cli (ParseCmd ''/b.arxml'')"
  obtain call where call: "ce_cli11 ?e [] = Inr call" "\<not> traceFlag (cc_options call)"
      "cc_command call = ParseCmd ''/b.arxml''" by (simp add: sample_cli_def)
  have "oneLine ''broken'' = ''broken''" by (simp add: oneLine_def)
  moreover have "messageHeuristic ''broken'' = Software"
    by (simp add: messageHeuristic_def starts_with_def)
  ultimately show
    "fst (cliMain ?e [] sample_world) = [Stderr (''parsex: '' @ ''broken'' @ newline)]"
    "fst (snd (cliMain ?e [] sample_world)) = 70"
    using call by (simp_all add: cliMain_def runCommand_def runParseCommand_def runFrame_def Let_def applySchemaCacheDir_def
        sample_world_def sample_parse finishCommand_def emitTraceIfEnabled_def loadMessage_def)
qed

section \<open>Failures\<close>

lemma oneLine_plain: "CHR 0x0A \<notin> set (oneLine m)" "CHR 0x0D \<notin> set (oneLine m)"
  by (auto simp: oneLine_def)

lemma classify_range: "\<forall>m. x \<noteq> CliParseError m \<Longrightarrow> classify x \<in> {DataErr, IoErr, Software}"
  by (cases x rule: classify.cases) (auto simp: messageHeuristic_def)

text \<open>C19: when a command the command line accepted fails, the exit code is 65, 70 or 74, never the usage code, and
  the last thing said is one line on the error output. The standard output stays empty, so that no half a
  report is taken for one; the one exception is a run with \<open>--trace\<close> whose trace the JSON library cannot print:
  then the last line is the library's, and the standard output holds what the same command without
  \<open>--trace\<close> prints when it succeeds, which is the whole report.\<close>

theorem cli_failure_is_clean:
  assumes "ce_cli11 e args = Inr call" and "cliMain e args w = (out, code, w')" and "code \<noteq> 0"
  shows "code \<in> {65, 70, 74}
    \<and> (\<exists>before line. out = before @ [Stderr (''parsex: '' @ line @ newline)]
         \<and> CHR 0x0A \<notin> set line \<and> CHR 0x0D \<notin> set line)
    \<and> (on_stdout out = []
       \<or> traceFlag (cc_options call)
         \<and> (\<exists>what. ce_dump e (currentTraceAsJson (cliVersion e) (cw_telemetry w')) = Inl what
              \<and> last out = Stderr (''parsex: '' @ oneLine what @ newline))
         \<and> (\<exists>out0 w0. runCommand e args (call\<lparr>cc_options := untraced (cc_options call)\<rparr>) w = (out0, None, w0)
              \<and> on_stdout out = on_stdout out0))"
proof -
  obtain out1 x w1 where r: "runCommand e args call w = (out1, x, w1)" by (metis prod_cases3)
  with assms obtain y where y: "x = Some y" by (cases x) (auto simp: cliMain_def)
  then have out: "out = out1 @ [Stderr (''parsex: '' @ oneLine (cliWhat y) @ newline)]"
      "code = exitNumber (classify y)" "w' = w1"
    using assms(1,2) r by (auto simp: cliMain_def)
  have "classify y \<in> {DataErr, IoErr, Software}" using runCommand_exn r y by (intro classify_range) blast
  then have code: "code \<in> {65, 70, 74}" using out by auto
  obtain out0 x0 w0 where r0: "runCommand e args (call\<lparr>cc_options := untraced (cc_options call)\<rparr>) w = (out0, x0, w0)"
    by (metis prod_cases3)
  have u: "on_stdout out1 = on_stdout out0" "x0 = None \<or> on_stdout out0 = []"
      "Some y = x0 \<or> trace_lost e (cc_options call) (cw_telemetry w') (Some y)"
    using command_untraced [of e call args w] by (simp_all add: same_untraced_def r r0 y out(3))
  have "on_stdout out = [] \<or> trace_lost e (cc_options call) (cw_telemetry w') (Some y) \<and> x0 = None"
    using u out(1) by auto
  then show ?thesis
    using code out(1) u(1) r0 oneLine_plain by (auto simp: trace_lost_def)
qed

theorem cli_failure_is_clean_witness:
  "on_stdout (fst (cliMain (sample_cli (ParseCmd ''/b.arxml'')) [] sample_world)) = []"
proof -
  let ?e = "sample_cli (ParseCmd ''/b.arxml'')"
  obtain call where call: "ce_cli11 ?e [] = Inr call" "\<not> traceFlag (cc_options call)"
    by (simp add: sample_cli_def)
  show ?thesis
    using cli_failure_is_clean [OF call(1) prod_eqI, of sample_world
        "fst (cliMain ?e [] sample_world)" "fst (snd (cliMain ?e [] sample_world))"
        "snd (snd (cliMain ?e [] sample_world))"] sample_failure(2) call(2)
    by (metis (no_types) prod.collapse zero_neq_numeral)
qed

section \<open>Which files a command changes\<close>

lemma replaceFile_changes:
  "replaceFile we tree path fs = (x, fs') \<Longrightarrow> only_changes {path, path @ ''.parsex-tmp''} fs fs'"
  by (auto simp: replaceFile_def writeXmlToFile_def dropTemp_def only_changes_def Let_def
      split: if_splits option.splits)

lemma writeProject_changes:
  "writeProject we sc project path fs = (x, fs') \<Longrightarrow> only_changes {path, path @ ''.parsex-tmp''} fs fs'"
  by (auto simp: writeProject_def Let_def split: if_splits dest: replaceFile_changes)

lemma parseInput_files: "cw_files w1 = cw_files w \<Longrightarrow> parseInput e w1 input = parseInput e w input"
  by (simp add: parseInput_def)

text \<open>What an export may change, and what it leaves in the output file.\<close>

lemma export_changes:
  assumes "exportEngines e input format outFile w1 = (result, w2)" and "cw_files w1 = cw_files w"
    and "cw_disk w1 = cw_disk w"
  shows "cw_files w2 = cw_files w
    \<and> only_changes (if outFile = [] then {} else {path_of outFile, tmpOf (ce_write e) (path_of outFile)})
        (cw_disk w) (cw_disk w2)
    \<and> (cw_disk w2 (path_of outFile) = cw_disk w (path_of outFile)
       \<or> (\<exists>parsed. parseInput e w input = Inr parsed \<and> cw_disk w2 (path_of outFile)
            = Some (if format = ''dbc'' then toDbc (buildExportDatabase parsed) else toCsv (buildExportDatabase parsed))))"
proof (cases "parseInput e w input")
  case (Inl y)
  then show ?thesis using assms by (simp add: exportEngines_def parseInput_files [OF assms(2)])
next
  case (Inr parsed)
  let ?text = "if format = ''dbc'' then toDbc (buildExportDatabase parsed) else toCsv (buildExportDatabase parsed)"
  obtain r d where wr: "writeCacheAtomically (ce_write e) (path_of outFile) ?text (cw_disk w) = (r, d)"
    by fastforce
  have "cw_files w2 = cw_files w \<and> (if outFile = [] then cw_disk w2 = cw_disk w else cw_disk w2 = d)"
    using assms Inr wr
    by (auto simp: exportEngines_def Let_def parseInput_files [OF assms(2)] split: option.splits if_splits)
  then show ?thesis using Inr atomic_changes [OF wr] by auto
qed

text \<open>C20: the files a command the command line accepted may change, traced or not: the output file and its temporary of a write with \<open>--apply\<close>; the
  schema cache for a validation; the output file and its temporary of an export to a file, and the
  output file then holds what it held or the whole export of the input. Nothing else changes a file,
  whether the command succeeds or fails.\<close>

theorem cli_changes_files:
  assumes "ce_cli11 e args = Inr call" and "cliMain e args w = (out, code, w')"
  shows "(case cc_command call of
       WriteCmd input outFile applied \<Rightarrow>
         only_changes (if applied then {outFile, outFile @ ''.parsex-tmp''} else {}) (cw_files w) (cw_files w')
         \<and> cw_disk w' = cw_disk w
     | ValidateCmd input strict \<Rightarrow>
         only_changes (cacheFiles (cliRegistry e w')) (cw_disk w) (cw_disk w')
         \<and> cw_files w' = cw_files w
     | ExportCmd input format outFile \<Rightarrow>
         only_changes (if outFile = [] then {} else {path_of outFile, tmpOf (ce_write e) (path_of outFile)})
           (cw_disk w) (cw_disk w')
         \<and> (cw_disk w' (path_of outFile) = cw_disk w (path_of outFile)
            \<or> (\<exists>parsed. parseInput e w input = Inr parsed \<and> cw_disk w' (path_of outFile)
                 = Some (if format = ''dbc'' then toDbc (buildExportDatabase parsed) else toCsv (buildExportDatabase parsed))))
         \<and> cw_files w' = cw_files w
     | _ \<Rightarrow> cw_files w' = cw_files w \<and> cw_disk w' = cw_disk w)"
proof -
  obtain out1 x where r: "runCommand e args call w = (out1, x, w')"
    using assms by (auto simp: cliMain_def split: prod.splits option.splits)
  show ?thesis
  proof (cases "cc_command call")
    case (ParseCmd input)
    with r show ?thesis
      by (auto simp: runCommand_def runParseCommand_def Let_def elim!: runFrame_result)
  next
    case (ValidateCmd input strict)
    with r show ?thesis
      by (auto simp: runCommand_def runValidateCommand_def cliFindings_def cliRegistry_def Let_def elim!: runFrame_result
          split: prod.splits sum.splits if_splits dest!: resolve_changes)
  next
    case (DiffCmd base target)
    with r show ?thesis
      by (auto simp: runCommand_def runDiffCommand_def Let_def elim!: runFrame_result)
  next
    case (WriteCmd input outFile applied)
    with r show ?thesis
      by (auto simp: runCommand_def runWriteCommand_def Let_def elim!: runFrame_result
          split: prod.splits sum.splits if_splits option.splits dest!: writeProject_changes)
  next
    case (ExportCmd input format outFile)
    then obtain w1 result w2 where "exportEngines e input format outFile w1 = (result, w2)" "cw_files w1 = cw_files w"
        "cw_disk w1 = cw_disk w" and w2: "cw_files w' = cw_files w2" "cw_disk w' = cw_disk w2"
      using r by (auto simp: runCommand_def runExportCommand_def Let_def elim!: runFrame_result)
    from export_changes [OF this(1-3)] show ?thesis using ExportCmd by (simp add: w2)
  qed
qed

theorem cli_changes_files_witness:
  "cw_files (snd (snd (cliMain (sample_cli (ParseCmd ''/b.arxml'')) [] sample_world))) = cw_files sample_world"
proof -
  let ?e = "sample_cli (ParseCmd ''/b.arxml'')"
  obtain call where call: "ce_cli11 ?e [] = Inr call" "\<not> traceFlag (cc_options call)"
      "cc_command call = ParseCmd ''/b.arxml''" by (simp add: sample_cli_def)
  show ?thesis
    using cli_changes_files [OF call(1) prod_eqI, of sample_world
        "fst (cliMain ?e [] sample_world)" "fst (snd (cliMain ?e [] sample_world))"
        "snd (snd (cliMain ?e [] sample_world))"] call(3)
    by (simp add: prod_eq_iff)
qed

section \<open>The same answers as the server\<close>

text \<open>The tool call that corresponds to a command; an export to a file has none.\<close>

definition toolCall :: "tool_lib \<Rightarrow> command \<Rightarrow> (server_world \<Rightarrow> (thrown + json) \<times> server_world) option" where
  "toolCall rt c =
    (case c of
       ParseCmd input \<Rightarrow> Some (parseTool rt (jobj [(''path'', JString input)]))
     | ValidateCmd input strict \<Rightarrow>
         Some (validateTool rt (jobj [(''path'', JString input), (''strict'', JBool strict)]))
     | DiffCmd base target \<Rightarrow>
         Some (diffTool rt (jobj [(''basePath'', JString base), (''targetPath'', JString target)]))
     | WriteCmd input outFile applied \<Rightarrow>
         Some (writeTool rt (jobj [(''path'', JString input), (''outputPath'', JString outFile), (''apply'', JBool applied)]))
     | ExportCmd input format outFile \<Rightarrow>
         (if outFile = [] \<and> format \<in> {''dbc'', ''csv''}
          then Some (exportTool rt (jobj [(''path'', JString input), (''format'', JString format)])) else None))"

text \<open>A server over the same files, with the same schema sources and the cache at the same place.\<close>

definition server_of :: "cli_world \<Rightarrow> server_world" where
  "server_of w = \<lparr>sw_files = cw_files w, sw_disk = cw_disk w, sw_turn = 0\<rparr>"

definition same_files :: "cli_world \<Rightarrow> server_world \<Rightarrow> bool" where
  "same_files w sw \<longleftrightarrow> sw_files sw = cw_files w \<and> sw_disk sw = cw_disk w"

definition serverLib :: "cli_env \<Rightarrow> cli_world \<Rightarrow> tool_lib" where
  "serverLib e w = (ce_lib e)\<lparr>tl_registry := (\<lambda>_. cliRegistry e w)\<rparr>"

lemma serverLib_simps [simp]:
  "tl_version (serverLib e w) = cliVersion e" "tl_write (serverLib e w) = tl_write (ce_lib e)"
  "tl_content (serverLib e w) = tl_content (ce_lib e)" "tl_registry (serverLib e w) n = cliRegistry e w"
  "parseAt (serverLib e w) = parseAt (ce_lib e)"
  by (simp_all add: serverLib_def cliVersion_def parseAt_def fun_eq_iff)

text \<open>
  What a run of a command and a tool call have in common: the files, and the report or the message. A report
  the JSON library cannot print is an error of the command.
\<close>

definition agrees ::
  "cli_env \<Rightarrow> (server_world \<Rightarrow> (thrown + json) \<times> server_world) \<Rightarrow> cli_world \<Rightarrow> sent list \<Rightarrow> cli_exn option
    \<Rightarrow> cli_world \<Rightarrow> bool" where
  "agrees e tool w out x w' \<longleftrightarrow> same_files w' (snd (tool (server_of w)))
    \<and> (case fst (tool (server_of w)) of
         Inr result \<Rightarrow> (\<exists>report. jfind ''structuredContent'' result = Some report
           \<and> (case ce_dump e report of
                Inr text \<Rightarrow> x = None \<and> on_stdout out = [text @ newline]
              | Inl what \<Rightarrow> x = Some (JsonError what) \<and> on_stdout out = []))
       | Inl (StdException what) \<Rightarrow> (\<exists>y. x = Some y \<and> cliWhat y = what) \<and> on_stdout out = []
       | Inl OtherException \<Rightarrow> False)"

lemma args_found:
  "textArg rt ''path'' (jobj [(''path'', JString p)]) = Inr p"
  "textArg rt ''path'' (jobj [(''path'', JString p), (''strict'', JBool b)]) = Inr p"
  "flagArg rt ''strict'' (jobj [(''path'', JString p), (''strict'', JBool b)]) = Inr b"
  "textArg rt ''basePath'' (jobj [(''basePath'', JString p), (''targetPath'', JString q)]) = Inr p"
  "textArg rt ''targetPath'' (jobj [(''basePath'', JString p), (''targetPath'', JString q)]) = Inr q"
  "textArg rt ''path'' (jobj [(''path'', JString p), (''outputPath'', JString q), (''apply'', JBool b)]) = Inr p"
  "textArg rt ''outputPath'' (jobj [(''path'', JString p), (''outputPath'', JString q), (''apply'', JBool b)]) = Inr q"
  "flagArg rt ''apply'' (jobj [(''path'', JString p), (''outputPath'', JString q), (''apply'', JBool b)]) = Inr b"
  "textArg rt ''path'' (jobj [(''path'', JString p), (''format'', JString q)]) = Inr p"
  "textArg rt ''format'' (jobj [(''path'', JString p), (''format'', JString q)]) = Inr q"
  by (simp_all add: textArg_def flagArg_def textAt_def jat_def jvalue_def json_simps)

lemma packed_report: "jfind ''structuredContent'' (packed report summary) = Some report"
  by (simp add: packed_def json_simps)

lemma parseAt_input: "parseAt (ce_lib e) (cw_files w) input
    = (case parseInput e w input of Inl x \<Rightarrow> Inl (cliWhat x) | Inr f \<Rightarrow> Inr f)"
  by (simp add: parseAt_def parseInput_def split: sum.splits)

lemma same_json:
  "buildJsonParse v parsed = parseEnvelope v parsed"
  "buildJsonValidate v result strict = validateEnvelope v result strict"
  "buildJsonWrite v input outFile applied success = writeEnvelope v input outFile applied success"
  by (simp_all add: buildJsonParse_def parseEnvelope_def warningsToJson_def buildJsonValidate_def validateEnvelope_def
      Let_def buildJsonWrite_def writeEnvelope_def comp_def)

text \<open>A frame agrees with a tool when its engines do, given the same files.\<close>

lemma frame_agrees:
  assumes "runFrame e opts args dir name engines render w = (out, x, w')" and "\<not> traceFlag opts"
    and sound: "\<And>w1 result w2. cw_files w1 = cw_files w \<Longrightarrow> cw_disk w1 = cw_disk w \<Longrightarrow>
      engines w1 = (result, w2) \<Longrightarrow> cw_cache w2 = cw_cache w' \<Longrightarrow>
      same_files w2 (snd (tool (server_of w)))
      \<and> (case result of
           Inl y \<Rightarrow> fst (tool (server_of w)) = Inl (StdException (cliWhat y))
         | Inr r \<Rightarrow> \<exists>j report. fst (tool (server_of w)) = Inr j \<and> jfind ''structuredContent'' j = Some report
             \<and> render r = dumpTo Stdout e report)"
  shows "agrees e tool w out x w'"
  using assms(1)
proof (rule runFrame_result)
  fix debug w1 result w2
  assume a: "engines w1 = (result, w2)" "cw_files w1 = cw_files w" "cw_disk w1 = cw_disk w"
      "cw_files w' = cw_files w2" "cw_disk w' = cw_disk w2" "cw_cache w' = cw_cache w2"
    and r: "case result of
       Inl p \<Rightarrow> x = traced e opts (cw_telemetry w') (Some p) \<and> on_stdout out = []
     | Inr r \<Rightarrow> (case render r of
         Inl y \<Rightarrow> x = Some y \<and> on_stdout out = []
       | Inr report \<Rightarrow> x = traced e opts (cw_telemetry w') None \<and> on_stdout out = on_stdout report)"
  note s = sound [OF a(2,3,1) a(6) [symmetric]]
  have w': "same_files w' = same_files w2" using a(4,5) by (simp add: same_files_def fun_eq_iff)
  show ?thesis
  proof (cases result)
    case (Inl y)
    then show ?thesis using s r assms(2) by (simp add: agrees_def w')
  next
    case (Inr y)
    then obtain j report where "fst (tool (server_of w)) = Inr j" "jfind ''structuredContent'' j = Some report"
        "render y = dumpTo Stdout e report" using s by auto
    then show ?thesis
      using s r Inr assms(2) by (cases "ce_dump e report") (simp_all add: agrees_def dumpTo_def w')
  qed
qed

lemma parse_agrees:
  assumes "runParseCommand e opts args dir input w = (out, x, w')" "\<not> traceFlag opts" "jsonOutput opts"
  shows "agrees e (parseTool (serverLib e w') (jobj [(''path'', JString input)])) w out x w'"
proof (rule frame_agrees [OF assms(1) [unfolded runParseCommand_def] assms(2)], goal_cases)
  case (1 w1 result w2)
  note same = parseInput_files [OF 1(1), of e]
  show ?case using 1(1-3)
    by (auto simp: parseTool_def args_found andThen_def parseAt_input server_of_def same_files_def same assms(3) same_json packed_report
        split: sum.splits)
qed

lemma diff_agrees:
  assumes "runDiffCommand e opts args dir base target w = (out, x, w')" "\<not> traceFlag opts" "jsonOutput opts"
  shows "agrees e (diffTool (serverLib e w') (jobj [(''basePath'', JString base), (''targetPath'', JString target)])) w out x w'"
proof (rule frame_agrees [OF assms(1) [unfolded runDiffCommand_def] assms(2)], goal_cases)
  case (1 w1 result w2)
  note same = parseInput_files [OF 1(1), of e]
  show ?case using 1(1-3)
    by (auto simp: diffTool_def args_found andThen_def parseAt_input server_of_def same_files_def same assms(3) packed_report
        buildJsonDiff_def Let_def split: sum.splits)
qed

lemma write_agrees:
  assumes "runWriteCommand e opts args dir input outFile applied w = (out, x, w')" "\<not> traceFlag opts" "jsonOutput opts"
  shows "agrees e (writeTool (serverLib e w')
      (jobj [(''path'', JString input), (''outputPath'', JString outFile), (''apply'', JBool applied)])) w out x w'"
proof (rule frame_agrees [OF assms(1) [unfolded runWriteCommand_def] assms(2)], goal_cases)
  case (1 w1 result w2)
  note same = parseInput_files [OF 1(1), of e]
  show ?case using 1(1-3)
    by (auto simp: writeTool_def args_found parseAt_input server_of_def same_files_def same packed_report assms(3) same_json
        Let_def split: sum.splits if_splits prod.splits option.splits)
qed

lemma export_agrees:
  assumes "runExportCommand e opts args dir input format [] w = (out, x, w')" "\<not> traceFlag opts" "jsonOutput opts"
    "format \<in> {''dbc'', ''csv''}"
  shows "agrees e (exportTool (serverLib e w') (jobj [(''path'', JString input), (''format'', JString format)])) w out x w'"
proof (rule frame_agrees [OF assms(1) [unfolded runExportCommand_def] assms(2)], goal_cases)
  case (1 w1 result w2)
  note same = parseInput_files [OF 1(1), of e]
  show ?case using 1(1-3) assms(4)
    by (auto simp: exportTool_def exportEngines_def args_found andThen_def parseAt_input server_of_def same_files_def same packed_report
        assms(3) buildJsonExport_def warningsToJson_def comp_def Let_def split: sum.splits if_splits)
qed

lemma findings_agree:
  assumes "cliFindings e input w1 = (findings, w2)" and "cw_files w1 = cw_files w" "cw_disk w1 = cw_disk w"
    and "cw_cache w2 = cw_cache w'"
  shows "\<exists>sw. validateFindings (serverLib e w') input (server_of w) = (findings, sw) \<and> same_files w2 sw"
proof -
  have "cw_cache w1 = cw_cache w2" using assms(1)
    by (auto simp: cliFindings_def Let_def split: sum.splits prod.splits if_splits)
  then have "cliRegistry e w' = cliRegistry e w1" using assms(4) by (simp add: cliRegistry_def)
  then show ?thesis
    using assms(1-3) by (auto simp: cliFindings_def validateFindings_def parseAt_input server_of_def same_files_def
        parseInput_files [OF assms(2)] Let_def split: sum.splits prod.splits if_splits)
qed

lemma validate_agrees:
  assumes "runValidateCommand e opts args dir input strict w = (out, x, w')" "\<not> traceFlag opts" "jsonOutput opts"
  shows "agrees e (validateTool (serverLib e w') (jobj [(''path'', JString input), (''strict'', JBool strict)])) w out x w'"
proof (rule frame_agrees [OF assms(1) [unfolded runValidateCommand_def] assms(2)], goal_cases)
  case (1 w1 result w2)
  obtain findings where "cliFindings e input w1 = (findings, w2)" "result = Inr findings"
    using 1(3) by (auto split: prod.splits)
  with findings_agree [OF this(1) 1(1,2,4)] show ?case
    by (auto simp: validateTool_def args_found packed_report assms(3) same_json)
qed

lemma runCommand_agrees:
  assumes "runCommand e args call w = (out, x, w')" "\<not> traceFlag (cc_options call)" "jsonOutput (cc_options call)"
    "toolCall (serverLib e w') (cc_command call) = Some tool"
  shows "agrees e tool w out x w'"
proof (cases "cc_command call")
  case (ParseCmd input)
  with assms show ?thesis by (auto simp: runCommand_def toolCall_def intro: parse_agrees)
next
  case (ValidateCmd input strict)
  with assms show ?thesis by (auto simp: runCommand_def toolCall_def intro: validate_agrees)
next
  case (DiffCmd base target)
  with assms show ?thesis by (auto simp: runCommand_def toolCall_def intro: diff_agrees)
next
  case (WriteCmd input outFile applied)
  with assms show ?thesis by (auto simp: runCommand_def toolCall_def intro: write_agrees)
next
  case (ExportCmd input format outFile)
  with assms show ?thesis by (auto simp: runCommand_def toolCall_def intro!: export_agrees split: if_splits)
qed

text \<open>C3: the two front ends agree: an accepted command run with \<open>--json\<close> and without \<open>--trace\<close> (an export: to the standard
  output) leaves every file, the schema cache included, as the corresponding tool call of a server with the
  same files and the cache at the same place does. When the tool returns, the command prints exactly the
  report in its structured content and exits with 0 if the JSON library can print it, and otherwise prints
  no report and fails with the library's message; when the tool fails, the command fails with the same
  message (on one line) and an empty standard output.\<close>

theorem front_ends_agree:
  assumes "ce_cli11 e args = Inr call" and "jsonOutput (cc_options call)" and "\<not> traceFlag (cc_options call)"
    and "toolCall (serverLib e w') (cc_command call) = Some tool" and "cliMain e args w = (out, code, w')"
  shows "same_files w' (snd (tool (server_of w)))
    \<and> (case fst (tool (server_of w)) of
         Inr result \<Rightarrow> (\<exists>report. jfind ''structuredContent'' result = Some report
           \<and> (case ce_dump e report of
                Inr text \<Rightarrow> code = 0 \<and> on_stdout out = [text @ newline]
              | Inl what \<Rightarrow> code \<noteq> 0 \<and> on_stdout out = [] \<and> last out = Stderr (''parsex: '' @ oneLine what @ newline)))
       | Inl (StdException what) \<Rightarrow> code \<noteq> 0 \<and> on_stdout out = []
           \<and> last out = Stderr (''parsex: '' @ oneLine what @ newline)
       | Inl OtherException \<Rightarrow> False)"
proof -
  obtain out1 x where r: "runCommand e args call w = (out1, x, w')"
    using assms(1,5) by (auto simp: cliMain_def split: prod.splits option.splits)
  then have a: "agrees e tool w out1 x w'" using assms by (intro runCommand_agrees)
  have code: "exitNumber (classify y) \<noteq> 0" if "x = Some y" for y
    using runCommand_exn [of e args call w out1 y w'] r that classify_range [of y] by auto
  have run: "case x of None \<Rightarrow> out = out1 \<and> code = 0
      | Some y \<Rightarrow> out = out1 @ [Stderr (''parsex: '' @ oneLine (cliWhat y) @ newline)] \<and> code \<noteq> 0"
    using assms(1,5) r code by (auto simp: cliMain_def split: option.splits)
  show ?thesis
  proof (cases "fst (tool (server_of w))")
    case (Inl t)
    then show ?thesis using a run by (cases t) (auto simp: agrees_def)
  next
    case (Inr result)
    then show ?thesis using a run by (auto simp: agrees_def split: sum.splits)
  qed
qed

definition sample_agreement :: "command \<Rightarrow> cli_env" where
  "sample_agreement c = (sample_cli c)
     \<lparr>ce_cli11 := (\<lambda>_. Inr \<lparr>cc_options = \<lparr>jsonOutput = True, noColor = False, traceFlag = False\<rparr>,
        cc_schemaCacheDir = [], cc_command = c\<rparr>)\<rparr>"

theorem front_ends_agree_witness:
  "same_files (snd (snd (cliMain (sample_agreement (ParseCmd ''/b.arxml'')) [] sample_world)))
    (snd (parseTool sample_tools (jobj [(''path'', JString ''/b.arxml'')]) (server_of sample_world)))"
proof -
  let ?e = "sample_agreement (ParseCmd ''/b.arxml'')"
  let ?r = "cliMain ?e [] sample_world"
  show ?thesis
    using front_ends_agree [of ?e "[]" _ "snd (snd ?r)"
        "parseTool (serverLib ?e (snd (snd ?r))) (jobj [(''path'', JString ''/b.arxml'')])" sample_world "fst ?r" "fst (snd ?r)"]
    by (simp add: toolCall_def read_tools) (simp add: sample_agreement_def)
qed

section \<open>Exit codes\<close>

text \<open>What the convention says and holds: unreadable input and a failing write are I/O errors, bad data is
  a data error.\<close>

lemma find_sub_here: "find_sub p (q @ p @ s) \<noteq> None"
proof (induction q)
  case Nil
  then show ?case by (cases "p @ s") (auto, metis starts_with_append)
qed auto

lemma io_message:
  "messageHeuristic (q @ ''failed to write'' @ s) = IoErr" "messageHeuristic (q @ ''failed to move'' @ s) = IoErr"
  unfolding messageHeuristic_def
  using find_sub_here [of "''failed to write''" q s] find_sub_here [of "''failed to move''" q s]
  by presburger+

lemma exit_code_of_replace:
  assumes "replaceFile we tree path fs = (Some x, fs')"
  shows "classify (WriteExn x) = IoErr"
proof -
  have "(\<exists>s. x = WriteFailed (''parsex: failed to write'' @ s)) \<or> (\<exists>s. x = WriteFailed (''parsex: failed to move'' @ s))"
    using assms by (auto simp: replaceFile_def writeXmlToFile_def Let_def split: if_splits option.splits)
  then show ?thesis
    using io_message(1) [of "''parsex: ''"] io_message(2) [of "''parsex: ''"] by (auto simp: writeWhat_def)
qed

text \<open>An export whose output file cannot be written ends as an internal error.\<close>

lemma exit_code_of_failed_export:
  "classify (SystemError ''writeTmpFileSync: open: /ro/x.dbc.tmp.0: Permission denied'') = Software"
  by (simp add: messageHeuristic_def starts_with_def)

text \<open>
  A validation ends with code 0 whatever happens to its input, unreadable files included; only a report or a
  trace the JSON library cannot print makes it fail.
\<close>

lemma validate_exits_zero:
  assumes "ce_cli11 e args = Inr call" "cc_command call = ValidateCmd input strict" "cliMain e args w = (out, code, w')"
  shows "code = 0 \<or> (\<exists>j what. ce_dump e j = Inl what)"
proof -
  obtain out1 x where r: "runCommand e args call w = (out1, x, w')"
    using assms(1,3) by (auto simp: cliMain_def split: prod.splits option.splits)
  then have "x = None \<or> (\<exists>j what. ce_dump e j = Inl what)"
    using assms(2) by (auto simp: runCommand_def runValidateCommand_def Let_def dumpTo_def traced_def emitTraceIfEnabled_def
        elim!: runFrame_result split: prod.splits if_splits sum.splits)
  then show ?thesis using assms(1,3) r by (auto simp: cliMain_def)
qed

text \<open>The command's own span always ends with the status \<open>ok\<close>, also when the command fails: the exception
  has been caught when the span closes.\<close>

lemma command_span_ok:
  assumes "traceFlag opts" and "tm_origin tm \<noteq> None" and "tm_counter tm = of_nat n"
  shows "sp_status (last (tm_trace (commandSpan e opts name tm))) = SpanOk"
  using assms
  by (auto simp: commandSpan_def Let_def setEnabled_def resetTrace_def scopeStatus_def
      runScope_spans(1) [where n = n and parent = "case tm_stack tm of [] \<Rightarrow> None | p # _ \<Rightarrow> Some p"]
      simp del: runScope.simps)

end
