(* ===== verification/Contract.thy ===== *)
theory Contract
  imports CliTheorems
begin

text \<open>
  The published contract of the reports (\<open>schemas/*.schema.json\<close>) as the shapes its JSON Schemas describe,
  the check of a document against a schema file (\<open>src/json_contract/schema_validate.cpp\<close>), and the
  theorem that what the program reports has those shapes.
\<close>

section \<open>Shapes\<close>

text \<open>
  The part of JSON Schema the files use: types, \<open>enum\<close>, \<open>minLength\<close>, \<open>minimum\<close>, \<open>items\<close>, and objects with
  \<open>properties\<close>, \<open>required\<close> and no additional ones, or with one shape for every member.
\<close>

datatype shape =
    AnyShape
  | NullShape
  | BoolShape
  | NumberShape
  | TextShape nat
  | EnumShape "string list"
  | IntShape int
  | EitherShape shape shape
  | ArrayShape shape
  | ObjectShape "(string \<times> shape) list" "string list"
  | MapShape shape

fun conforms :: "shape \<Rightarrow> json \<Rightarrow> bool" where
  "conforms AnyShape j \<longleftrightarrow> True"
| "conforms NullShape j \<longleftrightarrow> j = JNull"
| "conforms BoolShape j \<longleftrightarrow> (case j of JBool b \<Rightarrow> True | _ \<Rightarrow> False)"
| "conforms NumberShape j \<longleftrightarrow> (case j of JInt i \<Rightarrow> True | JFloat d \<Rightarrow> True | _ \<Rightarrow> False)"
| "conforms (TextShape n) j \<longleftrightarrow> (case j of JString s \<Rightarrow> n \<le> length s | _ \<Rightarrow> False)"
| "conforms (EnumShape texts) j \<longleftrightarrow> (case j of JString s \<Rightarrow> s \<in> set texts | _ \<Rightarrow> False)"
| "conforms (IntShape least) j \<longleftrightarrow> (case j of JInt i \<Rightarrow> least \<le> i | _ \<Rightarrow> False)"
| "conforms (EitherShape s t) j \<longleftrightarrow> conforms s j \<or> conforms t j"
| "conforms (ArrayShape s) j \<longleftrightarrow> (case j of JArray js \<Rightarrow> list_all (conforms s) js | _ \<Rightarrow> False)"
| "conforms (ObjectShape props required) j \<longleftrightarrow>
    (case j of
       JObject m \<Rightarrow> list_all (\<lambda>k. jcontains j k) required
         \<and> list_all (\<lambda>k. k \<in> fst ` set props) (map fst m)
         \<and> list_all (\<lambda>(k, s). case jfind k j of None \<Rightarrow> True | Some v \<Rightarrow> conforms s v) props
     | _ \<Rightarrow> False)"
| "conforms (MapShape s) j \<longleftrightarrow> (case j of JObject m \<Rightarrow> list_all (\<lambda>(k, v). conforms s v) m | _ \<Rightarrow> False)"

section \<open>The schema files\<close>

definition validationResultShape :: shape where
  "validationResultShape = ObjectShape
    [(''passed'', BoolShape),
     (''errors'', ArrayShape (ObjectShape
       [(''severity'', EnumShape [''error'', ''warning'']), (''code'', TextShape 1), (''message'', TextShape 1),
        (''location'', ObjectShape
          [(''startOffset'', IntShape 0), (''endOffset'', IntShape 0), (''lineNumber'', IntShape 0)]
          [''startOffset'', ''endOffset'', ''lineNumber'']),
        (''path'', TextShape 0), (''expectedType'', TextShape 0), (''actualType'', TextShape 0)]
       [''severity'', ''code'', ''message'']))]
    [''passed'', ''errors'']"

definition diffReportShape :: shape where
  "diffReportShape = ObjectShape
    [(''entries'', ArrayShape (ObjectShape
       [(''kind'', EnumShape [''added'', ''removed'', ''moved'', ''modified'']), (''elementType'', TextShape 1),
        (''oldPath'', TextShape 0), (''newPath'', TextShape 0),
        (''fieldDiffs'', ArrayShape (ObjectShape
          [(''field'', TextShape 1), (''oldValue'', TextShape 0), (''newValue'', TextShape 0)]
          [''field'', ''oldValue'', ''newValue'']))]
       [''kind'', ''elementType'', ''fieldDiffs''])),
     (''diagnostics'', ArrayShape (ObjectShape
       [(''message'', TextShape 1), (''elementType'', TextShape 1)] [''message'', ''elementType'']))]
    [''entries'', ''diagnostics'']"

definition attributeShape :: shape where
  "attributeShape = EitherShape (TextShape 0) (EitherShape NumberShape BoolShape)"

definition telemetryReportShape :: shape where
  "telemetryReportShape = ObjectShape
    [(''spans'', ArrayShape (ObjectShape
       [(''spanId'', IntShape 1), (''parentSpanId'', IntShape 1), (''name'', TextShape 1),
        (''startNanos'', IntShape 0), (''endNanos'', IntShape 0), (''durationNanos'', IntShape 0),
        (''status'', EnumShape [''unset'', ''ok'', ''error'']),
        (''attributes'', MapShape attributeShape)]
       [''spanId'', ''name'', ''startNanos'', ''endNanos'', ''durationNanos'', ''status'']))]
    [''spans'']"

definition exportResultShape :: shape where
  "exportResultShape = ObjectShape
    [(''sourcePath'', TextShape 0), (''format'', EnumShape [''dbc'', ''csv'']),
     (''output'', EitherShape (TextShape 0) NullShape),
     (''counts'', ObjectShape [(''frames'', IntShape 0), (''signals'', IntShape 0)] [''frames'', ''signals'']),
     (''warnings'', ArrayShape (ObjectShape [(''message'', TextShape 0)] [''message''])),
     (''content'', TextShape 0)]
    [''sourcePath'', ''format'', ''output'', ''counts'', ''warnings'']"

text \<open>The pattern \<open>^\d+\.\d+\.\d+$\<close>.\<close>

fun dotted :: "nat \<Rightarrow> bool \<Rightarrow> string \<Rightarrow> bool" where
  "dotted dots seen [] \<longleftrightarrow> dots = 0 \<and> seen"
| "dotted dots seen (c # cs) \<longleftrightarrow>
    (if is_digit c then dotted dots True cs
     else c = CHR ''.'' \<and> seen \<and> 0 < dots \<and> dotted (dots - 1) False cs)"

definition is_semver :: "string \<Rightarrow> bool" where
  "is_semver v \<longleftrightarrow> dotted 2 False v"

definition payloadShape :: "string \<Rightarrow> shape" where
  "payloadShape kind =
    (if kind = ''validationResult'' then validationResultShape
     else if kind = ''diffReport'' then diffReportShape
     else if kind = ''telemetryReport'' then telemetryReportShape
     else if kind = ''exportResult'' then exportResultShape
     else AnyShape)"

definition envelopeConforms :: "json \<Rightarrow> bool" where
  "envelopeConforms j \<longleftrightarrow>
    conforms (ObjectShape
      [(''$schema'', TextShape 0), (''contractVersion'', TextShape 0), (''toolVersion'', TextShape 1),
       (''kind'', EnumShape [''validationResult'', ''diffReport'', ''telemetryReport'', ''parseReport'',
          ''writeResult'', ''exportResult'']),
       (''payload'', AnyShape)]
      [''contractVersion'', ''toolVersion'', ''kind'', ''payload'']) j
    \<and> (case jfind ''contractVersion'' j of Some (JString v) \<Rightarrow> is_semver v | _ \<Rightarrow> False)
    \<and> (case (jfind ''kind'' j, jfind ''payload'' j) of
         (Some (JString kind), Some payload) \<Rightarrow> conforms (payloadShape kind) payload
       | _ \<Rightarrow> False)"

section \<open>Checking a document against a schema file\<close>

text \<open>
  The JSON library's parser, its checker of formats (an exception text or nothing) and its validator: given
  how references and formats are resolved, the root schema and the document, an exception or the
  reported errors, each with the place, the message and the printed instance.
\<close>

record schema_checker =
  sc_read :: "fpath \<Rightarrow> string option"
  sc_parse :: "string \<Rightarrow> string + json"
  sc_format :: "string \<Rightarrow> string \<Rightarrow> string option"
  sc_validate :: "(string \<Rightarrow> string + json) \<Rightarrow> (string \<Rightarrow> string \<Rightarrow> string option) \<Rightarrow> json \<Rightarrow> json
    \<Rightarrow> string + (string \<times> string \<times> string) list"

definition loadJsonFile :: "schema_checker \<Rightarrow> fpath \<Rightarrow> string + json" where
  "loadJsonFile sc path =
    (case sc_read sc path of
       None \<Rightarrow> Inl (''cannot open schema file: '' @ path_string path)
     | Some bytes \<Rightarrow>
        (case sc_parse sc bytes of
           Inl what \<Rightarrow> Inl (''cannot parse schema file '' @ path_string path @ '': '' @ what)
         | Inr j \<Rightarrow> Inr j))"

definition joinedErrors :: "(string \<times> string \<times> string) list \<Rightarrow> string" where
  "joinedErrors errors = join_with newline
    (map (\<lambda>(place, message, inst). ''at '' @ place @ '': '' @ message @ '' (instance: '' @ inst @ '')'') errors)"

definition parsexFormatChecker :: "schema_checker \<Rightarrow> string \<Rightarrow> string \<Rightarrow> string option" where
  "parsexFormatChecker sc format text = (if format = ''uri-reference'' then None else sc_format sc format text)"

definition knownSchemaFiles :: "string list" where
  "knownSchemaFiles = [''validation_result.schema.json'', ''diff_report.schema.json'', ''telemetry_report.schema.json'',
     ''export_result.schema.json'', ''envelope.schema.json'']"

definition schemaLoader :: "schema_checker \<Rightarrow> fpath \<Rightarrow> string \<Rightarrow> string + json" where
  "schemaLoader sc baseDir uri =
    (case List.find (\<lambda>name. find_sub name uri \<noteq> None) knownSchemaFiles of
       Some name \<Rightarrow> loadJsonFile sc (path_append baseDir name)
     | None \<Rightarrow> Inl (''schemaLoader: unrecognized ref '' @ uri))"

text \<open>The verdict and the text for \<open>errorOut\<close>.\<close>

definition validatesAgainstSchema :: "schema_checker \<Rightarrow> json \<Rightarrow> fpath \<Rightarrow> bool \<times> string option" where
  "validatesAgainstSchema sc document schemaPath =
    (case loadJsonFile sc schemaPath of
       Inl what \<Rightarrow> (False, Some what)
     | Inr schema \<Rightarrow>
        (case sc_validate sc (schemaLoader sc (parent_path schemaPath)) (parsexFormatChecker sc) schema document of
           Inl what \<Rightarrow> (False, Some (''validator exception: '' @ what))
         | Inr [] \<Rightarrow> (True, None)
         | Inr (err # errs) \<Rightarrow> (False, Some (joinedErrors (err # errs)))))"

text \<open>A reference by the \<open>$id\<close> of a schema is not among the names looked for.\<close>

lemma id_reference_unresolved:
  "schemaLoader sc dir ''https://parsex.dev/schemas/v1/validation_result.json''
    = Inl ''schemaLoader: unrecognized ref https://parsex.dev/schemas/v1/validation_result.json''"
  by (simp add: schemaLoader_def knownSchemaFiles_def starts_with_def)

text \<open>A check says yes exactly when the schema was read and the validator finished without an error, and only
  then leaves the error text alone.\<close>

lemma validates_iff:
  "validatesAgainstSchema sc document path = (ok, err) \<Longrightarrow> (ok \<longleftrightarrow> err = None)
    \<and> (ok \<longleftrightarrow> (\<exists>schema. loadJsonFile sc path = Inr schema
          \<and> sc_validate sc (schemaLoader sc (parent_path path)) (parsexFormatChecker sc) schema document = Inr []))"
  by (auto simp: validatesAgainstSchema_def split: sum.splits list.splits)

section \<open>Objects that were built\<close>

lemma jassign_object: "kvs \<noteq> [] \<Longrightarrow> \<exists>m. jassign kvs = JObject m \<and> fst ` set m = fst ` set kvs"
proof (induction kvs rule: rev_induct)
  case (snoc kv kvs)
  obtain k v where kv: "kv = (k, v)" by fastforce
  have step: "jassign (kvs @ [(k, v)]) = jset k v (jassign kvs)" by (simp add: jassign_def)
  show ?case
  proof (cases "kvs = []")
    case True
    then show ?thesis by (simp add: kv jassign_def)
  next
    case False
    then obtain m where "jassign kvs = JObject m" "fst ` set m = fst ` set kvs" using snoc.IH by auto
    then show ?thesis by (simp add: step kv keys_modify)
  qed
qed simp

lemma jobj_object: "\<exists>m. jobj kvs = JObject m \<and> fst ` set m = fst ` set kvs"
proof -
  have "fst ` set (fold (\<lambda>(k, v). m_try_emplace k v) kvs m) = fst ` set kvs \<union> fst ` set m"
    for m :: "(string, json) omap"
    by (induction kvs arbitrary: m) (simp_all add: keys_try_emplace case_prod_beta)
  then show ?thesis by (simp add: jobj_def)
qed

lemma conforms_object:
  assumes "j = JObject m" "fst ` set m = fst ` set kvs" "\<And>k. jfind k j = lookup k"
    "\<And>k. lookup k \<noteq> None \<longleftrightarrow> k \<in> fst ` set kvs"
  shows "conforms (ObjectShape props required) j \<longleftrightarrow>
    list_all (\<lambda>k. k \<in> fst ` set kvs) required \<and> list_all (\<lambda>k. k \<in> fst ` set props) (map fst kvs)
    \<and> list_all (\<lambda>(k, s). case lookup k of None \<Rightarrow> True | Some v \<Rightarrow> conforms s v) props"
proof -
  have "list_all (\<lambda>k. k \<in> fst ` set props) (map fst m) \<longleftrightarrow> list_all (\<lambda>k. k \<in> fst ` set props) (map fst kvs)"
    using assms(2) by (simp only: list_all_iff set_map)
  moreover have "jcontains j = (\<lambda>k. k \<in> fst ` set kvs)"
    using assms(3,4) by (simp add: jcontains_def fun_eq_iff)
  ultimately show ?thesis using assms(1,3) by simp
qed

lemma conforms_jassign:
  "kvs \<noteq> [] \<Longrightarrow> conforms (ObjectShape props required) (jassign kvs) \<longleftrightarrow>
    list_all (\<lambda>k. k \<in> fst ` set kvs) required \<and> list_all (\<lambda>k. k \<in> fst ` set props) (map fst kvs)
    \<and> list_all (\<lambda>(k, s). case map_of (rev kvs) k of None \<Rightarrow> True | Some v \<Rightarrow> conforms s v) props"
proof -
  assume "kvs \<noteq> []"
  then obtain m where m: "jassign kvs = JObject m" "fst ` set m = fst ` set kvs"
    using jassign_object by blast
  show ?thesis
    by (rule conforms_object [OF m]) (simp_all add: json_simps map_of_eq_None_iff)
qed

lemma conforms_jobj:
  "conforms (ObjectShape props required) (jobj kvs) \<longleftrightarrow>
    list_all (\<lambda>k. k \<in> fst ` set kvs) required \<and> list_all (\<lambda>k. k \<in> fst ` set props) (map fst kvs)
    \<and> list_all (\<lambda>(k, s). case map_of kvs k of None \<Rightarrow> True | Some v \<Rightarrow> conforms s v) props"
proof -
  obtain m where m: "jobj kvs = JObject m" "fst ` set m = fst ` set kvs"
    using jobj_object by blast
  show ?thesis
    by (rule conforms_object [OF m]) (simp_all add: json_simps map_of_eq_None_iff)
qed

declare conforms.simps(10) [simp del]

lemma conforms_array: "(\<And>x. x \<in> set xs \<Longrightarrow> conforms s (f x)) \<Longrightarrow> conforms (ArrayShape s) (JArray (map f xs))"
  by (simp add: list_all_iff)

section \<open>The reports\<close>

lemma error_conforms: "ve_code err \<noteq> [] \<Longrightarrow> ve_message err \<noteq> [] \<Longrightarrow>
  conforms (ObjectShape
       [(''severity'', EnumShape [''error'', ''warning'']), (''code'', TextShape 1), (''message'', TextShape 1),
        (''location'', ObjectShape
          [(''startOffset'', IntShape 0), (''endOffset'', IntShape 0), (''lineNumber'', IntShape 0)]
          [''startOffset'', ''endOffset'', ''lineNumber'']),
        (''path'', TextShape 0), (''expectedType'', TextShape 0), (''actualType'', TextShape 0)]
       [''severity'', ''code'', ''message'']) (errorToJson err)"
  by (cases "ve_location err"; cases "ve_path err"; cases "ve_expectedType err"; cases "ve_actualType err")
    (simp_all add: errorToJson_def conforms_jassign optionalText_def spanToJson_def conforms_jobj jsize_def
      Suc_le_eq)

text \<open>The findings, entries and spans a report can be made of.\<close>

definition finding_ok :: "validation_error \<Rightarrow> bool" where
  "finding_ok err \<longleftrightarrow> ve_code err \<noteq> [] \<and> ve_message err \<noteq> []"

definition entry_ok :: "diff_entry \<Rightarrow> bool" where
  "entry_ok e \<longleftrightarrow> elementType e \<noteq> [] \<and> list_all (\<lambda>f. fieldName f \<noteq> []) (fieldDiffs e)"

definition diagnostic_ok :: "diff_diagnostic \<Rightarrow> bool" where
  "diagnostic_ok d \<longleftrightarrow> dd_message d \<noteq> [] \<and> dd_elementType d \<noteq> []"

definition span_ok :: "tele_span \<Rightarrow> bool" where
  "span_ok s \<longleftrightarrow> sp_name s \<noteq> [] \<and> sp_id s \<noteq> 0 \<and> sp_parent s \<noteq> Some 0"

lemma envelope_conforms:
  assumes "is_semver version"
    and "kind \<in> {''validationResult'', ''diffReport'', ''telemetryReport'', ''parseReport'', ''writeResult'', ''exportResult''}"
    and "conforms (payloadShape kind) payload"
  shows "envelopeConforms (wrapEnvelope version kind payload)"
proof -
  have "version \<noteq> []" using assms(1) by (auto simp: is_semver_def)
  then show ?thesis
    using assms(1,3) assms(2)
    by (auto simp: envelopeConforms_def wrapEnvelope_def conforms_jassign json_simps Suc_le_eq)
qed

lemma result_conforms:
  assumes "list_all finding_ok r"
  shows "conforms validationResultShape (jassign [(''passed'', JBool b), (''errors'', JArray (map errorToJson r))])"
  using assms error_conforms
  by (simp add: validationResultShape_def conforms_jassign list_all_iff finding_ok_def)

lemma entry_conforms:
  assumes "entry_ok e"
  shows "conforms (ObjectShape
       [(''kind'', EnumShape [''added'', ''removed'', ''moved'', ''modified'']), (''elementType'', TextShape 1),
        (''oldPath'', TextShape 0), (''newPath'', TextShape 0),
        (''fieldDiffs'', ArrayShape (ObjectShape
          [(''field'', TextShape 1), (''oldValue'', TextShape 0), (''newValue'', TextShape 0)]
          [''field'', ''oldValue'', ''newValue'']))]
       [''kind'', ''elementType'', ''fieldDiffs'']) (entryToJson e)"
  using assms
  by (cases "de_kind e"; cases "oldPath e"; cases "newPath e")
    (simp_all add: entryToJson_def conforms_jassign entry_ok_def fieldToJson_def list_all_iff Suc_le_eq)

lemma diff_conforms:
  assumes "list_all entry_ok (entries r)" "list_all diagnostic_ok (diagnostics r)"
  shows "conforms diffReportShape (jassign [(''entries'', JArray (map entryToJson (entries r))),
     (''diagnostics'', JArray (map diagToJson (diagnostics r)))])"
  using assms entry_conforms
  by (simp add: diffReportShape_def conforms_jassign list_all_iff diagnostic_ok_def diagToJson_def Suc_le_eq)

lemma attributes_conform:
  "list_all (\<lambda>(k, v). conforms s v) m \<Longrightarrow> conforms s (attributeValueToJson v) \<Longrightarrow>
    list_all (\<lambda>(k, v). conforms s v) (m_modify JNull k (\<lambda>_. attributeValueToJson v) m)"
  by (induction JNull k "\<lambda>_ :: json. attributeValueToJson v" m rule: m_modify.induct) auto

lemma span_conforms:
  assumes "span_ok s"
  shows "conforms (ObjectShape
       [(''spanId'', IntShape 1), (''parentSpanId'', IntShape 1), (''name'', TextShape 1),
        (''startNanos'', IntShape 0), (''endNanos'', IntShape 0), (''durationNanos'', IntShape 0),
        (''status'', EnumShape [''unset'', ''ok'', ''error'']),
        (''attributes'', MapShape attributeShape)]
       [''spanId'', ''name'', ''startNanos'', ''endNanos'', ''durationNanos'', ''status'']) (traceSpanToJson s)"
proof -
  have v: "conforms attributeShape (attributeValueToJson v)" for v by (cases v) (simp_all add: attributeShape_def)
  have "conforms (MapShape attributeShape) (fold (\<lambda>a. jset (at_key a) (attributeValueToJson (at_value a))) as j)"
    if "conforms (MapShape attributeShape) j" for as j
    using that
  proof (induction as arbitrary: j)
    case (Cons a as)
    obtain m where j: "j = JObject m" using Cons.prems by (cases j) auto
    have "conforms (MapShape attributeShape) (jset (at_key a) (attributeValueToJson (at_value a)) j)"
      using Cons.prems attributes_conform [of attributeShape m "at_value a" "at_key a"] v by (simp add: j)
    then show ?case using Cons.IH by simp
  qed simp
  from this [of "JObject []"] have att: "conforms (MapShape attributeShape)
      (fold (\<lambda>a. jset (at_key a) (attributeValueToJson (at_value a))) (sp_attributes s) (JObject []))" by simp
  have id: "1 \<le> uint w" if "w \<noteq> 0" for w :: span_id
    using that by (metis uint_0_iff uint_ge_0 zless_imp_add1_zle add_0 order_le_less)
  show ?thesis
    using assms att id [of "sp_id s"] id
    by (cases "sp_status s"; cases "sp_parent s")
      (auto simp: traceSpanToJson_def conforms_jassign span_ok_def Suc_le_eq simp del: conforms.simps(11))
qed

lemma trace_conforms:
  "list_all span_ok trace \<Longrightarrow>
    conforms telemetryReportShape (jassign [(''spans'', JArray (map traceSpanToJson trace))])"
  using span_conforms by (simp add: telemetryReportShape_def conforms_jassign list_all_iff)

section \<open>What the engines put into reports\<close>

subsection \<open>Findings\<close>

lemma finding_new [simp]: "finding_ok (new_error sev code msg) \<longleftrightarrow> code \<noteq> [] \<and> msg \<noteq> []"
  by (simp add: finding_ok_def new_error_def)

lemma finding_update [simp]:
  "finding_ok (err\<lparr>ve_location := l\<rparr>) = finding_ok err" "finding_ok (err\<lparr>ve_path := p\<rparr>) = finding_ok err"
  "finding_ok (err\<lparr>ve_expectedType := t\<rparr>) = finding_ok err" "finding_ok (err\<lparr>ve_actualType := t\<rparr>) = finding_ok err"
  by (simp_all add: finding_ok_def)

abbreviation findings_ok :: "validation_result \<Rightarrow> bool" where
  "findings_ok \<equiv> list_all finding_ok"

lemma findings_fold: "findings_ok s \<Longrightarrow> (\<And>x s. findings_ok s \<Longrightarrow> findings_ok (f x s)) \<Longrightarrow> findings_ok (fold f xs s)"
  by (induction xs arbitrary: s) auto

lemma schema_findings: "findings_ok (validateSchema lib file)"
proof -
  have "findings_ok (onSchemaError index err result)" if "findings_ok result" for index err result
    using that by (simp add: onSchemaError_def trimMessage_def Let_def)
  then have "findings_ok (fold (onSchemaError index) errs [])" for index errs
    by (intro findings_fold) simp_all
  then show ?thesis by (auto simp: validateSchema_def Let_def split: option.splits)
qed

lemma reference_findings: "findings_ok (validateReferences project)"
proof -
  have "findings_ok (checkRef index site r)" if "findings_ok r" for index site r
    using that by (auto simp: checkRef_def Let_def split: option.splits)
  then have "findings_ok (fold (checkRef index) sites r)" if "findings_ok r" for index sites r
    using that by (rule findings_fold [rotated])
  then have "findings_ok (case rawDocument f of None \<Rightarrow> r | Some root \<Rightarrow> fold (checkRef index) (collectRefs root) r)"
    if "findings_ok r" for index f r using that by (cases "rawDocument f") simp_all
  then show ?thesis unfolding validateReferences_def Let_def by (intro findings_fold) simp_all
qed

lemma uniqueness_findings: "findings_ok (validateUniqueness project)"
proof -
  have "finding_ok (duplicate_error p n ms)" for p n ms by (simp add: duplicate_error_def Let_def)
  then have scope: "findings_ok (checkScope p ks out)" if "findings_ok out" for p ks out
    using that by (auto simp: checkScope_def list_all_iff)
  have "findings_ok (check_in base ns out)" if "findings_ok out" for base ns out
    using that by (induction base ns out rule: check_in.induct) (auto simp: Let_def scope)
  then have "findings_ok (checkNode node base out)" if "findings_ok out" for node base out
    using that scope by (simp add: checkNode_def Let_def)
  then have "findings_ok (case rawDocument f of None \<Rightarrow> r | Some root \<Rightarrow> checkNode root [] r)"
    if "findings_ok r" for f r using that by (cases "rawDocument f") simp_all
  then show ?thesis unfolding validateUniqueness_def by (intro findings_fold) simp_all
qed

lemma can_findings: "findings_ok (validateCanSemantics project)"
proof -
  have bits: "findings_ok (snd (claimBits p ref bs st))" if "findings_ok (snd st)" for p ref bs st
    using that
  proof (induction p ref bs st rule: claimBits.induct)
    case (2 p ref b bs occ out)
    then show ?case by (auto simp: out_of_range_error_def overlap_error_def split: option.splits)
  qed simp
  then have "findings_ok (snd (claimMapping p sigs m st))" if "findings_ok (snd st)" for p sigs m st
    using that by (auto simp: claimMapping_def split: option.splits)
  then have "findings_ok (snd (fold (claimMapping p sigs) ms st))" if "findings_ok (snd st)" for p sigs ms st
    using that by (induction ms arbitrary: st) simp_all
  then have overlap: "findings_ok (checkSignalOverlap p sigs out)" if "findings_ok out" for p sigs out
    using that by (simp add: checkSignalOverlap_def Let_def)
  have len: "findings_ok (checkPayloadLength kind name n sp out)" if "findings_ok out" for kind name n sp out
    using that by (simp add: checkPayloadLength_def)
  have "findings_ok (canFile f r)" if "findings_ok r" for f r
    unfolding canFile_def Let_def by (intro findings_fold overlap len that)
  then show ?thesis unfolding validateCanSemantics_def by (intro findings_fold) simp_all
qed

lemma validation_findings: "findings_ok (validateAll lib project)"
  using schema_findings reference_findings uniqueness_findings can_findings
  by (simp add: validateAll_concat list_all_iff ball_Un)

subsection \<open>Differences\<close>

definition fields_ok :: "field_diff list \<Rightarrow> bool" where
  "fields_ok ds \<longleftrightarrow> list_all (\<lambda>f. fieldName f \<noteq> []) ds"

lemma fields_ok_simps [simp]:
  "fields_ok []" "fields_ok (xs @ ys) \<longleftrightarrow> fields_ok xs \<and> fields_ok ys"
  "fields_ok xs \<Longrightarrow> fields_ok (without_fields ns xs)"
  by (auto simp: fields_ok_def without_fields_def list_all_iff)

lemma fields_struct: "[] \<notin> set names \<Longrightarrow> fields_ok (diffStruct names values old new)"
proof -
  have "[] \<notin> set names \<Longrightarrow> fields_ok (diffStructImpl names xs ys)" for xs ys
    by (induction names xs ys rule: diffStructImpl.induct) (auto simp: fields_ok_def)
  then show "[] \<notin> set names \<Longrightarrow> ?thesis" by (simp add: diffStruct_def)
qed

lemma fields_nested: "fields_ok (diffNestedCollectionWith old new toStr keyOf field itemDiff)"
  by (auto simp: diffNestedCollectionWith_def Let_def fields_ok_def list_all_iff keyedName_def split: option.splits if_splits)

lemma fields_elements:
  "fields_ok (diffFrameElements f g)" "fields_ok (diffPduElements p q)" "fields_ok (diffSignalElements s t)"
  "fields_ok (diffSignalGroupElements a b)"
  by (simp_all add: diffFrameElements_def diffPduElements_def diffSignalElements_def diffSignalGroupElements_def
      diffSignalValueTable_def diffNestedStrings_def diffNestedFramePdus_def diffNestedPduSignals_def
      diffNestedValueTable_def fields_nested fields_struct Let_def names_Frame_def names_Pdu_def names_Signal_def
      names_SignalGroup_def)

lemma fields_pair: "fields_ok (diffPair old new ty op np)"
proof -
  have found: "(\<And>x y. fields_ok (f x y)) \<Longrightarrow> fields_ok (diffFound m m' f op np)"
    for f :: "'a \<Rightarrow> 'a \<Rightarrow> field_diff list" and m m'
    by (auto simp: diffFound_def split: option.splits)
  have c: "fields_ok (diffStruct names_Cluster values_Cluster x y)" for x y
    by (simp add: fields_struct names_Cluster_def)
  have e: "fields_ok (diffStruct names_EcuInstance values_EcuInstance x y)" for x y
    by (simp add: fields_struct names_EcuInstance_def)
  show ?thesis
    unfolding diffPair_def by (simp only: found [OF c] found [OF e] found [OF fields_elements(1)]
      found [OF fields_elements(2)] found [OF fields_elements(3)] found [OF fields_elements(4)] fields_ok_simps
      if_True if_False split: if_splits) simp
qed

definition report_ok :: "diff_entry list \<Rightarrow> diff_diagnostic list \<Rightarrow> bool" where
  "report_ok es ds \<longleftrightarrow> list_all entry_ok es \<and> list_all diagnostic_ok ds"

lemma match_ok: "ty \<noteq> [] \<Longrightarrow> list_all entry_ok (entries (matchByPath old new ty)) \<and> diagnostics (matchByPath old new ty) = []"
  by (auto simp: matchByPath_def list_all_iff entry_ok_def new_entry_def split: if_splits)

lemma matched_ok: "report_ok (entries (matchParsedProjects old new)) (diagnostics (matchParsedProjects old new))"
  by (simp add: matchParsedProjects_def mergeReport_def empty_report_def report_ok_def match_ok)

lemma entry_update: "list_all entry_ok es \<Longrightarrow> list_all entry_ok (es[r := (es ! r)\<lparr>de_kind := k, newPath := p\<rparr>])"
  by (cases "r < length es") (auto simp: list_all_length nth_list_update entry_ok_def list_update_beyond)

lemma group_ok:
  assumes "ty \<noteq> []" "report_ok es ds" "processGroup ty kg (es, ds, er) = (es', ds', er')"
  shows "report_ok es' ds'"
proof -
  have "ambiguityMessage es ty (fst kg) g \<noteq> []" for g by (simp add: ambiguityMessage_def)
  then have "diagnostic_ok \<lparr>dd_message = ambiguityMessage es ty (fst kg) g, dd_elementType = ty\<rparr>" for g
    using assms(1) by (simp add: diagnostic_ok_def)
  then show ?thesis
    using assms(2,3) by (auto simp: processGroup_def report_ok_def Let_def entry_update split: prod.splits if_splits)
qed

lemma groups_ok:
  "ty \<noteq> [] \<Longrightarrow> report_ok es ds \<Longrightarrow> fold (processGroup ty) gs (es, ds, er) = (es', ds', er') \<Longrightarrow> report_ok es' ds'"
proof (induction gs arbitrary: es ds er)
  case (Cons g gs)
  obtain es1 ds1 er1 where g: "processGroup ty g (es, ds, er) = (es1, ds1, er1)" by (metis prod_cases3)
  then show ?case using Cons.IH [of es1 ds1 er1] group_ok [OF Cons.prems(1,2) g] Cons.prems by simp
qed simp

lemma kept_ok: "list_all entry_ok es \<Longrightarrow> list_all entry_ok (keepEntries i er es)"
  by (induction i er es rule: keepEntries.induct) auto

lemma moves_ok:
  assumes "ty \<noteq> []" "report_ok (entries r) (diagnostics r)"
  shows "report_ok (entries (detectMovesForType oi ni sk ty r)) (diagnostics (detectMovesForType oi ni sk ty r))"
proof -
  obtain es ds er where f: "fold (processGroup ty) (fold (groupEntry oi ni sk ty) (enumerate 0 (entries r)) [])
      (entries r, diagnostics r, []) = (es, ds, er)" by (metis prod_cases3)
  then show ?thesis
    using groups_ok [OF assms f] kept_ok [of es 0] by (simp add: detectMovesForType_def report_ok_def)
qed

lemma diff_ok: "report_ok (entries (diff old new)) (diagnostics (diff old new))"
proof -
  let ?m = "applyMoveDetection old new (matchParsedProjects old new)"
  have m: "report_ok (entries ?m) (diagnostics ?m)"
    unfolding applyMoveDetection_def Let_def by (intro moves_ok matched_ok) simp_all
  have "list_all entry_ok (populateEntry old new e)" if "entry_ok e" for e
    using that fields_pair [of old new "elementType e" "oldPath e" "newPath e"]
    by (auto simp: populateEntry_def Let_def entry_ok_def fields_ok_def)
  with m have "report_ok (entries (unsortedDiff old new)) (diagnostics (unsortedDiff old new))"
    by (auto simp: unsortedDiff_def populateFieldDiffs_def report_ok_def list_all_iff)
  then show ?thesis
    by (simp add: diff_def sortDeterministically_def report_ok_def list_all_iff)
qed

subsection \<open>Spans\<close>

fun named_scope :: "scope \<Rightarrow> bool" where
  "named_scope (Scope name readings endPoint thrown calls inner) \<longleftrightarrow> name \<noteq> [] \<and> list_all named_scope inner"

lemma spans_ok:
  "named_scope t \<Longrightarrow> 0 < n \<Longrightarrow> n + scopeSize t \<le> 2 ^ 64 \<Longrightarrow> p \<noteq> Some 0 \<Longrightarrow> list_all span_ok (spansOf o0 p n t)"
  "list_all named_scope ts \<Longrightarrow> 0 < n \<Longrightarrow> n + sum_list (map scopeSize ts) \<le> 2 ^ 64 \<Longrightarrow> p \<noteq> Some 0 \<Longrightarrow>
    list_all span_ok (spansOfAll o0 p n ts)"
proof (induction o0 p n t and o0 p n ts rule: spansOf_spansOfAll.induct)
  case (1 origin parent n name readings endPoint thrown calls inner)
  have "(of_nat n :: span_id) \<noteq> 0" using 1(3,4) id_eq [of n 0] by simp
  then show ?case using 1 by (simp add: span_ok_def)
qed simp_all

lemma process_trace_ok:
  assumes "named_scope t" and "scopeSize t < 2 ^ 64"
  shows "list_all span_ok (tm_trace (runScope u t (setEnabled True startTelemetry)))"
proof -
  obtain name readings endPoint thrown calls inner where t: "t = Scope name readings endPoint thrown calls inner"
    by (cases t)
  let ?tm = "(setEnabled True startTelemetry)\<lparr>tm_origin := Some (fst readings)\<rparr>"
  have "runScope u t (setEnabled True startTelemetry) = runScope u t ?tm"
    unfolding t by (rule runScope_origin) (simp_all add: setEnabled_def startTelemetry_def)
  moreover have "runScope u t ?tm = ?tm\<lparr>tm_counter := of_nat (1 + scopeSize t),
      tm_trace := tm_trace ?tm @ spansOf (fst readings) None 1 t\<rparr>"
    by (rule runScope_spans(1)) (simp_all add: setEnabled_def startTelemetry_def)
  ultimately show ?thesis
    using spans_ok(1) [of t 1 None "fst readings"] assms by (simp add: setEnabled_def startTelemetry_def)
qed

section \<open>The contract\<close>

lemma jset_jassign: "jset k v (jassign kvs) = jassign (kvs @ [(k, v)])"
  by (simp add: jassign_def)

lemma validate_conforms:
  assumes "is_semver version" "findings_ok r"
  shows "envelopeConforms (buildJsonValidate version r strict)"
proof -
  have "version \<noteq> []" using assms(1) by (auto simp: is_semver_def)
  then show ?thesis
    using assms error_conforms
    by (simp add: buildJsonValidate_def resultToJson_def wrapEnvelope_def Let_def json_simps jset_jassign
        envelopeConforms_def conforms_jassign payloadShape_def validationResultShape_def list_all_iff finding_ok_def
        Suc_le_eq)
qed

lemma parse_conforms: "is_semver version \<Longrightarrow> envelopeConforms (buildJsonParse version parsed)"
  unfolding buildJsonParse_def by (intro envelope_conforms; simp add: payloadShape_def)

lemma write_conforms: "is_semver version \<Longrightarrow> envelopeConforms (buildJsonWrite version input outFile applied success)"
  unfolding buildJsonWrite_def by (intro envelope_conforms; simp add: payloadShape_def)

lemma difference_conforms: "is_semver version \<Longrightarrow> envelopeConforms (buildJsonDiff version (diff old new))"
  unfolding buildJsonDiff_def reportToJson_def using diff_ok [of old new]
  by (intro envelope_conforms) (simp_all add: payloadShape_def diff_conforms report_ok_def)

lemma export_conforms:
  "is_semver version \<Longrightarrow> format \<in> {''dbc'', ''csv''} \<Longrightarrow>
    envelopeConforms (buildJsonExport version input format outFile database text)"
  unfolding buildJsonExport_def
  by (intro envelope_conforms) (auto simp: payloadShape_def exportResultShape_def conforms_jassign conforms_jobj jnat_def list_all_iff)

lemma telemetry_conforms:
  assumes "is_semver version" and "named_scope t" and "scopeSize t < 2 ^ 64"
  shows "envelopeConforms (traceToJson version (tm_trace (runScope u t (setEnabled True startTelemetry))))"
  unfolding traceToJson_def
  by (intro envelope_conforms [OF assms(1)]) (simp, simp add: payloadShape_def trace_conforms [OF process_trace_ok [OF assms(2,3)]])

subsection \<open>Findings when the checks were not reached\<close>

text \<open>The exceptions of the loader have a text, so that a finding made of one has a message.\<close>

definition loader_speaks :: "tool_lib \<Rightarrow> bool" where
  "loader_speaks rt \<longleftrightarrow> (\<forall>fs path x. load (tl_env rt fs) path = Inl x \<longrightarrow> exn_message x \<noteq> [])"

lemma parse_speaks: "loader_speaks rt \<Longrightarrow> parseFile (tl_env rt fs) path = Inl x \<Longrightarrow> exn_message x \<noteq> []"
  unfolding loader_speaks_def
  by (auto simp: parseFile_def buildFile_def unsupportedReleaseMessage_def split: sum.splits option.splits)

lemma schema_error_speaks: "schemaErrorMessage err \<noteq> []"
  by (simp add: schemaErrorMessage_def)

lemma cli_findings_ok:
  assumes "loader_speaks (ce_lib e)" and "cliFindings e input w = (r, w')"
  shows "findings_ok r"
  using assms parse_speaks [OF assms(1)]
  by (auto simp: cliFindings_def parseInput_def Let_def merge_def schema_error_speaks
      split: sum.splits prod.splits if_splits intro: validation_findings)

lemma server_findings_ok:
  assumes "loader_speaks rt" and "validateFindings rt path w = (r, w')"
  shows "findings_ok r"
  using assms parse_speaks [OF assms(1)]
  by (auto simp: validateFindings_def parseAt_def Let_def merge_def schema_error_speaks
      split: sum.splits prod.splits if_splits intro: validation_findings)

subsection \<open>A checking printer\<close>

text \<open>
  The command line with a JSON library that refuses to print anything outside the contract. That a run does
  not change under it says that all it prints as JSON, reports and traces, is inside.
\<close>

definition checked :: "string \<Rightarrow> cli_env \<Rightarrow> cli_env" where
  "checked what e = e\<lparr>ce_dump := (\<lambda>j. if envelopeConforms j then ce_dump e j else Inl what)\<rparr>"

lemma checked_fields [simp]:
  "ce_cli11 (checked what e) = ce_cli11 e" "ce_lib (checked what e) = ce_lib e" "ce_opened (checked what e) = ce_opened e"
  "ce_closed (checked what e) = ce_closed e" "ce_inner (checked what e) = ce_inner e"
  "ce_cacheVariable (checked what e) = ce_cacheVariable e" "ce_write (checked what e) = ce_write e"
  by (simp_all add: checked_def)

lemma checked_input [simp]: "parseInput (checked what e) = parseInput e" "cliRegistry (checked what e) = cliRegistry e"
  "cliVersion (checked what e) = cliVersion e"
  by (simp_all add: fun_eq_iff parseInput_def cliRegistry_def cliVersion_def)

lemma checked_engines [simp]:
  "applySchemaCacheDir (checked what e) = applySchemaCacheDir e" "commandSpan (checked what e) = commandSpan e"
  "cliFindings (checked what e) = cliFindings e" "exportEngines (checked what e) = exportEngines e"
  by (intro ext; simp only: applySchemaCacheDir_def commandSpan_def cliFindings_def exportEngines_def checked_fields
      checked_input)+

lemmas checked_simps = checked_fields checked_input checked_engines

lemma checked_dump [simp]: "envelopeConforms j \<Longrightarrow> dumpTo s (checked what e) j = dumpTo s e j"
  by (simp add: dumpTo_def checked_def)

text \<open>What the engines below a command open has names, and is not too much to number.\<close>

definition inner_named :: "cli_env \<Rightarrow> bool" where
  "inner_named e \<longleftrightarrow> list_all named_scope (ce_inner e) \<and> Suc (sum_list (map scopeSize (ce_inner e))) < 2 ^ 64"

lemma checked_trace:
  assumes "is_semver (cliVersion e)" and "inner_named e" and "name \<noteq> []"
  shows "emitTraceIfEnabled (checked what e) opts (commandSpan e opts name startTelemetry)
    = emitTraceIfEnabled e opts (commandSpan e opts name startTelemetry)"
proof (cases "traceFlag opts")
  case True
  have "commandSpan e opts name startTelemetry
      = runScope 0 (Scope name (ce_opened e) (ce_closed e) False [] (ce_inner e)) (setEnabled True startTelemetry)"
    using True by (simp add: commandSpan_def Let_def resetTrace_def setEnabled_def startTelemetry_def)
  moreover have "envelopeConforms (traceToJson (cliVersion e) (tm_trace
      (runScope 0 (Scope name (ce_opened e) (ce_closed e) False [] (ce_inner e)) (setEnabled True startTelemetry))))"
    using assms by (intro telemetry_conforms) (simp_all add: inner_named_def)
  ultimately show ?thesis by (simp add: emitTraceIfEnabled_def currentTraceAsJson_def)
qed (simp add: emitTraceIfEnabled_def)

lemma frame_checked:
  assumes "is_semver (cliVersion e)" and "inner_named e" and "name \<noteq> []" and "cw_telemetry w = startTelemetry"
    and "\<And>w1 result w2. engines w1 = (result, w2) \<Longrightarrow> cw_telemetry w2 = cw_telemetry w1"
    and "\<And>w1 r w2. engines w1 = (Inr r, w2) \<Longrightarrow> render' r = render r"
  shows "runFrame (checked what e) opts args dir name engines render' w = runFrame e opts args dir name engines render w"
proof -
  obtain debug w1 where a: "applySchemaCacheDir e args dir w = (debug, w1)" by fastforce
  obtain result w2 where b: "engines w1 = (result, w2)" by fastforce
  have "cw_telemetry w1 = cw_telemetry w"
    using a by (auto simp: applySchemaCacheDir_def Let_def split: if_splits prod.splits)
  then have t: "cw_telemetry w2 = startTelemetry" using assms(4) assms(5) [OF b] by simp
  have "result = Inr r \<Longrightarrow> render' r = render r" for r using assms(6) b by blast
  then have "finishCommand (checked what e) opts (commandSpan e opts name startTelemetry) result render'
      = finishCommand e opts (commandSpan e opts name startTelemetry) result render"
    by (simp add: finishCommand_def checked_trace [OF assms(1-3)] split: sum.split)
  then show ?thesis by (simp add: runFrame_def a b t)
qed

text \<open>CLI11 accepts the two formats only.\<close>

definition format_ok :: "command \<Rightarrow> bool" where
  "format_ok c \<longleftrightarrow> (case c of ExportCmd input format outFile \<Rightarrow> format \<in> {''dbc'', ''csv''} | _ \<Rightarrow> True)"

lemma command_checked:
  assumes "is_semver (cliVersion e)" and "inner_named e" and "loader_speaks (ce_lib e)"
    and "cw_telemetry w = startTelemetry" and "format_ok (cc_command call)"
  shows "runCommand (checked what e) args call w = runCommand e args call w"
proof -
  note frame = frame_checked [OF assms(1,2) _ assms(4)]
  note conforming = parse_conforms [OF assms(1)] difference_conforms [OF assms(1)] write_conforms [OF assms(1)]
    export_conforms [OF assms(1)]
  have "runParseCommand (checked what e) opts args dir input w = runParseCommand e opts args dir input w" for opts dir input
    unfolding runParseCommand_def checked_simps by (rule frame) (auto simp: conforming)
  moreover have "runValidateCommand (checked what e) opts args dir input b w = runValidateCommand e opts args dir input b w"
    for opts dir input b
    unfolding runValidateCommand_def checked_simps
  proof (rule frame)
    show "cw_telemetry w2 = cw_telemetry w1"
      if "(case cliFindings e input w1 of (result, w') \<Rightarrow> (Inr result, w')) = (result, w2)" for w1 w2 result
      using that by (auto simp: cliFindings_def Let_def split: sum.splits prod.splits if_splits)
  qed (auto simp: validate_conforms [OF assms(1) cli_findings_ok [OF assms(3)]] split: prod.splits)
  moreover have "runDiffCommand (checked what e) opts args dir input out w = runDiffCommand e opts args dir input out w"
    for opts dir input out
    unfolding runDiffCommand_def checked_simps by (rule frame) (auto simp: conforming split: sum.splits)
  moreover have "runWriteCommand (checked what e) opts args dir input out b w = runWriteCommand e opts args dir input out b w"
    for opts dir input out b
    unfolding runWriteCommand_def checked_simps
    by (rule frame) (auto simp: conforming split: sum.splits prod.splits option.splits if_splits)
  moreover have "runExportCommand (checked what e) opts args dir input form out w = runExportCommand e opts args dir input form out w"
    if "form \<in> {''dbc'', ''csv''}" for opts dir input form out
    unfolding runExportCommand_def checked_simps
    by (rule frame) (use that in \<open>auto simp: conforming exportEngines_def Let_def split: sum.splits prod.splits option.splits if_splits\<close>)
  ultimately show ?thesis
    using assms(5) by (cases "cc_command call") (simp_all add: runCommand_def format_ok_def)
qed

text \<open>What a tool of the server returns has a report inside, which conforms.\<close>

definition returns_report :: "(thrown + json) \<times> server_world \<Rightarrow> bool" where
  "returns_report run \<longleftrightarrow>
    (case fst run of
       Inl _ \<Rightarrow> True
     | Inr result \<Rightarrow> (case jfind ''structuredContent'' result of Some report \<Rightarrow> envelopeConforms report | None \<Rightarrow> False))"

lemma tools_report:
  assumes "is_semver (tl_version rt)" and "loader_speaks rt"
    and "findTool (serverRegistry rt) name = Some tool"
  shows "returns_report (td_handler tool args w)"
proof -
  note conforming = parse_conforms [OF assms(1)] difference_conforms [OF assms(1)] write_conforms [OF assms(1)]
    export_conforms [OF assms(1)] validate_conforms [OF assms(1)]
  have v: "findings_ok r \<Longrightarrow> envelopeConforms (validateEnvelope (tl_version rt) r strict)" for r strict
    using conforming(5) by (simp add: same_json)
  have "returns_report (parseTool rt args w)"
    using conforming(1) by (auto simp: returns_report_def parseTool_def andThen_def packed_report same_json split: sum.split)
  moreover have "returns_report (validateTool rt args w)"
    using v server_findings_ok [OF assms(2)]
    by (auto simp: returns_report_def validateTool_def packed_report split: sum.split prod.split)
  moreover have "returns_report (diffTool rt args w)"
    using conforming(2) by (auto simp: returns_report_def diffTool_def andThen_def Let_def packed_report buildJsonDiff_def split: sum.split)
  moreover have "returns_report (writeTool rt args w)"
    using conforming(3) by (auto simp: returns_report_def writeTool_def Let_def packed_report same_json
        split: sum.split prod.split option.split)
  moreover have "returns_report (exportTool rt args w)"
    using export_conforms [OF assms(1), where outFile = "[]"] by (auto simp: returns_report_def exportTool_def andThen_def Let_def packed_report
        buildJsonExport_def warningsToJson_def comp_def split: sum.split)
  ultimately show ?thesis using server_handler [OF assms(3)] by auto
qed

text \<open>C8: every report the program prints has the shape its contract publishes: under a proper version number, and
  when the loader's exceptions have a text, the spans below a command a name (and are fewer than
  \<open>2 ^ 64\<close>) and the format of an export is one of the two CLI11 accepts, no run of a command of a fresh process, whatever its input and outcome, changes under a
  JSON library that refuses all but conforming envelopes; so the reports of the five commands, the findings of
  a file that does not parse or has no schema included, and the traces are conforming envelopes. And what
  any tool of the server returns without an exception is a conforming envelope.\<close>

theorem reports_conform:
  assumes "is_semver (cliVersion e)" and "loader_speaks (ce_lib e)" and "inner_named e"
    and "ce_cli11 e args = Inr call" and "format_ok (cc_command call)" and "cw_telemetry w = startTelemetry"
    and "findTool (serverRegistry (ce_lib e)) name = Some tool"
  shows "cliMain (checked what e) args w = cliMain e args w \<and> returns_report (td_handler tool targs sw)"
proof
  show "cliMain (checked what e) args w = cliMain e args w"
    using assms by (simp add: cliMain_def command_checked)
  show "returns_report (td_handler tool targs sw)"
    using assms(1,2,7) by (intro tools_report) (simp_all add: cliVersion_def)
qed

theorem reports_conform_witness:
  "\<forall>what. cliMain (checked what ((sample_cli (ParseCmd ''/b.arxml''))\<lparr>ce_lib := sample_tools\<lparr>tl_version := ''1.0.12''\<rparr>\<rparr>)) [] sample_world
    = cliMain ((sample_cli (ParseCmd ''/b.arxml''))\<lparr>ce_lib := sample_tools\<lparr>tl_version := ''1.0.12''\<rparr>\<rparr>) [] sample_world"
proof
  fix what
  let ?e = "(sample_cli (ParseCmd ''/b.arxml''))\<lparr>ce_lib := sample_tools\<lparr>tl_version := ''1.0.12''\<rparr>\<rparr>"
  have v: "is_semver (cliVersion ?e)" by (simp add: is_semver_def is_digit_def less_eq_char_def cliVersion_def)
  have l: "loader_speaks (ce_lib ?e)"
    by (auto simp: loader_speaks_def sample_tools_def sample_env_def loadMessage_def)
  have i: "inner_named ?e" by (simp add: inner_named_def sample_cli_def)
  obtain call where c: "ce_cli11 ?e [] = Inr call" "format_ok (cc_command call)"
    by (simp add: sample_cli_def format_ok_def)
  have t: "cw_telemetry sample_world = startTelemetry" by (simp add: sample_world_def)
  obtain tool where f: "findTool (serverRegistry (ce_lib ?e)) ''parse_arxml'' = Some tool"
    by (simp add: findTool_def serverRegistry_def lookup_set inv_set inv_withSchemas lookup_withSchemas builtinTools_def newTool_def)
  show "cliMain (checked what ?e) [] sample_world = cliMain ?e [] sample_world"
    using reports_conform [OF v l i c t f] by blast
qed

end
