(* ===== verification/CacheCrash.thy ===== *)
theory CacheCrash
  imports SchemaCache
begin

text \<open>
  The atomic write as a state machine, one step per system call of \<open>src/atomic_write.cpp\<close>: what another
  process, or the next run after a crash, can find on the disk between any two calls. The function
  \<open>writeCacheAtomically\<close> of \<open>SchemaCache\<close> is shown to take only these steps.
\<close>

section \<open>The steps\<close>

datatype aw_phase = AwStart | AwWriting nat | AwWritten | AwSynced | AwDone | AwFailed | AwCleaned

type_synonym aw_state = "aw_phase \<times> disk"

text \<open>\<open>tmp\<close> is the temporary file beside \<open>path\<close>. Any call but the last may fail; the cleanup runs after it.\<close>

inductive aw_step :: "fpath \<Rightarrow> fpath \<Rightarrow> string \<Rightarrow> aw_state \<Rightarrow> aw_state \<Rightarrow> bool"
  for path tmp data where
  open_tmp: "aw_step path tmp data (AwStart, fs) (AwWriting 0, fs(tmp := Some []))"
| write_some: "written < length data \<Longrightarrow> k \<le> length data - written \<Longrightarrow>
    aw_step path tmp data (AwWriting written, fs) (AwWriting (written + k), fs(tmp := Some (take (written + k) data)))"
| write_retry: "written < length data \<Longrightarrow> aw_step path tmp data (AwWriting written, fs) (AwWriting written, fs)"
| write_full: "aw_step path tmp data (AwWriting (length data), fs) (AwWritten, fs)"
| sync_tmp: "aw_step path tmp data (AwWritten, fs) (AwSynced, fs)"
| rename_tmp: "aw_step path tmp data (AwSynced, fs) (AwDone, fs(path := fs tmp, tmp := None))"
| call_fails: "phase \<notin> {AwDone, AwFailed, AwCleaned} \<Longrightarrow> aw_step path tmp data (phase, fs) (AwFailed, fs)"
| clean_up: "aw_step path tmp data (AwFailed, fs) (AwCleaned, fs(tmp := None))"

inductive_cases aw_stepE: "aw_step path tmp data (phase, fs) st"

inductive_simps aw_step_final [simp]:
  "aw_step path tmp data (AwDone, fs) st"
  "aw_step path tmp data (AwCleaned, fs) st"

abbreviation aw_steps :: "fpath \<Rightarrow> fpath \<Rightarrow> string \<Rightarrow> aw_state \<Rightarrow> aw_state \<Rightarrow> bool" where
  "aw_steps path tmp data \<equiv> (aw_step path tmp data)\<^sup>*\<^sup>*"

section \<open>The invariant\<close>

text \<open>
  Until the rename the target is untouched and the temporary file holds the part written so far; all
  other files are never touched.
\<close>

definition aw_inv :: "fpath \<Rightarrow> fpath \<Rightarrow> string \<Rightarrow> disk \<Rightarrow> aw_state \<Rightarrow> bool" where
  "aw_inv path tmp data fs0 st \<longleftrightarrow>
    (case st of (phase, fs) \<Rightarrow>
      (\<forall>p. p \<noteq> path \<and> p \<noteq> tmp \<longrightarrow> fs p = fs0 p)
      \<and> fs path = (if phase = AwDone then Some data else fs0 path)
      \<and> (case phase of
           AwWriting written \<Rightarrow> written \<le> length data \<and> fs tmp = Some (take written data)
         | AwWritten \<Rightarrow> fs tmp = Some data
         | AwSynced \<Rightarrow> fs tmp = Some data
         | AwDone \<Rightarrow> fs tmp = None
         | AwCleaned \<Rightarrow> fs tmp = None
         | _ \<Rightarrow> True))"

lemma aw_inv_start: "aw_inv path tmp data fs (AwStart, fs)"
  by (simp add: aw_inv_def)

lemma aw_inv_step:
  "aw_step path tmp data st st' \<Longrightarrow> tmp \<noteq> path \<Longrightarrow> aw_inv path tmp data fs0 st \<Longrightarrow> aw_inv path tmp data fs0 st'"
  by (induction rule: aw_step.induct) (auto simp: aw_inv_def split: aw_phase.splits)

lemma aw_inv_steps:
  "aw_steps path tmp data st st' \<Longrightarrow> tmp \<noteq> path \<Longrightarrow> aw_inv path tmp data fs0 st \<Longrightarrow> aw_inv path tmp data fs0 st'"
  by (induction rule: rtranclp_induct) (auto intro: aw_inv_step)

section \<open>The function takes these steps\<close>

lemma write_steps:
  "portableWriteFull calls (length data) written = (ok, n) \<Longrightarrow> written \<le> length data \<Longrightarrow>
    n \<le> length data \<and> (ok \<longrightarrow> n = length data)
    \<and> aw_steps path tmp data (AwWriting written, fs(tmp := Some (take written data)))
        (AwWriting n, fs(tmp := Some (take n data)))"
proof (induction calls "length data" written rule: portableWriteFull.induct)
  case (1 written)
  show ?case
  proof (cases "written < length data")
    case True
    then show ?thesis using 1 write_some [of written data "length data - written" path tmp "fs(tmp := Some (take written data))"]
      by auto
  next
    case False
    then show ?thesis using 1 by auto
  qed
next
  case (2 call rest written)
  show ?case
  proof (cases "written < length data")
    case True
    show ?thesis
    proof (cases call)
      case (Wrote k)
      have "aw_step path tmp data (AwWriting written, fs(tmp := Some (take written data)))
          (AwWriting (written + min k (length data - written)),
           fs(tmp := Some (take (written + min k (length data - written)) data)))"
        using write_some [of written data "min k (length data - written)" path tmp "fs(tmp := Some (take written data))"]
          True by simp
      then show ?thesis using 2 True Wrote by (auto intro: converse_rtranclp_into_rtranclp)
    next
      case Interrupted
      then show ?thesis using 2 True by simp
    next
      case WriteFault
      then show ?thesis using 2 True by simp
    qed
  next
    case False
    then show ?thesis using 2 by auto
  qed
qed

lemma tmp_file_steps:
  assumes "writeTmpFileSync io tmp data fs = (r, fs')"
  shows "\<exists>phase. aw_steps path tmp data (AwStart, fs) (phase, fs') \<and> phase \<in> (if r = None then {AwSynced} else {AwFailed})"
proof (cases "ic_open io")
  case (Some err)
  then show ?thesis using assms by (auto simp: writeTmpFileSync_def intro!: call_fails)
next
  case None
  obtain ok n where w: "portableWriteFull (ic_writes io) (length data) 0 = (ok, n)" by fastforce
  have "aw_steps path tmp data (AwStart, fs) (AwWriting 0, fs(tmp := Some (take 0 data)))"
    by (simp add: open_tmp r_into_rtranclp)
  with write_steps [OF w, of path tmp fs] have n: "ok \<longrightarrow> n = length data"
    and wr: "aw_steps path tmp data (AwStart, fs) (AwWriting n, fs(tmp := Some (take n data)))"
    by (auto intro: rtranclp_trans)
  show ?thesis
  proof (cases ok)
    case False
    then show ?thesis using assms None w wr
      by (auto simp: writeTmpFileSync_def intro: rtranclp.rtrancl_into_rtrancl [OF wr call_fails])
  next
    case True
    have full: "aw_steps path tmp data (AwStart, fs) (AwWritten, fs(tmp := Some data))"
      using rtranclp.rtrancl_into_rtrancl [OF wr] write_full [of path tmp data] True n by auto
    show ?thesis
    proof (cases "ic_sync io")
      case None
      then show ?thesis using assms \<open>ic_open io = None\<close> w True n
          rtranclp.rtrancl_into_rtrancl [OF full sync_tmp] by (auto simp: writeTmpFileSync_def)
    next
      case (Some err)
      then show ?thesis using assms \<open>ic_open io = None\<close> w True n
          rtranclp.rtrancl_into_rtrancl [OF full call_fails] by (auto simp: writeTmpFileSync_def)
    qed
  qed
qed

lemma drop_steps: "aw_steps path tmp data st (AwFailed, fs) \<Longrightarrow>
    \<exists>phase. aw_steps path tmp data st (phase, dropTmp io tmp fs) \<and> phase \<noteq> AwDone"
  by (cases "ic_removes io") (auto simp: dropTmp_def intro: rtranclp.rtrancl_into_rtrancl clean_up)

lemma atomic_write_steps:
  assumes "writeCacheAtomically io path data fs = (r, fs')"
  shows "\<exists>phase. aw_steps path (tmpOf io path) data (AwStart, fs) (phase, fs') \<and> (r = None \<longleftrightarrow> phase = AwDone)"
proof (cases "ic_dirs io")
  case (Some err)
  then show ?thesis using assms by (auto simp: writeCacheAtomically_def Let_def)
next
  case None
  obtain r1 fs1 where w: "writeTmpFileSync io (tmpOf io path) data fs = (r1, fs1)" by fastforce
  show ?thesis
  proof (cases r1)
    case (Some err)
    then have "aw_steps path (tmpOf io path) data (AwStart, fs) (AwFailed, fs1)"
      using tmp_file_steps [OF w] by auto
    from drop_steps [OF this, of io] show ?thesis using assms None w Some by (auto simp: writeCacheAtomically_def Let_def)
  next
    case r1: None
    then have synced: "aw_steps path (tmpOf io path) data (AwStart, fs) (AwSynced, fs1)"
      using tmp_file_steps [OF w] by auto
    show ?thesis
    proof (cases "ic_rename io")
      case rn: None
      show ?thesis using assms None w r1 rn rtranclp.rtrancl_into_rtrancl [OF synced rename_tmp]
        by (auto simp: writeCacheAtomically_def Let_def)
    next
      case (Some err)
      have "aw_steps path (tmpOf io path) data (AwStart, fs) (AwFailed, fs1)"
        using rtranclp.rtrancl_into_rtrancl [OF synced call_fails] by simp
      from drop_steps [OF this, of io] show ?thesis using assms None w r1 Some by (auto simp: writeCacheAtomically_def Let_def)
    qed
  qed
qed

text \<open>C13: the write is never seen half done: whatever call fails or wherever the process is killed, the
  target holds what it held before or all of the new data, no other file but the temporary one has
  changed, and a write that reports success has put the data in place; the state the function
  ends in is one of these.\<close>

theorem cache_write_never_torn:
  assumes "writeCacheAtomically io path data fs = (r, fs')"
  shows "(\<exists>phase. aw_steps path (tmpOf io path) data (AwStart, fs) (phase, fs') \<and> (r = None \<longleftrightarrow> phase = AwDone))
    \<and> (\<forall>phase seen. aw_steps path (tmpOf io path) data (AwStart, fs) (phase, seen) \<longrightarrow>
         seen path = (if phase = AwDone then Some data else fs path)
         \<and> (\<forall>p. p \<notin> {path, tmpOf io path} \<longrightarrow> seen p = fs p))"
  using atomic_write_steps [OF assms] aw_inv_steps [OF _ tmp_differs aw_inv_start]
  by (force simp: aw_inv_def)

theorem cache_write_never_torn_witness:
  "\<exists>phase. aw_steps [''c'', ''R''] (tmpOf quiet_call [''c'', ''R'']) ''xsd'' (AwStart, \<lambda>_. None)
     (phase, snd (writeCacheAtomically quiet_call [''c'', ''R''] ''xsd'' (\<lambda>_. None)))"
  using cache_write_never_torn [of quiet_call "[''c'', ''R'']" "''xsd''" "\<lambda>_. None", OF prod.collapse [symmetric]]
  by blast

end
