(* ===== verification/CacheConcurrent.thy ===== *)
theory CacheConcurrent
  imports CacheCrash
begin

text \<open>
  Several processes at one cache directory: every run of the command line or the server may write the
  same entries, and nothing but the random suffix of the temporary names keeps them apart. Their system
  calls interleave in any order; a process may stop for ever at any point.
\<close>

section \<open>Interleaved writers\<close>

text \<open>A writer is its target, its temporary file and its data; the state has the phase of each and the disk.\<close>

record aw_job =
  job_path :: fpath
  job_tmp :: fpath
  job_data :: string

inductive cw_step :: "aw_job list \<Rightarrow> aw_phase list \<times> disk \<Rightarrow> aw_phase list \<times> disk \<Rightarrow> bool" for jobs where
  one_call: "i < length jobs \<Longrightarrow> i < length phases \<Longrightarrow>
    aw_step (job_path (jobs ! i)) (job_tmp (jobs ! i)) (job_data (jobs ! i)) (phases ! i, fs) (phase, fs') \<Longrightarrow>
    cw_step jobs (phases, fs) (phases[i := phase], fs')"

abbreviation cw_steps :: "aw_job list \<Rightarrow> aw_phase list \<times> disk \<Rightarrow> aw_phase list \<times> disk \<Rightarrow> bool" where
  "cw_steps jobs \<equiv> (cw_step jobs)\<^sup>*\<^sup>*"

definition cw_start :: "aw_job list \<Rightarrow> disk \<Rightarrow> aw_phase list \<times> disk" where
  "cw_start jobs fs = (replicate (length jobs) AwStart, fs)"

text \<open>What the random suffix is for: no two writers share a temporary name, and none is a target.\<close>

definition apart :: "aw_job list \<Rightarrow> bool" where
  "apart jobs \<longleftrightarrow> distinct (map job_tmp jobs) \<and> set (map job_tmp jobs) \<inter> set (map job_path jobs) = {}"

lemma apart_names:
  assumes "apart jobs" and "i < length jobs" and "k < length jobs"
  shows "job_tmp (jobs ! i) \<noteq> job_path (jobs ! k)"
proof -
  have "job_tmp (jobs ! i) \<in> set (map job_tmp jobs)" "job_path (jobs ! k) \<in> set (map job_path jobs)"
    using assms(2,3) by simp_all
  then show ?thesis using assms(1) unfolding apart_def by fastforce
qed

section \<open>The invariant\<close>

text \<open>What a writer knows of its own temporary file.\<close>

fun tmp_holds :: "fpath \<Rightarrow> string \<Rightarrow> aw_phase \<Rightarrow> disk \<Rightarrow> bool" where
  "tmp_holds tmp data (AwWriting written) fs \<longleftrightarrow> written \<le> length data \<and> fs tmp = Some (take written data)"
| "tmp_holds tmp data AwWritten fs \<longleftrightarrow> fs tmp = Some data"
| "tmp_holds tmp data AwSynced fs \<longleftrightarrow> fs tmp = Some data"
| "tmp_holds tmp data phase fs \<longleftrightarrow> True"

lemma tmp_holds_frame: "tmp_holds tmp data phase fs \<Longrightarrow> fs' tmp = fs tmp \<Longrightarrow> tmp_holds tmp data phase fs'"
  by (cases phase) simp_all

text \<open>One call: the own temporary file stays known, the target changes only by the rename, to the data.\<close>

lemma aw_step_effect:
  assumes "aw_step path tmp data (phase, fs) (phase', fs')" and "tmp_holds tmp data phase fs" and "tmp \<noteq> path"
  shows "tmp_holds tmp data phase' fs' \<and> phase \<noteq> AwDone \<and> (\<forall>p. p \<noteq> tmp \<longrightarrow> p \<noteq> path \<longrightarrow> fs' p = fs p)
    \<and> fs' path = (if phase' = AwDone then Some data else fs path)"
  using assms by (cases rule: aw_stepE) auto

definition done_for :: "aw_job list \<Rightarrow> aw_phase list \<Rightarrow> fpath \<Rightarrow> nat set" where
  "done_for jobs phases p = {i. i < length jobs \<and> job_path (jobs ! i) = p \<and> phases ! i = AwDone}"

definition cw_inv :: "aw_job list \<Rightarrow> disk \<Rightarrow> aw_phase list \<times> disk \<Rightarrow> bool" where
  "cw_inv jobs fs0 st \<longleftrightarrow>
    (case st of (phases, fs) \<Rightarrow>
      length phases = length jobs
      \<and> (\<forall>i < length jobs. tmp_holds (job_tmp (jobs ! i)) (job_data (jobs ! i)) (phases ! i) fs)
      \<and> (\<forall>p. p \<notin> set (map job_tmp jobs) \<longrightarrow>
            (if done_for jobs phases p = {} then fs p = fs0 p
             else \<exists>i \<in> done_for jobs phases p. fs p = Some (job_data (jobs ! i)))))"

lemma cw_inv_start: "cw_inv jobs fs (cw_start jobs fs)"
  by (simp add: cw_inv_def cw_start_def done_for_def)

lemma done_for_update:
  "i < length phases \<Longrightarrow> length phases = length jobs \<Longrightarrow> phases ! i \<noteq> AwDone \<Longrightarrow>
    done_for jobs (phases[i := phase]) p
      = (if phase = AwDone \<and> job_path (jobs ! i) = p then insert i (done_for jobs phases p) else done_for jobs phases p)"
  by (auto simp: done_for_def nth_list_update)

lemma cw_inv_step:
  assumes "cw_step jobs st st'" and apart: "apart jobs" and "cw_inv jobs fs0 st"
  shows "cw_inv jobs fs0 st'"
  using assms(1)
proof cases
  case (one_call i phases fs phase fs')
  let ?j = "jobs ! i"
  have inv: "length phases = length jobs"
      "\<And>k. k < length jobs \<Longrightarrow> tmp_holds (job_tmp (jobs ! k)) (job_data (jobs ! k)) (phases ! k) fs"
      "\<And>p. p \<notin> set (map job_tmp jobs) \<Longrightarrow> if done_for jobs phases p = {} then fs p = fs0 p
             else \<exists>i \<in> done_for jobs phases p. fs p = Some (job_data (jobs ! i))"
    using assms(3) by (auto simp: cw_inv_def one_call(1))
  have own: "job_tmp ?j \<noteq> job_path ?j" by (rule apart_names [OF apart one_call(3) one_call(3)])
  have eff: "tmp_holds (job_tmp ?j) (job_data ?j) phase fs'" "phases ! i \<noteq> AwDone"
      "\<And>p. p \<noteq> job_tmp ?j \<Longrightarrow> p \<noteq> job_path ?j \<Longrightarrow> fs' p = fs p"
      "fs' (job_path ?j) = (if phase = AwDone then Some (job_data ?j) else fs (job_path ?j))"
    using aw_step_effect [OF one_call(5) inv(2) [OF one_call(3)] own] by auto
  have "tmp_holds (job_tmp (jobs ! k)) (job_data (jobs ! k)) (phases[i := phase] ! k) fs'" if k: "k < length jobs" for k
  proof (cases "k = i")
    case False
    have "job_tmp (jobs ! k) \<noteq> job_tmp ?j"
      using apart False k one_call(3) by (simp add: apart_def distinct_conv_nth)
    moreover have "job_tmp (jobs ! k) \<noteq> job_path ?j" by (rule apart_names [OF apart k one_call(3)])
    ultimately show ?thesis using tmp_holds_frame [OF inv(2) [OF k]] eff(3) False by simp
  qed (use eff(1) one_call(4) in simp)
  moreover have "if done_for jobs (phases[i := phase]) p = {} then fs' p = fs0 p
      else \<exists>k \<in> done_for jobs (phases[i := phase]) p. fs' p = Some (job_data (jobs ! k))"
    if p: "p \<notin> set (map job_tmp jobs)" for p
  proof -
    have "p \<noteq> job_tmp ?j" using p one_call(3) by auto
    note upd = done_for_update [OF one_call(4) inv(1) eff(2), of phase p]
    show ?thesis
    proof (cases "phase = AwDone \<and> job_path ?j = p")
      case True
      then show ?thesis using upd eff(4) by auto
    next
      case False
      then have "fs' p = fs p" using eff(3,4) \<open>p \<noteq> job_tmp ?j\<close> by (cases "job_path ?j = p") auto
      then show ?thesis using upd inv(3) [OF p] False by simp
    qed
  qed
  ultimately show ?thesis using inv(1) by (simp add: cw_inv_def one_call(2))
qed

lemma cw_inv_steps: "cw_steps jobs st st' \<Longrightarrow> apart jobs \<Longrightarrow> cw_inv jobs fs0 st \<Longrightarrow> cw_inv jobs fs0 st'"
  by (induction rule: rtranclp_induct) (auto intro: cw_inv_step)

section \<open>Random names\<close>

text \<open>A call of \<open>writeCacheAtomically\<close> as a writer.\<close>

definition cache_job :: "io_call \<times> fpath \<times> string \<Rightarrow> aw_job" where
  "cache_job call = (case call of (io, path, data) \<Rightarrow> \<lparr>job_path = path, job_tmp = tmpOf io path, job_data = data\<rparr>)"

lemma hex_digit_inject:
  assumes "d < 16" and "e < 16" and "hex_digit d = hex_digit e"
  shows "d = e"
proof -
  have "of_char (hex_digit d) = (of_char (hex_digit e) :: nat)" using assms(3) by simp
  then show ?thesis using assms(1,2) by (simp add: hex_digit_def split: if_splits)
qed

lemma digits_inject:
  "a < 16 ^ n \<Longrightarrow> b < 16 ^ n \<Longrightarrow> \<forall>j < n. a div 16 ^ j mod 16 = b div 16 ^ j mod 16 \<Longrightarrow> a = (b :: nat)"
proof (induction n arbitrary: a b)
  case (Suc n)
  have "a div 16 div 16 ^ j mod 16 = b div 16 div 16 ^ j mod 16" if "j < n" for j
    using Suc.prems(3) [rule_format, of "Suc j"] that by (simp add: div_mult2_eq)
  then have "a div 16 = b div 16" using Suc.prems(1,2) by (intro Suc.IH) auto
  moreover have "a mod 16 = b mod 16" using Suc.prems(3) [rule_format, of 0] by simp
  ultimately show ?case by (metis div_mult_mod_eq)
qed simp

lemma hexText_inject:
  assumes "hexText v = hexText w"
  shows "v = w"
proof -
  have eq: "hex_digit (unat v div 16 ^ (15 - i) mod 16) = hex_digit (unat w div 16 ^ (15 - i) mod 16)" if "i < 16" for i
    using arg_cong [OF assms, of "\<lambda>s. s ! i"] that by (simp add: hexText_def del: upt_rec_numeral)
  have "unat v div 16 ^ j mod 16 = unat w div 16 ^ j mod 16" if "j < 16" for j
    using eq [of "15 - j"] that by (intro hex_digit_inject) simp_all
  moreover have "unat v < 16 ^ 16" "unat w < 16 ^ 16" by (rule order_less_le_trans [OF unsigned_less]; simp)+
  ultimately have "unat v = unat w" using digits_inject [of "unat v" 16 "unat w"] by blast
  then show ?thesis by (simp add: word_unat_eq_iff)
qed

text \<open>
  Two names are the same only when the generators, each seeded with one draw of 32 bits, gave the same number;
  so a target has at most \<open>2 ^ 32\<close> temporary names, whatever the 64 bits of the suffix suggest.
\<close>

lemma tmp_inject: "tmpOf io path = tmpOf io' path' \<Longrightarrow> mtFirst (ucast (ic_random io)) = mtFirst (ucast (ic_random io'))"
proof -
  assume eq: "tmpOf io path = tmpOf io' path'"
  have "length (randomHexSuffix v) = length (randomHexSuffix w)" for v w by (simp add: randomHexSuffix_def hexText_def)
  then have "randomHexSuffix (ic_random io) = randomHexSuffix (ic_random io')"
    using arg_cong [OF eq, of last] by (simp add: tmpOf_def makeTmpPath_def flip: append_assoc)
  then show ?thesis unfolding randomHexSuffix_def by (rule hexText_inject)
qed

lemma tmp_names_bounded: "finite (range (\<lambda>io. tmpOf io path)) \<and> card (range (\<lambda>io. tmpOf io path)) \<le> 2 ^ 32"
proof -
  let ?f = "\<lambda>draw. makeTmpPath (cacheDir path) (last path) draw"
  have sub: "range (\<lambda>io. tmpOf io path) \<subseteq> range ?f" by (auto simp: tmpOf_def)
  have fin: "finite (range ?f)" by (rule finite_imageI) (rule finite)
  have "LENGTH(32) = 32" by simp
  then have draws: "CARD(32 word) = 2 ^ 32" by (simp only: card_word)
  have "card (range ?f) \<le> 2 ^ 32" unfolding draws [symmetric] by (rule card_image_le) (rule finite)
  then show ?thesis using order_trans [OF card_mono [OF fin sub]] finite_subset [OF sub fin] by blast
qed

text \<open>What the program writes into a cache: entries and the import beside them. No temporary name is one of them.\<close>

definition cache_target :: "fpath \<Rightarrow> bool" where
  "cache_target path \<longleftrightarrow> (\<exists>e release. path = cachePathFor e release) \<or> (\<exists>dir. path = path_append dir ''xml.xsd'')"

lemma tmp_not_target: "cache_target path \<Longrightarrow> tmpOf io p \<noteq> path"
proof -
  have "tmpOf io p \<noteq> path_append dir ''xml.xsd''" for dir
  proof
    assume "tmpOf io p = path_append dir ''xml.xsd''"
    then have "last p @ ''.tmp.'' @ randomHexSuffix (ic_random io) = ''xml.xsd''"
      by (metis last_append(1) makeTmpPath_def tmpOf_def)
    then have "length (last p @ ''.tmp.'' @ randomHexSuffix (ic_random io)) = length ''xml.xsd''" by (rule arg_cong)
    then show False by (simp add: randomHexSuffix_def hexText_def)
  qed
  then show "cache_target path \<Longrightarrow> tmpOf io p \<noteq> path" using tmp_not_entry by (auto simp: cache_target_def)
qed

lemma cache_jobs_apart:
  assumes "distinct (map (\<lambda>(io, path, _). tmpOf io path) calls)" and "\<forall>(_, path, _) \<in> set calls. cache_target path"
  shows "apart (map cache_job calls)"
proof -
  have "map job_tmp (map cache_job calls) = map (\<lambda>(io, path, _). tmpOf io path) calls"
    by (auto simp: cache_job_def)
  moreover have "set (map job_tmp (map cache_job calls)) \<inter> set (map job_path (map cache_job calls)) = {}"
  proof (rule equals0I)
    fix x
    assume x: "x \<in> set (map job_tmp (map cache_job calls)) \<inter> set (map job_path (map cache_job calls))"
    then obtain io p where "x = tmpOf io p" by (auto simp: cache_job_def)
    moreover have "cache_target x" using x assms(2) by (auto simp: cache_job_def)
    ultimately show False using tmp_not_target by blast
  qed
  ultimately show ?thesis using assms(1) by (simp only: apart_def)
qed

section \<open>A process that stops between two writes\<close>

text \<open>
  \<open>resolveSchema\<close> writes the entry and then the import beside it. A run that is killed in between leaves an
  entry without its import, and the next run takes it for a hit.
\<close>

lemma half_populated_entry_is_hit:
  assumes "aw_steps (cachePathFor (re_cache e) release) tmp bytes (AwStart, fs) (AwDone, seen)"
    and "tmp \<noteq> cachePathFor (re_cache e) release"
    and "sidecar \<notin> {cachePathFor (re_cache e) release, tmp}" and "fs sidecar = None"
  shows "seen sidecar = None \<and> choosePath e release seen
    = Inr (cachePathFor (re_cache e) release, cachePathFor (re_cache e) release, True, seen)"
  using aw_inv_steps [OF assms(1,2) aw_inv_start] assms(3,4)
  by (auto simp: aw_inv_def choosePath_def Let_def is_regular_file_def)

section \<open>Properties\<close>

text \<open>C14: however many processes write entries and imports of the schema cache at once, and wherever each of them
  stops, as long as no two of them drew the same temporary name, a cache file is never seen half written:
  it holds what it held before, if no write of it has been completed, and otherwise all of the data of one
  of the completed writes. The condition is not free: the names come from one draw of 32 bits each
  (\<open>tmp_names_bounded\<close>), and two writers that share one can leave an empty file (\<open>shared_tmp_tears\<close>).\<close>

theorem concurrent_writes_never_torn:
  assumes "distinct (map (\<lambda>(io, path, _). tmpOf io path) calls)"
    and "\<forall>(_, path, _) \<in> set calls. cache_target path" and "cache_target p"
    and "cw_steps (map cache_job calls) (cw_start (map cache_job calls) fs0) (phases, fs)"
  shows "if done_for (map cache_job calls) phases p = {} then fs p = fs0 p
    else \<exists>i \<in> done_for (map cache_job calls) phases p. fs p = Some (snd (snd (calls ! i)))"
proof -
  have "p \<notin> set (map job_tmp (map cache_job calls))"
    using tmp_not_target [OF assms(3)] by (fastforce simp: cache_job_def)
  then have "if done_for (map cache_job calls) phases p = {} then fs p = fs0 p
      else \<exists>i \<in> done_for (map cache_job calls) phases p. fs p = Some (job_data (map cache_job calls ! i))"
    using cw_inv_steps [OF assms(4) cache_jobs_apart [OF assms(1,2)] cw_inv_start] by (simp add: cw_inv_def)
  moreover have "job_data (map cache_job calls ! i) = snd (snd (calls ! i))" if "i \<in> done_for (map cache_job calls) phases p" for i
    using that by (simp add: done_for_def cache_job_def split: prod.splits)
  ultimately show ?thesis by (auto split: if_splits)
qed

definition two_writers :: "fpath \<Rightarrow> fpath \<Rightarrow> aw_job list" where
  "two_writers tmp1 tmp2 = [\<lparr>job_path = [''xml.xsd''], job_tmp = tmp1, job_data = ''xy''\<rparr>,
     \<lparr>job_path = [''xml.xsd''], job_tmp = tmp2, job_data = ''z''\<rparr>]"

text \<open>The second writer opens its file after the first has synced; then the first renames.\<close>

definition renamed_disk :: "fpath \<Rightarrow> fpath \<Rightarrow> disk" where
  "renamed_disk tmp1 tmp2 = (let fs = (\<lambda>_. None)(tmp1 := Some ''xy'', tmp2 := Some [])
     in fs([''xml.xsd''] := fs tmp1, tmp1 := None))"

lemma two_writers_run:
  "cw_steps (two_writers tmp1 tmp2) (cw_start (two_writers tmp1 tmp2) (\<lambda>_. None))
    ([AwDone, AwWriting 0], renamed_disk tmp1 tmp2)"
proof -
  let ?j = "two_writers tmp1 tmp2" and ?n = "\<lambda>_ :: fpath. None :: string option"
  let ?a = "?n(tmp1 := Some [])" and ?b = "?n(tmp1 := Some ''xy'')"
  note step = one_call [where jobs = ?j]
  have s1: "cw_step ?j ([AwStart, AwStart], ?n) ([AwWriting 0, AwStart], ?a)"
    using step [of 0 "[AwStart, AwStart]" ?n "AwWriting 0" ?a] open_tmp by (simp add: two_writers_def)
  have s2: "cw_step ?j ([AwWriting 0, AwStart], ?a) ([AwWriting (Suc (Suc 0)), AwStart], ?b)"
    using step [of 0 "[AwWriting 0, AwStart]" ?a "AwWriting (Suc (Suc 0))" ?b]
      write_some [of 0 "''xy''" "Suc (Suc 0)" "[''xml.xsd'']" tmp1 ?a] by (simp add: two_writers_def)
  have s3: "cw_step ?j ([AwWriting (Suc (Suc 0)), AwStart], ?b) ([AwWritten, AwStart], ?b)"
    using step [of 0 "[AwWriting (Suc (Suc 0)), AwStart]" ?b AwWritten ?b] write_full [of "[''xml.xsd'']" tmp1 "''xy''" ?b]
    by (simp add: two_writers_def)
  have s4: "cw_step ?j ([AwWritten, AwStart], ?b) ([AwSynced, AwStart], ?b)"
    using step [of 0 "[AwWritten, AwStart]" ?b AwSynced ?b] sync_tmp by (simp add: two_writers_def)
  have s5: "cw_step ?j ([AwSynced, AwStart], ?b) ([AwSynced, AwWriting 0], ?b(tmp2 := Some []))"
    using step [of 1 "[AwSynced, AwStart]" ?b "AwWriting 0" "?b(tmp2 := Some [])"] open_tmp
    by (simp add: two_writers_def)
  have s6: "cw_step ?j ([AwSynced, AwWriting 0], ?b(tmp2 := Some [])) ([AwDone, AwWriting 0], renamed_disk tmp1 tmp2)"
    using step [of 0 "[AwSynced, AwWriting 0]" "?b(tmp2 := Some [])" AwDone]
      rename_tmp [of "[''xml.xsd'']" tmp1 "''xy''" "?b(tmp2 := Some [])"]
    by (simp add: two_writers_def renamed_disk_def Let_def)
  have "cw_start ?j ?n = ([AwStart, AwStart], ?n)" by (simp add: cw_start_def two_writers_def numeral_2_eq_2)
  moreover note to = rtranclp.rtrancl_into_rtrancl [where r = "cw_step ?j"]
  have "cw_steps ?j ([AwStart, AwStart], ?n) ([AwDone, AwWriting 0], renamed_disk tmp1 tmp2)"
    by (rule to [OF to [OF to [OF to [OF to [OF r_into_rtranclp [where r = "cw_step ?j", OF s1] s2] s3] s4] s5] s6])
  ultimately show ?thesis by simp
qed

theorem concurrent_writes_never_torn_witness:
  "\<exists>i \<in> {0, 1}. renamed_disk (tmpOf quiet_call [''xml.xsd'']) (tmpOf (quiet_call\<lparr>ic_random := 1\<rparr>) [''xml.xsd'']) [''xml.xsd'']
    = Some (snd (snd ([(quiet_call, [''xml.xsd''], ''xy''), (quiet_call\<lparr>ic_random := 1\<rparr>, [''xml.xsd''], ''z'')] ! i)))"
proof -
  let ?io = "quiet_call\<lparr>ic_random := 1\<rparr>"
  let ?calls = "[(quiet_call, [''xml.xsd''], ''xy''), (?io, [''xml.xsd''], ''z'')]"
  have jobs: "map cache_job ?calls = two_writers (tmpOf quiet_call [''xml.xsd'']) (tmpOf ?io [''xml.xsd''])"
    by (simp add: cache_job_def two_writers_def)
  have d: "done_for (map cache_job ?calls) [AwDone, AwWriting 0] [''xml.xsd''] = {0}"
    unfolding jobs by (auto simp: done_for_def two_writers_def less_Suc_eq)
  have target: "cache_target [''xml.xsd'']"
    unfolding cache_target_def by (intro disjI2 exI [of _ "[]"]) (simp add: path_append_def)
  have "distinct (map (\<lambda>(io, path, _). tmpOf io path) ?calls)"
    using tmp_inject [of quiet_call "[''xml.xsd'']" ?io "[''xml.xsd'']"] mtFirst_differs by (auto simp: quiet_call_def)
  moreover have "\<forall>(_, path, _) \<in> set ?calls. cache_target path" using target by simp
  ultimately show ?thesis
    using concurrent_writes_never_torn [of ?calls, unfolded jobs, OF _ _ target two_writers_run] d [unfolded jobs]
    by auto
qed

text \<open>
  The names must be apart: the temporary file is opened without \<open>O_EXCL\<close>, so a writer that drew the same
  suffix truncates the other's file, and the rename puts the empty file in place.
\<close>

lemma shared_tmp_tears:
  assumes "tmp \<noteq> [''xml.xsd'']"
  shows "\<exists>fs. cw_steps (two_writers tmp tmp) (cw_start (two_writers tmp tmp) (\<lambda>_. None)) ([AwDone, AwWriting 0], fs)
    \<and> fs [''xml.xsd''] = Some []"
  by (rule exI [of _ "renamed_disk tmp tmp"], rule conjI [OF two_writers_run]) (simp add: renamed_disk_def assms)

end
