(* ===== verification/FuzzHarness.thy ===== *)
theory FuzzHarness
  imports McpServer
begin

text \<open>
  The fuzz entries that contain logic of their own: the frame splitter and depth check of
  \<open>fuzz/mcp_stdio_frame_fuzz.cpp\<close>, which is meant to mirror the live read loop, and the argument splitter of
  \<open>fuzz/cli_argv_fuzz.cpp\<close>. The harness's depth check agrees with the server's on lines without a backslash
  and on no others.
\<close>

section \<open>The harness of the server\<close>

text \<open>The loop over the characters: the character before, the depth, and whether it is in a string.\<close>

fun fuzz_scan :: "char option \<Rightarrow> nat \<Rightarrow> bool \<Rightarrow> string \<Rightarrow> bool" where
  "fuzz_scan prev depth inString [] = False"
| "fuzz_scan prev depth inString (c # line) =
    (let inside = (if c = CHR 0x22 \<and> prev \<noteq> Some (CHR 0x5C) then \<not> inString else inString) in
     if inside then fuzz_scan (Some c) depth inside line
     else if c = CHR ''{'' \<or> c = CHR ''[''
     then if depth + 1 > 500 then True else fuzz_scan (Some c) (depth + 1) inside line
     else if c = CHR ''}'' \<or> c = CHR '']''
     then fuzz_scan (Some c) (if depth > 0 then depth - 1 else depth) inside line
     else fuzz_scan (Some c) depth inside line)"

definition fuzzTooDeep :: "string \<Rightarrow> bool" where
  "fuzzTooDeep line = fuzz_scan None 0 False line"

text \<open>\<open>handleFrame\<close> returns true on every path; the path it takes is what there is to know.\<close>

datatype frame_fate = FrameEmpty | FrameOversized | FrameTooDeep | FrameNotJson | FrameNotObject | FrameNoVersion
  | FrameHandled

definition frameFate :: "json_lib \<Rightarrow> string \<Rightarrow> frame_fate" where
  "frameFate lib line =
    (if line = [] then FrameEmpty
     else if length line > 1048576 then FrameOversized
     else if fuzzTooDeep line then FrameTooDeep
     else case lib_parse lib line of
            Inl _ \<Rightarrow> FrameNotJson
          | Inr message \<Rightarrow>
              (if \<not> is_object message then FrameNotObject
               else case jfind ''jsonrpc'' message of
                      Some (JString _) \<Rightarrow> FrameHandled
                    | _ \<Rightarrow> FrameNoVersion))"

definition fuzz_newline :: char where
  "fuzz_newline = CHR 0x0A"

function splitFrames :: "string \<Rightarrow> string list" where
  "splitFrames buffer =
    (case dropWhile (\<lambda>c. c \<noteq> fuzz_newline) buffer of
       [] \<Rightarrow> [buffer]
     | _ # rest \<Rightarrow> takeWhile (\<lambda>c. c \<noteq> fuzz_newline) buffer # splitFrames rest)"
  by pat_completeness auto
termination
proof (relation "measure length", simp)
  fix buffer :: string and c rest
  assume "dropWhile (\<lambda>c. c \<noteq> fuzz_newline) buffer = c # rest"
  then have "length (c # rest) \<le> length buffer" by (metis length_dropWhile_le)
  then show "(rest, buffer) \<in> measure length" by simp
qed

declare splitFrames.simps [simp del]

definition frameFuzzer :: "json_lib \<Rightarrow> string option \<Rightarrow> frame_fate list" where
  "frameFuzzer lib input =
    (case input of
       None \<Rightarrow> []
     | Some buffer \<Rightarrow>
        (if buffer = [] \<or> length buffer > 1048576 then [] else map (frameFate lib) (splitFrames buffer)))"

section \<open>The harness of the command line\<close>

fun splitArgv :: "string \<Rightarrow> nat \<Rightarrow> string \<Rightarrow> string list" where
  "splitArgv current splits [] = (if current \<noteq> [] \<and> splits < 32 then [current] else [])"
| "splitArgv current splits (c # input) =
    (if splits < 32
     then if c = CHR 0x00 then current # splitArgv [] (splits + 1) input
          else splitArgv (current @ [c]) splits input
     else if current \<noteq> [] \<and> splits < 32 then [current] else [])"

definition argvFuzzer :: "string option \<Rightarrow> string list option" where
  "argvFuzzer input =
    (case input of
       None \<Rightarrow> None
     | Some bytes \<Rightarrow> (if bytes = [] \<or> length bytes > 8192 then None else Some (splitArgv [] 0 bytes)))"

section \<open>What they do\<close>

lemma split_frames_join: "join_with [fuzz_newline] (splitFrames buffer) = buffer"
proof (induction buffer rule: splitFrames.induct)
  case (1 buffer)
  show ?case
  proof (cases "dropWhile (\<lambda>c. c \<noteq> fuzz_newline) buffer")
    case Nil
    then have "splitFrames buffer = [buffer]" by (subst splitFrames.simps) (simp only: list.case)
    then show ?thesis by simp
  next
    case (Cons c rest)
    have c: "c = fuzz_newline" using hd_dropWhile [of "\<lambda>c. c \<noteq> fuzz_newline" buffer] Cons by auto
    have "splitFrames rest \<noteq> []" by (subst splitFrames.simps) (simp split: list.splits)
    then have "join_with [fuzz_newline] (x # splitFrames rest) = x @ fuzz_newline # join_with [fuzz_newline] (splitFrames rest)" for x
      by (cases "splitFrames rest") simp_all
    moreover have "splitFrames buffer = takeWhile (\<lambda>c. c \<noteq> fuzz_newline) buffer # splitFrames rest"
      by (subst splitFrames.simps) (simp only: Cons list.case)
    ultimately have "join_with [fuzz_newline] (splitFrames buffer)
        = takeWhile (\<lambda>c. c \<noteq> fuzz_newline) buffer @ fuzz_newline # join_with [fuzz_newline] (splitFrames rest)"
      by (simp only:)
    also have "\<dots> = takeWhile (\<lambda>c. c \<noteq> fuzz_newline) buffer @ dropWhile (\<lambda>c. c \<noteq> fuzz_newline) buffer"
      using 1 [OF Cons] by (simp add: Cons c)
    finally show ?thesis by simp
  qed
qed

lemma split_frames_lines: "\<forall>line \<in> set (splitFrames buffer). fuzz_newline \<notin> set line"
proof (induction buffer rule: splitFrames.induct)
  case (1 buffer)
  show ?case
  proof (cases "dropWhile (\<lambda>c. c \<noteq> fuzz_newline) buffer")
    case Nil
    then have "splitFrames buffer = [buffer]" by (subst splitFrames.simps) (simp only: list.case)
    then show ?thesis using Nil by (auto simp: dropWhile_eq_Nil_conv)
  next
    case (Cons c rest)
    then show ?thesis using 1 [OF Cons] by (subst splitFrames.simps) (auto dest: set_takeWhileD)
  qed
qed

lemma split_argv_bounds:
  "splits \<le> 32 \<Longrightarrow> CHR 0x00 \<notin> set current \<Longrightarrow>
    length (splitArgv current splits input) + splits \<le> 32 \<and> (\<forall>arg \<in> set (splitArgv current splits input). CHR 0x00 \<notin> set arg)"
proof (induction current splits input rule: splitArgv.induct)
  case (2 current splits c input)
  consider "\<not> splits < 32" | "splits < 32" "c = CHR 0x00" | "splits < 32" "c \<noteq> CHR 0x00" by blast
  then show ?case
  proof cases
    case 2
    then have "splits + 1 \<le> 32" by simp
    from "2.IH"(1) [OF 2 this] have "length (splitArgv [] (splits + 1) input) + (splits + 1) \<le> 32
        \<and> (\<forall>arg \<in> set (splitArgv [] (splits + 1) input). CHR 0x00 \<notin> set arg)" by simp
    then show ?thesis using 2 "2.prems"(2) by simp
  next
    case 3
    then have "CHR 0x00 \<notin> set (current @ [c])" using "2.prems"(2) by simp
    from "2.IH"(2) [OF 3 "2.prems"(1) this] show ?thesis using 3 by simp
  qed (use "2.prems" in simp)
qed simp

lemma fuzz_scan_plain:
  "CHR 0x5C \<notin> set line \<Longrightarrow> prev \<noteq> Some (CHR 0x5C) \<Longrightarrow> fuzz_scan prev depth inString line = depth_scan 500 depth inString False line"
proof (induction line arbitrary: prev depth inString)
  case (Cons c line)
  have c: "c \<noteq> CHR 0x5C" "CHR 0x5C \<notin> set line" using Cons.prems(1) by auto
  have IH: "x \<noteq> CHR 0x5C \<Longrightarrow> fuzz_scan (Some x) d i line = depth_scan 500 d i False line" for x d i
    using Cons.IH [OF c(2)] by simp
  show ?case
    using Cons.prems(2) c(1) by (cases inString; cases "c = CHR 0x22") (simp_all add: IH Let_def)
qed simp

text \<open>
  The harness bounds the same nesting as the server, at 500 instead of 128, as long as no string of the
  line holds a backslash.
\<close>

lemma harness_depth_plain: "CHR 0x5C \<notin> set line \<Longrightarrow> fuzzTooDeep line = exceedsMaxDepth line 500"
  by (simp add: fuzzTooDeep_def exceedsMaxDepth_def fuzz_scan_plain)

lemma fuzz_scan_inside: "fuzz_scan (Some (CHR ''['')) depth True (replicate n (CHR ''['')) = False"
  by (induction n arbitrary: depth) simp_all

lemma depth_scan_run: "m < depth + n \<Longrightarrow> depth \<le> m \<Longrightarrow> depth_scan m depth False False (replicate n (CHR ''['')) = True"
  by (induction n arbitrary: depth) auto

text \<open>
  After a string that ends in an escaped backslash the harness believes itself in the string for ever: it
  lets any nesting through to the parser, where the server's guard stops at its bound.
\<close>

lemma harness_misses_depth:
  "\<not> fuzzTooDeep ([CHR 0x22, CHR 0x5C, CHR 0x5C, CHR 0x22] @ replicate n (CHR ''['')) \<and>
   (500 < n \<longrightarrow> exceedsMaxDepth ([CHR 0x22, CHR 0x5C, CHR 0x5C, CHR 0x22] @ replicate n (CHR ''['')) 500)"
proof
  show "\<not> fuzzTooDeep ([CHR 0x22, CHR 0x5C, CHR 0x5C, CHR 0x22] @ replicate n (CHR ''[''))"
    using fuzz_scan_inside [of 0 "n - 1"] by (cases n) (simp_all add: fuzzTooDeep_def)
  show "500 < n \<longrightarrow> exceedsMaxDepth ([CHR 0x22, CHR 0x5C, CHR 0x5C, CHR 0x22] @ replicate n (CHR ''['')) 500"
    using depth_scan_run [of 500 0 n] by (simp add: exceedsMaxDepth_def)
qed

text \<open>Between the two bounds the live loop answers with an error and the harness goes on to parse.\<close>

lemma harness_bound_differs:
  "exceedsMaxDepth (replicate 129 (CHR ''['')) kMaxJsonDepth \<and> \<not> fuzzTooDeep (replicate 129 (CHR ''[''))"
proof
  show "exceedsMaxDepth (replicate 129 (CHR ''['')) kMaxJsonDepth"
    using depth_scan_run [of kMaxJsonDepth 0 129] by (simp add: exceedsMaxDepth_def kMaxJsonDepth_def)
  have "depth_scan 500 d False False (replicate n (CHR ''['')) = False" if "d + n \<le> 500" for d n
    using that by (induction n arbitrary: d) auto
  from this [of 0 129] show "\<not> fuzzTooDeep (replicate 129 (CHR ''[''))"
    by (subst harness_depth_plain) (simp_all add: exceedsMaxDepth_def)
qed

end
