(* ===== verification/FuzzParser.thy ===== *)
theory FuzzParser
  imports ProjectDiscovery SchemaCache
begin

text \<open>
  The fuzz entries of the parser: \<open>fuzz/fuzz_parser.cpp\<close>, which hands its input over in a temporary file, and
  \<open>fuzz/parser_fuzz_target.cpp\<close>, which hands it to \<open>parseBytes\<close>. How the system calls turn out is given; what
  leaves the entry as an exception is \<open>Some\<close>, which the fuzzer takes for a crash.
\<close>

section \<open>The temporary file\<close>

text \<open>
  \<open>temp_directory_path\<close> or its exception, the six characters \<open>mkstemp\<close> picks or its failure, the results of
  the calls of \<open>write\<close> before one that takes all that is left, and whether the file can be removed.
\<close>

record temp_call =
  tc_dir :: "string + fpath"
  tc_suffix :: "string option"
  tc_writes :: "write_call list"
  tc_removes :: bool

text \<open>The loop, which returns how much of the data is in the file: any call that takes nothing ends it.\<close>

fun writeChunks :: "write_call list \<Rightarrow> nat \<Rightarrow> nat \<Rightarrow> nat" where
  "writeChunks [] n written = max n written"
| "writeChunks (call # rest) n written =
    (if written < n
     then (case call of
             Wrote k \<Rightarrow> (if k = 0 then written else writeChunks rest n (written + min k (n - written)))
           | _ \<Rightarrow> written)
     else written)"

definition writeTempInput :: "temp_call \<Rightarrow> string \<Rightarrow> disk \<Rightarrow> string + (fpath \<times> disk)" where
  "writeTempInput io bytes fs =
    (case tc_dir io of
       Inl err \<Rightarrow> Inl err
     | Inr dir \<Rightarrow>
        (case tc_suffix io of
           None \<Rightarrow> Inr ([], fs)
         | Some suffix \<Rightarrow>
            (let pattern = path_append dir (''parsex_fuzz_'' @ suffix)
             in Inr (pattern, fs(pattern := Some (take (writeChunks (tc_writes io) (length bytes) 0) bytes))))))"

section \<open>The entries\<close>

text \<open>What the parser makes of the files is the environment the disk gives it; every exception is caught.\<close>

definition fuzzParser :: "(disk \<Rightarrow> env) \<Rightarrow> temp_call \<Rightarrow> string \<Rightarrow> disk \<Rightarrow>
    string option \<times> (parse_exn + parsed_file) option \<times> disk" where
  "fuzzParser sees io bytes fs =
    (if bytes = [] \<or> length bytes > 262144 then (None, None, fs)
     else case writeTempInput io bytes fs of
       Inl err \<Rightarrow> (Some err, None, fs)
     | Inr (input, fs') \<Rightarrow>
        (if input = [] then (None, None, fs')
         else (None, Some (parseFile (sees fs') input), if tc_removes io then fs'(input := None) else fs')))"

definition fuzzParserTarget :: "env \<Rightarrow> string option \<Rightarrow> (parse_exn + parsed_file) option" where
  "fuzzParserTarget e input =
    (case input of
       None \<Rightarrow> None
     | Some bytes \<Rightarrow> (if bytes = [] \<or> length bytes > 262144 then None else Some (parseBytes e bytes)))"

section \<open>What they do\<close>

lemma writeChunks_bound: "written \<le> n \<Longrightarrow> writeChunks calls n written \<le> n"
  by (induction calls n written rule: writeChunks.induct) (auto split: write_call.splits)

text \<open>Only a call that takes nothing keeps bytes from the file.\<close>

lemma writeChunks_complete:
  "written \<le> n \<Longrightarrow> \<forall>call \<in> set calls. \<exists>k. call = Wrote k \<and> 0 < k \<Longrightarrow> writeChunks calls n written = n"
  by (induction calls n written rule: writeChunks.induct) auto

text \<open>The cache's loop goes on after an interrupted call; this one stops and the parser gets a prefix.\<close>

lemma interrupted_input_is_cut:
  "writeChunks [Wrote 3, Interrupted] 10 0 = 3 \<and> portableWriteFull [Wrote 3, Interrupted] 10 0 = (True, 10)"
  by simp

text \<open>A file that was not there before is gone after the run, whatever the parser made of it, and no other changes.\<close>

lemma fuzz_leaves_no_file:
  assumes "tc_removes io"
    and "\<And>dir suffix. tc_dir io = Inr dir \<Longrightarrow> tc_suffix io = Some suffix \<Longrightarrow> fs (path_append dir (''parsex_fuzz_'' @ suffix)) = None"
  shows "snd (snd (fuzzParser sees io bytes fs)) = fs"
  using assms by (auto simp: fuzzParser_def writeTempInput_def Let_def fun_eq_iff split: sum.splits option.splits)

text \<open>The parser sees the whole input under the temporary name when no call fails.\<close>

lemma fuzz_parses_input:
  assumes "bytes \<noteq> []" "length bytes \<le> 262144" "tc_dir io = Inr dir" "tc_suffix io = Some suffix"
    and "\<forall>call \<in> set (tc_writes io). \<exists>k. call = Wrote k \<and> 0 < k"
  defines "input \<equiv> path_append dir (''parsex_fuzz_'' @ suffix)"
  shows "fst (snd (fuzzParser sees io bytes fs)) = Some (parseFile (sees (fs(input := Some bytes))) input)"
  using assms writeChunks_complete [of 0 "length bytes" "tc_writes io"]
  by (auto simp: fuzzParser_def writeTempInput_def Let_def path_append_def)

text \<open>The directory is asked for outside the handler: its exception ends the run.\<close>

lemma temp_dir_escapes:
  "bytes \<noteq> [] \<Longrightarrow> length bytes \<le> 262144 \<Longrightarrow> tc_dir io = Inl err \<Longrightarrow> fst (fuzzParser sees io bytes fs) = Some err"
  by (simp add: fuzzParser_def writeTempInput_def)

end
