(* ===== verification/Spec2Isabelle.thy ===== *)
theory Spec2Isabelle
  imports RoundTripDiff ValidatorSchema ExportTheorems LoaderSafety PointerLoader SecureReader Contract CacheConcurrent
    DoubleText FuzzHarness FuzzParser
begin

text \<open>
  A model of ParseX, a C++ library with a command line and an MCP server that parses AUTOSAR ARXML
  descriptions of CAN networks, validates them, compares them, writes them back and exports them as
  DBC or CSV. Every definition below is a translation of a function of \<open>src/\<close>, under the source's name
  where HOL leaves it free; the theorems marked \<open>C\<close> and a number are the properties the development
  stands for, each preceded by its meaning in words.

  \<^bold>\<open>How the program is put together.\<close> The loader turns the bytes of a file into a raw tree in which
  every element knows its byte range and line; the release detector reads the schema location of the
  root; the model builder projects single elements onto the domain types; the parser facade builds
  files and whole projects from them and resolves the references between files. On a parsed project
  work the four validators, the diff engine, the writer and the exporters. The schema registry finds
  and caches the XML schema of a release for the validator. Reports leave the program as JSON in one
  envelope. Two front ends drive the engines: the command line and a JSON-RPC server on standard
  input and output. The telemetry collects spans of what ran.

  \<^bold>\<open>Theories and code.\<close>

  \<^item> \<open>Prelude\<close>, \<open>StdMap\<close>, \<open>CxxNum\<close>, \<open>Binary64\<close>, \<open>FsPath\<close>: what the sources use of C++: scalars as words,
    the string helpers, \<open>std::map\<close> and \<open>std::set\<close> as sorted lists behind the locales \<open>std_map\<close>,
    \<open>std_map_grouping\<close> and \<open>std_set\<close>, writers with their readers behind \<open>codec\<close> (for JSON \<open>json_codec\<close>), integer parsing and printing with their overflow, \<open>double\<close> as
    rounded rationals, \<open>std::filesystem::path\<close> as its list of elements.
  \<^item> \<open>Rounding\<close>, \<open>DoubleText\<close>: the rounding of \<open>Binary64\<close> over the reals, and why seventeen digits, or the
    fewest that \<open>std::to_chars\<close> picks, are read back as the same \<open>double\<close>.
  \<^item> \<open>RawTree\<close>, \<open>DomainModel\<close>, \<open>ParseErrors\<close>: the data of \<open>raw/*.hpp\<close>, \<open>model/*.hpp\<close>, \<open>parser/parse_error.hpp\<close>.
  \<^item> \<open>RawScanner\<close>, \<open>Loader\<close> (\<open>loader.cpp\<close>): encoding sniff, raw-byte scanner, SAX callbacks over an explicit
    state; \<open>LoaderSpans\<close>, \<open>LoaderRun\<close>, \<open>LoaderSafety\<close> relate them to a grammar of documents.
  \<^item> \<open>NodeHeap\<close>, \<open>PointerLoader\<close> (\<open>raw_node.hpp\<close>, \<open>raw_document.hpp\<close>, the callbacks of \<open>loader.cpp\<close>): the same tree as
    objects at addresses with parent pointers, their moves and relinking; the loader on pointers refines
    the one on trees. \<open>SecureReader\<close> (\<open>secure_reader.cpp\<close>): the options of a hardened reader.
  \<^item> \<open>ReleaseDetector\<close>, \<open>ModelBuilder\<close>, \<open>ProjectParser\<close>, \<open>ProjectDiscovery\<close> (\<open>release_detector.cpp\<close>,
    \<open>model_builder.cpp\<close>, \<open>parser.cpp\<close>): building objects with their warnings, wanted and known names,
    the textual pre-filter, the three discovery modes, cross-file resolution and its error.
  \<^item> \<open>ValidationResult\<close>, \<open>ValidatorCan\<close>, \<open>ValidatorReferences\<close>, \<open>ValidatorSchema\<close> (\<open>validator/\<close>).
  \<^item> \<open>DiffReport\<close>, \<open>DiffFields\<close>, \<open>DiffEngine\<close>, \<open>DiffTheorems\<close>, \<open>DiffExact\<close> (\<open>diff/\<close>).
  \<^item> \<open>WriteContext\<close>, \<open>WriteElements\<close>, \<open>WriteEngine\<close> (\<open>write/\<close>); \<open>WriteReading\<close> and \<open>WriteRoundTrip\<close> compose the
    writer with the parser, \<open>RoundTripDiff\<close> both with the diff, through the locale \<open>written_family\<close>.
  \<^item> \<open>ExportDb\<close>, \<open>ExportTheorems\<close>, \<open>ShortestDouble\<close>, \<open>CsvWriter\<close>, \<open>DbcWriter\<close> (\<open>export/\<close>).
  \<^item> \<open>SchemaCache\<close> (\<open>schema_registry.cpp\<close>, \<open>cache_layout.cpp\<close>, \<open>atomic_write.cpp\<close>); \<open>CacheCrash\<close> is the atomic write
    as a step relation, one step per system call, for what a crash leaves behind, and \<open>CacheConcurrent\<close> the
    interleaving of any number of such writes.
  \<^item> \<open>Json\<close>, \<open>JsonReports\<close> (\<open>json_contract/envelope.cpp\<close> and the \<open>toJson\<close> and \<open>fromJson\<close> of the reports);
    \<open>Contract\<close> holds the shapes of \<open>schemas/*.schema.json\<close> and \<open>json_contract/schema_validate.cpp\<close>.
  \<^item> \<open>Telemetry\<close> (\<open>telemetry/\<close>).
  \<^item> \<open>McpProtocol\<close>, \<open>McpServer\<close>, \<open>McpTools\<close> (\<open>parsex-mcp/\<close>); \<open>Cli\<close>, \<open>CliTheorems\<close> (\<open>parsex-cli/\<close>);
    \<open>FuzzHarness\<close>, \<open>FuzzParser\<close> (\<open>fuzz/\<close>).

  \<^bold>\<open>State and operations.\<close> A C++ struct is a record with the source's fields (prefixed where two
  structs share a name), an enum a datatype, an exception a value of a sum type, an output parameter
  part of the result. The loader's state is \<open>loader_state\<close> with the stack of open elements in place of
  pointers into the tree, and \<open>heap_loader\<close> with the pointers and the heap they point into; the server's is \<open>server_world\<close>, the ARXML documents
  and the disk with the schema cache, beside its tool registry; the command
  line's is \<open>cli_world\<close>; the telemetry's is \<open>telemetry\<close>. Loops are structural recursions, folds, or
  functions with a measure; the loop of the lazy discovery carries the source's own cap of 50 rounds as
  fuel, and a theorem of \<open>ProjectDiscovery\<close> shows when it is enough. The calls of \<open>write\<close> are a list of their
  outcomes that ends in one that takes the rest, so the retry loop ends. Nesting of JSON is cut at 128
  by the source. Offsets of the scanner are natural numbers: every position is compared with the size of
  the buffer before it is used.

  \<^bold>\<open>What the lemmas show.\<close> The loader recovers exactly the tree and the byte ranges of every document
  of the grammar in each encoding, and for any events that close what they open it records only ranges that read
  as tags; its pointers never dangle, and after the moves of a
  document every parent pointer is at the owner. The builder
  reads integers back exactly, and doubles from every text the program writes them with; files hold the objects of their elements in document order; resolution
  succeeds exactly when nothing is wanted, and its error names what is missing. The validators are
  silent exactly on the declarative conditions. The diff is empty exactly on projects whose first
  elements of each name have the same contents (for texts that do not imitate printed values), its moves account for every path, and its order does not depend on the sort. Writing and parsing are inverse on
  what the writer keeps of names and texts without an ampersand, a failed write leaves the target alone, and a written file compares as equal to its
  project exactly when no first object of a name has anything the writer drops. The export is a declarative join;
  the CSV and the DBC signal lines can be read back. The cache holds whole files only, at any instant of any number of concurrent writes that drew different
  temporary names. Every report has the shape its schema file publishes, those of failed validations included.
  The server answers every request once, as far as the JSON library can print the answer, writes documents only
  on \<open>apply\<close> and the cache only to validate; the command line fails cleanly, but for a trace that cannot be
  printed, changes only the files it is meant to, and agrees with the server.

  \<^bold>\<open>Parameters.\<close> Code outside \<open>src/\<close> is an argument: libxml2's parser (its events, its errors, its
  verdict), its schema compiler and validator, and what \<open>xmlNewChild\<close> makes of a text; the JSON library's
  \<open>parse\<close>, \<open>dump\<close> and schema validation; CLI11's parser of the command line; the file system and the outcome
  of its calls; the clock; the draws of \<open>std::random_device\<close>, from which \<open>std::mt19937_64\<close> is computed as the
  standard defines it. The printer of JSON may throw, as it does on text that is not UTF-8, and no property
  assumes that it does not. Hypotheses about them are named in the statements and shown satisfiable by
  witnesses.

  \<^bold>\<open>Not modelled.\<close> The handles of libxml2 objects, which only free memory; failing allocations; threads (the program starts none); locales other than C; file systems
  without POSIX paths. The ARXML documents and the other files (schema sources, schema cache, exported texts) are
  two stores, so no document is written into the cache or exported over. The server and the command line read the files of a project from one store in which
  a file is the tree that was saved to it; libxml2's serialiser and the parser's view of its output are
  related by the parameter that maps such a store to what the parser sees.
\<close>

section \<open>Numbers across the components\<close>

text \<open>C16: the text a double is written with is read back as the identical double: what the writer prints
  with seventeen digits, and what the CSV and DBC exports print with the fewest. The one exception
  are the values below the least normal number, which \<open>parseDouble\<close> refuses.\<close>

theorem double_text_roundtrip:
  assumes "is_double v"
  shows "parseDouble (doubleToString v) = (if subnormal v then None else Some v)
    \<and> parseDouble (formatNumber v) = (if subnormal v then None else Some v)
    \<and> parseDouble (num v) = (if subnormal v then None else Some v)"
  using g17_roundtrip [OF assms] to_chars_roundtrip [OF assms]
  by (simp add: doubleToString_def formatNumber_def num_def)

theorem double_text_roundtrip_witness:
  "parseDouble (doubleToString (Fin False 7205759403792794 (-56))) = Some (Fin False 7205759403792794 (-56))
    \<and> doubleToString (Fin False 7205759403792794 (-56)) = ''0.10000000000000001''
    \<and> parseDouble (formatNumber (Fin True 1 (-1074))) = None"
proof -
  have "char_of (48 :: nat) = CHR ''0''" "char_of (49 :: nat) = CHR ''1''" by code_simp+
  then have "doubleToString (Fin False 7205759403792794 (-56)) = ''0.10000000000000001''"
    by (simp add: doubleToString_def fmt_g17_pos_def dec17_def dec_exponent_def div_rne_def with_fraction_def
        strip_zeros_def nat_to_string.simps digit_char_def Let_def)
  then show ?thesis
    using double_text_roundtrip [of "Fin False 7205759403792794 (-56)"] double_text_roundtrip [of "Fin True 1 (-1074)"]
    by (simp add: canonical_def)
qed

end
